(* ===== verification/Ptp_Prelude.thy ===== *)
theory Ptp_Prelude
  imports Complex_Main "HOL-Library.Word" "HOL-Library.List_Lexorder" "HOL-Library.Monad_Syntax"
begin

unbundle bit_operations_syntax

section \<open>Prelude: machine integers, byte buffers, comparisons\<close>

text \<open>
  What every component of the development shares: names for Rust's integer types, the
  standard-library operations on them that the sources call (\<open>saturating_add\<close>,
  \<open>checked_add\<close>, \<open>to_be_bytes\<close>, \<open>from_be_bytes\<close>), slices of byte buffers
  (\<open>get(a..b)\<close>, \<open>copy_from_slice\<close>), and \<open>core::cmp::Ordering\<close>.

  Unsigned integers are words of their width. A signed \<open>i64\<close> is an \<open>int\<close> whose range
  is stated where it matters; an operation whose overflow would panic checks that range.
  A panic of the source is the value \<open>None\<close> of an \<open>option\<close> result.
\<close>

type_synonym u8 = "8 word"
type_synonym u16 = "16 word"
type_synonym u32 = "32 word"
type_synonym u64 = "64 word"
type_synonym i8 = "8 word"
type_synonym i64 = int
type_synonym bytes = "u8 list"

named_theorems wire_simps \<open>reads and writes of fields of a message buffer\<close>
named_theorems time_simps \<open>time stamps and intervals as whole numbers of nanoseconds\<close>
named_theorems cmp_simps \<open>three-way comparisons as order relations\<close>
named_theorems port_simps \<open>unfolding of port handlers and transitions\<close>

subsection \<open>Three-way comparison\<close>

datatype Ordering = Less | Equal | Greater

definition cmp :: "'a::linorder \<Rightarrow> 'a \<Rightarrow> Ordering" where
  "cmp a b = (if a < b then Less else if a = b then Equal else Greater)"

text \<open>\<open>Ordering::then\<close>: how the comparison of a tuple goes on to its next component.\<close>

fun ordering_then :: "Ordering \<Rightarrow> Ordering \<Rightarrow> Ordering" where
  "ordering_then Equal o2 = o2"
| "ordering_then Less _ = Less"
| "ordering_then Greater _ = Greater"

subsection \<open>Integer operations of the standard library\<close>

definition saturating_add :: "'a::len word \<Rightarrow> 'a word \<Rightarrow> 'a word" where
  "saturating_add a b = (if unat a + unat b < 2 ^ LENGTH('a) then a + b else - 1)"

definition saturating_mul :: "'a::len word \<Rightarrow> 'a word \<Rightarrow> 'a word" where
  "saturating_mul a b = (if unat a * unat b < 2 ^ LENGTH('a) then a * b else - 1)"

definition i64_MIN :: int where "i64_MIN = - (2 ^ 63)"

definition i64_MAX :: int where "i64_MAX = 2 ^ 63 - 1"

definition in_i64 :: "int \<Rightarrow> bool" where
  "in_i64 x \<longleftrightarrow> i64_MIN \<le> x \<and> x \<le> i64_MAX"

definition i64_checked :: "int \<Rightarrow> i64 option" where
  "i64_checked x = (if in_i64 x then Some x else None)"

definition i64_checked_add :: "i64 \<Rightarrow> i64 \<Rightarrow> i64 option" where
  "i64_checked_add a b = i64_checked (a + b)"

definition i64_checked_sub :: "i64 \<Rightarrow> i64 \<Rightarrow> i64 option" where
  "i64_checked_sub a b = i64_checked (a - b)"

text \<open>Rust's \<open>/\<close> on signed integers truncates towards zero.\<close>

definition trunc_div :: "int \<Rightarrow> int \<Rightarrow> int" where
  "trunc_div a b = sgn a * sgn b * (\<bar>a\<bar> div \<bar>b\<bar>)"

subsection \<open>Big-endian bytes\<close>

definition u16_to_be_bytes :: "u16 \<Rightarrow> bytes" where
  "u16_to_be_bytes w = [ucast (drop_bit 8 w), ucast w]"

definition u16_from_be_bytes :: "bytes \<Rightarrow> u16" where
  "u16_from_be_bytes b = push_bit 8 (ucast (b ! 0)) OR ucast (b ! 1)"

definition u32_to_be_bytes :: "u32 \<Rightarrow> bytes" where
  "u32_to_be_bytes w =
     [ucast (drop_bit 24 w), ucast (drop_bit 16 w), ucast (drop_bit 8 w), ucast w]"

definition u32_from_be_bytes :: "bytes \<Rightarrow> u32" where
  "u32_from_be_bytes b =
     push_bit 24 (ucast (b ! 0)) OR push_bit 16 (ucast (b ! 1)) OR
     push_bit 8 (ucast (b ! 2)) OR ucast (b ! 3)"

subsection \<open>Slices of a buffer\<close>

text \<open>
  \<open>slice a b xs\<close> is \<open>&xs[a..b]\<close> where the range lies inside \<open>xs\<close>;
  \<open>get_range\<close> is \<open>xs.get(a..b)\<close>, which is \<open>None\<close> where it does not;
  \<open>copy_at a src xs\<close> is \<open>xs[a..a + src.len()].copy_from_slice(src)\<close>.
\<close>

definition slice :: "nat \<Rightarrow> nat \<Rightarrow> 'a list \<Rightarrow> 'a list" where
  "slice a b xs = take (b - a) (drop a xs)"

definition get_range :: "nat \<Rightarrow> nat \<Rightarrow> 'a list \<Rightarrow> 'a list option" where
  "get_range a b xs = (if a \<le> b \<and> b \<le> length xs then Some (slice a b xs) else None)"

definition copy_at :: "nat \<Rightarrow> 'a list \<Rightarrow> 'a list \<Rightarrow> 'a list" where
  "copy_at a src xs = take a xs @ src @ drop (a + length src) xs"

subsection \<open>Lemmas: comparison\<close>

lemma cmp_iff [cmp_simps, simp]:
  "cmp a b = Less \<longleftrightarrow> a < b"
  "cmp a b = Equal \<longleftrightarrow> a = b"
  "cmp a b = Greater \<longleftrightarrow> b < a"
  by (auto simp: cmp_def)

lemma cmp_swap_cases:
  obtains "cmp a b = Less" "cmp b a = Greater"
  | "cmp a b = Equal" "cmp b a = Equal" "a = b"
  | "cmp a b = Greater" "cmp b a = Less"
  by (metis cmp_iff linorder_neqE)

lemma ordering_then_iff [cmp_simps]:
  "ordering_then x y = Less \<longleftrightarrow> x = Less \<or> x = Equal \<and> y = Less"
  "ordering_then x y = Equal \<longleftrightarrow> x = Equal \<and> y = Equal"
  "ordering_then x y = Greater \<longleftrightarrow> x = Greater \<or> x = Equal \<and> y = Greater"
  by (cases x; cases y; simp)+

subsection \<open>Lemmas: integers\<close>

lemma unat_max_word: "unat (- 1 :: 'a::len word) = 2 ^ LENGTH('a) - 1"
  by (simp add: unat_eq_nat_uint uint_word_ariths zmod_minus1 nat_diff_distrib nat_power_eq)

lemma unat_saturating_add:
  fixes a b :: "'a::len word"
  shows "unat (saturating_add a b) = min (unat a + unat b) (2 ^ LENGTH('a) - 1)"
  by (auto simp: saturating_add_def unat_word_ariths unat_max_word)

lemma unat_saturating_mul:
  fixes a b :: "'a::len word"
  shows "unat (saturating_mul a b) = min (unat a * unat b) (2 ^ LENGTH('a) - 1)"
  by (auto simp: saturating_mul_def unat_word_ariths unat_max_word)

lemma trunc_div_2_bounds:
  "2 * \<bar>trunc_div x 2\<bar> \<le> \<bar>x\<bar>" "\<bar>x\<bar> \<le> 2 * \<bar>trunc_div x 2\<bar> + 1"
  by (auto simp: trunc_div_def abs_mult sgn_if)

lemma trunc_div_even [simp]: "trunc_div (2 * x) 2 = x"
  by (auto simp: trunc_div_def abs_mult sgn_mult sgn_if)

lemma i64_checked_Some [simp]: "i64_checked x = Some y \<longleftrightarrow> in_i64 x \<and> y = x"
  by (auto simp: i64_checked_def)

lemma in_i64_bound: "\<bar>x\<bar> \<le> 2 ^ 62 \<Longrightarrow> in_i64 x"
  by (auto simp: in_i64_def i64_MIN_def i64_MAX_def)

subsection \<open>Lemmas: bytes\<close>

lemma length_be_bytes [wire_simps, simp]:
  "length (u16_to_be_bytes w) = 2" "length (u32_to_be_bytes v) = 4"
  by (simp_all add: u16_to_be_bytes_def u32_to_be_bytes_def)

lemma u16_from_to_be_bytes [wire_simps, simp]: "u16_from_be_bytes (u16_to_be_bytes w) = w"
  by (rule bit_word_eqI) (auto simp: u16_from_be_bytes_def u16_to_be_bytes_def bit_simps)

lemma u32_from_to_be_bytes [wire_simps, simp]: "u32_from_be_bytes (u32_to_be_bytes w) = w"
proof (rule bit_word_eqI)
  fix n assume "n < LENGTH(32)"
  then consider "n < 8" | "8 \<le> n" "n < 16" | "16 \<le> n" "n < 24" | "24 \<le> n" "n < 32"
    by fastforce
  then show "bit (u32_from_be_bytes (u32_to_be_bytes w)) n = bit w n"
    by cases (auto simp: u32_from_be_bytes_def u32_to_be_bytes_def bit_simps)
qed

lemma u16_from_be_bytes_eq_iff:
  assumes "length b = 2"
  shows "u16_to_be_bytes (u16_from_be_bytes b) = b"
proof -
  from assms obtain x y where b: "b = [x, y]"
    by (auto simp: length_Suc_conv numeral_2_eq_2)
  have "bit y (8 + n) = False" for n
    by (simp add: bit_word.rep_eq) 
  then show ?thesis
    by (auto simp: b u16_to_be_bytes_def u16_from_be_bytes_def bit_simps intro!: bit_word_eqI)
qed

subsection \<open>Lemmas: slices\<close>

lemma length_copy_at [wire_simps, simp]:
  "a + length src \<le> length xs \<Longrightarrow> length (copy_at a src xs) = length xs"
  by (simp add: copy_at_def)

lemma length_slice [wire_simps, simp]:
  "a \<le> b \<Longrightarrow> b \<le> length xs \<Longrightarrow> length (slice a b xs) = b - a"
  by (simp add: slice_def)

lemma slice_copy_at_same [wire_simps]:
  "a + length src \<le> length xs \<Longrightarrow> b = a + length src \<Longrightarrow> slice a b (copy_at a src xs) = src"
  by (simp add: slice_def copy_at_def)

lemma nth_copy_at:
  assumes "a + length src \<le> length xs" and "i < length xs"
  shows "copy_at a src xs ! i
           = (if a \<le> i \<and> i < a + length src then src ! (i - a) else xs ! i)"
  using assms by (auto simp: copy_at_def nth_append)

lemma nth_copy_at_other [wire_simps]:
  "a + length src \<le> length xs \<Longrightarrow> i < length xs \<Longrightarrow> i < a \<or> a + length src \<le> i \<Longrightarrow>
   copy_at a src xs ! i = xs ! i"
  by (auto simp: nth_copy_at)

lemma slice_copy_at_other [wire_simps]:
  assumes "a + length src \<le> length xs" "d \<le> length xs" "d \<le> a \<or> a + length src \<le> c"
  shows "slice c d (copy_at a src xs) = slice c d xs"
  using assms
  by (cases "c \<le> d") (auto simp: slice_def nth_copy_at intro!: nth_equalityI)

lemma slice_list_update_other [wire_simps]:
  "i < c \<or> d \<le> i \<Longrightarrow> slice c d (xs[i := v]) = slice c d xs"
  by (cases "i < c") (auto simp: slice_def drop_update_swap)

lemma slice_take [wire_simps]: "b \<le> n \<Longrightarrow> slice a b (take n xs) = slice a b xs"
  by (simp add: slice_def drop_take min_def)

lemma slice_slice [wire_simps]:
  "a + d \<le> b \<Longrightarrow> slice c d (slice a b xs) = slice (a + c) (a + d) xs"
  by (simp add: slice_def drop_take min_def ac_simps)

lemma nth_slice [wire_simps]: "a + i < b \<Longrightarrow> b \<le> length xs \<Longrightarrow> slice a b xs ! i = xs ! (a + i)"
  by (simp add: slice_def)

lemma slice_all [wire_simps, simp]: "length xs = n \<Longrightarrow> slice 0 n xs = xs"
  by (simp add: slice_def)

lemma get_range_Some [wire_simps, simp]:
  "get_range a b xs = Some ys \<longleftrightarrow> a \<le> b \<and> b \<le> length xs \<and> ys = slice a b xs"
  by (auto simp: get_range_def)

end
