(* ===== verification/Ptp_Time.thy ===== *)
theory Ptp_Time
  imports Ptp_Prelude
begin

section \<open>Time stamps, intervals, instants, durations (time.rs)\<close>

text \<open>
  Models \<^verbatim>\<open>crates/rptp/src/time.rs\<close>: \<open>TimeStamp\<close> (48-bit seconds and nanoseconds),
  the signed \<open>TimeInterval\<close>, the monotonic \<open>Instant\<close> and \<open>Duration\<close>, and the logarithmic
  message intervals. The fields of these types are private in the source and every
  constructor checks them, so \<open>wf_ts\<close> and \<open>wf_ti\<close> are the type invariants. The lemmas show
  that each operation computes exactly on whole numbers of nanoseconds (\<open>ts_total\<close>,
  \<open>ti_total\<close>) and keeps the invariant, and when the checked operations return \<open>None\<close>.
\<close>

datatype TimeStamp = TimeStamp (ts_seconds: u64) (ts_nanos: u32)

datatype TimeInterval = TimeInterval (ti_seconds: i64) (ti_nanos: u32)

datatype Instant = Instant (instant_nanos: u64)

datatype Duration = Duration (duration_nanos: u64)

datatype LogMessageInterval = LogMessageInterval (log_message_value: i8)

datatype LogInterval = LogInterval (log_value: i8)

definition MAX_SECONDS_EXCL :: int where "MAX_SECONDS_EXCL = 2 ^ 48"

definition NANOS_PER_SECOND :: u32 where "NANOS_PER_SECOND = 1000000000"

subsection \<open>TimeStamp\<close>

definition TimeStamp_new :: "u64 \<Rightarrow> u32 \<Rightarrow> TimeStamp option" where
  "TimeStamp_new seconds nanos =
     (if uint seconds < MAX_SECONDS_EXCL \<and> nanos < 1000000000
      then Some (TimeStamp seconds nanos) else None)"

definition TimeStamp_try_new_i64 :: "i64 \<Rightarrow> u32 \<Rightarrow> TimeStamp option" where
  "TimeStamp_try_new_i64 seconds nanos =
     (if 0 \<le> seconds \<and> seconds < MAX_SECONDS_EXCL \<and> nanos < NANOS_PER_SECOND
      then Some (TimeStamp (word_of_int seconds) nanos) else None)"

definition TimeStamp_to_wire :: "TimeStamp \<Rightarrow> bytes" where
  "TimeStamp_to_wire t =
     (let buf = replicate 10 0;
          buf = copy_at 0 (u16_to_be_bytes (ucast (drop_bit 32 (ts_seconds t)))) buf;
          buf = copy_at 2 (u32_to_be_bytes (ucast (ts_seconds t))) buf;
          buf = copy_at 6 (u32_to_be_bytes (ts_nanos t)) buf
      in buf)"

definition TimeStamp_checked_add :: "TimeStamp \<Rightarrow> TimeInterval \<Rightarrow> TimeStamp option" where
  "TimeStamp_checked_add t rhs = do {
     seconds \<leftarrow> i64_checked_add (sint (ts_seconds t)) (ti_seconds rhs);
     let nanos = ts_nanos t + ti_nanos rhs;
     if NANOS_PER_SECOND \<le> nanos
     then do {
       seconds \<leftarrow> i64_checked_add seconds 1;
       TimeStamp_try_new_i64 seconds (nanos - NANOS_PER_SECOND)
     }
     else TimeStamp_try_new_i64 seconds nanos
   }"

definition TimeStamp_checked_sub :: "TimeStamp \<Rightarrow> TimeInterval \<Rightarrow> TimeStamp option" where
  "TimeStamp_checked_sub t rhs = do {
     seconds \<leftarrow> i64_checked_sub (sint (ts_seconds t)) (ti_seconds rhs);
     let nanos = sint (ts_nanos t) - sint (ti_nanos rhs);
     if nanos < 0
     then do {
       seconds \<leftarrow> i64_checked_sub seconds 1;
       TimeStamp_try_new_i64 seconds (word_of_int (nanos + 1000000000))
     }
     else TimeStamp_try_new_i64 seconds (word_of_int nanos)
   }"

subsection \<open>TimeInterval\<close>

text \<open>The assertions of \<open>TimeInterval::new\<close>; \<open>None\<close> is the panic.\<close>

definition TimeInterval_new :: "i64 \<Rightarrow> u32 \<Rightarrow> TimeInterval option" where
  "TimeInterval_new seconds nanos =
     (if (seconds \<noteq> i64_MIN \<or> nanos > 0) \<and> nanos < 1000000000
      then Some (TimeInterval seconds nanos) else None)"

definition TimeInterval_ZERO :: TimeInterval where "TimeInterval_ZERO = TimeInterval 0 0"

text \<open>
  \<open>impl Sub for TimeStamp\<close>: the difference of two time stamps. The assertions of
  \<open>TimeInterval::new\<close> hold for every pair of well-formed time stamps
  (\<open>TimeStamp_sub_asserts\<close> below), so the panic is not a result of this operation.
\<close>

definition TimeStamp_sub_opt :: "TimeStamp \<Rightarrow> TimeStamp \<Rightarrow> TimeInterval option" where
  "TimeStamp_sub_opt t rhs =
     (let delta_seconds = sint (ts_seconds t) - sint (ts_seconds rhs);
          delta_nanos = sint (ts_nanos t) - sint (ts_nanos rhs)
      in if delta_nanos < 0
         then TimeInterval_new (delta_seconds - 1) (word_of_int (delta_nanos + 1000000000))
         else TimeInterval_new delta_seconds (word_of_int delta_nanos))"

definition TimeStamp_sub :: "TimeStamp \<Rightarrow> TimeStamp \<Rightarrow> TimeInterval" where
  "TimeStamp_sub t rhs = the (TimeStamp_sub_opt t rhs)"

definition TimeInterval_from_u64_nanos :: "u64 \<Rightarrow> TimeInterval option" where
  "TimeInterval_from_u64_nanos nanos =
     TimeInterval_new (sint (nanos div 1000000000)) (ucast (nanos mod 1000000000))"

definition TimeInterval_total_nanos :: "TimeInterval \<Rightarrow> int" where
  "TimeInterval_total_nanos d = ti_seconds d * 1000000000 + uint (ti_nanos d)"

definition TimeInterval_from_total_nanos :: "int \<Rightarrow> TimeInterval option" where
  "TimeInterval_from_total_nanos n =
     TimeInterval_new (n div 1000000000) (word_of_int (n mod 1000000000))"

text \<open>Halving and the absolute value cannot fail on a well-formed interval
  (\<open>TimeInterval_half_total\<close>, \<open>TimeInterval_abs_total\<close>).\<close>

definition TimeInterval_half :: "TimeInterval \<Rightarrow> TimeInterval" where
  "TimeInterval_half d =
     the (TimeInterval_from_total_nanos (trunc_div (TimeInterval_total_nanos d) 2))"

definition TimeInterval_abs :: "TimeInterval \<Rightarrow> TimeInterval" where
  "TimeInterval_abs d =
     (if ti_seconds d < 0
      then if ti_nanos d = 0
           then the (TimeInterval_new (- ti_seconds d) 0)
           else let secs = ti_seconds d + 1
                in the (TimeInterval_new (- secs) (1000000000 - ti_nanos d))
      else d)"

text \<open>\<open>impl Sub for TimeInterval\<close>: an overflow of the seconds is a panic (\<open>None\<close>).\<close>

definition TimeInterval_sub :: "TimeInterval \<Rightarrow> TimeInterval \<Rightarrow> TimeInterval option" where
  "TimeInterval_sub d rhs = do {
     delta_seconds \<leftarrow> i64_checked (ti_seconds d - ti_seconds rhs);
     let delta_nanos = sint (ti_nanos d) - sint (ti_nanos rhs);
     if delta_nanos < 0
     then do {
       delta_seconds \<leftarrow> i64_checked (delta_seconds - 1);
       TimeInterval_new delta_seconds (word_of_int (delta_nanos + 1000000000))
     }
     else TimeInterval_new delta_seconds (word_of_int delta_nanos)
   }"

text \<open>The derived order compares the seconds first, then the nanoseconds.\<close>

instantiation TimeInterval :: linorder
begin

definition less_eq_TimeInterval :: "TimeInterval \<Rightarrow> TimeInterval \<Rightarrow> bool" where
  "a \<le> b \<longleftrightarrow> ti_seconds a < ti_seconds b \<or> ti_seconds a = ti_seconds b \<and> ti_nanos a \<le> ti_nanos b"

definition less_TimeInterval :: "TimeInterval \<Rightarrow> TimeInterval \<Rightarrow> bool" where
  "a < b \<longleftrightarrow> ti_seconds a < ti_seconds b \<or> ti_seconds a = ti_seconds b \<and> ti_nanos a < ti_nanos b"

instance
  by standard
    (auto simp: less_eq_TimeInterval_def less_TimeInterval_def intro: TimeInterval.expand)

end

subsection \<open>Instant and Duration\<close>

definition Instant_zero :: Instant where "Instant_zero = Instant 0"

definition Instant_from_nanos :: "u64 \<Rightarrow> Instant" where "Instant_from_nanos n = Instant n"

definition Instant_from_secs :: "u32 \<Rightarrow> Instant" where
  "Instant_from_secs secs = Instant (ucast secs * 1000000000)"

definition Instant_saturating_add :: "Instant \<Rightarrow> Duration \<Rightarrow> Instant" where
  "Instant_saturating_add i d = Instant (saturating_add (instant_nanos i) (duration_nanos d))"

definition Instant_checked_sub :: "Instant \<Rightarrow> Instant \<Rightarrow> Duration option" where
  "Instant_checked_sub i rhs =
     (if instant_nanos rhs \<le> instant_nanos i
      then Some (Duration (instant_nanos i - instant_nanos rhs)) else None)"

definition Duration_from_secs :: "u32 \<Rightarrow> Duration" where
  "Duration_from_secs secs = Duration (ucast secs * 1000000000)"

definition Duration_from_millis :: "u32 \<Rightarrow> Duration" where
  "Duration_from_millis millis = Duration (ucast millis * 1000000)"

definition Duration_from_nanos :: "u64 \<Rightarrow> Duration" where "Duration_from_nanos n = Duration n"

definition Duration_saturating_mul :: "Duration \<Rightarrow> u64 \<Rightarrow> Duration" where
  "Duration_saturating_mul d rhs = Duration (saturating_mul (duration_nanos d) rhs)"

definition Duration_as_u64_nanos :: "Duration \<Rightarrow> u64" where
  "Duration_as_u64_nanos d = duration_nanos d"

instantiation Duration :: linorder
begin

definition less_eq_Duration :: "Duration \<Rightarrow> Duration \<Rightarrow> bool" where
  "a \<le> b \<longleftrightarrow> duration_nanos a \<le> duration_nanos b"

definition less_Duration :: "Duration \<Rightarrow> Duration \<Rightarrow> bool" where
  "a < b \<longleftrightarrow> duration_nanos a < duration_nanos b"

instance
  by standard (auto simp: less_eq_Duration_def less_Duration_def intro: Duration.expand)

end

subsection \<open>Logarithmic intervals\<close>

definition MIN_LOG_VALUE :: int where "MIN_LOG_VALUE = - 20"

definition MAX_LOG_VALUE :: int where "MAX_LOG_VALUE = 20"

definition LogInterval_new :: "i8 \<Rightarrow> LogInterval option" where
  "LogInterval_new v =
     (if MIN_LOG_VALUE \<le> sint v \<and> sint v \<le> MAX_LOG_VALUE then Some (LogInterval v) else None)"

definition LogMessageInterval_unspecified :: LogMessageInterval where
  "LogMessageInterval_unspecified = LogMessageInterval 0x7F"

definition LogMessageInterval_log_interval :: "LogMessageInterval \<Rightarrow> LogInterval option" where
  "LogMessageInterval_log_interval l =
     (if MIN_LOG_VALUE \<le> sint (log_message_value l) \<and> sint (log_message_value l) \<le> MAX_LOG_VALUE
      then LogInterval_new (log_message_value l) else None)"

definition LogMessageInterval_as_u8 :: "LogMessageInterval \<Rightarrow> u8" where
  "LogMessageInterval_as_u8 l = log_message_value l"

definition LogInterval_duration :: "LogInterval \<Rightarrow> Duration" where
  "LogInterval_duration l =
     (let e = max MIN_LOG_VALUE (min MAX_LOG_VALUE (sint (log_value l)))
      in if 0 \<le> e
         then let secs = push_bit (nat e) 1 in Duration_from_nanos (saturating_mul secs 1000000000)
         else let dv = push_bit (nat (- e)) 1 in Duration_from_nanos (1000000000 div dv))"

definition LogInterval_log_message_interval :: "LogInterval \<Rightarrow> LogMessageInterval" where
  "LogInterval_log_message_interval l = LogMessageInterval (log_value l)"

subsection \<open>Type invariants and the values the types stand for\<close>

definition wf_ts :: "TimeStamp \<Rightarrow> bool" where
  "wf_ts t \<longleftrightarrow> uint (ts_seconds t) < 2 ^ 48 \<and> uint (ts_nanos t) < 1000000000"

definition ts_total :: "TimeStamp \<Rightarrow> int" where
  "ts_total t = uint (ts_seconds t) * 1000000000 + uint (ts_nanos t)"

definition wf_ti :: "TimeInterval \<Rightarrow> bool" where
  "wf_ti d \<longleftrightarrow> in_i64 (ti_seconds d) \<and> uint (ti_nanos d) < 1000000000 \<and>
     (ti_seconds d = i64_MIN \<longrightarrow> 0 < uint (ti_nanos d))"

abbreviation ti_total :: "TimeInterval \<Rightarrow> int" where
  "ti_total \<equiv> TimeInterval_total_nanos"

definition ts_limit :: int where "ts_limit = 2 ^ 48 * 1000000000"


subsection \<open>Lemmas: reading words as integers\<close>

lemma sint_eq_uint_small:
  fixes w :: "'a::len word"
  assumes "uint w < 2 ^ (LENGTH('a) - 1)"
  shows "sint w = uint w"
  using assms
  by (simp add: sint_uint signed_take_bit_int_eq_self order_trans [OF _ uint_ge_0])

lemma sint_nanos [simp]: "uint (n :: u32) < 1000000000 \<Longrightarrow> sint n = uint n"
  by (rule sint_eq_uint_small) simp

lemma sint_seconds [simp]: "uint (s :: u64) < 2 ^ 48 \<Longrightarrow> sint s = uint s"
  by (rule sint_eq_uint_small) simp

lemma uint_word_of_int_nanos [simp]:
  "0 \<le> k \<Longrightarrow> k < 1000000000 \<Longrightarrow> uint (word_of_int k :: u32) = k"
  by (simp add: uint_word_of_int)

lemma uint_word_of_int_seconds [simp]:
  "0 \<le> k \<Longrightarrow> k < 2 ^ 48 \<Longrightarrow> uint (word_of_int k :: u64) = k"
  by (simp add: uint_word_of_int)

lemma uint_add_nanos:
  fixes a b :: u32
  assumes "uint a < 1000000000" "uint b < 1000000000"
  shows "uint (a + b) = uint a + uint b"
  using assms by (simp add: uint_word_ariths)

lemma nanos_less_iff:
  "(n :: u32) < 1000000000 \<longleftrightarrow> uint n < 1000000000"
  "1000000000 \<le> n \<longleftrightarrow> 1000000000 \<le> uint n"
  by (simp_all add: word_less_def word_le_def)

lemma euclid_unique:
  fixes a b c d m :: int
  assumes "a * m + b = c * m + d" "0 \<le> b" "b < m" "0 \<le> d" "d < m"
  shows "a = c" "b = d"
proof -
  have "a = (a * m + b) div m" using assms(2,3) by simp
  moreover have "c = (c * m + d) div m" using assms(4,5) by simp
  ultimately have "a = c" using assms(1) by simp
  then show "a = c" .
  with assms(1) show "b = d" by simp
qed

lemma wf_ts_D: "wf_ts t \<Longrightarrow> 0 \<le> ts_total t \<and> ts_total t < ts_limit"
proof -
  assume "wf_ts t"
  then have "uint (ts_seconds t) \<le> 2 ^ 48 - 1" "uint (ts_nanos t) < 1000000000"
    by (simp_all add: wf_ts_def)
  moreover have "0 \<le> uint (ts_seconds t)" "0 \<le> uint (ts_nanos t)" by simp_all
  ultimately show ?thesis by (simp add: ts_total_def ts_limit_def)
qed

lemma ts_total_inj:
  assumes "wf_ts a" "wf_ts b" "ts_total a = ts_total b"
  shows "a = b"
proof -
  have *: "0 \<le> uint (ts_nanos a)" "0 \<le> uint (ts_nanos b)" by simp_all
  have "uint (ts_seconds a) = uint (ts_seconds b)" "uint (ts_nanos a) = uint (ts_nanos b)"
    using euclid_unique [of _ 1000000000] assms * unfolding ts_total_def wf_ts_def by metis+
  then show ?thesis by (intro TimeStamp.expand) (simp add: word_uint_eq_iff)
qed

lemma lex_nanos:
  fixes a b c d :: int
  assumes "0 \<le> b" "b < 1000000000" "0 \<le> d" "d < 1000000000"
  shows "a * 1000000000 + b < c * 1000000000 + d \<longleftrightarrow> a < c \<or> a = c \<and> b < d"
  using assms by (cases a c rule: linorder_cases) linarith+

lemma ti_total_less_iff:
  assumes "wf_ti a" "wf_ti b"
  shows "a < b \<longleftrightarrow> ti_total a < ti_total b"
  using assms
  by (simp add: less_TimeInterval_def TimeInterval_total_nanos_def word_less_def lex_nanos wf_ti_def)

lemma ti_total_le_iff:
  assumes "wf_ti a" "wf_ti b"
  shows "a \<le> b \<longleftrightarrow> ti_total a \<le> ti_total b"
  using ti_total_less_iff [OF assms(2,1)] by (simp add: not_less [symmetric])

subsection \<open>Lemmas: the checked constructors\<close>

lemma TimeStamp_try_new_iff:
  assumes "uint n < 1000000000"
  shows "TimeStamp_try_new_i64 s n = Some u
           \<longleftrightarrow> wf_ts u \<and> ts_total u = s * 1000000000 + uint n"
proof
  assume "TimeStamp_try_new_i64 s n = Some u"
  then show "wf_ts u \<and> ts_total u = s * 1000000000 + uint n"
    using assms
    by (auto simp: TimeStamp_try_new_i64_def MAX_SECONDS_EXCL_def wf_ts_def ts_total_def
        split: if_splits)
next
  assume u: "wf_ts u \<and> ts_total u = s * 1000000000 + uint n"
  then have "uint (ts_seconds u) = s" "uint (ts_nanos u) = uint n"
    using euclid_unique [of "uint (ts_seconds u)" 1000000000 "uint (ts_nanos u)" s "uint n"] assms
    by (simp_all add: ts_total_def wf_ts_def)
  moreover from this(1) have "word_of_int s = ts_seconds u" by (simp flip: \<open>uint (ts_seconds u) = s\<close>)
  ultimately show "TimeStamp_try_new_i64 s n = Some u"
    using u assms
    by (cases u) (auto simp: TimeStamp_try_new_i64_def MAX_SECONDS_EXCL_def NANOS_PER_SECOND_def
        wf_ts_def nanos_less_iff word_uint_eq_iff)
qed

lemma wf_ts_seconds_range:
  assumes "wf_ts u" "ts_total u = s * 1000000000 + k" "0 \<le> k" "k < 1000000000"
  shows "0 \<le> s" "s < 2 ^ 48"
proof -
  have "uint (ts_seconds u) = s"
    using euclid_unique(1) [of "uint (ts_seconds u)" 1000000000 "uint (ts_nanos u)" s k] assms
    by (simp add: ts_total_def wf_ts_def)
  with assms(1) show "0 \<le> s" "s < 2 ^ 48" by (auto simp: wf_ts_def)
qed

lemma in_i64_seconds: "0 \<le> s \<Longrightarrow> s < 2 ^ 48 \<Longrightarrow> in_i64 s \<and> in_i64 (s - 1) \<and> in_i64 (s + 1)"
  by (simp add: in_i64_def i64_MIN_def i64_MAX_def)

lemma i64_checked_try_new_iff:
  assumes "uint n = k" "k < 1000000000"
  shows "i64_checked s \<bind> (\<lambda>s. TimeStamp_try_new_i64 s n) = Some u
           \<longleftrightarrow> wf_ts u \<and> ts_total u = s * 1000000000 + k"
  using assms wf_ts_seconds_range [of u s "uint n"] in_i64_seconds [of s]
  by (auto simp: bind_eq_Some_conv TimeStamp_try_new_iff i64_checked_def)

lemma TimeInterval_new_Some:
  "TimeInterval_new s n = Some d \<longleftrightarrow>
     d = TimeInterval s n \<and> (s = i64_MIN \<longrightarrow> 0 < uint n) \<and> uint n < 1000000000"
  by (auto simp: TimeInterval_new_def nanos_less_iff word_less_def)

subsection \<open>Exactness of the arithmetic\<close>

lemma TimeStamp_checked_add_iff:
  assumes "wf_ts t" "wf_ti d"
  shows "TimeStamp_checked_add t d = Some u \<longleftrightarrow> wf_ts u \<and> ts_total u = ts_total t + ti_total d"
proof -
  let ?s = "uint (ts_seconds t) + ti_seconds d"
  have n: "uint (ts_nanos t) < 1000000000" "uint (ti_nanos d) < 1000000000"
    and s: "sint (ts_seconds t) = uint (ts_seconds t)"
    using assms by (auto simp: wf_ts_def wf_ti_def)
  note sum = uint_add_nanos [OF n]
  show ?thesis
  proof (cases "NANOS_PER_SECOND \<le> ts_nanos t + ti_nanos d")
    case True
    then have carry: "1000000000 \<le> uint (ts_nanos t) + uint (ti_nanos d)"
      by (simp add: NANOS_PER_SECOND_def nanos_less_iff sum)
    then have diff: "uint (ts_nanos t + ti_nanos d - NANOS_PER_SECOND)
                       = uint (ts_nanos t) + uint (ti_nanos d) - 1000000000"
      using n by (simp add: uint_word_ariths sum NANOS_PER_SECOND_def)
    have carry_less: "uint (ts_nanos t) + uint (ti_nanos d) - 1000000000 < 1000000000"
      using n by simp
    have "TimeStamp_checked_add t d = Some u \<longleftrightarrow>
            in_i64 ?s \<and> i64_checked (?s + 1) \<bind>
              (\<lambda>s. TimeStamp_try_new_i64 s (ts_nanos t + ti_nanos d - NANOS_PER_SECOND)) = Some u"
      using True s by (simp add: TimeStamp_checked_add_def i64_checked_add_def bind_eq_Some_conv)
    also have "\<dots> \<longleftrightarrow> in_i64 ?s \<and> wf_ts u \<and> ts_total u = ts_total t + ti_total d"
      using n carry unfolding i64_checked_try_new_iff [OF diff carry_less]
      by (simp add: ts_total_def TimeInterval_total_nanos_def algebra_simps)
    also have "\<dots> \<longleftrightarrow> wf_ts u \<and> ts_total u = ts_total t + ti_total d"
      using wf_ts_seconds_range [of u "?s + 1" "uint (ts_nanos t) + uint (ti_nanos d) - 1000000000"]
        in_i64_seconds [of "?s + 1"] n carry
      by (auto simp: ts_total_def TimeInterval_total_nanos_def algebra_simps)
    finally show ?thesis .
  next
    case False
    then have "uint (ts_nanos t) + uint (ti_nanos d) < 1000000000"
      by (simp add: NANOS_PER_SECOND_def nanos_less_iff sum not_le)
    then show ?thesis
      using False s i64_checked_try_new_iff [OF sum, of ?s u]
      by (simp add: TimeStamp_checked_add_def i64_checked_add_def
          ts_total_def TimeInterval_total_nanos_def algebra_simps)
  qed
qed

lemma TimeStamp_checked_sub_iff:
  assumes "wf_ts t" "wf_ti d"
  shows "TimeStamp_checked_sub t d = Some u \<longleftrightarrow> wf_ts u \<and> ts_total u = ts_total t - ti_total d"
proof -
  let ?s = "uint (ts_seconds t) - ti_seconds d"
  let ?n = "uint (ts_nanos t) - uint (ti_nanos d)"
  have n: "uint (ts_nanos t) < 1000000000" "uint (ti_nanos d) < 1000000000"
    and s: "sint (ts_seconds t) = uint (ts_seconds t)"
    using assms by (auto simp: wf_ts_def wf_ti_def)
  have ge: "0 \<le> uint (ts_nanos t)" "0 \<le> uint (ti_nanos d)" by simp_all
  show ?thesis
  proof (cases "?n < 0")
    case True
    with n ge have w: "uint (word_of_int (?n + 1000000000) :: u32) = ?n + 1000000000"
      by (intro uint_word_of_int_nanos) linarith+
    have borrow_less: "?n + 1000000000 < 1000000000" using True by simp
    have "TimeStamp_checked_sub t d = Some u \<longleftrightarrow>
            in_i64 ?s \<and> i64_checked (?s - 1) \<bind>
              (\<lambda>s. TimeStamp_try_new_i64 s (word_of_int (?n + 1000000000))) = Some u"
      using True s n
      by (simp add: TimeStamp_checked_sub_def i64_checked_sub_def bind_eq_Some_conv)
    also have "\<dots> \<longleftrightarrow> in_i64 ?s \<and> wf_ts u \<and> ts_total u = ts_total t - ti_total d"
      using True unfolding i64_checked_try_new_iff [OF w borrow_less]
      by (simp add: ts_total_def TimeInterval_total_nanos_def algebra_simps)
    also have "\<dots> \<longleftrightarrow> wf_ts u \<and> ts_total u = ts_total t - ti_total d"
      using wf_ts_seconds_range [of u "?s - 1" "?n + 1000000000"]
        in_i64_seconds [of "?s - 1"] n ge True
      by (auto simp: ts_total_def TimeInterval_total_nanos_def algebra_simps)
    finally show ?thesis .
  next
    case False
    with n ge have w: "uint (word_of_int ?n :: u32) = ?n"
      by (intro uint_word_of_int_nanos) linarith+
    have "?n < 1000000000" using n ge by linarith
    then show ?thesis
      using False s n i64_checked_try_new_iff [OF w, of ?s u]
      by (simp add: TimeStamp_checked_sub_def i64_checked_sub_def
          ts_total_def TimeInterval_total_nanos_def algebra_simps)
  qed
qed

lemma seconds_diff_range:
  fixes x y :: int
  assumes "0 \<le> x" "x < 2 ^ 48" "0 \<le> y" "y < 2 ^ 48"
  shows "in_i64 (x - y)" "in_i64 (x - y - 1)" "x - y \<noteq> i64_MIN" "x - y - 1 \<noteq> i64_MIN"
  using assms by (auto simp: in_i64_def i64_MIN_def i64_MAX_def)

text \<open>The assertions behind the difference of two time stamps always hold.\<close>

lemma TimeStamp_sub_asserts:
  assumes "wf_ts a" "wf_ts b"
  shows "\<exists>d. TimeStamp_sub_opt a b = Some d \<and> wf_ti d \<and> ti_total d = ts_total a - ts_total b"
proof -
  let ?s = "uint (ts_seconds a) - uint (ts_seconds b)"
  let ?n = "uint (ts_nanos a) - uint (ts_nanos b)"
  have ge: "0 \<le> uint (ts_nanos a)" "0 \<le> uint (ts_nanos b)"
    "0 \<le> uint (ts_seconds a)" "0 \<le> uint (ts_seconds b)" by simp_all
  have lt: "uint (ts_nanos a) < 1000000000" "uint (ts_nanos b) < 1000000000"
    "uint (ts_seconds a) < 2 ^ 48" "uint (ts_seconds b) < 2 ^ 48"
    using assms by (auto simp: wf_ts_def)
  note rng = seconds_diff_range [OF ge(3) lt(3) ge(4) lt(4)]
  show ?thesis
  proof (cases "?n < 0")
    case True
    with lt ge have w: "uint (word_of_int (?n + 1000000000) :: u32) = ?n + 1000000000"
      by (intro uint_word_of_int_nanos) linarith+
    with True lt rng show ?thesis
      by (auto simp: TimeStamp_sub_opt_def TimeInterval_new_Some wf_ti_def ts_total_def
          TimeInterval_total_nanos_def algebra_simps)
  next
    case False
    with lt ge have w: "uint (word_of_int ?n :: u32) = ?n"
      by (intro uint_word_of_int_nanos) linarith+
    moreover have "?n < 1000000000" using lt ge by linarith
    ultimately show ?thesis using False lt rng
      by (auto simp: TimeStamp_sub_opt_def TimeInterval_new_Some wf_ti_def ts_total_def
          TimeInterval_total_nanos_def)
  qed
qed

lemma TimeStamp_sub_total [time_simps]:
  assumes "wf_ts a" "wf_ts b"
  shows "ti_total (TimeStamp_sub a b) = ts_total a - ts_total b"
    and "wf_ti (TimeStamp_sub a b)"
  using TimeStamp_sub_asserts [OF assms] by (auto simp: TimeStamp_sub_def)

lemma TimeInterval_from_total_nanos_ok:
  assumes "\<bar>n\<bar> < 2 ^ 63 * 1000000000"
  shows "\<exists>d. TimeInterval_from_total_nanos n = Some d \<and> wf_ti d \<and> ti_total d = n"
proof -
  have m: "0 \<le> n mod 1000000000" "n mod 1000000000 < 1000000000" by simp_all
  have eq: "n div 1000000000 * 1000000000 + n mod 1000000000 = n" by simp
  with m assms have "- (2 ^ 63) \<le> n div 1000000000" "n div 1000000000 < 2 ^ 63"
    "n div 1000000000 = - (2 ^ 63) \<longrightarrow> 0 < n mod 1000000000"
    by linarith+
  with m eq show ?thesis
    by (auto simp: TimeInterval_from_total_nanos_def TimeInterval_new_Some wf_ti_def in_i64_def
        i64_MIN_def i64_MAX_def TimeInterval_total_nanos_def)
qed

lemma wf_ti_bound: "wf_ti d \<Longrightarrow> \<bar>ti_total d\<bar> < 2 ^ 63 * 1000000000"
proof -
  assume d: "wf_ti d"
  have "0 \<le> uint (ti_nanos d)" by simp
  with d show ?thesis
    unfolding wf_ti_def in_i64_def i64_MIN_def i64_MAX_def TimeInterval_total_nanos_def
    by linarith
qed

lemma TimeInterval_half_total [time_simps]:
  assumes "wf_ti d"
  shows "ti_total (TimeInterval_half d) = trunc_div (ti_total d) 2"
    and "wf_ti (TimeInterval_half d)"
proof -
  have "\<bar>trunc_div (ti_total d) 2\<bar> < 2 ^ 63 * 1000000000"
    using trunc_div_2_bounds(1) [of "ti_total d"] wf_ti_bound [OF assms] by linarith
  from TimeInterval_from_total_nanos_ok [OF this]
  show "ti_total (TimeInterval_half d) = trunc_div (ti_total d) 2"
    and "wf_ti (TimeInterval_half d)"
    by (auto simp: TimeInterval_half_def)
qed

lemma TimeInterval_abs_total [time_simps]:
  assumes "wf_ti d"
  shows "ti_total (TimeInterval_abs d) = \<bar>ti_total d\<bar>"
    and "wf_ti (TimeInterval_abs d)"
proof -
  obtain s n where d: "d = TimeInterval s n" by (cases d)
  have n: "0 \<le> uint n" "uint n < 1000000000" and s: "in_i64 s" "s = i64_MIN \<longrightarrow> 0 < uint n"
    using assms by (auto simp: d wf_ti_def)
  have "(1000000000 - uint n) mod 4294967296 = 1000000000 - uint n"
    by (rule mod_pos_pos_trivial) (use n in linarith)+
  then have "uint (1000000000 - n) = 1000000000 - uint n"
    by (simp add: uint_word_ariths)
  moreover have "n \<noteq> 0 \<Longrightarrow> 0 < uint n"
    using n(1) by (metis le_less uint_0_iff)
  ultimately have "ti_total (TimeInterval_abs d) = \<bar>ti_total d\<bar> \<and> wf_ti (TimeInterval_abs d)"
    using n s unfolding d
    by (auto simp: TimeInterval_abs_def TimeInterval_new_def Let_def wf_ti_def nanos_less_iff
        TimeInterval_total_nanos_def in_i64_def i64_MIN_def i64_MAX_def word_less_def)
  then show "ti_total (TimeInterval_abs d) = \<bar>ti_total d\<bar>" and "wf_ti (TimeInterval_abs d)"
    by auto
qed

lemma TimeInterval_sub_Some:
  assumes "wf_ti a" "wf_ti b" "TimeInterval_sub a b = Some d"
  shows "wf_ti d \<and> ti_total d = ti_total a - ti_total b"
proof -
  let ?n = "uint (ti_nanos a) - uint (ti_nanos b)"
  have ge: "0 \<le> uint (ti_nanos a)" "0 \<le> uint (ti_nanos b)" by simp_all
  have lt: "uint (ti_nanos a) < 1000000000" "uint (ti_nanos b) < 1000000000"
    using assms by (auto simp: wf_ti_def)
  have w: "?n < 0 \<Longrightarrow> uint (word_of_int (?n + 1000000000) :: u32) = ?n + 1000000000"
    "\<not> ?n < 0 \<Longrightarrow> uint (word_of_int ?n :: u32) = ?n"
    by (intro uint_word_of_int_nanos; use lt ge in linarith)+
  show ?thesis
    using assms(3) lt w
    by (cases "?n < 0")
      (auto simp: TimeInterval_sub_def bind_eq_Some_conv TimeInterval_new_Some wf_ti_def
        TimeInterval_total_nanos_def)
qed

text \<open>Differences of time stamps are far from the overflow of \<open>TimeInterval - TimeInterval\<close>.\<close>

definition small_ti :: "TimeInterval \<Rightarrow> bool" where
  "small_ti d \<longleftrightarrow> wf_ti d \<and> \<bar>ti_total d\<bar> < 2 ^ 50 * 1000000000"

lemma TimeInterval_sub_small:
  assumes "small_ti a" "small_ti b"
  shows "\<exists>d. TimeInterval_sub a b = Some d"
proof -
  let ?n = "uint (ti_nanos a) - uint (ti_nanos b)"
  have ge: "0 \<le> uint (ti_nanos a)" "0 \<le> uint (ti_nanos b)" by simp_all
  have lt: "uint (ti_nanos a) < 1000000000" "uint (ti_nanos b) < 1000000000"
    using assms by (auto simp: small_ti_def wf_ti_def)
  have w: "?n < 0 \<Longrightarrow> uint (word_of_int (?n + 1000000000) :: u32) = ?n + 1000000000"
    "\<not> ?n < 0 \<Longrightarrow> uint (word_of_int ?n :: u32) = ?n"
    by (intro uint_word_of_int_nanos; use lt ge in linarith)+
  have "\<bar>ti_seconds a\<bar> \<le> 2 ^ 50" "\<bar>ti_seconds b\<bar> \<le> 2 ^ 50"
    using assms lt ge unfolding small_ti_def TimeInterval_total_nanos_def by linarith+
  then have s: "in_i64 (ti_seconds a - ti_seconds b)" "in_i64 (ti_seconds a - ti_seconds b - 1)"
    "ti_seconds a - ti_seconds b \<noteq> i64_MIN" "ti_seconds a - ti_seconds b - 1 \<noteq> i64_MIN"
    by (auto simp: in_i64_def i64_MIN_def i64_MAX_def)
  have "?n < 1000000000" using lt ge by linarith
  with s lt w show ?thesis
    by (cases "?n < 0")
      (auto simp: TimeInterval_sub_def bind_eq_Some_conv TimeInterval_new_Some i64_checked_def)
qed

lemma small_ti_sub: "wf_ts a \<Longrightarrow> wf_ts b \<Longrightarrow> small_ti (TimeStamp_sub a b)"
  using wf_ts_D [of a] wf_ts_D [of b] TimeStamp_sub_total [of a b]
  by (auto simp: small_ti_def ts_limit_def)

subsection \<open>Logarithmic intervals\<close>

definition wf_log :: "LogInterval \<Rightarrow> bool" where
  "wf_log l \<longleftrightarrow> MIN_LOG_VALUE \<le> sint (log_value l) \<and> sint (log_value l) \<le> MAX_LOG_VALUE"

lemma LogInterval_new_wf: "LogInterval_new v = Some l \<Longrightarrow> wf_log l \<and> log_value l = v"
  by (auto simp: LogInterval_new_def wf_log_def split: if_splits)

lemma LogMessageInterval_log_interval_Some:
  "LogMessageInterval_log_interval m = Some l \<longleftrightarrow> l = LogInterval (log_message_value m) \<and> wf_log l"
  by (auto simp: LogMessageInterval_log_interval_def LogInterval_new_def wf_log_def)

text \<open>A logarithmic interval survives the trip through a message header.\<close>

lemma log_interval_message_roundtrip:
  "wf_log l \<Longrightarrow> LogMessageInterval_log_interval (LogInterval_log_message_interval l) = Some l"
  by (cases l) (simp add: LogInterval_log_message_interval_def LogMessageInterval_log_interval_Some)

lemma unat_two_power: "k < 64 \<Longrightarrow> unat (2 ^ k :: u64) = 2 ^ k"
  by (simp add: unat_eq_nat_uint uint_2p word_gt_0 nat_power_eq)

lemma LogInterval_duration_nanos:
  assumes "wf_log l"
  shows "unat (duration_nanos (LogInterval_duration l)) =
           (let e = sint (log_value l)
            in if 0 \<le> e then 2 ^ nat e * 1000000000 else 1000000000 div 2 ^ nat (- e))"
proof -
  define e where "e = sint (log_value l)"
  have e: "- 20 \<le> e" "e \<le> 20" using assms by (auto simp: wf_log_def MIN_LOG_VALUE_def MAX_LOG_VALUE_def e_def)
  have "nat e \<le> 20" using e by simp
  then have "2 ^ nat e * 1000000000 < (2 :: nat) ^ 64"
    using power_increasing [of "nat e" 20 "2 :: nat"] by simp
  moreover have "unat (2 ^ nat e :: u64) = 2 ^ nat e" "unat (2 ^ nat (- e) :: u64) = 2 ^ nat (- e)"
    using e by (simp_all add: unat_two_power)
  ultimately show ?thesis
    using e
    by (simp add: LogInterval_duration_def MIN_LOG_VALUE_def MAX_LOG_VALUE_def Let_def
        Duration_from_nanos_def unat_saturating_mul unat_div flip: e_def)
qed

lemma ts_of_total:
  assumes "0 \<le> n" "n < ts_limit"
  shows "\<exists>u. wf_ts u \<and> ts_total u = n"
proof -
  let ?u = "TimeStamp (word_of_int (n div 1000000000)) (word_of_int (n mod 1000000000))"
  have s: "0 \<le> n div 1000000000" "n div 1000000000 < 2 ^ 48"
    using assms by (auto simp: ts_limit_def pos_imp_zdiv_nonneg_iff)
  have u: "uint (word_of_int (n div 1000000000) :: u64) = n div 1000000000"
    "uint (word_of_int (n mod 1000000000) :: u32) = n mod 1000000000"
    using s pos_mod_bound [of 1000000000 n] by (simp_all add: unsigned_of_int take_bit_int_eq_self)
  have "wf_ts ?u" using s by (simp add: wf_ts_def u)
  moreover have "ts_total ?u = n" by (simp add: ts_total_def u)
  ultimately show ?thesis by blast
qed

subsection \<open>Properties\<close>

text \<open>C31: Adding an interval to, or subtracting it from, a valid time stamp is exact in
  nanoseconds: the result exists exactly when the mathematical result lies in the 48 bit range
  of seconds, is then a valid time stamp denoting that result, and is \<open>None\<close> otherwise. No
  intermediate overflow or borrow of the implementation is observable.\<close>

theorem checked_arithmetic_exact:
  assumes "wf_ts t" and "wf_ti d"
  shows "(TimeStamp_checked_add t d = Some u \<longleftrightarrow> wf_ts u \<and> ts_total u = ts_total t + ti_total d) \<and>
    (TimeStamp_checked_add t d = None \<longleftrightarrow> \<not> (0 \<le> ts_total t + ti_total d \<and> ts_total t + ti_total d < ts_limit)) \<and>
    (TimeStamp_checked_sub t d = Some u \<longleftrightarrow> wf_ts u \<and> ts_total u = ts_total t - ti_total d) \<and>
    (TimeStamp_checked_sub t d = None \<longleftrightarrow> \<not> (0 \<le> ts_total t - ti_total d \<and> ts_total t - ti_total d < ts_limit))"
proof -
  note add = TimeStamp_checked_add_iff [OF assms] and sub = TimeStamp_checked_sub_iff [OF assms]
  have "TimeStamp_checked_add t d = None \<longleftrightarrow> \<not> (0 \<le> ts_total t + ti_total d \<and> ts_total t + ti_total d < ts_limit)"
    using add ts_of_total wf_ts_D by (metis not_None_eq)
  moreover have "TimeStamp_checked_sub t d = None \<longleftrightarrow> \<not> (0 \<le> ts_total t - ti_total d \<and> ts_total t - ti_total d < ts_limit)"
    using sub ts_of_total wf_ts_D by (metis not_None_eq)
  ultimately show ?thesis using add sub by blast
qed

theorem checked_arithmetic_exact_witness:
  "TimeStamp_checked_add (TimeStamp 5 900000000) (TimeInterval 1 200000000) = Some (TimeStamp 7 100000000) \<and>
   TimeStamp_checked_sub (TimeStamp 0 1) (TimeInterval 0 2) = None"
  using checked_arithmetic_exact [of "TimeStamp 5 900000000" "TimeInterval 1 200000000" "TimeStamp 7 100000000"]
    checked_arithmetic_exact [of "TimeStamp 0 1" "TimeInterval 0 2"]
  by (simp add: wf_ts_def wf_ti_def in_i64_def i64_MIN_def i64_MAX_def ts_total_def TimeInterval_total_nanos_def)

end
