(* ===== verification/Ptp_Dataset.thy ===== *)
theory Ptp_Dataset
  imports Ptp_Prelude "HOL-Library.Product_Lexorder"
begin

section \<open>Clock identities, qualities and data sets (clock.rs, dataset.rs, port.rs)\<close>

text \<open>
  Models \<^verbatim>\<open>crates/rptp/src/clock.rs\<close> (identities, class, accuracy and quality of a clock),
  the port identities of \<^verbatim>\<open>crates/rptp/src/port.rs\<close>, and
  \<^verbatim>\<open>crates/rptp/src/dataset.rs\<close>: the clock data set, its 16-byte wire form, and the data
  set comparison of the best master clock algorithm with its topology tie-break. The lemmas
  characterise the comparison by a lexicographic key and a steps/topology order, and show
  that it is asymmetric, and a strict total order on consistent data sets.
\<close>

subsection \<open>Clock identity, port number, domain number, port identity\<close>

datatype ClockIdentity = ClockIdentity u8 u8 u8 u8 u8 u8 u8 u8

primrec ClockIdentity_as_bytes :: "ClockIdentity \<Rightarrow> bytes" where
  "ClockIdentity_as_bytes (ClockIdentity a b c d e f g h) = [a, b, c, d, e, f, g, h]"

text \<open>The derived order on \<open>[u8; 8]\<close> is the lexicographic one.\<close>

instantiation ClockIdentity :: linorder
begin

definition less_eq_ClockIdentity :: "ClockIdentity \<Rightarrow> ClockIdentity \<Rightarrow> bool" where
  "a \<le> b \<longleftrightarrow> ClockIdentity_as_bytes a \<le> ClockIdentity_as_bytes b"

definition less_ClockIdentity :: "ClockIdentity \<Rightarrow> ClockIdentity \<Rightarrow> bool" where
  "a < b \<longleftrightarrow> ClockIdentity_as_bytes a < ClockIdentity_as_bytes b"

instance
proof
  fix x y z :: ClockIdentity
  show "x \<le> y \<Longrightarrow> y \<le> x \<Longrightarrow> x = y"
    by (cases x; cases y) (auto simp: less_eq_ClockIdentity_def)
qed (auto simp: less_eq_ClockIdentity_def less_ClockIdentity_def)

end

datatype PortNumber = PortNumber (port_number_value: u16)

definition PortNumber_to_be_bytes :: "PortNumber \<Rightarrow> bytes" where
  "PortNumber_to_be_bytes p = u16_to_be_bytes (port_number_value p)"

definition PortNumber_from_be_bytes :: "bytes \<Rightarrow> PortNumber" where
  "PortNumber_from_be_bytes b = PortNumber (u16_from_be_bytes b)"

instantiation PortNumber :: linorder
begin

definition less_eq_PortNumber :: "PortNumber \<Rightarrow> PortNumber \<Rightarrow> bool" where
  "a \<le> b \<longleftrightarrow> port_number_value a \<le> port_number_value b"

definition less_PortNumber :: "PortNumber \<Rightarrow> PortNumber \<Rightarrow> bool" where
  "a < b \<longleftrightarrow> port_number_value a < port_number_value b"

instance
  by standard (auto simp: less_eq_PortNumber_def less_PortNumber_def intro: PortNumber.expand)

end

datatype DomainNumber = DomainNumber (DomainNumber_as_u8: u8)

datatype PortIdentity =
  PortIdentity (pi_clock_identity: ClockIdentity) (pi_port_number: PortNumber)

instantiation PortIdentity :: linorder
begin

definition less_eq_PortIdentity :: "PortIdentity \<Rightarrow> PortIdentity \<Rightarrow> bool" where
  "a \<le> b \<longleftrightarrow> pi_clock_identity a < pi_clock_identity b \<or>
     pi_clock_identity a = pi_clock_identity b \<and> pi_port_number a \<le> pi_port_number b"

definition less_PortIdentity :: "PortIdentity \<Rightarrow> PortIdentity \<Rightarrow> bool" where
  "a < b \<longleftrightarrow> pi_clock_identity a < pi_clock_identity b \<or>
     pi_clock_identity a = pi_clock_identity b \<and> pi_port_number a < pi_port_number b"

instance
  by standard
    (auto simp: less_eq_PortIdentity_def less_PortIdentity_def intro: PortIdentity.expand)

end

definition PortIdentity_compare_by_port_number ::
    "PortIdentity \<Rightarrow> PortIdentity \<Rightarrow> Ordering" where
  "PortIdentity_compare_by_port_number a b = cmp (pi_port_number a) (pi_port_number b)"

definition PortIdentity_from_wire :: "bytes \<Rightarrow> PortIdentity" where
  "PortIdentity_from_wire buf =
     PortIdentity
       (ClockIdentity (buf ! 0) (buf ! 1) (buf ! 2) (buf ! 3) (buf ! 4) (buf ! 5) (buf ! 6) (buf ! 7))
       (PortNumber_from_be_bytes [buf ! 8, buf ! 9])"

definition PortIdentity_to_wire :: "PortIdentity \<Rightarrow> bytes" where
  "PortIdentity_to_wire p =
     (let buf = replicate 10 0;
          buf = copy_at 0 (ClockIdentity_as_bytes (pi_clock_identity p)) buf;
          buf = copy_at 8 (PortNumber_to_be_bytes (pi_port_number p)) buf
      in buf)"

datatype ParentPortIdentity = ParentPortIdentity (parent_port_identity: PortIdentity)

definition ParentPortIdentity_matches :: "ParentPortIdentity \<Rightarrow> PortIdentity \<Rightarrow> bool" where
  "ParentPortIdentity_matches p src \<longleftrightarrow> parent_port_identity p = src"

subsection \<open>Clock class, accuracy, quality, time scale\<close>

datatype TimeScale = Ptp | Arb

datatype TimeScalePolicy = Mandatory TimeScale | Any

datatype ClockClass =
    ClassReserved u8
  | PrimaryReference
  | PrimaryHoldover
  | ApplicationSpecific
  | ApplicationHoldover
  | PrimaryHoldoverDegradedA
  | ApplicationHoldoverDegradedA
  | PrimaryHoldoverDegradedB
  | ApplicationHoldoverDegradedB
  | ClassDefault
  | V1Compatibility
  | SlaveOnly
  | ClassAlternateProfile u8

definition ClockClass_new :: "u8 \<Rightarrow> ClockClass" where
  "ClockClass_new v =
     (if v = 6 then PrimaryReference
      else if v = 7 then PrimaryHoldover
      else if v = 13 then ApplicationSpecific
      else if v = 14 then ApplicationHoldover
      else if v = 52 then PrimaryHoldoverDegradedA
      else if v = 58 then ApplicationHoldoverDegradedA
      else if 68 \<le> v \<and> v \<le> 122 \<or> 133 \<le> v \<and> v \<le> 170 \<or> 216 \<le> v \<and> v \<le> 232
        then ClassAlternateProfile v
      else if v = 187 then PrimaryHoldoverDegradedB
      else if v = 193 then ApplicationHoldoverDegradedB
      else if v = 248 then ClassDefault
      else if v = 251 then V1Compatibility
      else if v = 255 then SlaveOnly
      else ClassReserved v)"

fun ClockClass_time_scale_policy :: "ClockClass \<Rightarrow> TimeScalePolicy" where
  "ClockClass_time_scale_policy PrimaryReference = Mandatory Ptp"
| "ClockClass_time_scale_policy PrimaryHoldover = Mandatory Ptp"
| "ClockClass_time_scale_policy PrimaryHoldoverDegradedA = Mandatory Ptp"
| "ClockClass_time_scale_policy PrimaryHoldoverDegradedB = Mandatory Ptp"
| "ClockClass_time_scale_policy ApplicationSpecific = Mandatory Arb"
| "ClockClass_time_scale_policy ApplicationHoldover = Mandatory Arb"
| "ClockClass_time_scale_policy ApplicationHoldoverDegradedA = Mandatory Arb"
| "ClockClass_time_scale_policy ApplicationHoldoverDegradedB = Mandatory Arb"
| "ClockClass_time_scale_policy _ = Any"

fun ClockClass_as_u8 :: "ClockClass \<Rightarrow> u8" where
  "ClockClass_as_u8 (ClassReserved v) = v"
| "ClockClass_as_u8 (ClassAlternateProfile v) = v"
| "ClockClass_as_u8 PrimaryReference = 6"
| "ClockClass_as_u8 PrimaryHoldover = 7"
| "ClockClass_as_u8 ApplicationSpecific = 13"
| "ClockClass_as_u8 ApplicationHoldover = 14"
| "ClockClass_as_u8 PrimaryHoldoverDegradedA = 52"
| "ClockClass_as_u8 ApplicationHoldoverDegradedA = 58"
| "ClockClass_as_u8 PrimaryHoldoverDegradedB = 187"
| "ClockClass_as_u8 ApplicationHoldoverDegradedB = 193"
| "ClockClass_as_u8 ClassDefault = 248"
| "ClockClass_as_u8 V1Compatibility = 251"
| "ClockClass_as_u8 SlaveOnly = 255"

definition ClockClass_is_authoritative :: "ClockClass \<Rightarrow> bool" where
  "ClockClass_is_authoritative c \<longleftrightarrow> 1 \<le> ClockClass_as_u8 c \<and> ClockClass_as_u8 c \<le> 127"

definition ClockClass_cmp :: "ClockClass \<Rightarrow> ClockClass \<Rightarrow> Ordering" where
  "ClockClass_cmp a b = cmp (ClockClass_as_u8 a) (ClockClass_as_u8 b)"

datatype ClockAccuracy =
    AccuracyReserved u8
  | Within25ns | Within100ns | Within250ns
  | Within1us | Within2_5us | Within10us | Within25us | Within100us | Within250us
  | Within1ms | Within2_5ms | Within10ms | Within25ms | Within100ms | Within250ms
  | Within1s | Within10s | GreaterThan10s
  | AccuracyAlternateProfile u8
  | AccuracyUnknown

definition ClockAccuracy_new :: "u8 \<Rightarrow> ClockAccuracy" where
  "ClockAccuracy_new v =
     (if v \<le> 0x1F then AccuracyReserved v
      else if v = 0x20 then Within25ns
      else if v = 0x21 then Within100ns
      else if v = 0x22 then Within250ns
      else if v = 0x23 then Within1us
      else if v = 0x24 then Within2_5us
      else if v = 0x25 then Within10us
      else if v = 0x26 then Within25us
      else if v = 0x27 then Within100us
      else if v = 0x28 then Within250us
      else if v = 0x29 then Within1ms
      else if v = 0x2A then Within2_5ms
      else if v = 0x2B then Within10ms
      else if v = 0x2C then Within25ms
      else if v = 0x2D then Within100ms
      else if v = 0x2E then Within250ms
      else if v = 0x2F then Within1s
      else if v = 0x30 then Within10s
      else if v = 0x31 then GreaterThan10s
      else if v \<le> 0x7F then AccuracyReserved v
      else if v \<le> 0xFD then AccuracyAlternateProfile v
      else if v = 0xFE then AccuracyUnknown
      else AccuracyReserved v)"

fun ClockAccuracy_as_u8 :: "ClockAccuracy \<Rightarrow> u8" where
  "ClockAccuracy_as_u8 (AccuracyReserved v) = v"
| "ClockAccuracy_as_u8 (AccuracyAlternateProfile v) = v"
| "ClockAccuracy_as_u8 Within25ns = 0x20"
| "ClockAccuracy_as_u8 Within100ns = 0x21"
| "ClockAccuracy_as_u8 Within250ns = 0x22"
| "ClockAccuracy_as_u8 Within1us = 0x23"
| "ClockAccuracy_as_u8 Within2_5us = 0x24"
| "ClockAccuracy_as_u8 Within10us = 0x25"
| "ClockAccuracy_as_u8 Within25us = 0x26"
| "ClockAccuracy_as_u8 Within100us = 0x27"
| "ClockAccuracy_as_u8 Within250us = 0x28"
| "ClockAccuracy_as_u8 Within1ms = 0x29"
| "ClockAccuracy_as_u8 Within2_5ms = 0x2A"
| "ClockAccuracy_as_u8 Within10ms = 0x2B"
| "ClockAccuracy_as_u8 Within25ms = 0x2C"
| "ClockAccuracy_as_u8 Within100ms = 0x2D"
| "ClockAccuracy_as_u8 Within250ms = 0x2E"
| "ClockAccuracy_as_u8 Within1s = 0x2F"
| "ClockAccuracy_as_u8 Within10s = 0x30"
| "ClockAccuracy_as_u8 GreaterThan10s = 0x31"
| "ClockAccuracy_as_u8 AccuracyUnknown = 0xFE"

definition ClockAccuracy_cmp :: "ClockAccuracy \<Rightarrow> ClockAccuracy \<Rightarrow> Ordering" where
  "ClockAccuracy_cmp a b = cmp (ClockAccuracy_as_u8 a) (ClockAccuracy_as_u8 b)"

record ClockQuality =
  clock_class :: ClockClass
  clock_accuracy :: ClockAccuracy
  offset_scaled_log_variance :: u16

definition ClockQuality_is_authoritative :: "ClockQuality \<Rightarrow> bool" where
  "ClockQuality_is_authoritative q = ClockClass_is_authoritative (clock_class q)"

definition ClockQuality_from_wire :: "bytes \<Rightarrow> ClockQuality" where
  "ClockQuality_from_wire buf =
     \<lparr>clock_class = ClockClass_new (buf ! 0),
      clock_accuracy = ClockAccuracy_new (buf ! 1),
      offset_scaled_log_variance = u16_from_be_bytes [buf ! 2, buf ! 3]\<rparr>"

definition ClockQuality_to_wire :: "ClockQuality \<Rightarrow> bytes" where
  "ClockQuality_to_wire q =
     (let b = replicate 4 0;
          b = b[0 := ClockClass_as_u8 (clock_class q)];
          b = b[1 := ClockAccuracy_as_u8 (clock_accuracy q)];
          b = copy_at 2 (u16_to_be_bytes (offset_scaled_log_variance q)) b
      in b)"

definition ClockQuality_cmp :: "ClockQuality \<Rightarrow> ClockQuality \<Rightarrow> Ordering" where
  "ClockQuality_cmp a b =
     ordering_then (ClockClass_cmp (clock_class a) (clock_class b))
       (ordering_then (ClockAccuracy_cmp (clock_accuracy a) (clock_accuracy b))
         (cmp (offset_scaled_log_variance a) (offset_scaled_log_variance b)))"

subsection \<open>The clock data set\<close>

datatype Priority1 = Priority1 (Priority1_as_u8: u8)

datatype Priority2 = Priority2 (Priority2_as_u8: u8)

datatype StepsRemoved = StepsRemoved (StepsRemoved_as_u16: u16)

record ClockDS =
  identity :: ClockIdentity
  priority1 :: Priority1
  priority2 :: Priority2
  quality :: ClockQuality
  steps_removed :: StepsRemoved

datatype TopologyComparison = TopologyComparison (steps_removed_ordering: Ordering)

datatype ClockDSComparisonResult = Better | Worse | TopologyTieBreak TopologyComparison

datatype TopologyOrdering =
    TopoBetter
  | BetterByTopology
  | TopoWorse
  | WorseByTopology
  | Error1
  | Error2

definition StepsRemoved_incremented :: "StepsRemoved \<Rightarrow> StepsRemoved" where
  "StepsRemoved_incremented s = StepsRemoved (saturating_add (StepsRemoved_as_u16 s) 1)"

definition StepsRemoved_compare :: "StepsRemoved \<Rightarrow> StepsRemoved \<Rightarrow> ClockDSComparisonResult" where
  "StepsRemoved_compare a b =
     (if saturating_add (StepsRemoved_as_u16 a) 1 < StepsRemoved_as_u16 b then Better
      else if StepsRemoved_as_u16 a > saturating_add (StepsRemoved_as_u16 b) 1 then Worse
      else TopologyTieBreak
             (TopologyComparison (cmp (StepsRemoved_as_u16 a) (StepsRemoved_as_u16 b))))"

definition StepsRemoved_to_be_bytes :: "StepsRemoved \<Rightarrow> bytes" where
  "StepsRemoved_to_be_bytes s = u16_to_be_bytes (StepsRemoved_as_u16 s)"

definition ClockDS_with_added_step :: "ClockDS \<Rightarrow> ClockDS" where
  "ClockDS_with_added_step d = d\<lparr>steps_removed := StepsRemoved_incremented (steps_removed d)\<rparr>"

definition ClockDS_is_authoritative :: "ClockDS \<Rightarrow> bool" where
  "ClockDS_is_authoritative d = ClockQuality_is_authoritative (quality d)"

definition ClockDS_from_wire :: "bytes \<Rightarrow> ClockDS" where
  "ClockDS_from_wire buf =
     \<lparr>identity = ClockIdentity (buf ! 6) (buf ! 7) (buf ! 8) (buf ! 9)
                               (buf ! 10) (buf ! 11) (buf ! 12) (buf ! 13),
      priority1 = Priority1 (buf ! 0),
      priority2 = Priority2 (buf ! 5),
      quality = ClockQuality_from_wire [buf ! 1, buf ! 2, buf ! 3, buf ! 4],
      steps_removed = StepsRemoved (u16_from_be_bytes [buf ! 14, buf ! 15])\<rparr>"

definition ClockDS_to_wire :: "ClockDS \<Rightarrow> bytes" where
  "ClockDS_to_wire d =
     (let b = replicate 16 0;
          b = b[0 := Priority1_as_u8 (priority1 d)];
          b = copy_at 1 (ClockQuality_to_wire (quality d)) b;
          b = b[5 := Priority2_as_u8 (priority2 d)];
          b = copy_at 6 (ClockIdentity_as_bytes (identity d)) b;
          b = copy_at 14 (StepsRemoved_to_be_bytes (steps_removed d)) b
      in b)"

text \<open>
  \<open>ClockDS::compare\<close>. The tuple comparison of \<open>priority1\<close>, \<open>quality\<close>, \<open>priority2\<close> and
  \<open>identity\<close> is written out component by component. \<open>None\<close> is the \<open>unreachable!\<close> branch,
  which \<open>ClockDS_compare_total\<close> shows is never taken.
\<close>

definition ClockDS_compare :: "ClockDS \<Rightarrow> ClockDS \<Rightarrow> ClockDSComparisonResult option" where
  "ClockDS_compare a b =
     (if identity a = identity b
      then Some (StepsRemoved_compare (steps_removed a) (steps_removed b))
      else case ordering_then (cmp (Priority1_as_u8 (priority1 a)) (Priority1_as_u8 (priority1 b)))
                  (ordering_then (ClockQuality_cmp (quality a) (quality b))
                    (ordering_then (cmp (Priority2_as_u8 (priority2 a)) (Priority2_as_u8 (priority2 b)))
                      (cmp (identity a) (identity b)))) of
             Less \<Rightarrow> Some Better
           | Greater \<Rightarrow> Some Worse
           | Equal \<Rightarrow> None)"

subsection \<open>Topology\<close>

record Topology =
  sender :: PortIdentity
  receiver :: PortIdentity

record TopologyDS =
  topo_ds :: ClockDS
  topo :: Topology

definition TopologyDS_local :: "ClockDS \<Rightarrow> PortIdentity \<Rightarrow> TopologyDS" where
  "TopologyDS_local d local_topo_id =
     \<lparr>topo_ds = d, topo = \<lparr>sender = local_topo_id, receiver = local_topo_id\<rparr>\<rparr>"

definition TopologyDS_foreign :: "ClockDS \<Rightarrow> PortIdentity \<Rightarrow> PortIdentity \<Rightarrow> TopologyDS" where
  "TopologyDS_foreign d snder rcver = \<lparr>topo_ds = d, topo = \<lparr>sender = snder, receiver = rcver\<rparr>\<rparr>"

definition Topology_compare :: "Topology \<Rightarrow> Ordering \<Rightarrow> Topology \<Rightarrow> TopologyOrdering" where
  "Topology_compare a steps_ordering b =
     (case steps_ordering of
        Less \<Rightarrow>
          (case cmp (receiver b) (sender b) of
             Less \<Rightarrow> TopoBetter | Greater \<Rightarrow> BetterByTopology | Equal \<Rightarrow> Error1)
      | Greater \<Rightarrow>
          (case cmp (receiver a) (sender a) of
             Less \<Rightarrow> TopoWorse | Greater \<Rightarrow> WorseByTopology | Equal \<Rightarrow> Error1)
      | Equal \<Rightarrow>
          (case cmp (sender a) (sender b) of
             Less \<Rightarrow> BetterByTopology
           | Greater \<Rightarrow> WorseByTopology
           | Equal \<Rightarrow>
               (case PortIdentity_compare_by_port_number (receiver a) (receiver b) of
                  Less \<Rightarrow> BetterByTopology
                | Greater \<Rightarrow> WorseByTopology
                | Equal \<Rightarrow> Error2)))"

definition TopologyComparison_compare ::
    "TopologyComparison \<Rightarrow> Topology \<Rightarrow> Topology \<Rightarrow> TopologyOrdering" where
  "TopologyComparison_compare c a b = Topology_compare a (steps_removed_ordering c) b"

fun TopologyOrdering_is_better_or_better_by_topology :: "TopologyOrdering \<Rightarrow> bool" where
  "TopologyOrdering_is_better_or_better_by_topology TopoBetter = True"
| "TopologyOrdering_is_better_or_better_by_topology BetterByTopology = True"
| "TopologyOrdering_is_better_or_better_by_topology _ = False"

fun TopologyOrdering_is_better_by_topology :: "TopologyOrdering \<Rightarrow> bool" where
  "TopologyOrdering_is_better_by_topology BetterByTopology = True"
| "TopologyOrdering_is_better_by_topology _ = False"

definition TopologyDS_is_better_or_better_by_topology :: "TopologyDS \<Rightarrow> TopologyDS \<Rightarrow> bool" where
  "TopologyDS_is_better_or_better_by_topology a b =
     (case the (ClockDS_compare (topo_ds a) (topo_ds b)) of
        Better \<Rightarrow> True
      | Worse \<Rightarrow> False
      | TopologyTieBreak t \<Rightarrow>
          TopologyOrdering_is_better_or_better_by_topology
            (TopologyComparison_compare t (topo a) (topo b)))"

definition TopologyDS_is_better_by_topology :: "TopologyDS \<Rightarrow> TopologyDS \<Rightarrow> bool" where
  "TopologyDS_is_better_by_topology a b =
     (case the (ClockDS_compare (topo_ds a) (topo_ds b)) of
        Better \<Rightarrow> False
      | Worse \<Rightarrow> False
      | TopologyTieBreak t \<Rightarrow>
          TopologyOrdering_is_better_by_topology
            (TopologyComparison_compare t (topo a) (topo b)))"

subsection \<open>Reference notions\<close>

text \<open>The attributes compared before the tie-break, as one lexicographically ordered key.\<close>

definition ds_key :: "ClockDS \<Rightarrow> u8 \<times> u8 \<times> u8 \<times> u16 \<times> u8 \<times> ClockIdentity" where
  "ds_key d =
     (Priority1_as_u8 (priority1 d), ClockClass_as_u8 (clock_class (quality d)),
      ClockAccuracy_as_u8 (clock_accuracy (quality d)), offset_scaled_log_variance (quality d),
      Priority2_as_u8 (priority2 d), identity d)"

abbreviation steps :: "ClockDS \<Rightarrow> nat" where
  "steps d \<equiv> unat (StepsRemoved_as_u16 (steps_removed d))"

text \<open>The canonical members of the open enumerations: those that \<open>new\<close> produces.\<close>

definition canonical_quality :: "ClockQuality \<Rightarrow> bool" where
  "canonical_quality q \<longleftrightarrow>
     ClockClass_new (ClockClass_as_u8 (clock_class q)) = clock_class q \<and>
     ClockAccuracy_new (ClockAccuracy_as_u8 (clock_accuracy q)) = clock_accuracy q"

definition wf_ds :: "ClockDS \<Rightarrow> bool" where
  "wf_ds d \<longleftrightarrow> canonical_quality (quality d)"

subsection \<open>Lemmas: raw values of class and accuracy\<close>

lemma ClockClass_as_u8_new [simp]: "ClockClass_as_u8 (ClockClass_new v) = v"
  by (simp add: ClockClass_new_def)

lemma ClockAccuracy_as_u8_new [simp]: "ClockAccuracy_as_u8 (ClockAccuracy_new v) = v"
  by (simp add: ClockAccuracy_new_def)

lemma canonical_quality_from_wire [simp]: "canonical_quality (ClockQuality_from_wire b)"
  by (simp add: canonical_quality_def ClockQuality_from_wire_def)

subsection \<open>Lemmas: wire forms\<close>

lemma length_as_bytes [wire_simps, simp]: "length (ClockIdentity_as_bytes c) = 8"
  by (cases c) simp

lemma length_PortIdentity_to_wire [wire_simps, simp]: "length (PortIdentity_to_wire p) = 10"
  by (simp add: PortIdentity_to_wire_def PortNumber_to_be_bytes_def Let_def)

lemma length_ClockQuality_to_wire [wire_simps, simp]: "length (ClockQuality_to_wire q) = 4"
  by (simp add: ClockQuality_to_wire_def Let_def)

lemma length_ClockDS_to_wire [wire_simps, simp]: "length (ClockDS_to_wire d) = 16"
  by (simp add: ClockDS_to_wire_def StepsRemoved_to_be_bytes_def Let_def)

lemma u16_be_pair: "u16_to_be_bytes w = [u16_to_be_bytes w ! 0, u16_to_be_bytes w ! 1]"
  by (simp add: u16_to_be_bytes_def)

lemma u16_from_be_pair [wire_simps, simp]:
  "u16_from_be_bytes [u16_to_be_bytes w ! 0, u16_to_be_bytes w ! Suc 0] = w"
  by (metis One_nat_def u16_be_pair u16_from_to_be_bytes)

lemma PortIdentity_from_to_wire [wire_simps, simp]:
  "PortIdentity_from_wire (PortIdentity_to_wire p) = p"
proof -
  obtain a b c d e f g h n where
    p: "p = PortIdentity (ClockIdentity a b c d e f g h) (PortNumber n)"
    by (metis PortIdentity.exhaust PortNumber.exhaust ClockIdentity.exhaust)
  show ?thesis
    by (simp add: p PortIdentity_from_wire_def PortIdentity_to_wire_def PortNumber_to_be_bytes_def
        PortNumber_from_be_bytes_def Let_def nth_copy_at nth_append copy_at_def)
qed

lemma ClockQuality_from_to_wire:
  assumes "canonical_quality q"
  shows "ClockQuality_from_wire (ClockQuality_to_wire q) = q"
  using assms
  by (simp add: ClockQuality_from_wire_def ClockQuality_to_wire_def canonical_quality_def Let_def
      nth_copy_at)

lemma nth_4: "length xs = 4 \<Longrightarrow> [xs ! 0, xs ! 1, xs ! 2, xs ! 3] = xs"
  by (auto simp: list_eq_iff_nth_eq nth_Cons' numeral_eq_Suc less_Suc_eq)

lemma ClockDS_from_to_wire [wire_simps]:
  assumes "wf_ds d"
  shows "ClockDS_from_wire (ClockDS_to_wire d) = d"
proof -
  obtain a b c e f g h i where id: "identity d = ClockIdentity a b c e f g h i"
    by (cases "identity d")
  have len: "length (ClockQuality_to_wire (quality d)) = 4" by simp
  have "[ClockDS_to_wire d ! 1, ClockDS_to_wire d ! 2, ClockDS_to_wire d ! 3, ClockDS_to_wire d ! 4]
          = ClockQuality_to_wire (quality d)"
    using nth_4 [OF len]
    by (simp add: ClockDS_to_wire_def StepsRemoved_to_be_bytes_def Let_def nth_copy_at id)
  then have q: "ClockQuality_from_wire
      [ClockDS_to_wire d ! 1, ClockDS_to_wire d ! 2, ClockDS_to_wire d ! 3, ClockDS_to_wire d ! 4]
        = quality d"
    using assms by (simp add: ClockQuality_from_to_wire wf_ds_def)
  show ?thesis
    unfolding ClockDS_from_wire_def q
    by (simp add: ClockDS_to_wire_def StepsRemoved_to_be_bytes_def Let_def nth_copy_at id)
qed

lemma wf_ds_from_wire [simp]: "wf_ds (ClockDS_from_wire b)"
  by (simp add: wf_ds_def ClockDS_from_wire_def)

subsection \<open>Lemmas: the data set comparison\<close>

lemma ClockDS_compare_total: "\<exists>r. ClockDS_compare a b = Some r"
  by (auto simp: ClockDS_compare_def ordering_then_iff split: Ordering.splits)

lemma ClockDS_compare_key:
  "identity a \<noteq> identity b \<Longrightarrow>
   ClockDS_compare a b = Some (if ds_key a < ds_key b then Better else Worse)"
  by (auto simp: ClockDS_compare_def ds_key_def ClockQuality_cmp_def ClockClass_cmp_def
      ClockAccuracy_cmp_def ordering_then_iff less_prod_def split: Ordering.splits)

lemma StepsRemoved_compare_unat:
  "StepsRemoved_compare (StepsRemoved a) (StepsRemoved b) =
     (if unat a + 1 < unat b then Better
      else if unat b + 1 < unat a then Worse
      else TopologyTieBreak (TopologyComparison (cmp a b)))"
proof -
  have "unat a < 65536" "unat b < 65536"
    using unsigned_less [where ?'a = nat and w = a] unsigned_less [where ?'a = nat and w = b]
    by simp_all
  then show ?thesis
    by (auto simp: StepsRemoved_compare_def word_less_nat_alt unat_saturating_add)
qed

lemma Topology_compare_better:
  "TopologyOrdering_is_better_or_better_by_topology (Topology_compare a Less b)
     \<longleftrightarrow> receiver b \<noteq> sender b"
  "\<not> TopologyOrdering_is_better_or_better_by_topology (Topology_compare a Greater b)"
  "TopologyOrdering_is_better_or_better_by_topology (Topology_compare a Equal b) \<longleftrightarrow>
     sender a < sender b \<or>
     sender a = sender b \<and> pi_port_number (receiver a) < pi_port_number (receiver b)"
  by (auto simp: Topology_compare_def PortIdentity_compare_by_port_number_def
      split: Ordering.splits)

lemma better_or_better_by_topology_iff:
  "TopologyDS_is_better_or_better_by_topology
     \<lparr>topo_ds = a, topo = ta\<rparr> \<lparr>topo_ds = b, topo = tb\<rparr> \<longleftrightarrow>
   (if identity a \<noteq> identity b then ds_key a < ds_key b
    else steps a + 1 < steps b \<or>
         steps a + 1 = steps b \<and> receiver tb \<noteq> sender tb \<or>
         steps a = steps b \<and>
           (sender ta < sender tb \<or>
            sender ta = sender tb \<and> pi_port_number (receiver ta) < pi_port_number (receiver tb)))"
proof (cases "identity a = identity b")
  case False
  then show ?thesis
    by (simp add: TopologyDS_is_better_or_better_by_topology_def ClockDS_compare_key)
next
  case True
  obtain x y where xy: "steps_removed a = StepsRemoved x" "steps_removed b = StepsRemoved y"
    by (metis StepsRemoved.exhaust)
  note defs = TopologyDS_is_better_or_better_by_topology_def ClockDS_compare_def
    StepsRemoved_compare_unat TopologyComparison_compare_def xy True
  consider "unat x + 1 < unat y" | "unat x + 1 = unat y" | "x = y" | "unat y + 1 = unat x"
    | "unat y + 1 < unat x"
    by (metis add.commute less_linear linorder_neqE_nat not_less_eq plus_1_eq_Suc word_unat_eq_iff)
  then show ?thesis
  proof cases
    case 2
    then have "cmp x y = Less" by (simp add: word_less_nat_alt)
    note c = this Topology_compare_better(1)
    from 2 show ?thesis by (simp add: defs c)
  next
    case 3
    have "cmp y y = Equal" by simp
    note c = this Topology_compare_better(3)
    from 3 show ?thesis by (simp add: defs c)
  next
    case 4
    then have "cmp x y = Greater" by (simp add: word_less_nat_alt)
    note c = this Topology_compare_better(2)
    from 4 show ?thesis by (simp add: defs c)
  qed (simp_all add: defs)
qed

lemma better_asym:
  assumes "TopologyDS_is_better_or_better_by_topology A B"
  shows "\<not> TopologyDS_is_better_or_better_by_topology B A"
proof -
  obtain a ta b tb where AB: "A = \<lparr>topo_ds = a, topo = ta\<rparr>" "B = \<lparr>topo_ds = b, topo = tb\<rparr>"
    by (metis TopologyDS.cases_scheme old.unit.exhaust)
  show ?thesis
  proof (cases "identity a = identity b")
    case True
    with assms show ?thesis by (fastforce simp: AB better_or_better_by_topology_iff)
  next
    case False
    with assms show ?thesis by (simp add: AB better_or_better_by_topology_iff)
  qed
qed

text \<open>
  Two data sets are consistent when the same grandmaster is described by the same
  attributes. On data sets received on one port from other ports, the comparison is then
  the lexicographic order of the key, the steps removed, the sender and the port number
  of the receiver: a strict total order.
\<close>

definition consistent_ds :: "ClockDS \<Rightarrow> ClockDS \<Rightarrow> bool" where
  "consistent_ds a b \<longleftrightarrow> (identity a = identity b \<longrightarrow> ds_key a = ds_key b)"

definition rank :: "ClockDS \<Rightarrow> PortIdentity \<Rightarrow> PortIdentity \<Rightarrow>
    (u8 \<times> u8 \<times> u8 \<times> u16 \<times> u8 \<times> ClockIdentity) \<times> nat \<times> PortIdentity \<times> PortNumber" where
  "rank d snder rcver = (ds_key d, steps d, snder, pi_port_number rcver)"

lemma identity_of_key: "ds_key a = ds_key b \<Longrightarrow> identity a = identity b"
  by (simp add: ds_key_def)

lemma better_iff_rank:
  assumes "consistent_ds a b" "sb \<noteq> rb"
  shows "TopologyDS_is_better_or_better_by_topology
           (TopologyDS_foreign a sa ra) (TopologyDS_foreign b sb rb) \<longleftrightarrow> rank a sa ra < rank b sb rb"
proof -
  have lex: "(p, q) < (p', q') \<longleftrightarrow> p < p' \<or> p = p' \<and> q < q'" for p p' :: "'x::linorder"
    and q q' :: "'y::linorder"
    by (auto simp: less_prod_def)
  show ?thesis
  proof (cases "identity a = identity b")
    case True
    with assms(1) have "ds_key a = ds_key b" by (simp add: consistent_ds_def)
    with True assms(2) show ?thesis
      by (auto simp: TopologyDS_foreign_def better_or_better_by_topology_iff rank_def lex)
  next
    case False
    then have "ds_key a \<noteq> ds_key b" by (auto dest: identity_of_key)
    with False show ?thesis
      by (auto simp: TopologyDS_foreign_def better_or_better_by_topology_iff rank_def lex)
  qed
qed

subsection \<open>Example data sets\<close>

text \<open>Concrete data sets and identities at which the properties are instantiated.\<close>

definition demo_id :: "u8 \<Rightarrow> ClockIdentity" where
  "demo_id n = ClockIdentity 0 0x1B 0x19 0xFF 0xFE 0 0 n"

definition demo_local_ds :: ClockDS where
  "demo_local_ds =
     \<lparr>identity = demo_id 1, priority1 = Priority1 128, priority2 = Priority2 128,
      quality = \<lparr>clock_class = ClassDefault, clock_accuracy = Within1us,
                 offset_scaled_log_variance = 0x4E5D\<rparr>,
      steps_removed = StepsRemoved 0\<rparr>"

definition demo_master_ds :: ClockDS where
  "demo_master_ds =
     \<lparr>identity = demo_id 2, priority1 = Priority1 100, priority2 = Priority2 128,
      quality = \<lparr>clock_class = PrimaryReference, clock_accuracy = Within100ns,
                 offset_scaled_log_variance = 0x4E5D\<rparr>,
      steps_removed = StepsRemoved 0\<rparr>"

definition demo_self :: PortIdentity where
  "demo_self = PortIdentity (demo_id 1) (PortNumber 1)"

definition demo_master :: PortIdentity where
  "demo_master = PortIdentity (demo_id 2) (PortNumber 1)"

lemma demo_wf_ds [simp]: "wf_ds demo_local_ds" "wf_ds demo_master_ds"
  by (simp_all add: wf_ds_def canonical_quality_def demo_local_ds_def demo_master_ds_def
      ClockClass_new_def ClockAccuracy_new_def)

subsection \<open>Properties\<close>

text \<open>C24: On consistent data sets (one set of attributes per grandmaster identity) announced by
  other ports, "better or better by topology" is exactly the strict lexicographic order by
  priority 1, clock class, accuracy, variance, priority 2, grandmaster identity, steps removed,
  sender and receiving port number; so the comparison is a strict linear order there.\<close>

theorem dataset_order:
  assumes "consistent_ds a b" and "sa \<noteq> ra" and "sb \<noteq> rb"
  shows "(TopologyDS_is_better_or_better_by_topology (TopologyDS_foreign a sa ra) (TopologyDS_foreign b sb rb)
       \<longleftrightarrow> rank a sa ra < rank b sb rb) \<and>
    (\<not> TopologyDS_is_better_or_better_by_topology (TopologyDS_foreign a sa ra) (TopologyDS_foreign b sb rb) \<and>
     \<not> TopologyDS_is_better_or_better_by_topology (TopologyDS_foreign b sb rb) (TopologyDS_foreign a sa ra)
       \<longleftrightarrow> ds_key a = ds_key b \<and> steps a = steps b \<and> sa = sb \<and> pi_port_number ra = pi_port_number rb)"
proof -
  have "consistent_ds b a" using assms(1) by (auto simp: consistent_ds_def)
  note r = better_iff_rank [OF assms(1,3)] better_iff_rank [OF this assms(2)]
  have "\<not> rank a sa ra < rank b sb rb \<and> \<not> rank b sb rb < rank a sa ra \<longleftrightarrow> rank a sa ra = rank b sb rb" by auto
  also have "\<dots> \<longleftrightarrow> ds_key a = ds_key b \<and> steps a = steps b \<and> sa = sb \<and> pi_port_number ra = pi_port_number rb"
    by (simp add: rank_def)
  finally show ?thesis unfolding r by blast
qed

theorem dataset_order_witness:
  "TopologyDS_is_better_or_better_by_topology (TopologyDS_foreign demo_master_ds demo_master demo_self)
     (TopologyDS_foreign demo_local_ds demo_self demo_master)"
  using dataset_order [of demo_master_ds demo_local_ds demo_master demo_self demo_self demo_master]
  by (simp add: consistent_ds_def demo_master_ds_def demo_local_ds_def demo_id_def demo_master_def
      demo_self_def rank_def ds_key_def less_prod_def)

text \<open>The data set comparison never prefers both of two data sets, whatever their contents and
  topologies: on arbitrary announce messages the best master choice cannot contradict itself
  pairwise.\<close>

theorem dataset_comparison_asym:
  "\<not> (TopologyDS_is_better_or_better_by_topology A B \<and> TopologyDS_is_better_or_better_by_topology B A)"
  using better_asym by blast

end
