(* ===== verification/Ptp_Wire.thy ===== *)
theory Ptp_Wire
  imports Ptp_Time Ptp_Dataset
begin

section \<open>Errors and the wire format (result.rs, wire.rs)\<close>

text \<open>
  Models \<^verbatim>\<open>crates/rptp/src/result.rs\<close> and \<^verbatim>\<open>crates/rptp/src/wire.rs\<close>: the length and
  version check of a datagram, the accessors of the common header, the payload readers, and
  the staged writer of outgoing messages. The borrowed buffer wrappers of the source
  (\<open>UnvalidatedMessage\<close>, \<open>LengthCheckedMessage\<close>, \<open>MessageHeader\<close>, \<open>TypedBuffer\<close>, ...)
  all stand for the bytes they borrow. An error is \<open>Inl\<close> of the source's error value. The
  lemmas give every header field of a finished buffer and the round trip of time stamps.
\<close>

subsection \<open>Errors\<close>

datatype ParseError =
    HeaderTooShort nat
  | LengthMismatch nat nat
  | PayloadTooShort string nat nat

datatype ProtocolError =
    UnsupportedPtpVersion u8
  | DomainNotFound u8
  | InvalidTimestamp u32
  | UnknownMessageType u8

datatype Error = Parse ParseError | Protocol ProtocolError

type_synonym 'a result = "Error + 'a"

subsection \<open>Layout\<close>

definition PTP_HEADER_LEN :: nat where "PTP_HEADER_LEN = 34"

definition PTP_PAYLOAD_OFFSET :: nat where "PTP_PAYLOAD_OFFSET = 34"

datatype SequenceId = SequenceId (sequence_id_value: u16)

definition SequenceId_next :: "SequenceId \<Rightarrow> SequenceId" where
  "SequenceId_next s = SequenceId (sequence_id_value s + 1)"

definition SequenceId_to_be_bytes :: "SequenceId \<Rightarrow> bytes" where
  "SequenceId_to_be_bytes s = u16_to_be_bytes (sequence_id_value s)"

definition SequenceId_try_from :: "bytes \<Rightarrow> SequenceId result" where
  "SequenceId_try_from buf =
     (case get_range 0 2 buf of
        None \<Rightarrow> Inl (Parse (PayloadTooShort ''SequenceId'' 2 (length buf)))
      | Some b \<Rightarrow> Inr (SequenceId (u16_from_be_bytes b)))"

datatype MessageType = Sync | DelayRequest | FollowUp | DelayResponse | Announce

fun MessageType_to_nibble :: "MessageType \<Rightarrow> u8" where
  "MessageType_to_nibble Sync = 0x00 AND 0x0F"
| "MessageType_to_nibble DelayRequest = 0x01 AND 0x0F"
| "MessageType_to_nibble FollowUp = 0x08 AND 0x0F"
| "MessageType_to_nibble DelayResponse = 0x09 AND 0x0F"
| "MessageType_to_nibble Announce = 0x0B AND 0x0F"

definition MessageType_from_nibble :: "u8 \<Rightarrow> MessageType result" where
  "MessageType_from_nibble n =
     (if n = 0x00 then Inr Sync
      else if n = 0x01 then Inr DelayRequest
      else if n = 0x08 then Inr FollowUp
      else if n = 0x09 then Inr DelayResponse
      else if n = 0x0B then Inr Announce
      else Inl (Protocol (UnknownMessageType n)))"

datatype ControlField =
  CtlSync | CtlDelayRequest | CtlFollowUp | CtlDelayResponse | CtlManagement | CtlOther

fun ControlField_as_u8 :: "ControlField \<Rightarrow> u8" where
  "ControlField_as_u8 CtlSync = 0x00"
| "ControlField_as_u8 CtlDelayRequest = 0x01"
| "ControlField_as_u8 CtlFollowUp = 0x02"
| "ControlField_as_u8 CtlDelayResponse = 0x03"
| "ControlField_as_u8 CtlManagement = 0x04"
| "ControlField_as_u8 CtlOther = 0x05"

text \<open>
  \<open>MessageFlags\<close> is declared with the macro of the \<open>bitflags\<close> crate: a \<open>u16\<close> of which two bits are
  declared. The source reads flags with two operations of that crate, which are a parameter of the
  definitions that parse; \<open>documented_bitflags\<close> is what the crate documents of them:
  \<open>from_bits_truncate\<close> keeps the declared bits only, \<open>contains\<close> tests that all bits of its
  argument are set.
\<close>

datatype MessageFlags = MessageFlags (MessageFlags_bits: u16)

definition TWO_STEP :: MessageFlags where "TWO_STEP = MessageFlags 0x0200"

definition PTP_TIMESCALE :: MessageFlags where "PTP_TIMESCALE = MessageFlags 0x0008"

definition MessageFlags_empty :: MessageFlags where "MessageFlags_empty = MessageFlags 0"

record bitflags =
  from_bits_truncate :: "u16 \<Rightarrow> MessageFlags"
  contains :: "MessageFlags \<Rightarrow> MessageFlags \<Rightarrow> bool"

definition documented_bitflags :: "bitflags \<Rightarrow> bool" where
  "documented_bitflags bf \<longleftrightarrow>
     (\<forall>b. from_bits_truncate bf b
            = MessageFlags (b AND (MessageFlags_bits TWO_STEP OR MessageFlags_bits PTP_TIMESCALE))) \<and>
     (\<forall>f g. contains bf f g \<longleftrightarrow> MessageFlags_bits f AND MessageFlags_bits g = MessageFlags_bits g)"

datatype PtpVersion = PtpVersion (ptp_version_value: u8)

definition PtpVersion_V2 :: PtpVersion where "PtpVersion_V2 = PtpVersion 2"

definition PtpVersion_as_u8 :: "PtpVersion \<Rightarrow> u8" where
  "PtpVersion_as_u8 v = ptp_version_value v AND 0x0F"

datatype TransportSpecific = TransportSpecific

definition TransportSpecific_to_wire :: "TransportSpecific \<Rightarrow> u8" where
  "TransportSpecific_to_wire t = 0"

subsection \<open>Reading a datagram\<close>

definition length_checked_v2 :: "bytes \<Rightarrow> bytes result" where
  "length_checked_v2 buf =
     (if length buf < PTP_HEADER_LEN then Inl (Parse (HeaderTooShort (length buf)))
      else
        let v = PtpVersion (buf ! 1 AND 0x0F) in
        if v \<noteq> PtpVersion_V2 then Inl (Protocol (UnsupportedPtpVersion (PtpVersion_as_u8 v)))
        else
          let expected = unat (u16_from_be_bytes (slice 2 4 buf)); found = length buf in
          if expected \<noteq> found then Inl (Parse (LengthMismatch expected found))
          else Inr buf)"

definition MessageHeader_message_type :: "bytes \<Rightarrow> MessageType result" where
  "MessageHeader_message_type buf = MessageType_from_nibble (buf ! 0 AND 0x0F)"

definition MessageHeader_domain_number :: "bytes \<Rightarrow> DomainNumber" where
  "MessageHeader_domain_number buf = DomainNumber (buf ! 4)"

definition MessageHeader_sequence_id :: "bytes \<Rightarrow> SequenceId" where
  "MessageHeader_sequence_id buf = SequenceId (u16_from_be_bytes (slice 30 32 buf))"

definition MessageHeader_flags :: "bitflags \<Rightarrow> bytes \<Rightarrow> MessageFlags" where
  "MessageHeader_flags bf buf = from_bits_truncate bf (u16_from_be_bytes (slice 6 8 buf))"

definition MessageHeader_source_port_identity :: "bytes \<Rightarrow> PortIdentity" where
  "MessageHeader_source_port_identity buf = PortIdentity_from_wire (slice 20 30 buf)"

definition MessageHeader_log_message_interval :: "bytes \<Rightarrow> LogMessageInterval" where
  "MessageHeader_log_message_interval buf = LogMessageInterval (buf ! 33)"

definition MessageHeader_payload :: "bytes \<Rightarrow> bytes" where
  "MessageHeader_payload buf = drop PTP_PAYLOAD_OFFSET buf"

definition AnnouncePayload_foreign_clock_ds :: "bytes \<Rightarrow> ClockDS result" where
  "AnnouncePayload_foreign_clock_ds payload =
     (case get_range 13 29 payload of
        None \<Rightarrow> Inl (Parse (PayloadTooShort ''Announce.foreign_clock_ds'' 16 (length payload - 13)))
      | Some b \<Rightarrow> Inr (ClockDS_from_wire b))"

definition WireTimeStamp_timestamp :: "bytes \<Rightarrow> TimeStamp result" where
  "WireTimeStamp_timestamp buf =
     (let secs_msb = u16_from_be_bytes (slice 0 2 buf);
          secs_lsb = u32_from_be_bytes (slice 2 6 buf);
          seconds = push_bit 32 (ucast secs_msb :: u64) OR ucast secs_lsb;
          nanos = u32_from_be_bytes (slice 6 10 buf)
      in if nanos < 1000000000 then Inr (the (TimeStamp_new seconds nanos))
         else Inl (Protocol (InvalidTimestamp nanos)))"

definition SyncPayload_origin_timestamp :: "bytes \<Rightarrow> TimeStamp result" where
  "SyncPayload_origin_timestamp payload =
     (case get_range 0 10 payload of
        None \<Rightarrow> Inl (Parse (PayloadTooShort ''Sync.origin_timestamp'' 10 (length payload)))
      | Some b \<Rightarrow> WireTimeStamp_timestamp b)"

definition FollowUpPayload_precise_origin_timestamp :: "bytes \<Rightarrow> TimeStamp result" where
  "FollowUpPayload_precise_origin_timestamp payload =
     (case get_range 0 10 payload of
        None \<Rightarrow>
          Inl (Parse (PayloadTooShort ''FollowUp.precise_origin_timestamp'' 10 (length payload)))
      | Some b \<Rightarrow> WireTimeStamp_timestamp b)"

definition DelayResponsePayload_receive_timestamp :: "bytes \<Rightarrow> TimeStamp result" where
  "DelayResponsePayload_receive_timestamp payload =
     (case get_range 0 10 payload of
        None \<Rightarrow>
          Inl (Parse (PayloadTooShort ''DelayResponse.receive_timestamp'' 10 (length payload)))
      | Some b \<Rightarrow> WireTimeStamp_timestamp b)"

definition DelayResponsePayload_requesting_port_identity :: "bytes \<Rightarrow> PortIdentity result" where
  "DelayResponsePayload_requesting_port_identity payload =
     (case get_range 10 20 payload of
        None \<Rightarrow>
          Inl (Parse (PayloadTooShort ''DelayResponse.requesting_port_identity'' 10
                        (length payload - 10)))
      | Some b \<Rightarrow> Inr (PortIdentity_from_wire b))"

subsection \<open>Writing a message\<close>

definition MessageBuffer_new ::
    "TransportSpecific \<Rightarrow> PtpVersion \<Rightarrow> DomainNumber \<Rightarrow> PortIdentity \<Rightarrow> bytes" where
  "MessageBuffer_new transport_specific version domain_number src =
     (let buf = replicate 2048 0;
          buf = buf[0 := push_bit 4 (TransportSpecific_to_wire transport_specific AND 0x0F)];
          buf = buf[1 := PtpVersion_as_u8 version AND 0x0F];
          buf = buf[4 := DomainNumber_as_u8 domain_number];
          buf = copy_at 20 (PortIdentity_to_wire src) buf
      in buf)"

definition MessageBuffer_with_message_type :: "bytes \<Rightarrow> MessageType \<Rightarrow> ControlField \<Rightarrow> bytes" where
  "MessageBuffer_with_message_type buf msg_type control =
     (let buf = buf[0 := (buf ! 0 AND 0xF0) OR MessageType_to_nibble msg_type];
          buf = buf[32 := ControlField_as_u8 control]
      in buf)"

definition TypedBuffer_with_flags :: "bytes \<Rightarrow> MessageFlags \<Rightarrow> bytes" where
  "TypedBuffer_with_flags buf flags = copy_at 6 (u16_to_be_bytes (MessageFlags_bits flags)) buf"

definition FlaggedBuffer_with_sequence_id :: "bytes \<Rightarrow> SequenceId \<Rightarrow> bytes" where
  "FlaggedBuffer_with_sequence_id buf sequence_id = copy_at 30 (SequenceId_to_be_bytes sequence_id) buf"

definition SequencedBuffer_with_log_message_interval :: "bytes \<Rightarrow> LogMessageInterval \<Rightarrow> bytes" where
  "SequencedBuffer_with_log_message_interval buf lmi = buf[33 := LogMessageInterval_as_u8 lmi]"

text \<open>\<open>payload_buf[off..off + src.len()].copy_from_slice(src)\<close> on \<open>&mut buf[34..]\<close>.\<close>

definition PayloadBuffer_copy :: "bytes \<Rightarrow> nat \<Rightarrow> bytes \<Rightarrow> bytes" where
  "PayloadBuffer_copy buf off src = copy_at (PTP_PAYLOAD_OFFSET + off) src buf"

definition PayloadBuffer_finalize :: "bytes \<Rightarrow> u16 \<Rightarrow> bytes" where
  "PayloadBuffer_finalize buf payload_len =
     (let total_len = (of_nat (PTP_PAYLOAD_OFFSET + unat payload_len) :: u16);
          buf = copy_at 2 (u16_to_be_bytes total_len) buf
      in take (unat total_len) buf)"

subsection \<open>Lemmas: fields of a finished buffer\<close>

text \<open>The chain of builder calls shared by every message of the source.\<close>

abbreviation staged ::
    "bytes \<Rightarrow> MessageType \<Rightarrow> ControlField \<Rightarrow> MessageFlags \<Rightarrow> SequenceId \<Rightarrow> LogMessageInterval \<Rightarrow> bytes" where
  "staged buf ty ctl flags sid lmi \<equiv>
     SequencedBuffer_with_log_message_interval
       (FlaggedBuffer_with_sequence_id
          (TypedBuffer_with_flags (MessageBuffer_with_message_type buf ty ctl) flags) sid) lmi"

lemmas buffer_defs =
  MessageBuffer_new_def MessageBuffer_with_message_type_def TypedBuffer_with_flags_def
  FlaggedBuffer_with_sequence_id_def SequencedBuffer_with_log_message_interval_def Let_def

definition declared_flags :: "MessageFlags \<Rightarrow> bool" where
  "declared_flags f \<longleftrightarrow>
     MessageFlags_bits f AND (MessageFlags_bits TWO_STEP OR MessageFlags_bits PTP_TIMESCALE)
       = MessageFlags_bits f"

lemma declared_flags [simp]:
  "declared_flags TWO_STEP" "declared_flags PTP_TIMESCALE" "declared_flags MessageFlags_empty"
  by (simp_all add: declared_flags_def TWO_STEP_def PTP_TIMESCALE_def MessageFlags_empty_def)

lemma length_SequenceId_to_be_bytes [wire_simps, simp]: "length (SequenceId_to_be_bytes s) = 2"
  by (simp add: SequenceId_to_be_bytes_def)

lemma nibble_and [simp]: "MessageType_to_nibble t AND 0x0F = MessageType_to_nibble t"
  by (cases t) simp_all

lemma MessageType_from_to_nibble [simp]:
  "MessageType_from_nibble (MessageType_to_nibble t) = Inr t"
  by (cases t) (simp_all add: MessageType_from_nibble_def)

lemma length_MessageBuffer_new [simp]: "length (MessageBuffer_new ts v d src) = 2048"
  by (simp add: buffer_defs)

lemma length_staged [simp]:
  "length buf = 2048 \<Longrightarrow> length (staged buf ty ctl flags sid lmi) = 2048"
  by (simp add: buffer_defs)

lemma length_PayloadBuffer_copy [wire_simps, simp]:
  "34 + off + length src \<le> length buf \<Longrightarrow> length (PayloadBuffer_copy buf off src) = length buf"
  by (simp add: PayloadBuffer_copy_def PTP_PAYLOAD_OFFSET_def)

lemma take_PayloadBuffer_copy [wire_simps, simp]:
  "34 + off + length src \<le> length buf \<Longrightarrow>
   take 34 (PayloadBuffer_copy buf off src) = take 34 buf"
  by (simp add: PayloadBuffer_copy_def PTP_PAYLOAD_OFFSET_def copy_at_def)

lemma slice_PayloadBuffer_copy [wire_simps]:
  "34 + off + length src \<le> length buf \<Longrightarrow> b = 34 + off + length src \<Longrightarrow> a = 34 + off \<Longrightarrow>
   slice a b (PayloadBuffer_copy buf off src) = src"
  "34 + off + length src \<le> length buf \<Longrightarrow> d \<le> length buf \<Longrightarrow>
   d \<le> 34 + off \<or> 34 + off + length src \<le> c \<Longrightarrow>
   slice c d (PayloadBuffer_copy buf off src) = slice c d buf"
  by (simp_all add: PayloadBuffer_copy_def PTP_PAYLOAD_OFFSET_def slice_copy_at_same
      slice_copy_at_other)

lemma slice_of_take: "b \<le> n \<Longrightarrow> take n xs = take n ys \<Longrightarrow> slice a b xs = slice a b ys"
  by (metis slice_take)

lemma nth_of_take: "i < n \<Longrightarrow> take n xs = take n ys \<Longrightarrow> xs ! i = ys ! i"
  by (metis nth_take)

lemma staged_header:
  assumes "buf = MessageBuffer_new TransportSpecific PtpVersion_V2 d src"
    and "s = staged buf ty ctl flags sid lmi"
  shows "s ! 0 = MessageType_to_nibble ty" "s ! 1 = 2" "s ! 4 = DomainNumber_as_u8 d"
    "slice 6 8 s = u16_to_be_bytes (MessageFlags_bits flags)"
    "slice 20 30 s = PortIdentity_to_wire src" "slice 30 32 s = SequenceId_to_be_bytes sid"
    "s ! 32 = ControlField_as_u8 ctl" "s ! 33 = LogMessageInterval_as_u8 lmi"
  unfolding assms
  by (simp_all add: buffer_defs wire_simps nth_list_update TransportSpecific_to_wire_def
      PtpVersion_as_u8_def PtpVersion_V2_def)

definition finished ::
    "bitflags \<Rightarrow> bytes \<Rightarrow> MessageType \<Rightarrow> DomainNumber \<Rightarrow> PortIdentity \<Rightarrow> MessageFlags \<Rightarrow> SequenceId \<Rightarrow>
     LogMessageInterval \<Rightarrow> bytes \<Rightarrow> bool" where
  "finished bf b ty d src flags sid lmi payload \<longleftrightarrow>
     length_checked_v2 b = Inr b \<and> MessageHeader_message_type b = Inr ty \<and>
     MessageHeader_domain_number b = d \<and> MessageHeader_source_port_identity b = src \<and>
     MessageHeader_flags bf b = flags \<and> MessageHeader_sequence_id b = sid \<and>
     MessageHeader_log_message_interval b = lmi \<and> MessageHeader_payload b = payload"

lemma finished_finalize:
  assumes bf: "documented_bitflags bf"
    and buf: "buf = MessageBuffer_new TransportSpecific PtpVersion_V2 d src"
    and len: "length p = 2048" and hd: "take 34 p = take 34 (staged buf ty ctl flags sid lmi)"
    and n: "unat n \<le> 2014" and flags: "declared_flags flags"
  shows "finished bf (PayloadBuffer_finalize p n) ty d src flags sid lmi (slice 34 (34 + unat n) p)"
proof -
  let ?t = "34 + unat n"
  have t: "unat (of_nat ?t :: u16) = ?t" unfolding unat_of_nat using n by simp
  define b where "b = take ?t (copy_at 2 (u16_to_be_bytes (of_nat ?t)) p)"
  have b: "PayloadBuffer_finalize p n = b"
    by (simp add: PayloadBuffer_finalize_def PTP_PAYLOAD_OFFSET_def Let_def b_def t del: of_nat_add)
  have lb: "length b = ?t" using n len by (simp add: b_def)
  have sl: "slice x y b = slice x y (staged buf ty ctl flags sid lmi)" if "4 \<le> x" "y \<le> 34" for x y
    using that n len slice_of_take[OF that(2) hd]
    by (simp add: b_def slice_take slice_copy_at_other)
  have nt: "b ! i = staged buf ty ctl flags sid lmi ! i" if "i < 2 \<or> 4 \<le> i" "i < 34" for i
    using that n len nth_of_take[OF that(2) hd] by (auto simp: b_def nth_copy_at_other)
  have l2: "slice 2 4 b = u16_to_be_bytes (of_nat ?t)"
    using n len by (simp add: b_def slice_take slice_copy_at_same)
  have pl: "drop 34 b = slice 34 ?t p"
    using n len by (simp add: b_def drop_take slice_def copy_at_def)
  note h = staged_header[OF buf refl, of ty ctl flags sid lmi]
  have "length_checked_v2 b = Inr b"
    using lb l2 nt[of 1] h(2) t
    by (simp add: length_checked_v2_def PTP_HEADER_LEN_def Let_def PtpVersion_V2_def del: of_nat_add)
  then show ?thesis
    using nt[of 0] nt[of 4] nt[of 33] sl[of 6 8] sl[of 20 30] sl[of 30 32] h pl flags bf
    by (simp add: finished_def b MessageHeader_message_type_def MessageHeader_domain_number_def
        MessageHeader_source_port_identity_def MessageHeader_flags_def MessageHeader_sequence_id_def
        MessageHeader_log_message_interval_def MessageHeader_payload_def PTP_PAYLOAD_OFFSET_def
        SequenceId_to_be_bytes_def LogMessageInterval_as_u8_def declared_flags_def
        documented_bitflags_def)
qed

subsection \<open>Lemmas: time stamps on the wire\<close>

lemma seconds_48_split:
  "uint (push_bit 32 (ucast (a :: u16)) OR ucast (b :: u32) :: u64) < 2 ^ 48"
proof -
  have "(push_bit 32 (ucast a) OR ucast b :: u64)
          = take_bit 48 (push_bit 32 (ucast a) OR ucast b)"
    by (rule bit_word_eqI) (auto simp: bit_simps dest: bit_imp_le_length)
  then have "uint (push_bit 32 (ucast a) OR ucast b :: u64)
          = take_bit 48 (uint (push_bit 32 (ucast a) OR ucast b :: u64))"
    by (simp flip: unsigned_take_bit_eq)
  also have "\<dots> < 2 ^ 48" by (rule take_bit_int_less_exp)
  finally show ?thesis .
qed

lemma seconds_48_join:
  assumes "uint (s :: u64) < 2 ^ 48"
  shows "push_bit 32 (ucast (ucast (drop_bit 32 s) :: u16)) OR ucast (ucast s :: u32) = (s :: u64)"
proof (rule bit_word_eqI)
  fix n assume n: "n < LENGTH(64)"
  have "\<not> bit s n" if "48 \<le> n"
  proof -
    have "take_bit 48 (uint s) = uint s" using assms by (simp add: take_bit_int_eq_self)
    then have "bit (uint s) n = bit (take_bit 48 (uint s)) n" by simp
    then show ?thesis using that by (simp add: bit_simps)
  qed
  then show "bit (push_bit 32 (ucast (ucast (drop_bit 32 s) :: u16)) OR ucast (ucast s :: u32) :: u64) n
               = bit s n"
    using n by (cases "n < 32"; cases "n < 48") (auto simp: bit_simps)
qed

lemma length_TimeStamp_to_wire [wire_simps, simp]: "length (TimeStamp_to_wire t) = 10"
  by (simp add: TimeStamp_to_wire_def Let_def)

lemma WireTimeStamp_to_wire [wire_simps]:
  "wf_ts t \<Longrightarrow> WireTimeStamp_timestamp (TimeStamp_to_wire t) = Inr t"
  by (cases t)
    (auto simp: WireTimeStamp_timestamp_def TimeStamp_to_wire_def Let_def wire_simps wf_ts_def
      seconds_48_join TimeStamp_new_def MAX_SECONDS_EXCL_def nanos_less_iff)

lemma WireTimeStamp_cases:
  "WireTimeStamp_timestamp b = Inr t \<Longrightarrow> wf_ts t"
  "WireTimeStamp_timestamp b = Inl e \<Longrightarrow>
     e = Protocol (InvalidTimestamp (u32_from_be_bytes (slice 6 10 b))) \<and>
     1000000000 \<le> u32_from_be_bytes (slice 6 10 b)"
  using seconds_48_split
  by (auto simp: WireTimeStamp_timestamp_def Let_def wf_ts_def TimeStamp_new_def
      MAX_SECONDS_EXCL_def nanos_less_iff split: if_splits)

end
