(* ===== verification/Ptp_Foreign.thy ===== *)
theory Ptp_Foreign
  imports Ptp_Time Ptp_Dataset
begin

section \<open>Foreign clock records and candidates (foreign.rs, infra.rs)\<close>

text \<open>
  Models \<^verbatim>\<open>crates/rptp/src/foreign.rs\<close>: snapshots of the best foreign data set, foreign
  clock records with their sliding-window qualification, and \<open>BestForeignRecord\<close>; and from
  \<^verbatim>\<open>crates/rptp/src/infra.rs\<close> the \<open>Vec\<close>-backed record store and the multi-port
  candidate store. The two storage traits are the locales \<open>clock_records\<close> and
  \<open>gm_candidates\<close>; both are interpreted on the stores of the source, and the lemmas about
  qualification, selection and aggregation are proved once inside them.
\<close>

subsection \<open>Snapshots\<close>

datatype BestForeignSnapshot =
    Qualified (snap_ds: ClockDS) (snap_source: PortIdentity) (snap_receiver: PortIdentity)
  | Empty

fun BestForeignSnapshot_is_better_or_better_by_topology ::
    "BestForeignSnapshot \<Rightarrow> BestForeignSnapshot \<Rightarrow> bool" where
  "BestForeignSnapshot_is_better_or_better_by_topology
     (Qualified ds1 sender1 receiver1) (Qualified ds2 sender2 receiver2) =
     TopologyDS_is_better_or_better_by_topology
       (TopologyDS_foreign ds1 sender1 receiver1) (TopologyDS_foreign ds2 sender2 receiver2)"
| "BestForeignSnapshot_is_better_or_better_by_topology (Qualified _ _ _) Empty = True"
| "BestForeignSnapshot_is_better_or_better_by_topology Empty (Qualified _ _ _) = False"
| "BestForeignSnapshot_is_better_or_better_by_topology Empty Empty = False"

record QualifiedForeignSnapshot =
  qfs_dataset :: ClockDS
  qfs_source_port_identity :: PortIdentity
  qfs_receiver :: PortIdentity

fun QualifiedForeignSnapshot_is_better_by_topology ::
    "QualifiedForeignSnapshot \<Rightarrow> BestForeignSnapshot \<Rightarrow> bool" where
  "QualifiedForeignSnapshot_is_better_by_topology s (Qualified ds2 other_sender other_receiver) =
     TopologyDS_is_better_by_topology
       (TopologyDS_foreign (qfs_dataset s) (qfs_source_port_identity s) (qfs_receiver s))
       (TopologyDS_foreign ds2 other_sender other_receiver)"
| "QualifiedForeignSnapshot_is_better_by_topology s Empty = False"

definition QualifiedForeignSnapshot_parent_if_received_on_port ::
    "QualifiedForeignSnapshot \<Rightarrow> PortNumber \<Rightarrow> ParentPortIdentity option" where
  "QualifiedForeignSnapshot_parent_if_received_on_port s port =
     (if pi_port_number (qfs_receiver s) = port
      then Some (ParentPortIdentity (qfs_source_port_identity s)) else None)"

definition QualifiedForeignSnapshot_into_grandmaster_ds :: "QualifiedForeignSnapshot \<Rightarrow> ClockDS" where
  "QualifiedForeignSnapshot_into_grandmaster_ds s = ClockDS_with_added_step (qfs_dataset s)"

subsection \<open>Qualification\<close>

record SlidingWindowQualification =
  swq_last :: Instant
  swq_prev :: "Instant option"
  swq_window :: Duration

definition ForeignMasterTimeWindow_duration :: "LogInterval \<Rightarrow> Duration" where
  "ForeignMasterTimeWindow_duration log_announce_interval =
     Duration_saturating_mul (LogInterval_duration log_announce_interval) 4"

definition SlidingWindowQualification_new_unqualified ::
    "Instant \<Rightarrow> Duration \<Rightarrow> SlidingWindowQualification" where
  "SlidingWindowQualification_new_unqualified first window =
     \<lparr>swq_last = first, swq_prev = None, swq_window = window\<rparr>"

definition SlidingWindowQualification_qualify ::
    "SlidingWindowQualification \<Rightarrow> Instant \<Rightarrow> Duration \<Rightarrow> SlidingWindowQualification" where
  "SlidingWindowQualification_qualify q now window =
     q\<lparr>swq_prev := Some (swq_last q), swq_last := now, swq_window := window\<rparr>"

definition SlidingWindowQualification_is_qualified :: "SlidingWindowQualification \<Rightarrow> bool" where
  "SlidingWindowQualification_is_qualified q =
     (let delta = (case swq_prev q of
                     Some prev \<Rightarrow> Instant_checked_sub (swq_last q) prev
                   | None \<Rightarrow> None)
      in case delta of Some d \<Rightarrow> d \<le> swq_window q | None \<Rightarrow> False)"

definition SlidingWindowQualification_is_stale :: "SlidingWindowQualification \<Rightarrow> Instant \<Rightarrow> bool" where
  "SlidingWindowQualification_is_stale q now =
     (let delta = Instant_checked_sub now (swq_last q)
      in case delta of None \<Rightarrow> True | Some d \<Rightarrow> d > swq_window q)"

subsection \<open>Foreign clock records\<close>

record ForeignClockRecord =
  source_port_identity :: PortIdentity
  foreign_clock_ds :: ClockDS
  qualification :: SlidingWindowQualification

datatype ForeignClockStatus = Unchanged | Updated

record QualifiedForeignClockRecord =
  qfr_dataset :: ClockDS
  qfr_source_port_identity :: PortIdentity

definition ForeignClockRecord_new ::
    "PortIdentity \<Rightarrow> ClockDS \<Rightarrow> LogInterval \<Rightarrow> Instant \<Rightarrow> ForeignClockRecord" where
  "ForeignClockRecord_new src ds log_announce_interval now =
     (let window = ForeignMasterTimeWindow_duration log_announce_interval
      in \<lparr>source_port_identity = src, foreign_clock_ds = ds,
          qualification = SlidingWindowQualification_new_unqualified now window\<rparr>)"

definition ForeignClockRecord_same_source_as :: "ForeignClockRecord \<Rightarrow> PortIdentity \<Rightarrow> bool" where
  "ForeignClockRecord_same_source_as r src \<longleftrightarrow> source_port_identity r = src"

definition ForeignClockRecord_is_better_than ::
    "ForeignClockRecord \<Rightarrow> ForeignClockRecord \<Rightarrow> PortIdentity \<Rightarrow> bool" where
  "ForeignClockRecord_is_better_than r other rcv =
     TopologyDS_is_better_or_better_by_topology
       (TopologyDS_foreign (foreign_clock_ds r) (source_port_identity r) rcv)
       (TopologyDS_foreign (foreign_clock_ds other) (source_port_identity other) rcv)"

definition ForeignClockRecord_update_from ::
    "ForeignClockRecord \<Rightarrow> ForeignClockRecord \<Rightarrow> ForeignClockStatus \<times> ForeignClockRecord" where
  "ForeignClockRecord_update_from r new =
     (let was_qualified = SlidingWindowQualification_is_qualified (qualification r);
          q = SlidingWindowQualification_qualify (qualification r)
                (swq_last (qualification new)) (swq_window (qualification new));
          is_qualified = SlidingWindowQualification_is_qualified q;
          data_set_changed = (foreign_clock_ds r \<noteq> foreign_clock_ds new);
          r' = r\<lparr>qualification := q\<rparr>;
          r'' = (if data_set_changed then r'\<lparr>foreign_clock_ds := foreign_clock_ds new\<rparr> else r')
      in (if was_qualified \<noteq> is_qualified \<or> is_qualified \<and> data_set_changed
          then Updated else Unchanged, r''))"

definition ForeignClockRecord_qualified ::
    "ForeignClockRecord \<Rightarrow> QualifiedForeignClockRecord option" where
  "ForeignClockRecord_qualified r =
     (if SlidingWindowQualification_is_qualified (qualification r)
      then Some \<lparr>qfr_dataset = foreign_clock_ds r,
                 qfr_source_port_identity = source_port_identity r\<rparr>
      else None)"

definition ForeignClockRecord_is_stale :: "ForeignClockRecord \<Rightarrow> Instant \<Rightarrow> bool" where
  "ForeignClockRecord_is_stale r now = SlidingWindowQualification_is_stale (qualification r) now"

definition QualifiedForeignClockRecord_is_better_than ::
    "QualifiedForeignClockRecord \<Rightarrow> QualifiedForeignClockRecord \<Rightarrow> PortIdentity \<Rightarrow> bool" where
  "QualifiedForeignClockRecord_is_better_than r other rcv =
     TopologyDS_is_better_or_better_by_topology
       (TopologyDS_foreign (qfr_dataset r) (qfr_source_port_identity r) rcv)
       (TopologyDS_foreign (qfr_dataset other) (qfr_source_port_identity other) rcv)"

definition QualifiedForeignClockRecord_snapshot ::
    "QualifiedForeignClockRecord \<Rightarrow> PortIdentity \<Rightarrow> BestForeignSnapshot" where
  "QualifiedForeignClockRecord_snapshot r rcv =
     Qualified (qfr_dataset r) (qfr_source_port_identity r) rcv"

subsection \<open>The \<open>Vec\<close>-backed record store\<close>

text \<open>
  \<open>iter_mut().find(p)\<close> followed by an update of the element found: \<open>None\<close> when nothing
  matches.
\<close>

fun update_first :: "('a \<Rightarrow> bool) \<Rightarrow> ('a \<Rightarrow> 'a) \<Rightarrow> 'a list \<Rightarrow> 'a list option" where
  "update_first p f [] = None"
| "update_first p f (x # xs) =
     (if p x then Some (f x # xs) else map_option ((#) x) (update_first p f xs))"

record ForeignClockRecordsVec =
  records :: "ForeignClockRecord list"

definition ForeignClockRecordsVec_new :: ForeignClockRecordsVec where
  "ForeignClockRecordsVec_new = \<lparr>records = []\<rparr>"

definition ForeignClockRecordsVec_remember ::
    "ForeignClockRecordsVec \<Rightarrow> ForeignClockRecord \<Rightarrow> ForeignClockRecordsVec" where
  "ForeignClockRecordsVec_remember v record =
     (case update_first (\<lambda>r. ForeignClockRecord_same_source_as r (source_port_identity record))
             (\<lambda>existing. snd (ForeignClockRecord_update_from existing record)) (records v) of
        Some rs \<Rightarrow> v\<lparr>records := rs\<rparr>
      | None \<Rightarrow> v\<lparr>records := records v @ [record]\<rparr>)"

definition ForeignClockRecordsVec_prune_stale ::
    "ForeignClockRecordsVec \<Rightarrow> Instant \<Rightarrow> bool \<times> ForeignClockRecordsVec" where
  "ForeignClockRecordsVec_prune_stale v now =
     (let before = length (records v);
          v' = v\<lparr>records := filter (\<lambda>record. \<not> ForeignClockRecord_is_stale record now) (records v)\<rparr>
      in (length (records v') \<noteq> before, v'))"

subsection \<open>The best foreign record of a port\<close>

text \<open>\<open>Iterator::reduce\<close>.\<close>

fun reduce :: "('a \<Rightarrow> 'a \<Rightarrow> 'a) \<Rightarrow> 'a list \<Rightarrow> 'a option" where
  "reduce f [] = None"
| "reduce f (x # xs) = Some (foldl f x xs)"

record BestForeignRecord =
  bfr_receiver :: PortIdentity
  foreign_clock_records :: ForeignClockRecordsVec

definition BestForeignRecord_consider ::
    "BestForeignRecord \<Rightarrow> PortIdentity \<Rightarrow> ClockDS \<Rightarrow> LogInterval \<Rightarrow> Instant \<Rightarrow> BestForeignRecord" where
  "BestForeignRecord_consider b src ds log_announce_interval now =
     (let (_, store) = ForeignClockRecordsVec_prune_stale (foreign_clock_records b) now;
          store = ForeignClockRecordsVec_remember store
                    (ForeignClockRecord_new src ds log_announce_interval now)
      in b\<lparr>foreign_clock_records := store\<rparr>)"

definition BestForeignRecord_snapshot :: "BestForeignRecord \<Rightarrow> BestForeignSnapshot" where
  "BestForeignRecord_snapshot b =
     (case reduce
             (\<lambda>best candidate.
                if QualifiedForeignClockRecord_is_better_than candidate best (bfr_receiver b)
                then candidate else best)
             (List.map_filter ForeignClockRecord_qualified (records (foreign_clock_records b))) of
        Some qualified \<Rightarrow> QualifiedForeignClockRecord_snapshot qualified (bfr_receiver b)
      | None \<Rightarrow> Empty)"

subsection \<open>Candidates across ports\<close>

text \<open>
  \<open>Cell<BestForeignSnapshot>\<close> as a single-port store; \<open>None\<close> is a failed \<open>debug_assert\<close>.
\<close>

definition Cell_remember ::
    "BestForeignSnapshot \<Rightarrow> PortNumber \<Rightarrow> BestForeignSnapshot \<Rightarrow> BestForeignSnapshot option" where
  "Cell_remember cell port snapshot =
     (if port = PortNumber 1 \<and>
         (case snapshot of
            Qualified _ _ rcv \<Rightarrow> pi_port_number rcv = PortNumber 1
          | Empty \<Rightarrow> True)
      then Some snapshot else None)"

definition Cell_best :: "BestForeignSnapshot \<Rightarrow> BestForeignSnapshot" where
  "Cell_best cell = cell"

text \<open>\<open>BTreeMap\<close>: an association list in increasing order of its keys.\<close>

fun btree_insert :: "'k::linorder \<Rightarrow> 'v \<Rightarrow> ('k \<times> 'v) list \<Rightarrow> ('k \<times> 'v) list" where
  "btree_insert k v [] = [(k, v)]"
| "btree_insert k v ((k', v') # m) =
     (if k < k' then (k, v) # (k', v') # m
      else if k = k' then (k, v) # m
      else (k', v') # btree_insert k v m)"

fun btree_remove :: "'k::linorder \<Rightarrow> ('k \<times> 'v) list \<Rightarrow> ('k \<times> 'v) list" where
  "btree_remove k [] = []"
| "btree_remove k ((k', v') # m) = (if k = k' then m else (k', v') # btree_remove k m)"

record MultiPortForeignCandidates =
  by_port :: "(PortNumber \<times> BestForeignSnapshot) list"

definition MultiPortForeignCandidates_new :: MultiPortForeignCandidates where
  "MultiPortForeignCandidates_new = \<lparr>by_port = []\<rparr>"

definition MultiPortForeignCandidates_remember ::
    "MultiPortForeignCandidates \<Rightarrow> PortNumber \<Rightarrow> BestForeignSnapshot \<Rightarrow> MultiPortForeignCandidates" where
  "MultiPortForeignCandidates_remember c port snapshot =
     (case snapshot of
        Qualified _ _ _ \<Rightarrow> c\<lparr>by_port := btree_insert port snapshot (by_port c)\<rparr>
      | Empty \<Rightarrow> c\<lparr>by_port := btree_remove port (by_port c)\<rparr>)"

definition MultiPortForeignCandidates_best :: "MultiPortForeignCandidates \<Rightarrow> BestForeignSnapshot" where
  "MultiPortForeignCandidates_best c =
     foldl (\<lambda>best_snapshot snapshot.
              if BestForeignSnapshot_is_better_or_better_by_topology snapshot best_snapshot
              then snapshot else best_snapshot)
           Empty (map snd (by_port c))"

subsection \<open>Lemmas: updating and selecting in lists\<close>

lemma update_first_None: "update_first p f xs = None \<longleftrightarrow> (\<forall>x\<in>set xs. \<not> p x)"
  by (induction xs) auto

lemma update_first_Some:
  assumes "update_first p f xs = Some ys"
  obtains us x vs where "xs = us @ x # vs" "\<forall>u\<in>set us. \<not> p u" "p x" "ys = us @ f x # vs"
  using assms
proof (induction xs arbitrary: ys thesis)
  case Nil
  then show ?case by simp
next
  case (Cons a xs)
  show ?case
  proof (cases "p a")
    case True
    with Cons.prems(2) show ?thesis by (intro Cons.prems(1) [of "[]" a xs]) auto
  next
    case False
    with Cons.prems(2) obtain zs where zs: "update_first p f xs = Some zs" "ys = a # zs" by auto
    from zs(1) obtain us x vs where
      "xs = us @ x # vs" "\<forall>u\<in>set us. \<not> p u" "p x" "zs = us @ f x # vs"
      by (rule Cons.IH [rotated])
    with zs(2) False show ?thesis by (intro Cons.prems(1) [of "a # us" x vs]) auto
  qed
qed

text \<open>Keeping the better of two, from left to right, selects an element of least key.\<close>

lemma foldl_least:
  fixes k :: "'a \<Rightarrow> 'b::linorder"
  assumes "\<And>a b. a \<in> insert x (set xs) \<Longrightarrow> b \<in> insert x (set xs) \<Longrightarrow> better a b \<longleftrightarrow> k a < k b"
  shows "foldl (\<lambda>b c. if better c b then c else b) x xs \<in> insert x (set xs) \<and>
         (\<forall>y\<in>insert x (set xs). k (foldl (\<lambda>b c. if better c b then c else b) x xs) \<le> k y)"
  using assms
proof (induction xs arbitrary: x)
  case Nil
  then show ?case by simp
next
  case (Cons a xs)
  let ?x = "if better a x then a else x"
  have x: "?x \<in> insert x (set (a # xs))" by simp
  have "foldl (\<lambda>b c. if better c b then c else b) ?x xs \<in> insert ?x (set xs) \<and>
        (\<forall>y\<in>insert ?x (set xs). k (foldl (\<lambda>b c. if better c b then c else b) ?x xs) \<le> k y)"
    using x by (intro Cons.IH Cons.prems) auto
  moreover have "k ?x \<le> k a" "k ?x \<le> k x"
    using Cons.prems [of a x] by auto
  ultimately show ?case
    using x by (auto intro: order_trans)
qed

lemma reduce_None: "reduce f xs = None \<longleftrightarrow> xs = []"
  by (cases xs) auto

lemma set_map_filter: "set (List.map_filter f xs) = {y. \<exists>x\<in>set xs. f x = Some y}"
  by (induction xs) (auto split: option.splits)

subsection \<open>Lemmas: qualification\<close>

lemma Instant_checked_sub_Some:
  "Instant_checked_sub a b = Some d \<longleftrightarrow>
     unat (instant_nanos b) \<le> unat (instant_nanos a) \<and>
     d = Duration (instant_nanos a - instant_nanos b) \<and>
     unat (duration_nanos d) = unat (instant_nanos a) - unat (instant_nanos b)"
  by (auto simp: Instant_checked_sub_def word_le_nat_alt unat_sub)

lemma is_qualified_iff:
  "SlidingWindowQualification_is_qualified q \<longleftrightarrow>
     (\<exists>p. swq_prev q = Some p \<and>
          unat (instant_nanos p) \<le> unat (instant_nanos (swq_last q)) \<and>
          unat (instant_nanos (swq_last q)) - unat (instant_nanos p)
            \<le> unat (duration_nanos (swq_window q)))"
  by (auto simp: SlidingWindowQualification_is_qualified_def Instant_checked_sub_Some
      less_eq_Duration_def word_le_nat_alt Instant_checked_sub_def unat_sub split: option.splits)

lemma is_stale_iff:
  "SlidingWindowQualification_is_stale q now \<longleftrightarrow>
     \<not> (unat (instant_nanos (swq_last q)) \<le> unat (instant_nanos now) \<and>
        unat (instant_nanos now) - unat (instant_nanos (swq_last q))
          \<le> unat (duration_nanos (swq_window q)))"
  by (auto simp: SlidingWindowQualification_is_stale_def less_Duration_def word_less_nat_alt
      word_le_nat_alt Instant_checked_sub_def unat_sub split: option.splits)

lemma not_stale_new [simp]:
  "\<not> ForeignClockRecord_is_stale (ForeignClockRecord_new src ds li now) now"
  by (simp add: ForeignClockRecord_is_stale_def ForeignClockRecord_new_def is_stale_iff
      SlidingWindowQualification_new_unqualified_def)

lemma source_update_from [simp]:
  "source_port_identity (snd (ForeignClockRecord_update_from r new)) = source_port_identity r"
  by (simp add: ForeignClockRecord_update_from_def Let_def)

lemma update_from_eq:
  "snd (ForeignClockRecord_update_from r new) =
     r\<lparr>foreign_clock_ds := foreign_clock_ds new,
       qualification := SlidingWindowQualification_qualify (qualification r)
         (swq_last (qualification new)) (swq_window (qualification new))\<rparr>"
  by (simp add: ForeignClockRecord_update_from_def Let_def)

subsection \<open>The record store as an interface\<close>

text \<open>
  The trait \<open>ForeignClockRecords\<close>: at most one record per source, an update of a known
  source happens in place, an unknown source adds at most the new record, and pruning
  removes exactly the stale records.
\<close>

locale clock_records =
  fixes remember :: "'s \<Rightarrow> ForeignClockRecord \<Rightarrow> 's"
    and iter :: "'s \<Rightarrow> ForeignClockRecord list"
    and prune_stale :: "'s \<Rightarrow> Instant \<Rightarrow> bool \<times> 's"
    and invar :: "'s \<Rightarrow> bool"
  assumes distinct_sources: "invar s \<Longrightarrow> distinct (map source_port_identity (iter s))"
    and invar_remember: "invar s \<Longrightarrow> invar (remember s r)"
    and invar_prune: "invar s \<Longrightarrow> invar (snd (prune_stale s now))"
    and iter_prune: "invar s \<Longrightarrow>
      iter (snd (prune_stale s now)) = filter (\<lambda>r. \<not> ForeignClockRecord_is_stale r now) (iter s)"
    and remember_known: "invar s \<Longrightarrow> e \<in> set (iter s) \<Longrightarrow>
      source_port_identity e = source_port_identity r \<Longrightarrow>
      set (iter (remember s r))
        = insert (snd (ForeignClockRecord_update_from e r)) (set (iter s) - {e})"
    and remember_unknown: "invar s \<Longrightarrow>
      \<forall>e\<in>set (iter s). source_port_identity e \<noteq> source_port_identity r \<Longrightarrow>
      set (iter (remember s r)) \<subseteq> insert r (set (iter s))"
begin

lemma remember_cases:
  assumes "invar s" "e \<in> set (iter (remember s r))"
  obtains (kept) "e \<in> set (iter s)" "source_port_identity e \<noteq> source_port_identity r"
  | (updated) e0 where "e0 \<in> set (iter s)" "source_port_identity e0 = source_port_identity r"
      "e = snd (ForeignClockRecord_update_from e0 r)"
  | (new) "e = r" "\<forall>e\<in>set (iter s). source_port_identity e \<noteq> source_port_identity r"
proof (cases "\<exists>e0\<in>set (iter s). source_port_identity e0 = source_port_identity r")
  case True
  then obtain e0 where e0: "e0 \<in> set (iter s)" "source_port_identity e0 = source_port_identity r"
    by blast
  have "source_port_identity x \<noteq> source_port_identity r" if "x \<in> set (iter s) - {e0}" for x
    using distinct_sources [OF assms(1)] e0 that by (metis Diff_iff distinct_map inj_onD singletonI)
  with assms(2) remember_known [OF assms(1) e0] show ?thesis
    by (metis insertE e0 Diff_iff that(1) that(2))
next
  case False
  with assms remember_unknown [OF assms(1), of r] show ?thesis
    by (metis in_mono insertE that(1) that(3))
qed

text \<open>After a considered announce message every record is fresh.\<close>

lemma fresh_after_consider:
  assumes "invar s"
    and "e \<in> set (iter (remember (snd (prune_stale s now)) (ForeignClockRecord_new src ds li now)))"
  shows "\<not> ForeignClockRecord_is_stale e now"
proof (rule remember_cases [OF invar_prune [OF assms(1)] assms(2)])
  assume "e \<in> set (iter (snd (prune_stale s now)))"
  then show ?thesis by (simp add: iter_prune [OF assms(1)])
next
  fix e0
  assume "e = snd (ForeignClockRecord_update_from e0 (ForeignClockRecord_new src ds li now))"
  then show ?thesis
    by (simp add: update_from_eq ForeignClockRecord_is_stale_def is_stale_iff
        SlidingWindowQualification_qualify_def ForeignClockRecord_new_def
        SlidingWindowQualification_new_unqualified_def)
next
  assume "e = ForeignClockRecord_new src ds li now"
  then show ?thesis by simp
qed

end

lemma Vec_remember_records:
  "records (ForeignClockRecordsVec_remember v r) =
     (case update_first (\<lambda>x. source_port_identity x = source_port_identity r)
             (\<lambda>x. snd (ForeignClockRecord_update_from x r)) (records v) of
        Some rs \<Rightarrow> rs | None \<Rightarrow> records v @ [r])"
  by (simp add: ForeignClockRecordsVec_remember_def ForeignClockRecord_same_source_as_def
      split: option.splits)

definition wf_vec :: "ForeignClockRecordsVec \<Rightarrow> bool" where
  "wf_vec v \<longleftrightarrow> distinct (map source_port_identity (records v))"

interpretation vec_store: clock_records
  ForeignClockRecordsVec_remember records ForeignClockRecordsVec_prune_stale wf_vec
proof (unfold_locales, goal_cases)
  case (1 s)
  then show ?case by (simp add: wf_vec_def)
next
  case (2 s r)
  then show ?case
    by (auto simp: wf_vec_def Vec_remember_records update_first_None split: option.splits
        elim!: update_first_Some)
next
  case (3 s now)
  then show ?case
    by (simp add: wf_vec_def ForeignClockRecordsVec_prune_stale_def distinct_map_filter)
next
  case (4 s now)
  then show ?case by (simp add: ForeignClockRecordsVec_prune_stale_def)
next
  case (5 s e r)
  then obtain rs where rs: "update_first (\<lambda>x. source_port_identity x = source_port_identity r)
      (\<lambda>x. snd (ForeignClockRecord_update_from x r)) (records s) = Some rs"
    by (metis (mono_tags, lifting) not_Some_eq update_first_None)
  then obtain us x vs where
    "records s = us @ x # vs" "source_port_identity x = source_port_identity r"
    "rs = us @ snd (ForeignClockRecord_update_from x r) # vs"
    by (rule update_first_Some)
  moreover have "records (ForeignClockRecordsVec_remember s r) = rs"
    by (simp add: Vec_remember_records rs)
  moreover have "x = e"
    using 5 calculation by (auto simp: wf_vec_def) (metis image_eqI)+
  ultimately show ?case
    using 5(1) by (auto simp: wf_vec_def) (metis image_eqI)+
next
  case (6 s r)
  then have "update_first (\<lambda>x. source_port_identity x = source_port_identity r)
      (\<lambda>x. snd (ForeignClockRecord_update_from x r)) (records s) = None"
    by (simp add: update_first_None)
  then show ?case by (simp add: Vec_remember_records)
qed

subsection \<open>Records are justified by the announce messages received\<close>

text \<open>
  An announce observation, and what a record must agree with in the history of all
  observations (oldest first): the last observation of its source, and, where the record
  has a previous time, the observation of that source before it.
\<close>

record observation =
  obs_source :: PortIdentity
  obs_ds :: ClockDS
  obs_interval :: LogInterval
  obs_time :: Instant

abbreviation of_source :: "PortIdentity \<Rightarrow> observation list \<Rightarrow> observation list" where
  "of_source src \<equiv> filter (\<lambda>a. obs_source a = src)"

definition justified :: "observation list \<Rightarrow> ForeignClockRecord \<Rightarrow> bool" where
  "justified h r \<longleftrightarrow>
     (\<exists>us a. of_source (source_port_identity r) h = us @ [a] \<and>
        foreign_clock_ds r = obs_ds a \<and>
        swq_last (qualification r) = obs_time a \<and>
        swq_window (qualification r) = ForeignMasterTimeWindow_duration (obs_interval a) \<and>
        (\<forall>p. swq_prev (qualification r) = Some p \<longrightarrow> us \<noteq> [] \<and> p = obs_time (last us)))"

definition observe :: "BestForeignRecord \<Rightarrow> observation \<Rightarrow> BestForeignRecord" where
  "observe b a = BestForeignRecord_consider b (obs_source a) (obs_ds a) (obs_interval a) (obs_time a)"

context clock_records
begin

lemma justified_consider:
  assumes "invar s" and h: "\<forall>e\<in>set (iter s). justified h e"
    and e: "e \<in> set (iter (remember (snd (prune_stale s (obs_time a)))
              (ForeignClockRecord_new (obs_source a) (obs_ds a) (obs_interval a) (obs_time a))))"
  shows "justified (h @ [a]) e"
proof -
  let ?r = "ForeignClockRecord_new (obs_source a) (obs_ds a) (obs_interval a) (obs_time a)"
  have src: "source_port_identity ?r = obs_source a"
    by (simp add: ForeignClockRecord_new_def)
  note new_def = ForeignClockRecord_new_def SlidingWindowQualification_new_unqualified_def
  from e show ?thesis
  proof (cases rule: remember_cases [OF invar_prune [OF assms(1)], consumes 1, case_names kept updated new])
    case kept
    with h src show ?thesis by (simp add: iter_prune [OF assms(1)] justified_def)
  next
    case (updated e0)
    with h src show ?thesis
      by (auto simp: iter_prune [OF assms(1)] justified_def update_from_eq new_def
          SlidingWindowQualification_qualify_def)
  next
    case new
    then show ?thesis by (simp add: justified_def new_def)
  qed
qed

end

lemma observe_simps [simp]:
  "bfr_receiver (observe b a) = bfr_receiver b"
  "foreign_clock_records (observe b a) =
     ForeignClockRecordsVec_remember
       (snd (ForeignClockRecordsVec_prune_stale (foreign_clock_records b) (obs_time a)))
       (ForeignClockRecord_new (obs_source a) (obs_ds a) (obs_interval a) (obs_time a))"
  by (simp_all add: observe_def BestForeignRecord_consider_def Let_def split: prod.splits)

definition wf_best :: "BestForeignRecord \<Rightarrow> bool" where
  "wf_best b \<longleftrightarrow> wf_vec (foreign_clock_records b)"

lemma wf_best_observe: "wf_best b \<Longrightarrow> wf_best (observe b a)"
  by (simp add: wf_best_def vec_store.invar_remember vec_store.invar_prune)

lemma justified_run:
  assumes "wf_best b" "\<forall>e\<in>set (records (foreign_clock_records b)). justified h e"
  shows "wf_best (foldl observe b as) \<and>
    (\<forall>e\<in>set (records (foreign_clock_records (foldl observe b as))). justified (h @ as) e)"
  using assms
proof (induction as arbitrary: b h)
  case Nil
  then show ?case by simp
next
  case (Cons a as)
  have "\<forall>e\<in>set (records (foreign_clock_records (observe b a))). justified (h @ [a]) e"
    using Cons.prems vec_store.justified_consider by (auto simp: wf_best_def)
  with Cons.IH [of "observe b a" "h @ [a]"] Cons.prems(1) show ?case
    by (simp add: wf_best_observe)
qed

subsection \<open>Lemmas: the snapshot\<close>

lemma set_qualified:
  "set (List.map_filter ForeignClockRecord_qualified rs) =
     {\<lparr>qfr_dataset = foreign_clock_ds r, qfr_source_port_identity = source_port_identity r\<rparr> |r.
        r \<in> set rs \<and> SlidingWindowQualification_is_qualified (qualification r)}"
  by (auto simp: set_map_filter ForeignClockRecord_qualified_def split: if_splits)

lemma reduce_mem: "reduce (\<lambda>b c. if better c b then c else b) xs = Some y \<Longrightarrow> y \<in> set xs"
proof (cases xs)
  case (Cons x zs)
  have "foldl (\<lambda>b c. if better c b then c else b) x zs \<in> insert x (set zs)"
    by (induction zs arbitrary: x) auto
  then show "reduce (\<lambda>b c. if better c b then c else b) xs = Some y \<Longrightarrow> y \<in> set xs"
    using Cons by auto
qed simp

lemma snapshot_Qualified:
  assumes "BestForeignRecord_snapshot b = Qualified ds src rcv"
  shows "rcv = bfr_receiver b \<and>
    (\<exists>r\<in>set (records (foreign_clock_records b)).
       SlidingWindowQualification_is_qualified (qualification r) \<and>
       foreign_clock_ds r = ds \<and> source_port_identity r = src)"
  using assms
  by (auto simp: BestForeignRecord_snapshot_def QualifiedForeignClockRecord_snapshot_def
      set_qualified split: option.splits dest!: reduce_mem) blast

lemma snapshot_Empty:
  "BestForeignRecord_snapshot b = Empty \<longleftrightarrow>
     (\<forall>r\<in>set (records (foreign_clock_records b)).
        \<not> SlidingWindowQualification_is_qualified (qualification r))"
proof -
  have "BestForeignRecord_snapshot b = Empty \<longleftrightarrow>
      List.map_filter ForeignClockRecord_qualified (records (foreign_clock_records b)) = []"
    by (auto simp: BestForeignRecord_snapshot_def QualifiedForeignClockRecord_snapshot_def
        reduce_None split: option.splits)
  also have "\<dots> \<longleftrightarrow> (\<forall>r\<in>set (records (foreign_clock_records b)).
        \<not> SlidingWindowQualification_is_qualified (qualification r))"
    unfolding set_empty [symmetric] set_qualified by auto
  finally show ?thesis .
qed

text \<open>
  The records of one port that can be compared by rank: consistent data sets, none of them
  sent by the receiving port itself.
\<close>

definition comparable_records :: "BestForeignRecord \<Rightarrow> bool" where
  "comparable_records b \<longleftrightarrow>
     (\<forall>r\<in>set (records (foreign_clock_records b)).
        source_port_identity r \<noteq> bfr_receiver b \<and>
        (\<forall>r'\<in>set (records (foreign_clock_records b)).
           consistent_ds (foreign_clock_ds r) (foreign_clock_ds r')))"

lemma snapshot_least_rank:
  assumes cmp: "comparable_records b"
    and r: "r \<in> set (records (foreign_clock_records b))"
    and q: "SlidingWindowQualification_is_qualified (qualification r)"
  shows "\<exists>ds src. BestForeignRecord_snapshot b = Qualified ds src (bfr_receiver b) \<and>
    rank ds src (bfr_receiver b) \<le> rank (foreign_clock_ds r) (source_port_identity r) (bfr_receiver b)"
proof -
  let ?qs = "List.map_filter ForeignClockRecord_qualified (records (foreign_clock_records b))"
  let ?k = "\<lambda>c. rank (qfr_dataset c) (qfr_source_port_identity c) (bfr_receiver b)"
  let ?better = "\<lambda>c c'. QualifiedForeignClockRecord_is_better_than c c' (bfr_receiver b)"
  let ?rq = "\<lparr>qfr_dataset = foreign_clock_ds r, qfr_source_port_identity = source_port_identity r\<rparr>"
  have rq: "?rq \<in> set ?qs" using r q by (auto simp: set_qualified)
  then obtain x xs where xs: "?qs = x # xs" by (cases ?qs) auto
  have better: "?better c c' \<longleftrightarrow> ?k c < ?k c'" if "c \<in> insert x (set xs)" "c' \<in> insert x (set xs)"
    for c c'
  proof -
    from that have "c \<in> set ?qs" "c' \<in> set ?qs" by (simp_all add: xs)
    with cmp show ?thesis
      by (auto simp: set_qualified comparable_records_def QualifiedForeignClockRecord_is_better_than_def
          intro!: better_iff_rank)
  qed
  let ?m = "foldl (\<lambda>b c. if ?better c b then c else b) x xs"
  have "\<forall>y\<in>insert x (set xs). ?k ?m \<le> ?k y"
    using foldl_least [of x xs ?better ?k, OF better] by blast
  then have "?k ?m \<le> ?k ?rq"
    using rq unfolding xs list.set by (rule bspec)
  then show ?thesis
    by (auto simp: BestForeignRecord_snapshot_def xs QualifiedForeignClockRecord_snapshot_def)
qed

subsection \<open>The candidate store as an interface\<close>

text \<open>
  The trait \<open>ForeignGrandMasterCandidates\<close>: \<open>reported\<close> is what each port last reported;
  \<open>admits\<close> are the reports the store is built for.
\<close>

locale gm_candidates =
  fixes remember :: "'s \<Rightarrow> PortNumber \<Rightarrow> BestForeignSnapshot \<Rightarrow> 's option"
    and best :: "'s \<Rightarrow> BestForeignSnapshot"
    and reported :: "'s \<Rightarrow> PortNumber \<Rightarrow> BestForeignSnapshot"
    and admits :: "PortNumber \<Rightarrow> BestForeignSnapshot \<Rightarrow> bool"
    and invar :: "'s \<Rightarrow> bool"
  assumes remember_admitted: "invar s \<Longrightarrow> admits p x \<Longrightarrow>
      \<exists>s'. remember s p x = Some s' \<and> invar s' \<and> reported s' = (reported s)(p := x)"
    and best_reported: "invar s \<Longrightarrow> best s \<noteq> Empty \<Longrightarrow> \<exists>p. reported s p = best s"
    and best_Empty: "invar s \<Longrightarrow> best s = Empty \<Longrightarrow> reported s p = Empty"
begin

text \<open>A sequence of admitted reports never fails, and the best is one of the last reports.\<close>

fun remember_all :: "'s \<Rightarrow> (PortNumber \<times> BestForeignSnapshot) list \<Rightarrow> 's option" where
  "remember_all s [] = Some s"
| "remember_all s ((p, x) # rs) = do { s' \<leftarrow> remember s p x; remember_all s' rs }"

lemma remember_all_ok:
  assumes "invar s" "\<forall>(p, x)\<in>set rs. admits p x"
  shows "\<exists>s'. remember_all s rs = Some s' \<and> invar s' \<and>
    reported s' = foldl (\<lambda>f (p, x). f(p := x)) (reported s) rs"
  using assms
proof (induction rs arbitrary: s)
  case Nil
  then show ?case by simp
next
  case (Cons r rs)
  obtain p x where r: "r = (p, x)" by force
  obtain s1 where s1: "remember s p x = Some s1" "invar s1" "reported s1 = (reported s)(p := x)"
    using remember_admitted [of s p x] Cons.prems r by auto
  with Cons.IH [of s1] Cons.prems r show ?case by simp
qed

lemma best_after_report:
  assumes "invar s" "admits p x" "remember s p x = Some s'" "x \<noteq> Empty"
  shows "best s' \<noteq> Empty"
  using remember_admitted [OF assms(1,2)] assms(3,4) best_Empty
  by (metis fun_upd_same option.inject)

end

subsection \<open>The two candidate stores\<close>

definition wf_candidates :: "MultiPortForeignCandidates \<Rightarrow> bool" where
  "wf_candidates c \<longleftrightarrow> sorted (map fst (by_port c)) \<and> distinct (map fst (by_port c)) \<and>
     Empty \<notin> snd ` set (by_port c)"

definition reported_by :: "MultiPortForeignCandidates \<Rightarrow> PortNumber \<Rightarrow> BestForeignSnapshot" where
  "reported_by c p = (case map_of (by_port c) p of Some x \<Rightarrow> x | None \<Rightarrow> Empty)"

lemma set_btree_insert:
  "distinct (map fst m) \<Longrightarrow> sorted (map fst m) \<Longrightarrow>
   set (btree_insert k v m) = insert (k, v) {e \<in> set m. fst e \<noteq> k}"
  by (induction k v m rule: btree_insert.induct) force+

lemma map_of_btree_insert:
  "distinct (map fst m) \<Longrightarrow> sorted (map fst m) \<Longrightarrow> map_of (btree_insert k v m) = (map_of m)(k \<mapsto> v)"
  by (induction k v m rule: btree_insert.induct) (auto simp: fun_eq_iff)

lemma sorted_btree_insert:
  assumes "distinct (map fst m)" "sorted (map fst m)"
  shows "sorted (map fst (btree_insert k v m)) \<and> distinct (map fst (btree_insert k v m))"
  using assms
proof (induction k v m rule: btree_insert.induct)
  case (2 k v k' v' m)
  then show ?case by (auto simp: set_btree_insert)
qed simp

lemma set_btree_remove:
  "distinct (map fst m) \<Longrightarrow> set (btree_remove k m) = {e \<in> set m. fst e \<noteq> k}"
  by (induction k m rule: btree_remove.induct) force+

lemma map_of_btree_remove:
  "distinct (map fst m) \<Longrightarrow> map_of (btree_remove k m) = (map_of m)(k := None)"
  by (induction k m rule: btree_remove.induct) (auto simp: fun_eq_iff map_of_eq_None_iff)

lemma sorted_btree_remove:
  "distinct (map fst m) \<Longrightarrow> sorted (map fst m) \<Longrightarrow>
   sorted (map fst (btree_remove k m)) \<and> distinct (map fst (btree_remove k m))"
  by (induction k m rule: btree_remove.induct) (auto simp: set_btree_remove)

lemma candidates_remember:
  assumes "wf_candidates c"
  shows "wf_candidates (MultiPortForeignCandidates_remember c p x) \<and>
    reported_by (MultiPortForeignCandidates_remember c p x) = (reported_by c)(p := x)"
proof (cases x)
  case Empty
  with assms show ?thesis
    by (auto simp: wf_candidates_def MultiPortForeignCandidates_remember_def reported_by_def
        sorted_btree_remove set_btree_remove map_of_btree_remove fun_eq_iff)
next
  case (Qualified ds src rcv)
  with assms show ?thesis
    by (auto simp: wf_candidates_def MultiPortForeignCandidates_remember_def reported_by_def
        sorted_btree_insert set_btree_insert map_of_btree_insert fun_eq_iff)
qed

lemma foldl_best_mem:
  "foldl (\<lambda>b c. if better c b then c else b) x xs \<in> insert x (set xs)"
  by (induction xs arbitrary: x) auto

lemma best_not_Empty:
  assumes "xs \<noteq> []" "Empty \<notin> set xs"
  shows "foldl (\<lambda>b c. if BestForeignSnapshot_is_better_or_better_by_topology c b then c else b)
           Empty xs \<in> set xs"
proof -
  from assms(1) obtain y ys where ys: "xs = y # ys" by (cases xs) auto
  with assms(2) obtain ds src rcv where "y = Qualified ds src rcv" by (cases y) auto
  with ys foldl_best_mem [of BestForeignSnapshot_is_better_or_better_by_topology y ys]
  show ?thesis by simp
qed

interpretation multi_port: gm_candidates
  "\<lambda>c p x. Some (MultiPortForeignCandidates_remember c p x)" MultiPortForeignCandidates_best
  reported_by "\<lambda>_ _. True" wf_candidates
proof (unfold_locales, goal_cases)
  case (1 c p x)
  then show ?case by (simp add: candidates_remember)
next
  case (2 c)
  then have ne: "map snd (by_port c) \<noteq> []"
    by (auto simp: MultiPortForeignCandidates_best_def)
  with 2 have "MultiPortForeignCandidates_best c \<in> set (map snd (by_port c))"
    unfolding MultiPortForeignCandidates_best_def
    by (intro best_not_Empty) (auto simp: wf_candidates_def)
  with 2(1) show ?case
    by (auto simp: reported_by_def wf_candidates_def) (metis map_of_is_SomeI option.simps(5))
next
  case (3 c p)
  have "by_port c = []"
  proof (rule ccontr)
    assume "by_port c \<noteq> []"
    then have "MultiPortForeignCandidates_best c \<in> set (map snd (by_port c))"
      unfolding MultiPortForeignCandidates_best_def
      using 3(1) by (intro best_not_Empty) (auto simp: wf_candidates_def)
    with 3 show False by (auto simp: wf_candidates_def image_iff)
  qed
  then show ?case by (simp add: reported_by_def)
qed

text \<open>The reports of the ports when they can be compared by rank, with each other and with the own data set \<open>d0\<close>: consistent
  data sets, none of them received from the receiving port itself. The best of them is then one of least rank.\<close>

definition comparable_reports :: "ClockDS \<Rightarrow> MultiPortForeignCandidates \<Rightarrow> bool" where
  "comparable_reports d0 c \<longleftrightarrow>
     (\<forall>n ds src rcv. reported_by c n = Qualified ds src rcv \<longrightarrow> src \<noteq> rcv \<and> consistent_ds d0 ds \<and>
        (\<forall>n' ds' src' rcv'. reported_by c n' = Qualified ds' src' rcv' \<longrightarrow> consistent_ds ds ds'))"

lemma best_least_rank:
  assumes wf: "wf_candidates c" and cmp: "comparable_reports d0 c" and r: "reported_by c n = Qualified ds' src' rcv'"
  shows "\<exists>ds src rcv. MultiPortForeignCandidates_best c = Qualified ds src rcv \<and> rank ds src rcv \<le> rank ds' src' rcv'"
proof -
  let ?better = BestForeignSnapshot_is_better_or_better_by_topology
  let ?k = "\<lambda>x. rank (snap_ds x) (snap_source x) (snap_receiver x)"
  let ?xs = "map snd (by_port c)"
  have mem: "Qualified ds' src' rcv' \<in> set ?xs"
    using r by (force simp: reported_by_def dest!: map_of_SomeD split: option.splits)
  then obtain y ys where ys: "?xs = y # ys" by (cases ?xs) auto
  have rep: "\<exists>n ds src rcv. x = Qualified ds src rcv \<and> reported_by c n = x" if x: "x \<in> set ?xs" for x
  proof -
    obtain n where n: "(n, x) \<in> set (by_port c)" using x by auto
    then have "map_of (by_port c) n = Some x" "x \<noteq> Empty" using wf by (force simp: wf_candidates_def)+
    then show ?thesis by (cases x) (auto simp: reported_by_def intro!: exI[of _ n])
  qed
  have better: "?better x x' \<longleftrightarrow> ?k x < ?k x'" if x: "x \<in> set ?xs" and x2: "x' \<in> set ?xs" for x x'
  proof -
    obtain n ds src rcv n' ds' src' rcv' where "x = Qualified ds src rcv" "reported_by c n = Qualified ds src rcv"
      "x' = Qualified ds' src' rcv'" "reported_by c n' = Qualified ds' src' rcv'"
      using rep[OF x] rep[OF x2] by metis
    moreover from this have "consistent_ds ds ds'" "src' \<noteq> rcv'" using cmp unfolding comparable_reports_def by blast+
    ultimately show ?thesis using better_iff_rank by simp
  qed
  have y: "?better y Empty" using rep[of y] ys by (auto)
  let ?m = "foldl (\<lambda>b c. if ?better c b then c else b) y ys"
  have m: "MultiPortForeignCandidates_best c = ?m" using y by (simp add: MultiPortForeignCandidates_best_def ys)
  have "?m \<in> set ?xs \<and> (\<forall>x \<in> set ?xs. ?k ?m \<le> ?k x)"
    using foldl_least[of y ys ?better ?k] better unfolding ys by simp
  with mem rep[of ?m] m show ?thesis by fastforce
qed

interpretation single_port: gm_candidates
  Cell_remember Cell_best "\<lambda>cell p. if p = PortNumber 1 then cell else Empty"
  "\<lambda>p x. p = PortNumber 1 \<and> (x = Empty \<or> pi_port_number (snap_receiver x) = PortNumber 1)"
  "\<lambda>_. True"
  by unfold_locales
    (auto simp: Cell_remember_def Cell_best_def fun_eq_iff split: BestForeignSnapshot.splits)

lemma snapshot_qualified_record:
  assumes "wf_best b" and "\<forall>e\<in>set (records (foreign_clock_records b)). justified h e"
    and "BestForeignRecord_snapshot b = Qualified ds src rcv"
  shows "\<exists>us a1 a2. of_source src h = us @ [a1, a2] \<and> obs_ds a2 = ds \<and>
    unat (instant_nanos (obs_time a1)) \<le> unat (instant_nanos (obs_time a2)) \<and>
    unat (instant_nanos (obs_time a2)) - unat (instant_nanos (obs_time a1))
      \<le> unat (duration_nanos (ForeignMasterTimeWindow_duration (obs_interval a2)))"
proof -
  from snapshot_Qualified [OF assms(3)] obtain r where
    r: "r \<in> set (records (foreign_clock_records b))" "SlidingWindowQualification_is_qualified (qualification r)"
      "foreign_clock_ds r = ds" "source_port_identity r = src" by blast
  from r(1) assms(2) have "justified h r" by blast
  with r(3,4) obtain us a where
    a: "of_source src h = us @ [a]" "ds = obs_ds a" "swq_last (qualification r) = obs_time a"
      "swq_window (qualification r) = ForeignMasterTimeWindow_duration (obs_interval a)"
      "\<forall>p. swq_prev (qualification r) = Some p \<longrightarrow> us \<noteq> [] \<and> p = obs_time (last us)"
    by (auto simp: justified_def)
  from r(2) obtain p where p: "swq_prev (qualification r) = Some p"
    "unat (instant_nanos p) \<le> unat (instant_nanos (obs_time a))"
    "unat (instant_nanos (obs_time a)) - unat (instant_nanos p)
       \<le> unat (duration_nanos (ForeignMasterTimeWindow_duration (obs_interval a)))"
    unfolding is_qualified_iff a(3,4) by blast
  with a(5) have us: "us \<noteq> []" "p = obs_time (last us)" by auto
  then have "of_source src h = butlast us @ [last us, a]" using a(1) by simp
  with p us(2) a(2) show ?thesis by blast
qed

subsection \<open>Properties\<close>

text \<open>C25: Whatever announce messages a port has considered since it started with an empty record
  store, the snapshot it offers the best master clock algorithm is justified by them: its data
  set is that of the last announce of its source, and the last two announces of that source
  are at most the foreign master time window (four announce intervals) apart. One announce
  never qualifies a clock.\<close>

theorem snapshot_justified:
  assumes "BestForeignRecord_snapshot
      (foldl observe \<lparr>bfr_receiver = r, foreign_clock_records = ForeignClockRecordsVec_new\<rparr> as)
      = Qualified ds src rcv"
  shows "rcv = r \<and> (\<exists>us a1 a2. of_source src as = us @ [a1, a2] \<and> obs_ds a2 = ds \<and>
    unat (instant_nanos (obs_time a1)) \<le> unat (instant_nanos (obs_time a2)) \<and>
    unat (instant_nanos (obs_time a2)) - unat (instant_nanos (obs_time a1))
      \<le> unat (duration_nanos (ForeignMasterTimeWindow_duration (obs_interval a2))))"
proof -
  let ?b = "\<lparr>bfr_receiver = r, foreign_clock_records = ForeignClockRecordsVec_new\<rparr>"
  have "wf_best ?b" "\<forall>e\<in>set (records (foreign_clock_records ?b)). justified [] e"
    by (simp_all add: wf_best_def wf_vec_def ForeignClockRecordsVec_new_def)
  from justified_run [OF this, of as] have
    "wf_best (foldl observe ?b as)"
    "\<forall>e\<in>set (records (foreign_clock_records (foldl observe ?b as))). justified as e" by simp_all
  note * = snapshot_qualified_record [OF this assms]
  have "bfr_receiver (foldl observe b as) = bfr_receiver b" for b
    by (induction as arbitrary: b) simp_all
  with snapshot_Qualified [OF assms] * show ?thesis by simp
qed

definition demo_announce :: "u32 \<Rightarrow> observation" where
  "demo_announce s = \<lparr>obs_source = demo_master, obs_ds = demo_master_ds, obs_interval = LogInterval 0,
     obs_time = Instant_from_secs s\<rparr>"

lemma demo_window:
  "unat (duration_nanos (ForeignMasterTimeWindow_duration (LogInterval 0))) = 4000000000"
  by (simp add: ForeignMasterTimeWindow_duration_def LogInterval_duration_def Duration_saturating_mul_def
      Duration_from_nanos_def saturating_mul_def Let_def MIN_LOG_VALUE_def MAX_LOG_VALUE_def)

lemma demo_instants: "unat (instant_nanos (Instant_from_secs 1)) = 1000000000"
  "unat (instant_nanos (Instant_from_secs 2)) = 2000000000"
  by (simp_all add: Instant_from_secs_def Instant_from_nanos_def)

theorem snapshot_justified_witness:
  "\<exists>us a1 a2. of_source demo_master [demo_announce 1, demo_announce 2] = us @ [a1, a2] \<and> obs_ds a2 = demo_master_ds"
proof -
  have "BestForeignRecord_snapshot
      (foldl observe \<lparr>bfr_receiver = demo_self, foreign_clock_records = ForeignClockRecordsVec_new\<rparr>
         [demo_announce 1, demo_announce 2]) = Qualified demo_master_ds demo_master demo_self"
    by (simp add: demo_announce_def BestForeignRecord_snapshot_def Vec_remember_records
        ForeignClockRecordsVec_prune_stale_def ForeignClockRecordsVec_new_def update_from_eq
        ForeignClockRecord_new_def SlidingWindowQualification_new_unqualified_def
        ForeignClockRecord_is_stale_def is_stale_iff is_qualified_iff ForeignClockRecord_qualified_def
        SlidingWindowQualification_qualify_def QualifiedForeignClockRecord_snapshot_def
        demo_window demo_instants)
  from snapshot_justified [OF this] show ?thesis by blast
qed

lemma record_after_observe:
  "\<exists>e\<in>set (records (foreign_clock_records (observe b a))).
    source_port_identity e = obs_source a \<and> swq_last (qualification e) = obs_time a \<and>
    swq_window (qualification e) = ForeignMasterTimeWindow_duration (obs_interval a) \<and>
    foreign_clock_ds e = obs_ds a"
  by (auto simp: Vec_remember_records update_from_eq ForeignClockRecord_new_def
      SlidingWindowQualification_new_unqualified_def SlidingWindowQualification_qualify_def
      split: option.splits elim!: update_first_Some)

text \<open>C26: Two announce messages of one source, considered one after the other within the foreign
  master time window of both, qualify the source, whatever the store held before: the snapshot
  is then not empty.\<close>

theorem two_announces_qualify:
  assumes "wf_best b" and "obs_source a2 = obs_source a1"
    and "unat (instant_nanos (obs_time a1)) \<le> unat (instant_nanos (obs_time a2))"
    and "unat (instant_nanos (obs_time a2)) - unat (instant_nanos (obs_time a1))
      \<le> min (unat (duration_nanos (ForeignMasterTimeWindow_duration (obs_interval a1))))
            (unat (duration_nanos (ForeignMasterTimeWindow_duration (obs_interval a2))))"
  shows "BestForeignRecord_snapshot (observe (observe b a1) a2) \<noteq> Empty"
proof -
  let ?s = "snd (ForeignClockRecordsVec_prune_stale (foreign_clock_records (observe b a1)) (obs_time a2))"
  let ?r = "ForeignClockRecord_new (obs_source a2) (obs_ds a2) (obs_interval a2) (obs_time a2)"
  from record_after_observe [of b a1] obtain e where
    e: "e \<in> set (records (foreign_clock_records (observe b a1)))" "source_port_identity e = obs_source a1"
      "swq_last (qualification e) = obs_time a1"
      "swq_window (qualification e) = ForeignMasterTimeWindow_duration (obs_interval a1)" by blast
  have wf: "wf_vec (foreign_clock_records (observe b a1))"
    using wf_best_observe [OF assms(1)] by (simp add: wf_best_def del: observe_simps)
  have "e \<in> set (records ?s)"
    using e assms(3,4) unfolding vec_store.iter_prune [OF wf]
    by (simp add: ForeignClockRecord_is_stale_def is_stale_iff del: observe_simps)
  from vec_store.remember_known [OF vec_store.invar_prune [OF wf] this, of ?r]
  have "snd (ForeignClockRecord_update_from e ?r)
      \<in> set (records (foreign_clock_records (observe (observe b a1) a2)))"
    using e(2) assms(2) observe_simps(2) [of "observe b a1" a2]
    by (simp add: ForeignClockRecord_new_def del: observe_simps)
  moreover have "SlidingWindowQualification_is_qualified
      (qualification (snd (ForeignClockRecord_update_from e ?r)))"
    using assms(3,4) e(3)
    by (simp add: update_from_eq ForeignClockRecord_new_def is_qualified_iff
        SlidingWindowQualification_new_unqualified_def SlidingWindowQualification_qualify_def)
  ultimately show ?thesis unfolding snapshot_Empty by blast
qed

theorem two_announces_qualify_witness:
  "BestForeignRecord_snapshot (observe (observe
     \<lparr>bfr_receiver = demo_self, foreign_clock_records = ForeignClockRecordsVec_new\<rparr>
     (demo_announce 1)) (demo_announce 2)) \<noteq> Empty"
  by (rule two_announces_qualify)
    (simp_all add: wf_best_def wf_vec_def ForeignClockRecordsVec_new_def demo_announce_def
      demo_window demo_instants)

text \<open>Among the records of a port with consistent data sets, none of them its own, the
  snapshot is a qualified record of least rank: no qualified record beats the one the port
  offers, and an empty snapshot means that nothing is qualified.\<close>

theorem snapshot_is_best:
  assumes "comparable_records b" and "r \<in> set (records (foreign_clock_records b))"
    and "SlidingWindowQualification_is_qualified (qualification r)"
  shows "\<exists>r0\<in>set (records (foreign_clock_records b)).
    SlidingWindowQualification_is_qualified (qualification r0) \<and>
    BestForeignRecord_snapshot b = Qualified (foreign_clock_ds r0) (source_port_identity r0) (bfr_receiver b) \<and>
    \<not> ForeignClockRecord_is_better_than r r0 (bfr_receiver b)"
proof -
  from snapshot_least_rank [OF assms] obtain ds src where
    s: "BestForeignRecord_snapshot b = Qualified ds src (bfr_receiver b)"
      "rank ds src (bfr_receiver b) \<le> rank (foreign_clock_ds r) (source_port_identity r) (bfr_receiver b)"
    by blast
  from snapshot_Qualified [OF s(1)] obtain r0 where
    r0: "r0 \<in> set (records (foreign_clock_records b))" "SlidingWindowQualification_is_qualified (qualification r0)"
      "foreign_clock_ds r0 = ds" "source_port_identity r0 = src" by blast
  have "consistent_ds (foreign_clock_ds r) (foreign_clock_ds r0)" "source_port_identity r0 \<noteq> bfr_receiver b"
    using assms(1,2) r0(1) by (auto simp: comparable_records_def)
  then have "\<not> ForeignClockRecord_is_better_than r r0 (bfr_receiver b)"
    using s(2) r0(3,4) by (simp add: ForeignClockRecord_is_better_than_def better_iff_rank not_less)
  with s(1) r0 show ?thesis by blast
qed

theorem snapshot_is_best_witness:
  "\<exists>b r. r \<in> set (records (foreign_clock_records b)) \<and> (\<exists>r0\<in>set (records (foreign_clock_records b)).
    BestForeignRecord_snapshot b = Qualified (foreign_clock_ds r0) (source_port_identity r0) (bfr_receiver b) \<and>
    \<not> ForeignClockRecord_is_better_than r r0 (bfr_receiver b))"
proof -
  let ?r = "\<lparr>source_port_identity = demo_master, foreign_clock_ds = demo_master_ds,
     qualification = \<lparr>swq_last = Instant_from_secs 2, swq_prev = Some (Instant_from_secs 1),
       swq_window = ForeignMasterTimeWindow_duration (LogInterval 0)\<rparr>\<rparr>"
  let ?b = "\<lparr>bfr_receiver = demo_self, foreign_clock_records = \<lparr>records = [?r]\<rparr>\<rparr>"
  have "comparable_records ?b" "?r \<in> set (records (foreign_clock_records ?b))"
    "SlidingWindowQualification_is_qualified (qualification ?r)"
    by (simp_all add: comparable_records_def demo_master_def demo_self_def demo_id_def consistent_ds_def
        is_qualified_iff demo_instants demo_window)
  from snapshot_is_best [OF this] this(2) show ?thesis by blast
qed

abbreviation remember_reports :: "(PortNumber \<times> BestForeignSnapshot) list \<Rightarrow> MultiPortForeignCandidates" where
  "remember_reports \<equiv> foldl (\<lambda>c (p, x). MultiPortForeignCandidates_remember c p x) MultiPortForeignCandidates_new"

abbreviation last_reports :: "(PortNumber \<times> BestForeignSnapshot) list \<Rightarrow> PortNumber \<Rightarrow> BestForeignSnapshot" where
  "last_reports \<equiv> foldl (\<lambda>f (p, x). f(p := x)) (\<lambda>_. Empty)"

lemma remember_reports_ok:
  "wf_candidates (remember_reports rs) \<and> reported_by (remember_reports rs) = last_reports rs"
proof -
  have "multi_port.remember_all c rs
      = Some (foldl (\<lambda>c (p, x). MultiPortForeignCandidates_remember c p x) c rs)" for c
    by (induction rs arbitrary: c) auto
  moreover have "wf_candidates MultiPortForeignCandidates_new" "reported_by MultiPortForeignCandidates_new = (\<lambda>_. Empty)"
    by (auto simp: wf_candidates_def MultiPortForeignCandidates_new_def reported_by_def)
  ultimately show ?thesis using multi_port.remember_all_ok [of MultiPortForeignCandidates_new rs] by auto
qed

text \<open>The candidate store of a boundary clock, after any sequence of reports of its ports:
  the best candidate is what some port reported last, and it is empty exactly when the last
  report of every port is empty.\<close>

theorem candidates_best:
  "(\<exists>p. MultiPortForeignCandidates_best (remember_reports rs) = last_reports rs p) \<and>
   (MultiPortForeignCandidates_best (remember_reports rs) = Empty \<longleftrightarrow> (\<forall>p. last_reports rs p = Empty))"
proof (cases "MultiPortForeignCandidates_best (remember_reports rs) = Empty")
  case True
  then have "last_reports rs p = Empty" for p
    using multi_port.best_Empty remember_reports_ok by metis
  with True show ?thesis by simp
next
  case False
  then obtain p where "last_reports rs p = MultiPortForeignCandidates_best (remember_reports rs)"
    using multi_port.best_reported remember_reports_ok by metis
  with False show ?thesis by metis
qed

end
