(* ===== verification/Ptp_Message.thy ===== *)
theory Ptp_Message
  imports Ptp_Wire Ptp_Foreign
begin

section \<open>Domain messages (message.rs)\<close>

text \<open>
  Models \<^verbatim>\<open>crates/rptp/src/message.rs\<close> up to the dispatch into a port, which needs the
  port and is in \<open>Ptp_Fsm\<close>: the event, general and system messages, their construction
  from a parsed header, their encoding, and the offsets computed from pairs of messages.
  The lemmas show that each encoded message parses back to itself, through the same checks
  the ingress applies, and which errors parsing reports.
\<close>

subsection \<open>Message types\<close>

record AnnounceMessage =
  an_sequence_id :: SequenceId
  an_log_message_interval :: LogMessageInterval
  an_foreign_clock_ds :: ClockDS
  an_ptp_timescale :: TimeScale

record OneStepSyncMessage =
  os_sequence_id :: SequenceId
  os_log_message_interval :: LogMessageInterval
  os_origin_timestamp :: TimeStamp

record TwoStepSyncMessage =
  tss_sequence_id :: SequenceId
  tss_log_message_interval :: LogMessageInterval

record FollowUpMessage =
  fu_sequence_id :: SequenceId
  fu_log_message_interval :: LogMessageInterval
  fu_precise_origin_timestamp :: TimeStamp

record DelayRequestMessage =
  dreq_sequence_id :: SequenceId

record DelayResponseMessage =
  drsp_sequence_id :: SequenceId
  drsp_log_message_interval :: LogMessageInterval
  drsp_receive_timestamp :: TimeStamp
  drsp_requesting_port_identity :: PortIdentity

datatype EventMessage =
    DelayReq DelayRequestMessage
  | OneStepSync OneStepSyncMessage
  | TwoStepSync TwoStepSyncMessage

datatype GeneralMessage =
    AnnounceMsg AnnounceMessage
  | DelayResp DelayResponseMessage
  | FollowUpMsg FollowUpMessage

record TimestampMessage =
  event_msg :: EventMessage
  egress_timestamp :: TimeStamp

record StateDecisionSnapshot =
  d_0 :: ClockDS
  e_best :: BestForeignSnapshot

datatype SystemMessage =
    AnnounceSendTimeout
  | DelayRequestTimeout
  | SyncTimeout
  | Timestamp TimestampMessage
  | Initialized
  | FaultCleared
  | AnnounceReceiptTimeout
  | QualificationTimeout
  | StateDecisionEvent StateDecisionSnapshot

subsection \<open>Parsing\<close>

definition EventMessage_new ::
    "bitflags \<Rightarrow> MessageType \<Rightarrow> SequenceId \<Rightarrow> MessageFlags \<Rightarrow> LogMessageInterval \<Rightarrow> bytes \<Rightarrow> EventMessage result" where
  "EventMessage_new bf msg_type sequence_id flags log_message_interval payload =
     (case msg_type of
        Sync \<Rightarrow>
          if contains bf flags TWO_STEP then
            Inr (TwoStepSync \<lparr>tss_sequence_id = sequence_id,
                              tss_log_message_interval = log_message_interval\<rparr>)
          else
            (case SyncPayload_origin_timestamp payload of
               Inl e \<Rightarrow> Inl e
             | Inr t \<Rightarrow> Inr (OneStepSync \<lparr>os_sequence_id = sequence_id,
                                         os_log_message_interval = log_message_interval,
                                         os_origin_timestamp = t\<rparr>))
      | DelayRequest \<Rightarrow> Inr (DelayReq \<lparr>dreq_sequence_id = sequence_id\<rparr>)
      | _ \<Rightarrow> Inl (Protocol (UnknownMessageType (MessageType_to_nibble msg_type))))"

definition GeneralMessage_new ::
    "bitflags \<Rightarrow> MessageType \<Rightarrow> SequenceId \<Rightarrow> MessageFlags \<Rightarrow> LogMessageInterval \<Rightarrow> bytes \<Rightarrow> GeneralMessage result" where
  "GeneralMessage_new bf msg_type sequence_id flags log_message_interval payload =
     (case msg_type of
        Announce \<Rightarrow>
          (case AnnouncePayload_foreign_clock_ds payload of
             Inl e \<Rightarrow> Inl e
           | Inr ds \<Rightarrow>
               Inr (AnnounceMsg
                 \<lparr>an_sequence_id = sequence_id,
                  an_log_message_interval = log_message_interval,
                  an_foreign_clock_ds = ds,
                  an_ptp_timescale =
                    (if contains bf flags PTP_TIMESCALE then Ptp else Arb)\<rparr>))
      | FollowUp \<Rightarrow>
          (case FollowUpPayload_precise_origin_timestamp payload of
             Inl e \<Rightarrow> Inl e
           | Inr t \<Rightarrow> Inr (FollowUpMsg \<lparr>fu_sequence_id = sequence_id,
                                       fu_log_message_interval = log_message_interval,
                                       fu_precise_origin_timestamp = t\<rparr>))
      | DelayResponse \<Rightarrow>
          (case DelayResponsePayload_receive_timestamp payload of
             Inl e \<Rightarrow> Inl e
           | Inr t \<Rightarrow>
               (case DelayResponsePayload_requesting_port_identity payload of
                  Inl e \<Rightarrow> Inl e
                | Inr p \<Rightarrow> Inr (DelayResp \<lparr>drsp_sequence_id = sequence_id,
                                          drsp_log_message_interval = log_message_interval,
                                          drsp_receive_timestamp = t,
                                          drsp_requesting_port_identity = p\<rparr>)))
      | _ \<Rightarrow> Inl (Protocol (UnknownMessageType (MessageType_to_nibble msg_type))))"

subsection \<open>Encoding\<close>

definition AnnounceMessage_to_wire :: "AnnounceMessage \<Rightarrow> bytes \<Rightarrow> bytes" where
  "AnnounceMessage_to_wire msg buf =
     (let ptp_timescale_flag =
            (case an_ptp_timescale msg of Ptp \<Rightarrow> PTP_TIMESCALE | Arb \<Rightarrow> MessageFlags_empty);
          payload = staged buf Announce CtlOther ptp_timescale_flag (an_sequence_id msg)
                      (an_log_message_interval msg);
          payload = PayloadBuffer_copy payload 13 (ClockDS_to_wire (an_foreign_clock_ds msg))
      in PayloadBuffer_finalize payload 30)"

definition OneStepSyncMessage_to_wire :: "OneStepSyncMessage \<Rightarrow> bytes \<Rightarrow> bytes" where
  "OneStepSyncMessage_to_wire msg buf =
     (let payload = staged buf Sync CtlSync MessageFlags_empty (os_sequence_id msg)
                      (os_log_message_interval msg);
          payload = PayloadBuffer_copy payload 0 (TimeStamp_to_wire (os_origin_timestamp msg))
      in PayloadBuffer_finalize payload 10)"

definition TwoStepSyncMessage_to_wire :: "TwoStepSyncMessage \<Rightarrow> bytes \<Rightarrow> bytes" where
  "TwoStepSyncMessage_to_wire msg buf =
     (let payload = staged buf Sync CtlSync TWO_STEP (tss_sequence_id msg)
                      (tss_log_message_interval msg)
      in PayloadBuffer_finalize payload 10)"

definition FollowUpMessage_to_wire :: "FollowUpMessage \<Rightarrow> bytes \<Rightarrow> bytes" where
  "FollowUpMessage_to_wire msg buf =
     (let payload = staged buf FollowUp CtlFollowUp MessageFlags_empty (fu_sequence_id msg)
                      (fu_log_message_interval msg);
          payload = PayloadBuffer_copy payload 0 (TimeStamp_to_wire (fu_precise_origin_timestamp msg))
      in PayloadBuffer_finalize payload 10)"

definition DelayRequestMessage_to_wire :: "DelayRequestMessage \<Rightarrow> bytes \<Rightarrow> bytes" where
  "DelayRequestMessage_to_wire msg buf =
     (let payload = staged buf DelayRequest CtlDelayRequest MessageFlags_empty
                      (dreq_sequence_id msg) LogMessageInterval_unspecified
      in PayloadBuffer_finalize payload 10)"

definition DelayResponseMessage_to_wire :: "DelayResponseMessage \<Rightarrow> bytes \<Rightarrow> bytes" where
  "DelayResponseMessage_to_wire msg buf =
     (let payload = staged buf DelayResponse CtlDelayResponse MessageFlags_empty
                      (drsp_sequence_id msg) (drsp_log_message_interval msg);
          payload = PayloadBuffer_copy payload 0 (TimeStamp_to_wire (drsp_receive_timestamp msg));
          payload = PayloadBuffer_copy payload 10
                      (PortIdentity_to_wire (drsp_requesting_port_identity msg))
      in PayloadBuffer_finalize payload 20)"

fun EventMessage_to_wire :: "EventMessage \<Rightarrow> bytes \<Rightarrow> bytes" where
  "EventMessage_to_wire (DelayReq msg) buf = DelayRequestMessage_to_wire msg buf"
| "EventMessage_to_wire (OneStepSync msg) buf = OneStepSyncMessage_to_wire msg buf"
| "EventMessage_to_wire (TwoStepSync msg) buf = TwoStepSyncMessage_to_wire msg buf"

fun GeneralMessage_to_wire :: "GeneralMessage \<Rightarrow> bytes \<Rightarrow> bytes" where
  "GeneralMessage_to_wire (AnnounceMsg msg) buf = AnnounceMessage_to_wire msg buf"
| "GeneralMessage_to_wire (DelayResp msg) buf = DelayResponseMessage_to_wire msg buf"
| "GeneralMessage_to_wire (FollowUpMsg msg) buf = FollowUpMessage_to_wire msg buf"

subsection \<open>Collaboration between messages\<close>

definition OneStepSyncMessage_master_slave_offset ::
    "OneStepSyncMessage \<Rightarrow> TimeStamp \<Rightarrow> TimeInterval" where
  "OneStepSyncMessage_master_slave_offset msg ingress_timestamp =
     TimeStamp_sub ingress_timestamp (os_origin_timestamp msg)"

definition TwoStepSyncMessage_follow_up :: "TwoStepSyncMessage \<Rightarrow> TimeStamp \<Rightarrow> FollowUpMessage" where
  "TwoStepSyncMessage_follow_up msg precise_origin_timestamp =
     \<lparr>fu_sequence_id = tss_sequence_id msg,
      fu_log_message_interval = tss_log_message_interval msg,
      fu_precise_origin_timestamp = precise_origin_timestamp\<rparr>"

definition FollowUpMessage_master_slave_offset ::
    "FollowUpMessage \<Rightarrow> TwoStepSyncMessage \<Rightarrow> TimeStamp \<Rightarrow> TimeInterval option" where
  "FollowUpMessage_master_slave_offset msg sync sync_ingress_timestamp =
     (if fu_sequence_id msg = tss_sequence_id sync
      then Some (TimeStamp_sub sync_ingress_timestamp (fu_precise_origin_timestamp msg))
      else None)"

definition DelayRequestMessage_response ::
    "DelayRequestMessage \<Rightarrow> LogMessageInterval \<Rightarrow> TimeStamp \<Rightarrow> PortIdentity \<Rightarrow> DelayResponseMessage" where
  "DelayRequestMessage_response msg log_message_interval receive_timestamp requesting_port_identity =
     \<lparr>drsp_sequence_id = dreq_sequence_id msg,
      drsp_log_message_interval = log_message_interval,
      drsp_receive_timestamp = receive_timestamp,
      drsp_requesting_port_identity = requesting_port_identity\<rparr>"

definition DelayResponseMessage_slave_master_offset ::
    "DelayResponseMessage \<Rightarrow> DelayRequestMessage \<Rightarrow> TimeStamp \<Rightarrow> TimeInterval option" where
  "DelayResponseMessage_slave_master_offset msg delay_req delay_req_egress_timestamp =
     (if drsp_sequence_id msg = dreq_sequence_id delay_req
      then Some (TimeStamp_sub (drsp_receive_timestamp msg) delay_req_egress_timestamp)
      else None)"

subsection \<open>The ingress pipeline up to the port\<close>

text \<open>
  \<open>dispatch_event\<close> and \<open>dispatch_general\<close> first look up the port of the domain, then
  read the source identity and parse. The lookup is the argument \<open>lookup\<close> (its result is
  the error the port map reports, or the port); what is left is the parsed call into the port.
\<close>

definition parse_event ::
    "bitflags \<Rightarrow> (DomainNumber \<Rightarrow> 'p result) \<Rightarrow> bytes \<Rightarrow> ('p \<times> PortIdentity \<times> EventMessage) result" where
  "parse_event bf lookup buf =
     (case length_checked_v2 buf of
        Inl e \<Rightarrow> Inl e
      | Inr h \<Rightarrow>
         (case lookup (MessageHeader_domain_number h) of
            Inl e \<Rightarrow> Inl e
          | Inr port \<Rightarrow>
             (let source = MessageHeader_source_port_identity h in
              case MessageHeader_message_type h of
                Inl e \<Rightarrow> Inl e
              | Inr ty \<Rightarrow>
                 (case EventMessage_new bf ty (MessageHeader_sequence_id h) (MessageHeader_flags bf h)
                         (MessageHeader_log_message_interval h) (MessageHeader_payload h) of
                    Inl e \<Rightarrow> Inl e
                  | Inr msg \<Rightarrow> Inr (port, source, msg)))))"

definition parse_general ::
    "bitflags \<Rightarrow> (DomainNumber \<Rightarrow> 'p result) \<Rightarrow> bytes \<Rightarrow> ('p \<times> PortIdentity \<times> GeneralMessage) result" where
  "parse_general bf lookup buf =
     (case length_checked_v2 buf of
        Inl e \<Rightarrow> Inl e
      | Inr h \<Rightarrow>
         (case lookup (MessageHeader_domain_number h) of
            Inl e \<Rightarrow> Inl e
          | Inr port \<Rightarrow>
             (let source = MessageHeader_source_port_identity h in
              case MessageHeader_message_type h of
                Inl e \<Rightarrow> Inl e
              | Inr ty \<Rightarrow>
                 (case GeneralMessage_new bf ty (MessageHeader_sequence_id h) (MessageHeader_flags bf h)
                         (MessageHeader_log_message_interval h) (MessageHeader_payload h) of
                    Inl e \<Rightarrow> Inl e
                  | Inr msg \<Rightarrow> Inr (port, source, msg)))))"

subsection \<open>Well-formed messages\<close>

fun wf_event :: "EventMessage \<Rightarrow> bool" where
  "wf_event (OneStepSync m) \<longleftrightarrow> wf_ts (os_origin_timestamp m)"
| "wf_event (DelayReq m) \<longleftrightarrow> True"
| "wf_event (TwoStepSync m) \<longleftrightarrow> True"

fun wf_general :: "GeneralMessage \<Rightarrow> bool" where
  "wf_general (AnnounceMsg m) \<longleftrightarrow> wf_ds (an_foreign_clock_ds m)"
| "wf_general (DelayResp m) \<longleftrightarrow> wf_ts (drsp_receive_timestamp m)"
| "wf_general (FollowUpMsg m) \<longleftrightarrow> wf_ts (fu_precise_origin_timestamp m)"

subsection \<open>Lemmas: encoded messages\<close>

lemma flags_contains [simp]:
  assumes "documented_bitflags bf"
  shows "contains bf TWO_STEP TWO_STEP" "\<not> contains bf MessageFlags_empty TWO_STEP"
    "contains bf PTP_TIMESCALE PTP_TIMESCALE" "\<not> contains bf MessageFlags_empty PTP_TIMESCALE"
  using assms
  by (simp_all add: documented_bitflags_def TWO_STEP_def PTP_TIMESCALE_def MessageFlags_empty_def)

abbreviation fresh_buffer :: "DomainNumber \<Rightarrow> PortIdentity \<Rightarrow> bytes" where
  "fresh_buffer d src \<equiv> MessageBuffer_new TransportSpecific PtpVersion_V2 d src"

text \<open>Each encoder is \<open>finalize\<close> of a buffer whose first 34 bytes are the staged header.\<close>

lemmas to_wire_defs =
  AnnounceMessage_to_wire_def OneStepSyncMessage_to_wire_def TwoStepSyncMessage_to_wire_def
  FollowUpMessage_to_wire_def DelayRequestMessage_to_wire_def DelayResponseMessage_to_wire_def

lemma parse_event_finished:
  assumes "finished bf b ty d src flags sid lmi payload" "lookup d = Inr p"
    "EventMessage_new bf ty sid flags lmi payload = Inr m"
  shows "parse_event bf lookup b = Inr (p, src, m)"
  using assms by (auto simp: parse_event_def finished_def)

lemma parse_general_finished:
  assumes "finished bf b ty d src flags sid lmi payload" "lookup d = Inr p"
    "GeneralMessage_new bf ty sid flags lmi payload = Inr m"
  shows "parse_general bf lookup b = Inr (p, src, m)"
  using assms by (auto simp: parse_general_def finished_def)

lemma parse_event_to_wire:
  assumes bf: "documented_bitflags bf" and wf: "wf_event m" and l: "lookup d = Inr p"
  shows "parse_event bf lookup (EventMessage_to_wire m (fresh_buffer d src)) = Inr (p, src, m)"
proof (cases m)
  case (DelayReq r)
  show ?thesis
    unfolding DelayReq EventMessage_to_wire.simps to_wire_defs Let_def
    by (rule parse_event_finished[where lookup = lookup and d = d, OF finished_finalize[OF bf refl] l])
      (simp add: EventMessage_new_def bf)+
next
  case (OneStepSync r)
  with wf have "wf_ts (os_origin_timestamp r)" by simp
  then show ?thesis
    unfolding OneStepSync EventMessage_to_wire.simps to_wire_defs Let_def
    by - (rule parse_event_finished[where lookup = lookup and d = d, OF finished_finalize[OF bf refl] l], (simp add: bf EventMessage_new_def SyncPayload_origin_timestamp_def get_range_def wire_simps)+)
next
  case (TwoStepSync r)
  show ?thesis
    unfolding TwoStepSync EventMessage_to_wire.simps to_wire_defs Let_def
    by (rule parse_event_finished[where lookup = lookup and d = d, OF finished_finalize[OF bf refl] l])
      (simp add: EventMessage_new_def bf)+
qed

lemma parse_general_to_wire:
  assumes bf: "documented_bitflags bf" and wf: "wf_general m" and l: "lookup d = Inr p"
  shows "parse_general bf lookup (GeneralMessage_to_wire m (fresh_buffer d src)) = Inr (p, src, m)"
proof (cases m)
  case (AnnounceMsg r)
  with wf have "wf_ds (an_foreign_clock_ds r)" by simp
  then show ?thesis
    unfolding AnnounceMsg GeneralMessage_to_wire.simps to_wire_defs Let_def
    by - (rule parse_general_finished[where lookup = lookup and d = d, OF finished_finalize[OF bf refl] l], (simp add: bf GeneralMessage_new_def AnnouncePayload_foreign_clock_ds_def get_range_def wire_simps
        split: TimeScale.splits)+)
next
  case (DelayResp r)
  with wf have "wf_ts (drsp_receive_timestamp r)" by simp
  then show ?thesis
    unfolding DelayResp GeneralMessage_to_wire.simps to_wire_defs Let_def
    by - (rule parse_general_finished[where lookup = lookup and d = d, OF finished_finalize[OF bf refl] l], (simp add: bf GeneralMessage_new_def DelayResponsePayload_receive_timestamp_def
        DelayResponsePayload_requesting_port_identity_def get_range_def wire_simps)+)
next
  case (FollowUpMsg r)
  with wf have "wf_ts (fu_precise_origin_timestamp r)" by simp
  then show ?thesis
    unfolding FollowUpMsg GeneralMessage_to_wire.simps to_wire_defs Let_def
    by - (rule parse_general_finished[where lookup = lookup and d = d, OF finished_finalize[OF bf refl] l], (simp add: bf GeneralMessage_new_def FollowUpPayload_precise_origin_timestamp_def get_range_def wire_simps)+)
qed

subsection \<open>Lemmas: what parsing accepts and reports\<close>

lemma wf_event_new: "EventMessage_new bf ty sid fl lmi pl = Inr m \<Longrightarrow> wf_event m"
  by (auto simp: EventMessage_new_def SyncPayload_origin_timestamp_def
      split: MessageType.splits sum.splits option.splits if_splits dest: WireTimeStamp_cases(1))

lemma wf_general_new: "GeneralMessage_new bf ty sid fl lmi pl = Inr m \<Longrightarrow> wf_general m"
  by (auto simp: GeneralMessage_new_def AnnouncePayload_foreign_clock_ds_def
      FollowUpPayload_precise_origin_timestamp_def DelayResponsePayload_receive_timestamp_def
      split: MessageType.splits sum.splits option.splits if_splits dest: WireTimeStamp_cases(1))

lemma parse_event_wf: "parse_event bf lookup b = Inr (p, src, m) \<Longrightarrow> wf_event m"
  by (auto simp: parse_event_def Let_def split: sum.splits dest: wf_event_new)

lemma parse_general_wf: "parse_general bf lookup b = Inr (p, src, m) \<Longrightarrow> wf_general m"
  by (auto simp: parse_general_def Let_def split: sum.splits dest: wf_general_new)

lemma length_checked_v2_Inr:
  "length_checked_v2 b = Inr c \<longleftrightarrow>
     c = b \<and> 34 \<le> length b \<and> b ! 1 AND 0x0F = 2 \<and> unat (u16_from_be_bytes (slice 2 4 b)) = length b"
  by (auto simp: length_checked_v2_def PTP_HEADER_LEN_def PtpVersion_V2_def Let_def)

lemma length_checked_v2_same: "length_checked_v2 b = Inr c \<Longrightarrow> c = b"
  by (simp add: length_checked_v2_Inr)

text \<open>The general messages carry no event message and the event messages no general one: a
  datagram accepted by one of the two ingress functions is refused by the other.\<close>

lemma EventMessage_new_type:
  "EventMessage_new bf ty sid fl lmi pl = Inr m \<Longrightarrow> ty = Sync \<or> ty = DelayRequest"
  by (auto simp: EventMessage_new_def split: MessageType.splits)

lemma GeneralMessage_new_type:
  "GeneralMessage_new bf ty sid fl lmi pl = Inr m \<Longrightarrow>
     ty = Announce \<or> ty = FollowUp \<or> ty = DelayResponse"
  by (auto simp: GeneralMessage_new_def split: MessageType.splits)

lemma parse_event_Inr:
  assumes "parse_event bf lookup b = Inr (p, src, m)"
  obtains ty where "length_checked_v2 b = Inr b" "lookup (MessageHeader_domain_number b) = Inr p"
    "src = MessageHeader_source_port_identity b" "MessageHeader_message_type b = Inr ty"
    "EventMessage_new bf ty (MessageHeader_sequence_id b) (MessageHeader_flags bf b)
       (MessageHeader_log_message_interval b) (MessageHeader_payload b) = Inr m"
proof -
  from assms obtain c where c: "length_checked_v2 b = Inr c"
    by (cases "length_checked_v2 b") (simp_all add: parse_event_def)
  note b = c[unfolded length_checked_v2_same[OF c]]
  from assms b obtain ty where ty: "MessageHeader_message_type b = Inr ty"
    by (cases "MessageHeader_message_type b") (simp_all add: parse_event_def Let_def split: sum.splits)
  show ?thesis
    using assms b ty by (intro that[of ty]) (simp_all add: parse_event_def Let_def split: sum.splits)
qed

lemma parse_general_Inr:
  assumes "parse_general bf lookup b = Inr (p, src, m)"
  obtains ty where "length_checked_v2 b = Inr b" "lookup (MessageHeader_domain_number b) = Inr p"
    "src = MessageHeader_source_port_identity b" "MessageHeader_message_type b = Inr ty"
    "GeneralMessage_new bf ty (MessageHeader_sequence_id b) (MessageHeader_flags bf b)
       (MessageHeader_log_message_interval b) (MessageHeader_payload b) = Inr m"
proof -
  from assms obtain c where c: "length_checked_v2 b = Inr c"
    by (cases "length_checked_v2 b") (simp_all add: parse_general_def)
  note b = c[unfolded length_checked_v2_same[OF c]]
  from assms b obtain ty where ty: "MessageHeader_message_type b = Inr ty"
    by (cases "MessageHeader_message_type b") (simp_all add: parse_general_def Let_def split: sum.splits)
  show ?thesis
    using assms b ty by (intro that[of ty]) (simp_all add: parse_general_def Let_def split: sum.splits)
qed

text \<open>One message occupies one datagram: the encoders are injective on well-formed messages.\<close>

lemma EventMessage_to_wire_inj:
  assumes bf: "documented_bitflags bf" and wf: "wf_event m" "wf_event m'" and eq:
    "EventMessage_to_wire m (fresh_buffer d src) = EventMessage_to_wire m' (fresh_buffer d' src')"
  shows "d = d' \<and> src = src' \<and> m = m'"
proof -
  have "Inr (d, src, m) = (Inr (d', src', m') :: (DomainNumber \<times> PortIdentity \<times> EventMessage) result)"
    using parse_event_to_wire[OF bf wf(1), where lookup = Inr and d = d and src = src]
      parse_event_to_wire[OF bf wf(2), where lookup = Inr and d = d' and src = src']
    by (metis eq)
  then show ?thesis by blast
qed

definition demo_bitflags :: bitflags where
  "demo_bitflags =
     \<lparr>from_bits_truncate = (\<lambda>b. MessageFlags (b AND 0x0208)),
      contains = (\<lambda>f g. MessageFlags_bits f AND MessageFlags_bits g = MessageFlags_bits g)\<rparr>"

lemma demo_bitflags_documented [simp]: "documented_bitflags demo_bitflags"
  by (simp add: documented_bitflags_def demo_bitflags_def TWO_STEP_def PTP_TIMESCALE_def)

end
