(* ===== verification/Ptp_Float.thy ===== *)
theory Ptp_Float
  imports Ptp_Prelude
begin

section \<open>IEEE 754 binary64 arithmetic\<close>

text \<open>
  The part of Rust's \<open>f64\<close> that \<^verbatim>\<open>servo.rs\<close>, \<^verbatim>\<open>time.rs\<close> and the daemon's \<^verbatim>\<open>virtualclock.rs\<close> use:
  conversion from integers and literals and to integers, \<open>+\<close>, \<open>-\<close>, \<open>*\<close>, \<open>/\<close>, \<open>%\<close>, the comparisons and \<open>clamp\<close>. A finite
  number is the rational it denotes; every operation computes the exact result and rounds it
  to 53 bits, ties to even, with gradual underflow and overflow to an infinity. The two signed
  zeros are the one rational 0: the sources never divide by zero and no comparison tells the
  zeros apart.
\<close>

datatype f64 = NaN | PInf | NInf | Fin rat

fun bit_len :: "nat \<Rightarrow> nat" where
  "bit_len n = (if n = 0 then 0 else Suc (bit_len (n div 2)))"

declare bit_len.simps [simp del]

text \<open>The exponent of a positive rational: the greatest \<open>e\<close> with \<open>2 powi e \<le> x\<close>.\<close>

definition ilog2 :: "rat \<Rightarrow> int" where
  "ilog2 x =
     (let (n, d) = quotient_of x;
          k = int (bit_len (nat n)) - int (bit_len (nat d))
      in if 2 powi k \<le> x then k else k - 1)"

definition round_half_even :: "rat \<Rightarrow> int" where
  "round_half_even x =
     (let f = \<lfloor>x\<rfloor>; d = x - of_int f
      in if d < 1 / 2 then f else if d > 1 / 2 then f + 1 else if even f then f else f + 1)"

definition f64_round :: "rat \<Rightarrow> f64" where
  "f64_round x =
     (if x = 0 then Fin 0
      else
        let a = \<bar>x\<bar>;
            e = max (ilog2 a) (- 1022);
            q = 2 powi (e - 52);
            v = of_int (round_half_even (a / q)) * q
        in if v \<ge> 2 ^ 1024 then (if x > 0 then PInf else NInf) else Fin (sgn x * v))"

definition f64_of_int :: "int \<Rightarrow> f64" where
  "f64_of_int i = f64_round (of_int i)"

fun f64_neg :: "f64 \<Rightarrow> f64" where
  "f64_neg NaN = NaN"
| "f64_neg PInf = NInf"
| "f64_neg NInf = PInf"
| "f64_neg (Fin x) = Fin (- x)"

fun f64_add :: "f64 \<Rightarrow> f64 \<Rightarrow> f64" where
  "f64_add (Fin x) (Fin y) = f64_round (x + y)"
| "f64_add NaN _ = NaN"
| "f64_add _ NaN = NaN"
| "f64_add PInf NInf = NaN"
| "f64_add NInf PInf = NaN"
| "f64_add PInf _ = PInf"
| "f64_add NInf _ = NInf"
| "f64_add _ PInf = PInf"
| "f64_add _ NInf = NInf"

definition f64_sub :: "f64 \<Rightarrow> f64 \<Rightarrow> f64" where
  "f64_sub x y = f64_add x (f64_neg y)"

fun f64_sgn :: "f64 \<Rightarrow> rat" where
  "f64_sgn NaN = 0"
| "f64_sgn PInf = 1"
| "f64_sgn NInf = - 1"
| "f64_sgn (Fin x) = sgn x"

fun f64_is_nan :: "f64 \<Rightarrow> bool" where
  "f64_is_nan NaN \<longleftrightarrow> True"
| "f64_is_nan _ \<longleftrightarrow> False"

definition f64_signed_inf :: "rat \<Rightarrow> f64" where
  "f64_signed_inf s = (if s > 0 then PInf else if s < 0 then NInf else NaN)"

fun f64_mul :: "f64 \<Rightarrow> f64 \<Rightarrow> f64" where
  "f64_mul (Fin x) (Fin y) = f64_round (x * y)"
| "f64_mul x y =
     (if f64_is_nan x \<or> f64_is_nan y then NaN else f64_signed_inf (f64_sgn x * f64_sgn y))"

text \<open>Division by a zero gives the infinity of the dividend's sign (a positive zero).\<close>

fun f64_div :: "f64 \<Rightarrow> f64 \<Rightarrow> f64" where
  "f64_div (Fin x) (Fin y) = (if y = 0 then f64_signed_inf x else f64_round (x / y))"
| "f64_div NaN _ = NaN"
| "f64_div _ NaN = NaN"
| "f64_div (Fin _) PInf = Fin 0"
| "f64_div (Fin _) NInf = Fin 0"
| "f64_div PInf (Fin y) = (if y < 0 then NInf else PInf)"
| "f64_div NInf (Fin y) = (if y < 0 then PInf else NInf)"
| "f64_div PInf _ = NaN"
| "f64_div NInf _ = NaN"

fun f64_less :: "f64 \<Rightarrow> f64 \<Rightarrow> bool" where
  "f64_less (Fin x) (Fin y) \<longleftrightarrow> x < y"
| "f64_less (Fin _) PInf \<longleftrightarrow> True"
| "f64_less NInf (Fin _) \<longleftrightarrow> True"
| "f64_less NInf PInf \<longleftrightarrow> True"
| "f64_less _ _ \<longleftrightarrow> False"

fun f64_le :: "f64 \<Rightarrow> f64 \<Rightarrow> bool" where
  "f64_le NaN _ \<longleftrightarrow> False"
| "f64_le _ NaN \<longleftrightarrow> False"
| "f64_le x y \<longleftrightarrow> x = y \<or> f64_less x y"

text \<open>\<open>f64::clamp\<close> panics unless \<open>min <= max\<close>.\<close>

definition f64_clamp :: "f64 \<Rightarrow> f64 \<Rightarrow> f64 \<Rightarrow> f64 option" where
  "f64_clamp x mn mx =
     (if f64_le mn mx
      then Some (if f64_less x mn then mn else if f64_less mx x then mx else x)
      else None)"

text \<open>\<open>%\<close> has the sign of the dividend and is exact: the result needs no more bits than the operands.
  The casts \<open>as i64\<close> and \<open>as u32\<close> truncate towards zero, saturate at the ends of the type and take a NaN to 0.\<close>

definition rat_trunc :: "rat \<Rightarrow> int" where
  "rat_trunc x = (if x < 0 then - \<lfloor>- x\<rfloor> else \<lfloor>x\<rfloor>)"

fun f64_rem :: "f64 \<Rightarrow> f64 \<Rightarrow> f64" where
  "f64_rem (Fin x) (Fin y) = (if y = 0 then NaN else Fin (x - y * of_int (rat_trunc (x / y))))"
| "f64_rem (Fin x) PInf = Fin x"
| "f64_rem (Fin x) NInf = Fin x"
| "f64_rem _ _ = NaN"

fun f64_as_int :: "int \<Rightarrow> int \<Rightarrow> f64 \<Rightarrow> int" where
  "f64_as_int lo hi NaN = 0"
| "f64_as_int lo hi PInf = hi"
| "f64_as_int lo hi NInf = lo"
| "f64_as_int lo hi (Fin x) = max lo (min hi (rat_trunc x))"

definition f64_as_i64 :: "f64 \<Rightarrow> i64" where
  "f64_as_i64 = f64_as_int i64_MIN i64_MAX"

definition f64_as_u32 :: "f64 \<Rightarrow> u32" where
  "f64_as_u32 x = word_of_int (f64_as_int 0 (2 ^ 32 - 1) x)"

subsection \<open>Lemmas: exponents\<close>

lemma bit_len_bounds: "0 < n \<Longrightarrow> 2 ^ (bit_len n - 1) \<le> n \<and> n < 2 ^ bit_len n \<and> 0 < bit_len n"
proof (induction n rule: bit_len.induct)
  case (1 n)
  show ?case
  proof (cases "n div 2 = 0")
    case True
    then have "n = 1" using 1(2) by simp
    then show ?thesis by (simp add: bit_len.simps)
  next
    case False
    then have "2 ^ (bit_len (n div 2) - 1) \<le> n div 2" "n div 2 < 2 ^ bit_len (n div 2)"
      "0 < bit_len (n div 2)" using 1 by auto
    moreover have "bit_len n = Suc (bit_len (n div 2))" using 1(2) by (subst bit_len.simps) simp
    moreover from calculation(3) have "(2::nat) ^ bit_len (n div 2) = 2 * 2 ^ (bit_len (n div 2) - 1)"
      by (cases "bit_len (n div 2)") simp_all
    ultimately show ?thesis by (simp, intro conjI; linarith)
  qed
qed

lemma ilog2_bounds:
  assumes "0 < x"
  shows "2 powi ilog2 x \<le> x" "x < 2 powi (ilog2 x + 1)"
proof -
  obtain n d where q: "quotient_of x = (n, d)" by fastforce
  have d: "0 < d" using quotient_of_denom_pos[OF q] .
  have x: "x = of_int n / of_int d" by (rule quotient_of_div[OF q])
  then have n: "0 < n" using assms d by (simp add: zero_less_divide_iff)
  let ?a = "bit_len (nat n)" and ?b = "bit_len (nat d)"
  let ?k = "int ?a - int ?b"
  have A: "2 ^ (?a - 1) \<le> nat n" "nat n < 2 ^ ?a" "0 < ?a"
    and B: "2 ^ (?b - 1) \<le> nat d" "nat d < 2 ^ ?b" "0 < ?b"
    using bit_len_bounds[of "nat n"] bit_len_bounds[of "nat d"] n d by auto
  have A': "2 powi (int ?a - 1) \<le> (of_int n :: rat)" "(of_int n :: rat) < 2 powi int ?a"
    and B': "2 powi (int ?b - 1) \<le> (of_int d :: rat)" "(of_int d :: rat) < 2 powi int ?b"
  proof -
    have "(2 ^ (?a - 1) :: rat) \<le> of_nat (nat n)" "(of_nat (nat n) :: rat) < 2 ^ ?a"
      "(2 ^ (?b - 1) :: rat) \<le> of_nat (nat d)" "(of_nat (nat d) :: rat) < 2 ^ ?b"
      using A B by (metis of_nat_le_iff of_nat_less_iff of_nat_numeral of_nat_power)+
    then show "2 powi (int ?a - 1) \<le> (of_int n :: rat)" "(of_int n :: rat) < 2 powi int ?a"
      "2 powi (int ?b - 1) \<le> (of_int d :: rat)" "(of_int d :: rat) < 2 powi int ?b"
      using n d A(3) B(3) by (simp_all add: power_int_def nat_diff_distrib)
  qed
  have "x < 2 powi int ?a / 2 powi (int ?b - 1)"
    unfolding x using A'(2) B'(1) d n by (intro frac_less) simp_all
  also have "\<dots> = 2 powi (?k + 1)" by (simp add: power_int_diff power_int_add)
  finally have up: "x < 2 powi (?k + 1)" .
  have "2 powi (int ?a - 1) / 2 powi int ?b \<le> x"
    unfolding x using A'(1) B'(2) d n by (intro frac_le) simp_all
  then have lo: "2 powi (?k - 1) \<le> x" by (simp add: power_int_diff)
  show "2 powi ilog2 x \<le> x" "x < 2 powi (ilog2 x + 1)"
    using up lo by (auto simp: ilog2_def q Let_def)
qed

subsection \<open>Lemmas: rounding\<close>

lemma round_half_even_error: "\<bar>of_int (round_half_even x) - x\<bar> \<le> 1 / 2"
proof -
  have "of_int \<lfloor>x\<rfloor> \<le> x" "x < of_int \<lfloor>x\<rfloor> + 1" by linarith+
  then show ?thesis by (auto simp: round_half_even_def Let_def)
qed

lemma round_half_even_of_int [simp]: "round_half_even (of_int n) = n"
  by (simp add: round_half_even_def)

lemma round_half_even_le: "x \<le> of_int n \<Longrightarrow> round_half_even x \<le> n"
proof -
  assume "x \<le> of_int n"
  moreover have "of_int (round_half_even x) \<le> x + 1 / 2" using round_half_even_error[of x] by linarith
  ultimately have "(of_int (round_half_even x) :: rat) < of_int (n + 1)" by simp
  then show ?thesis by linarith
qed

lemma round_half_even_ge: "of_int n \<le> x \<Longrightarrow> n \<le> round_half_even x"
proof -
  assume "of_int n \<le> x"
  moreover have "x - 1 / 2 \<le> of_int (round_half_even x)" using round_half_even_error[of x] by linarith
  ultimately have "(of_int (n - 1) :: rat) < of_int (round_half_even x)" by simp
  then show ?thesis by linarith
qed

text \<open>The exponent and the quantum of the last place with which \<open>x\<close> is rounded.\<close>

definition f64_exp :: "rat \<Rightarrow> int" where
  "f64_exp x = max (ilog2 \<bar>x\<bar>) (- 1022)"

definition f64_ulp :: "rat \<Rightarrow> rat" where
  "f64_ulp x = 2 powi (f64_exp x - 52)"

definition f64_value :: "rat \<Rightarrow> rat" where
  "f64_value x = of_int (round_half_even (x / f64_ulp x)) * f64_ulp x"

lemma f64_ulp_pos [simp]: "0 < f64_ulp x"
  by (simp add: f64_ulp_def)

lemma f64_round_pos:
  "0 < x \<Longrightarrow> f64_round x = (if f64_value x \<ge> 2 ^ 1024 then PInf else Fin (f64_value x))"
  by (simp add: f64_round_def f64_value_def f64_ulp_def f64_exp_def Let_def)

lemma f64_round_0 [simp]: "f64_round 0 = Fin 0"
  by (simp add: f64_round_def)

lemma f64_round_minus: "f64_round (- x) = f64_neg (f64_round x)"
  by (auto simp: f64_round_def Let_def sgn_minus)

lemma f64_value_nonneg: "0 < x \<Longrightarrow> 0 \<le> f64_value x"
  using round_half_even_ge[of 0 "x / f64_ulp x"]
  by (simp add: f64_value_def zero_le_mult_iff order_less_imp_le)

lemma f64_value_error: "\<bar>f64_value x - x\<bar> \<le> f64_ulp x / 2"
proof -
  have "f64_value x - x = (of_int (round_half_even (x / f64_ulp x)) - x / f64_ulp x) * f64_ulp x"
    by (simp add: f64_value_def left_diff_distrib less_imp_neq[OF f64_ulp_pos, symmetric])
  moreover have "\<bar>of_int (round_half_even (x / f64_ulp x)) - x / f64_ulp x\<bar> * f64_ulp x
      \<le> 1 / 2 * f64_ulp x"
    by (rule mult_right_mono[OF round_half_even_error]) (simp add: order_less_imp_le)
  ultimately show ?thesis by (simp add: abs_mult abs_of_pos)
qed

lemma ilog2_less: "0 < x \<Longrightarrow> x < 2 powi k \<Longrightarrow> ilog2 x < k"
  using ilog2_bounds(1)[of x] by (meson le_less_trans less_le_not_le linorder_not_less one_le_numeral power_int_increasing)

lemma ilog2_ge: "2 powi k \<le> x \<Longrightarrow> k \<le> ilog2 x"
proof -
  assume "2 powi k \<le> x"
  moreover have "(0 :: rat) < 2 powi k" by simp
  ultimately have "(2 :: rat) powi k < 2 powi (ilog2 x + 1)"
    using ilog2_bounds(2)[of x] by linarith
  then have "\<not> ilog2 x + 1 \<le> k"
    using power_int_increasing[of "ilog2 x + 1" k "2 :: rat"] by (auto simp: not_less[symmetric])
  then show ?thesis by simp
qed

lemma f64_value_le_pow2:
  assumes "0 < x" "x \<le> 2 powi k" "- 1022 \<le> k"
  shows "f64_value x \<le> 2 powi k"
proof -
  have "(2 :: rat) powi k < 2 powi (k + 1)" by (intro power_int_strict_increasing) simp_all
  then have "x < 2 powi (k + 1)" using assms(2) by linarith
  then have e: "f64_exp x \<le> k"
    using assms ilog2_less[of x "k + 1"] by (simp add: f64_exp_def)
  have "(2 powi k :: rat) = 2 powi (k - f64_exp x + 52) * f64_ulp x"
    by (simp add: f64_ulp_def flip: power_int_add)
  then have k: "2 powi k = of_int (2 ^ nat (k - f64_exp x + 52)) * f64_ulp x"
    using e by (simp add: power_int_def)
  then have "x / f64_ulp x \<le> of_int (2 ^ nat (k - f64_exp x + 52))"
    using assms(2) by (simp add: pos_divide_le_eq)
  then have "round_half_even (x / f64_ulp x) \<le> 2 ^ nat (k - f64_exp x + 52)"
    by (rule round_half_even_le)
  then have "(of_int (round_half_even (x / f64_ulp x)) :: rat) \<le> of_int (2 ^ nat (k - f64_exp x + 52))"
    by (simp only: of_int_le_iff)
  then show ?thesis
    unfolding k f64_value_def by (rule mult_right_mono) (simp add: order_less_imp_le)
qed

lemma f64_value_ge_pow2:
  assumes "2 powi k \<le> x" "- 1022 \<le> k"
  shows "2 powi k \<le> f64_value x"
proof -
  have pos: "0 < x" using assms(1) by (meson less_le_trans zero_less_numeral zero_less_power_int)
  have e: "f64_exp x = ilog2 x" "k \<le> f64_exp x"
    using ilog2_ge[OF assms(1)] assms(2) pos by (simp_all add: f64_exp_def)
  have eq: "2 powi ilog2 x = of_int (2 ^ 52) * f64_ulp x"
    by (simp add: f64_ulp_def e(1) power_int_diff)
  have "of_int (2 ^ 52) \<le> x / f64_ulp x"
    using ilog2_bounds(1)[OF pos] unfolding eq by (simp add: pos_le_divide_eq)
  then have "2 ^ 52 \<le> round_half_even (x / f64_ulp x)" by (rule round_half_even_ge)
  then have "(of_int (2 ^ 52) :: rat) \<le> of_int (round_half_even (x / f64_ulp x))"
    by (simp only: of_int_le_iff)
  then have "2 powi ilog2 x \<le> f64_value x"
    unfolding eq f64_value_def by (rule mult_right_mono) (simp add: order_less_imp_le)
  moreover have "(2 :: rat) powi k \<le> 2 powi ilog2 x" using e by (intro power_int_increasing) simp_all
  ultimately show ?thesis by simp
qed

lemma f64_round_bounded:
  assumes "0 < x" "x \<le> 2 powi k" "- 1022 \<le> k" "k < 1024"
  shows "f64_round x = Fin (f64_value x) \<and> 0 \<le> f64_value x \<and> f64_value x \<le> 2 powi k"
proof -
  have "(2 :: rat) powi k < 2 powi 1024" using assms(4) by (intro power_int_strict_increasing) simp_all
  then have "(2 :: rat) powi k < 2 ^ 1024" by (simp add: power_int_def)
  then show ?thesis
    using f64_value_le_pow2[OF assms(1-3)] f64_value_nonneg[OF assms(1)] f64_round_pos[OF assms(1)]
    by simp
qed

text \<open>Relative error of one rounding, for numbers in the normal range.\<close>

lemma f64_value_rel_error:
  assumes "2 powi (- 1022) \<le> x"
  shows "\<bar>f64_value x - x\<bar> \<le> x * 2 powi (- 53)"
proof -
  have pos: "0 < x" using assms by (meson less_le_trans zero_less_numeral zero_less_power_int)
  have "f64_exp x = ilog2 x" using ilog2_ge[OF assms] pos by (simp add: f64_exp_def)
  then have "f64_ulp x / 2 = 2 powi ilog2 x * 2 powi (- 53)"
    by (simp add: f64_ulp_def power_int_diff power_int_minus)
  also have "\<dots> \<le> x * 2 powi (- 53)"
    using ilog2_bounds(1)[OF pos] by (intro mult_right_mono) simp_all
  finally show ?thesis using f64_value_error[of x] by linarith
qed

text \<open>Integers of at most 53 bits are exact.\<close>

lemma f64_of_int_exact_pos:
  assumes "0 < n" "n < 2 ^ 53"
  shows "f64_of_int n = Fin (of_int n)"
proof -
  let ?x = "of_int n :: rat"
  have x: "1 \<le> ?x" "?x < 2 powi 53"
    using assms by (simp_all add: power_int_def)
  have e: "0 \<le> f64_exp ?x" "f64_exp ?x \<le> 52"
    using ilog2_ge[of 0 ?x] ilog2_less[of ?x 53] x by (simp_all add: f64_exp_def)
  have "?x / f64_ulp ?x = of_int (n * 2 ^ nat (52 - f64_exp ?x))"
    using e by (simp add: f64_ulp_def power_int_def field_simps)
  then have v: "f64_value ?x = ?x"
    unfolding f64_value_def by (metis f64_ulp_pos less_irrefl nonzero_eq_divide_eq round_half_even_of_int)
  have "f64_round ?x = Fin (f64_value ?x)"
    using f64_round_bounded[of ?x 53] x by simp
  then show ?thesis by (simp add: f64_of_int_def v)
qed

lemma f64_of_int_exact: "\<bar>n\<bar> < 2 ^ 53 \<Longrightarrow> f64_of_int n = Fin (of_int n)"
  using f64_of_int_exact_pos[of n] f64_of_int_exact_pos[of "- n"] f64_round_minus[of "of_int n"]
  by (cases "f64_round (of_int n)"; cases n "0 :: int" rule: linorder_cases)
    (auto simp: f64_of_int_def)

lemma f64_clamp_bounds:
  "f64_clamp x mn mx = Some y \<Longrightarrow> \<not> f64_is_nan x \<Longrightarrow> f64_le mn y \<and> f64_le y mx"
  by (cases x; cases mn; cases mx) (auto simp: f64_clamp_def split: if_splits)

lemma f64_clamp_total: "f64_le mn mx \<Longrightarrow> \<exists>y. f64_clamp x mn mx = Some y"
  by (simp add: f64_clamp_def)

lemma f64_round_not_nan [simp]: "f64_round x \<noteq> NaN" "\<not> f64_is_nan (f64_round x)"
  by (simp_all add: f64_round_def Let_def)

lemma f64_round_ge_one: "1 \<le> x \<Longrightarrow> f64_le (Fin 1) (f64_round x)"
  using f64_value_ge_pow2[of 0 x] by (auto simp: f64_round_pos)

lemma f64_round_le_one: "x \<le> 1 \<Longrightarrow> f64_le (f64_round x) (Fin 1)"
proof (cases "0 < x")
  case True
  assume "x \<le> 1"
  with True f64_round_bounded[of x 0] show ?thesis by auto
next
  case False
  then obtain y where y: "x = - y" "0 \<le> y" by (metis minus_minus neg_0_le_iff_le not_le)
  show ?thesis
  proof (cases "y = 0")
    case False
    with y f64_value_nonneg[of y] show ?thesis
      by (auto simp: f64_round_minus f64_round_pos)
  qed (simp add: y)
qed

lemma f64_round_nonneg: "0 \<le> x \<Longrightarrow> f64_le (Fin 0) (f64_round x)"
  using f64_value_nonneg[of x] by (cases "x = 0") (auto simp: f64_round_pos)

lemma f64_clamp_nonneg:
  "f64_clamp (Fin y) mn mx = Some d \<Longrightarrow> 0 < y \<Longrightarrow> f64_le (Fin 0) mx \<Longrightarrow> f64_le (Fin 0) d"
  by (cases mn; cases mx) (auto simp: f64_clamp_def split: if_splits)

lemma f64_add_nonneg: "f64_le (Fin 0) x \<Longrightarrow> f64_le (Fin 0) y \<Longrightarrow> f64_le (Fin 0) (f64_add x y)"
  by (cases x; cases y) (auto intro!: f64_round_nonneg)

lemma f64_mul_nonneg:
  "f64_le (Fin 0) x \<Longrightarrow> f64_le (Fin 0) y \<Longrightarrow> f64_mul x y = NaN \<or> f64_le (Fin 0) (f64_mul x y)"
  by (cases x; cases y) (auto intro!: f64_round_nonneg simp: f64_signed_inf_def)

lemma f64_sub_le_one: "f64_le x (Fin 1) \<Longrightarrow> f64_le (Fin 0) y \<Longrightarrow> f64_le (f64_sub x y) (Fin 1)"
  by (cases x; cases y) (auto simp: f64_sub_def intro!: f64_round_le_one)

lemma f64_sub_NaN [simp]: "f64_sub x NaN = NaN" "f64_sub NaN y = NaN"
  by (cases x; simp add: f64_sub_def)+

subsection \<open>Lemmas: monotonicity, and splitting nanoseconds into seconds\<close>

lemma round_half_even_mono: "x \<le> y \<Longrightarrow> round_half_even x \<le> round_half_even y"
proof -
  assume le: "x \<le> y"
  have r: "\<lfloor>z\<rfloor> \<le> round_half_even z" "round_half_even z \<le> \<lfloor>z\<rfloor> + 1" for z :: rat
    by (simp_all add: round_half_even_def Let_def)
  show ?thesis
  proof (cases "\<lfloor>x\<rfloor> = \<lfloor>y\<rfloor>")
    case True
    with le show ?thesis by (auto simp: round_half_even_def Let_def)
  next
    case False
    then have "\<lfloor>x\<rfloor> + 1 \<le> \<lfloor>y\<rfloor>" using floor_mono[OF le] by linarith
    with r(2)[of x] r(1)[of y] show ?thesis by linarith
  qed
qed

lemma ilog2_mono: "0 < x \<Longrightarrow> x \<le> y \<Longrightarrow> ilog2 x \<le> ilog2 y"
  using ilog2_bounds(1)[of x] by (intro ilog2_ge) linarith

lemma f64_value_mono:
  assumes "0 < x" "x \<le> y"
  shows "f64_value x \<le> f64_value y"
proof (cases "f64_exp x = f64_exp y")
  case True
  then have u: "f64_ulp x = f64_ulp y" by (simp add: f64_ulp_def)
  have "x / f64_ulp y \<le> y / f64_ulp y" using assms(2) by (intro divide_right_mono) (simp_all add: order_less_imp_le)
  then have "(of_int (round_half_even (x / f64_ulp y)) :: rat) \<le> of_int (round_half_even (y / f64_ulp y))"
    unfolding of_int_le_iff by (rule round_half_even_mono)
  then show ?thesis unfolding f64_value_def u by (rule mult_right_mono) (simp add: order_less_imp_le)
next
  case False
  then have e: "f64_exp y = ilog2 y" "ilog2 x < ilog2 y" "- 1022 < ilog2 y"
    using assms ilog2_mono[OF assms] by (auto simp: f64_exp_def split: if_splits)
  have "0 < y" using assms by linarith
  have "x < 2 powi (ilog2 x + 1)" using ilog2_bounds(2)[OF assms(1)] .
  also have "(2 :: rat) powi (ilog2 x + 1) \<le> 2 powi ilog2 y" using e by (intro power_int_increasing) simp_all
  finally have "f64_value x \<le> 2 powi ilog2 y" using e assms by (intro f64_value_le_pow2) simp_all
  also have "\<dots> \<le> f64_value y"
    using e ilog2_bounds(1)[OF \<open>0 < y\<close>] by (intro f64_value_ge_pow2) simp_all
  finally show ?thesis .
qed

lemma f64_value_of_int: "0 < n \<Longrightarrow> n < 2 ^ 53 \<Longrightarrow> f64_value (of_int n) = of_int n"
  using f64_of_int_exact_pos[of n] f64_round_pos[of "of_int n"]
  by (simp add: f64_of_int_def split: if_splits)

text \<open>A rounded number below \<open>2\<^sup>6\<^sup>2\<close> has a significand of 53 bits and an exponent of at most 9.\<close>

lemma f64_value_significand:
  assumes "0 < y" "f64_value y < 2 ^ 62"
  shows "\<exists>n m. f64_value y = of_int n * 2 powi m \<and> n < 2 ^ 53 \<and> m \<le> 9"
proof -
  let ?n = "round_half_even (y / f64_ulp y)" and ?m = "f64_exp y - 52"
  have v: "f64_value y = of_int ?n * 2 powi ?m" by (simp add: f64_value_def f64_ulp_def)
  have "y < 2 powi (f64_exp y + 1)"
  proof -
    have "(2 :: rat) powi (ilog2 y + 1) \<le> 2 powi (f64_exp y + 1)"
      using assms(1) by (intro power_int_increasing) (simp_all add: f64_exp_def)
    then show ?thesis using ilog2_bounds(2)[OF assms(1)] by linarith
  qed
  also have "(2 :: rat) powi (f64_exp y + 1) = 2 ^ 53 * f64_ulp y"
    by (simp add: f64_ulp_def power_int_diff power_int_add)
  finally have "y / f64_ulp y \<le> of_int (2 ^ 53)" by (simp add: pos_divide_le_eq)
  then have n: "?n \<le> 2 ^ 53" by (rule round_half_even_le)
  have e: "f64_exp y \<le> 61"
  proof (rule ccontr)
    assume "\<not> f64_exp y \<le> 61"
    then have "62 \<le> ilog2 y" using assms(1) by (auto simp: f64_exp_def)
    then have "(2 :: rat) powi 62 \<le> 2 powi ilog2 y" by (intro power_int_increasing) simp_all
    then have "2 powi 62 \<le> f64_value y"
      using ilog2_bounds(1)[OF assms(1)] by (intro f64_value_ge_pow2) simp_all
    then show False using assms(2) by simp
  qed
  show ?thesis
  proof (cases "?n = 2 ^ 53")
    case False
    with v n e show ?thesis by (intro exI[of _ ?n] exI[of _ ?m]) simp
  next
    case True
    have "(2 :: rat) powi (?m + 1) = 2 powi ?m * 2" by (rule power_int_add_1) simp
    then have v': "f64_value y = of_int (2 ^ 52) * 2 powi (?m + 1)" unfolding v True by simp
    also have "\<dots> = 2 powi (f64_exp y + 1)" by (simp add: power_int_diff power_int_add)
    finally have "(2 :: rat) powi (f64_exp y + 1) < 2 powi 62" using assms(2) by simp
    then have "\<not> 62 \<le> f64_exp y + 1"
      using power_int_increasing[of 62 "f64_exp y + 1" "2 :: rat"] by linarith
    then have "?m + 1 \<le> 9" by linarith
    moreover have "(2 :: int) ^ 52 < 2 ^ 53" by simp
    ultimately show ?thesis using v' by blast
  qed
qed

text \<open>Such a number that is below a multiple of \<open>10\<^sup>9\<close> is so by more than its rounding error.\<close>

lemma f64_gap_below_billion:
  assumes "0 < y" "f64_value y < 2 ^ 62" "0 < f64_value y" "f64_value y < of_int k * 1000000000"
  shows "f64_value y * 2 powi (- 53) < of_int k * 1000000000 - f64_value y"
proof -
  obtain n m where v: "f64_value y = of_int n * 2 powi m" "n < 2 ^ 53" "m \<le> 9"
    using f64_value_significand[OF assms(1,2)] by blast
  let ?z = "k * 1953125 * 2 ^ nat (9 - m) - n"
  have p: "(2 :: rat) ^ nat (9 - m) * 2 powi m = 512"
  proof -
    have "(2 :: rat) ^ nat (9 - m) = 2 powi (9 - m)" using v(3) by (simp add: power_int_def)
    then show ?thesis by (simp flip: power_int_add)
  qed
  have "of_int ?z * 2 powi m
      = of_int k * 1953125 * (2 ^ nat (9 - m) * 2 powi m) - of_int n * (2 powi m :: rat)"
    by (simp add: left_diff_distrib mult.assoc)
  then have g: "of_int k * 1000000000 - f64_value y = of_int ?z * 2 powi m" unfolding p v(1) by simp
  then have "0 < of_int ?z * (2 :: rat) powi m" using assms(4) by linarith
  moreover have "(0 :: rat) < 2 powi m" by simp
  ultimately have "0 < (of_int ?z :: rat)" by (metis mult_pos_pos zero_less_mult_pos2)
  then have "1 \<le> ?z" by (simp only: of_int_0_less_iff)
  then have "(1 :: rat) \<le> of_int ?z" by (simp only: of_int_1_le_iff)
  then have "1 * 2 powi m \<le> of_int ?z * (2 :: rat) powi m" by (rule mult_right_mono) simp
  moreover have "f64_value y * 2 powi (- 53) < 2 powi m"
  proof -
    have "(of_int n :: rat) < of_int (2 ^ 53)" using v(2) by (simp only: of_int_less_iff)
    then have "of_int n * 2 powi m < (2 ^ 53 :: rat) * 2 powi m" by simp
    then show ?thesis unfolding v(1) by (simp add: power_int_minus field_simps)
  qed
  ultimately show ?thesis unfolding g by linarith
qed

text \<open>Dividing such a number by \<open>10\<^sup>9\<close> and truncating gives the whole seconds: the quotient
  is too far below the next integer to be rounded up to it.\<close>

lemma f64_div_billion:
  assumes "x = 0 \<or> (\<exists>y>0. x = f64_value y)" "x < 2 ^ 62"
  shows "\<exists>w. f64_div (Fin x) (Fin 1000000000) = Fin w \<and> 0 \<le> w \<and> \<lfloor>w\<rfloor> = \<lfloor>x / 1000000000\<rfloor>"
proof (cases "x = 0")
  case False
  then obtain y where y: "0 < y" "x = f64_value y" using assms(1) by blast
  with False have x: "0 < x" using f64_value_nonneg[OF y(1)] by simp
  define q where "q = x / 1000000000"
  let ?k = "\<lfloor>q\<rfloor>"
  have q: "0 < q" "q \<le> 2 powi 33" using x assms(2) by (simp_all add: q_def)
  then have w: "f64_round q = Fin (f64_value q)" "0 \<le> f64_value q"
    using f64_round_bounded[of q 33] by simp_all
  have k: "of_int ?k \<le> q" "q < of_int ?k + 1" "0 \<le> ?k" using q by linarith+
  have "(of_int ?k :: rat) < of_int (2 ^ 53)" using k(1) q(2) by simp
  then have k53: "?k < 2 ^ 53" by (simp only: of_int_less_iff)
  have lower: "of_int ?k \<le> f64_value q"
  proof (cases "?k = 0")
    case False
    then have "0 < ?k" using k(3) by linarith
    then have "(0 :: rat) < of_int ?k" by (simp only: of_int_0_less_iff)
    then show ?thesis
      using f64_value_mono[OF _ k(1)] f64_value_of_int[OF \<open>0 < ?k\<close> k53] by simp
  qed (use w in simp)
  have upper: "f64_value q < of_int ?k + 1"
  proof (cases "2 powi (- 1022) \<le> q")
    case True
    have "x * 2 powi (- 53) < (of_int ?k + 1) * 1000000000 - x"
      using f64_gap_below_billion[OF y(1), of "?k + 1"] y(2) x assms(2) k(2) by (simp add: q_def)
    then have "q + q * 2 powi (- 53) < of_int ?k + 1" by (simp add: q_def field_simps)
    then show ?thesis using f64_value_rel_error[OF True] by linarith
  next
    case False
    then have "f64_value q \<le> 2 powi (- 1022)" using q by (intro f64_value_le_pow2) simp_all
    also have "(2 :: rat) powi (- 1022) < 2 powi 0" by (rule power_int_strict_increasing) simp_all
    finally have "f64_value q < 1" by simp
    moreover have "(0 :: rat) \<le> of_int ?k" using k(3) by (simp only: of_int_0_le_iff)
    ultimately show ?thesis by linarith
  qed
  show ?thesis using w lower upper by (auto simp: q_def intro!: floor_unique)
qed simp

lemma rat_trunc_nonneg: "0 \<le> x \<Longrightarrow> rat_trunc x = \<lfloor>x\<rfloor>"
  by (simp add: rat_trunc_def)

text \<open>Whole seconds and remaining nanoseconds together are the whole nanoseconds.\<close>

lemma f64_split_nanos:
  assumes "x = 0 \<or> (\<exists>y>0. x = f64_value y)" "0 \<le> x" "x < 2 ^ 62"
  shows "0 \<le> f64_as_i64 (f64_div (Fin x) (Fin 1000000000))"
    "f64_as_i64 (f64_div (Fin x) (Fin 1000000000)) < 2 ^ 62"
    "uint (f64_as_u32 (f64_rem (Fin x) (Fin 1000000000))) < 1000000000"
    "f64_as_i64 (f64_div (Fin x) (Fin 1000000000)) * 1000000000
      + uint (f64_as_u32 (f64_rem (Fin x) (Fin 1000000000))) = \<lfloor>x\<rfloor>"
proof -
  let ?s = "\<lfloor>x / 1000000000\<rfloor>"
  obtain w where w: "f64_div (Fin x) (Fin 1000000000) = Fin w" "0 \<le> w" "\<lfloor>w\<rfloor> = ?s"
    using f64_div_billion[OF assms(1,3)] by blast
  have s: "of_int ?s \<le> x / 1000000000" "x / 1000000000 < of_int ?s + 1" by linarith+
  have s0: "0 \<le> ?s" using assms(2) by simp
  have "(of_int ?s :: rat) < of_int (2 ^ 62)" using s(1) assms(2,3) by simp
  then have s62: "?s < 2 ^ 62" by (simp only: of_int_less_iff)
  have secs: "f64_as_i64 (f64_div (Fin x) (Fin 1000000000)) = ?s"
    using w s0 s62 by (simp add: f64_as_i64_def rat_trunc_nonneg i64_MIN_def i64_MAX_def)
  define r where "r = x - 1000000000 * of_int ?s"
  have r: "0 \<le> r" "r < 1000000000" using s by (simp_all add: r_def field_simps)
  have fr: "\<lfloor>r\<rfloor> = \<lfloor>x\<rfloor> - 1000000000 * ?s"
    using floor_diff_of_int[of x "1000000000 * ?s"] by (simp add: r_def)
  have f: "0 \<le> \<lfloor>r\<rfloor>" "\<lfloor>r\<rfloor> < 1000000000" using r by (simp_all add: floor_less_iff)
  have "f64_rem (Fin x) (Fin 1000000000) = Fin r"
    using assms(2) by (simp add: r_def rat_trunc_nonneg)
  then have nanos: "uint (f64_as_u32 (f64_rem (Fin x) (Fin 1000000000))) = \<lfloor>r\<rfloor>"
    using f r(1) by (simp add: f64_as_u32_def rat_trunc_nonneg uint_word_of_int)
  show "0 \<le> f64_as_i64 (f64_div (Fin x) (Fin 1000000000))"
    "f64_as_i64 (f64_div (Fin x) (Fin 1000000000)) < 2 ^ 62"
    "uint (f64_as_u32 (f64_rem (Fin x) (Fin 1000000000))) < 1000000000"
    "f64_as_i64 (f64_div (Fin x) (Fin 1000000000)) * 1000000000
      + uint (f64_as_u32 (f64_rem (Fin x) (Fin 1000000000))) = \<lfloor>x\<rfloor>"
    unfolding secs nanos using s0 s62 f by (simp_all add: fr)
qed

end
