(* ===== verification/Ptp_Port.thy ===== *)
theory Ptp_Port
  imports Ptp_Message Ptp_Float
begin

section \<open>The port and its infrastructure (port.rs, log.rs, timestamping.rs)\<close>

text \<open>
  Models the infrastructure boundary of \<^verbatim>\<open>crates/rptp/src/port.rs\<close>, \<^verbatim>\<open>log.rs\<close>,
  \<^verbatim>\<open>timestamping.rs\<close> and the clock traits of \<^verbatim>\<open>clock.rs\<close>. Sockets, timers, clocks,
  logs and metrics are not code of the core: what the core does to them is the \<open>trace\<close> of
  the \<open>world\<close>, in the order of the calls; what they answer (whether a send succeeds, the time
  scale of the clock) is a field of the \<open>DomainPort\<close>, a function of everything that
  happened before. Each timeout handle the timer host gives out has a fresh number.

  The lemmas describe a trace as a table of the timers that are alive, and show that
  the timer numbers stay fresh.
\<close>

subsection \<open>Log events\<close>

datatype PortEvent =
    EvInitialized
  | EvRecommendedSlave ParentPortIdentity
  | EvRecommendedMaster
  | EvMasterClockSelected ParentPortIdentity
  | EvAnnounceReceiptTimeout
  | EvQualifiedMaster
  | EvSynchronizationFault
  | MessageReceived string
  | MessageSent string
  | Static string

subsection \<open>Effects and the world\<close>

datatype Timeout = Timeout (timer_id: nat)

datatype effect =
    LogPortEvent PortIdentity PortEvent
  | TimerCreated nat SystemMessage
  | TimerRestarted nat Duration
  | TimerRestartedWith nat SystemMessage Duration
  | TimerDropped nat
  | EventSent bytes bool
  | GeneralSent bytes bool
  | StampEgress EventMessage
  | ClockStepped TimeStamp
  | ClockAdjusted f64
  | OffsetRecorded TimeInterval
  | StateDecisionTriggered PortNumber BestForeignSnapshot

record world =
  trace :: "effect list"
  next_timer :: nat

definition emit :: "effect \<Rightarrow> world \<Rightarrow> world" where
  "emit e w = w\<lparr>trace := trace w @ [e]\<rparr>"

subsection \<open>Timeouts\<close>

definition Timeout_restart :: "Timeout \<Rightarrow> Duration \<Rightarrow> world \<Rightarrow> world" where
  "Timeout_restart t timeout w = emit (TimerRestarted (timer_id t) timeout) w"

definition Timeout_restart_with_message ::
    "Timeout \<Rightarrow> SystemMessage \<Rightarrow> Duration \<Rightarrow> world \<Rightarrow> world" where
  "Timeout_restart_with_message t msg timeout w =
     emit (TimerRestartedWith (timer_id t) msg timeout) w"

text \<open>The end of a handle's scope: \<open>TimerHost::Timeout: Drop\<close>.\<close>

definition Timeout_drop :: "Timeout \<Rightarrow> world \<Rightarrow> world" where
  "Timeout_drop t w = emit (TimerDropped (timer_id t)) w"

record AnnounceReceiptTimeout =
  art_timeout :: Timeout
  art_interval :: Duration

definition AnnounceReceiptTimeout_restart :: "AnnounceReceiptTimeout \<Rightarrow> world \<Rightarrow> world" where
  "AnnounceReceiptTimeout_restart a w = Timeout_restart (art_timeout a) (art_interval a) w"

subsection \<open>The domain port\<close>

datatype SendResult = Ok | SendError

record DomainPort =
  port_identity :: PortIdentity
  domain_number :: DomainNumber
  physical_send_event :: "effect list \<Rightarrow> bytes \<Rightarrow> bool"
  physical_send_general :: "effect list \<Rightarrow> bytes \<Rightarrow> bool"
  clock_time_scale :: "effect list \<Rightarrow> TimeScale"

definition DomainPort_send_event :: "DomainPort \<Rightarrow> EventMessage \<Rightarrow> world \<Rightarrow> SendResult \<times> world" where
  "DomainPort_send_event p msg w =
     (let buf = MessageBuffer_new TransportSpecific PtpVersion_V2 (domain_number p) (port_identity p);
          finalized = EventMessage_to_wire msg buf;
          res = physical_send_event p (trace w) finalized;
          w = emit (EventSent finalized res) w
      in if res then (Ok, emit (StampEgress msg) w) else (SendError, w))"

definition DomainPort_send_general :: "DomainPort \<Rightarrow> GeneralMessage \<Rightarrow> world \<Rightarrow> SendResult \<times> world" where
  "DomainPort_send_general p msg w =
     (let buf = MessageBuffer_new TransportSpecific PtpVersion_V2 (domain_number p) (port_identity p);
          finalized = GeneralMessage_to_wire msg buf;
          res = physical_send_general p (trace w) finalized
      in (if res then Ok else SendError, emit (GeneralSent finalized res) w))"

definition DomainPort_timeout :: "DomainPort \<Rightarrow> SystemMessage \<Rightarrow> world \<Rightarrow> Timeout \<times> world" where
  "DomainPort_timeout p msg w =
     (Timeout (next_timer w), emit (TimerCreated (next_timer w) msg) (w\<lparr>next_timer := next_timer w + 1\<rparr>))"

definition DomainPort_log :: "DomainPort \<Rightarrow> PortEvent \<Rightarrow> world \<Rightarrow> world" where
  "DomainPort_log p event w = emit (LogPortEvent (port_identity p) event) w"

subsection \<open>The clock of the port\<close>

definition clock_step :: "TimeStamp \<Rightarrow> world \<Rightarrow> world" where
  "clock_step t w = emit (ClockStepped t) w"

definition clock_adjust :: "f64 \<Rightarrow> world \<Rightarrow> world" where
  "clock_adjust rate w = emit (ClockAdjusted rate) w"

subsection \<open>Port numbers\<close>

text \<open>\<open>next\<close> adds 1 to a \<open>u16\<close> counter: the overflow at 65535 is a panic (\<open>None\<close>).\<close>

record PortEnumeration =
  pe_count :: u16
  pe_next :: u16

definition PortEnumeration_sequential :: "u16 \<Rightarrow> PortEnumeration option" where
  "PortEnumeration_sequential n =
     (if n \<ge> 1 then Some \<lparr>pe_count = n, pe_next = 1\<rparr> else None)"

definition PortEnumeration_single :: "PortEnumeration option" where
  "PortEnumeration_single = PortEnumeration_sequential 1"

definition PortEnumeration_next :: "PortEnumeration \<Rightarrow> (PortNumber option \<times> PortEnumeration) option" where
  "PortEnumeration_next e =
     (let n = pe_next e in
      if n \<le> pe_count e then
        (if unat n + 1 < 2 ^ 16 then Some (Some (PortNumber n), e\<lparr>pe_next := n + 1\<rparr>) else None)
      else Some (None, e))"

text \<open>The first \<open>k\<close> answers of repeated calls.\<close>

fun PortEnumeration_take :: "nat \<Rightarrow> PortEnumeration \<Rightarrow> PortNumber option list option" where
  "PortEnumeration_take 0 e = Some []"
| "PortEnumeration_take (Suc k) e =
     (case PortEnumeration_next e of
        None \<Rightarrow> None
      | Some (r, e') \<Rightarrow> map_option ((#) r) (PortEnumeration_take k e'))"

subsection \<open>Lemmas: the world\<close>

lemma emit_simps [simp]:
  "trace (emit e w) = trace w @ [e]" "next_timer (emit e w) = next_timer w"
  by (simp_all add: emit_def)

lemmas world_defs [port_simps] =
  Timeout_restart_def Timeout_restart_with_message_def Timeout_drop_def
  AnnounceReceiptTimeout_restart_def DomainPort_timeout_def DomainPort_log_def
  clock_step_def clock_adjust_def

text \<open>The timers created and not dropped, with the message each will deliver.\<close>

fun timer_effect :: "effect \<Rightarrow> (nat \<rightharpoonup> SystemMessage) \<Rightarrow> (nat \<rightharpoonup> SystemMessage)" where
  "timer_effect (TimerCreated i m) t = t(i \<mapsto> m)"
| "timer_effect (TimerRestartedWith i m d) t = (if t i = None then t else t(i \<mapsto> m))"
| "timer_effect (TimerDropped i) t = t(i := None)"
| "timer_effect _ t = t"

definition timers :: "effect list \<Rightarrow> (nat \<rightharpoonup> SystemMessage)" where
  "timers tr = fold timer_effect tr Map.empty"

lemma timers_Nil [simp]: "timers [] = Map.empty"
  by (simp add: timers_def)

lemma timers_append [simp]: "timers (tr @ es) = fold timer_effect es (timers tr)"
  by (simp add: timers_def)

definition wf_world :: "world \<Rightarrow> bool" where
  "wf_world w \<longleftrightarrow> (\<forall>i \<in> dom (timers (trace w)). i < next_timer w)"

lemma wf_world_init [simp]: "wf_world \<lparr>trace = [], next_timer = n\<rparr>"
  by (simp add: wf_world_def)

lemma wf_world_emit [simp]:
  "wf_world w \<Longrightarrow> (\<forall>i m. e \<noteq> TimerCreated i m) \<Longrightarrow> wf_world (emit e w)"
  by (cases e) (auto simp: wf_world_def split: if_splits)

lemma wf_world_timeout [simp]:
  "wf_world w \<Longrightarrow> wf_world (snd (DomainPort_timeout p m w))"
  by (auto simp: wf_world_def DomainPort_timeout_def dom_def intro: less_SucI)

subsection \<open>Lemmas: port numbers\<close>

lemma PortEnumeration_take_spec:
  assumes "unat (pe_count e) < 2 ^ 16 - 1" "unat (pe_next e) \<le> unat (pe_count e) + 1"
  shows "PortEnumeration_take k e
     = Some (map (\<lambda>i. if unat (pe_next e) + i \<le> unat (pe_count e)
                       then Some (PortNumber (pe_next e + of_nat i)) else None) [0..<k])"
  using assms
proof (induction k arbitrary: e)
  case (Suc k)
  show ?case
  proof (cases "pe_next e \<le> pe_count e")
    case True
    let ?e = "e\<lparr>pe_next := pe_next e + 1\<rparr>"
    have u: "unat (pe_next e + 1) = unat (pe_next e) + 1"
      using True Suc.prems by (simp add: word_le_nat_alt unat_word_ariths)
    have "PortEnumeration_take k ?e
       = Some (map (\<lambda>i. if unat (pe_next e) + Suc i \<le> unat (pe_count e)
                         then Some (PortNumber (pe_next e + of_nat (Suc i))) else None) [0..<k])"
      using Suc.IH[of ?e] Suc.prems True by (simp add: u word_le_nat_alt add.assoc)
    moreover have "PortEnumeration_next e = Some (Some (PortNumber (pe_next e)), ?e)"
      using True Suc.prems by (simp add: PortEnumeration_next_def word_le_nat_alt Let_def)
    ultimately show ?thesis
      using True by (simp add: word_le_nat_alt map_upt_Suc del: upt_Suc)
  next
    case False
    then have "PortEnumeration_next e = Some (None, e)" by (simp add: PortEnumeration_next_def Let_def)
    with Suc.IH[of e] Suc.prems False show ?thesis
      by (simp add: word_le_nat_alt not_le map_upt_Suc del: upt_Suc)
  qed
qed simp

lemma PortEnumeration_sequential_Some:
  "PortEnumeration_sequential n = Some e \<longleftrightarrow> 1 \<le> n \<and> e = \<lparr>pe_count = n, pe_next = 1\<rparr>"
  by (auto simp: PortEnumeration_sequential_def)

subsection \<open>Lemmas: sending\<close>

lemma DomainPort_send_event_cases:
  obtains b where "b = EventMessage_to_wire msg (fresh_buffer (domain_number p) (port_identity p))"
    "physical_send_event p (trace w) b"
    "DomainPort_send_event p msg w = (Ok, emit (StampEgress msg) (emit (EventSent b True) w))"
  | b where "b = EventMessage_to_wire msg (fresh_buffer (domain_number p) (port_identity p))"
    "\<not> physical_send_event p (trace w) b"
    "DomainPort_send_event p msg w = (SendError, emit (EventSent b False) w)"
  by (auto simp: DomainPort_send_event_def Let_def split: if_splits)

lemma timers_send_event [simp]:
  "timers (trace (snd (DomainPort_send_event p msg w))) = timers (trace w)"
  "next_timer (snd (DomainPort_send_event p msg w)) = next_timer w"
  by (simp_all add: DomainPort_send_event_def Let_def)

lemma timers_send_general [simp]:
  "timers (trace (snd (DomainPort_send_general p msg w))) = timers (trace w)"
  "next_timer (snd (DomainPort_send_general p msg w)) = next_timer w"
  by (simp_all add: DomainPort_send_general_def Let_def)

text \<open>The general and event messages handed to the physical port, with the outcome of each send.\<close>

fun sent_general :: "effect list \<Rightarrow> (bytes \<times> bool) list" where
  "sent_general [] = []"
| "sent_general (GeneralSent b ok # es) = (b, ok) # sent_general es"
| "sent_general (_ # es) = sent_general es"

fun sent_event :: "effect list \<Rightarrow> (bytes \<times> bool) list" where
  "sent_event [] = []"
| "sent_event (EventSent b ok # es) = (b, ok) # sent_event es"
| "sent_event (_ # es) = sent_event es"

lemma sent_append [simp]:
  "sent_general (xs @ ys) = sent_general xs @ sent_general ys"
  "sent_event (xs @ ys) = sent_event xs @ sent_event ys"
  by (induction xs rule: sent_general.induct; simp) (induction xs rule: sent_event.induct; simp)

text \<open>The largest enumeration overflows its counter on the last port.\<close>

lemma PortEnumeration_take_overflow:
  "pe_count e = 0xFFFF \<Longrightarrow> unat (pe_next e) + j = 65535 \<Longrightarrow> PortEnumeration_take (Suc j) e = None"
proof (induction j arbitrary: e)
  case 0
  then show ?case by (simp add: PortEnumeration_next_def Let_def word_le_nat_alt)
next
  case (Suc j)
  let ?e = "e\<lparr>pe_next := pe_next e + 1\<rparr>"
  have "unat (pe_next e + 1) = unat (pe_next e) + 1" using Suc.prems(2) by (simp add: unat_word_ariths)
  with Suc have n: "PortEnumeration_take (Suc j) ?e = None" by simp
  have "pe_next e \<le> pe_count e" using Suc.prems by (simp add: word_le_nat_alt)
  then have "PortEnumeration_next e = Some (Some (PortNumber (pe_next e)), ?e)"
    using Suc.prems by (simp add: PortEnumeration_next_def Let_def)
  then show ?case using n by (subst PortEnumeration_take.simps) simp
qed

theorem port_enumeration_overflow:
  "\<exists>e. PortEnumeration_sequential 0xFFFF = Some e \<and> PortEnumeration_take 65535 e = None"
proof -
  have "PortEnumeration_take (Suc 65534) \<lparr>pe_count = 0xFFFF, pe_next = 1\<rparr> = None"
    by (rule PortEnumeration_take_overflow) simp_all
  then show ?thesis by (simp add: PortEnumeration_sequential_Some)
qed

end
