(* ===== verification/Ptp_Bmca.thy ===== *)
theory Ptp_Bmca
  imports Ptp_Port
begin

section \<open>Best master clock algorithm (bmca.rs)\<close>

text \<open>
  Models \<^verbatim>\<open>crates/rptp/src/bmca.rs\<close>: the state decision algorithm of IEEE 1588 Fig. 33, the
  trigger of state decision events, the four roles in which a port tracks foreign masters
  (listening, grandmaster tracking, parent tracking, passive), the qualification timeout, and
  the feeding of announces. The decisions of \<^verbatim>\<open>portstate.rs\<close> are here because the roles
  produce them.

  The trait \<open>Bmca\<close> is the locale \<open>bmca_role\<close>, interpreted for each of the four roles; its
  lemmas say when a role triggers a state decision event and which decisions it lets through.
\<close>

subsection \<open>Decisions\<close>

datatype BmcaMasterDecisionPoint = M1 | M2 | M3

record BmcaMasterDecision =
  decision_point :: BmcaMasterDecisionPoint
  decision_grandmaster_ds :: ClockDS

definition BmcaMasterDecision_matches_grandmaster :: "BmcaMasterDecision \<Rightarrow> ClockDS \<Rightarrow> bool" where
  "BmcaMasterDecision_matches_grandmaster d ds \<longleftrightarrow> decision_grandmaster_ds d = ds"

datatype BmcaDecision =
    DecideMaster BmcaMasterDecision
  | DecideSlave ParentPortIdentity
  | DecidePassive

datatype StateDecision =
    SDInitialized
  | MasterClockSelected ParentPortIdentity
  | RecommendedSlave ParentPortIdentity
  | RecommendedMaster BmcaMasterDecision
  | RecommendedPassive
  | FaultDetected
  | SDFaultCleared
  | QualificationTimeoutExpired
  | AnnounceReceiptTimeoutExpired
  | SynchronizationFault

fun BmcaDecision_to_state_decision :: "BmcaDecision \<Rightarrow> StateDecision option" where
  "BmcaDecision_to_state_decision (DecideMaster decision) = Some (RecommendedMaster decision)"
| "BmcaDecision_to_state_decision (DecideSlave parent) = Some (RecommendedSlave parent)"
| "BmcaDecision_to_state_decision DecidePassive = Some RecommendedPassive"

record QualificationTimeoutPolicy =
  master_decision_point :: BmcaMasterDecisionPoint
  policy_steps_removed :: StepsRemoved

definition QualificationTimeoutPolicy_duration ::
    "QualificationTimeoutPolicy \<Rightarrow> LogInterval \<Rightarrow> Duration" where
  "QualificationTimeoutPolicy_duration q log_announce_interval =
     (case master_decision_point q of
        M1 \<Rightarrow> Duration_from_secs 0
      | M2 \<Rightarrow> Duration_from_secs 0
      | M3 \<Rightarrow>
          let n = (ucast (StepsRemoved_as_u16 (policy_steps_removed q)) :: u64) + 1
          in Duration_saturating_mul (LogInterval_duration log_announce_interval) n)"

definition BmcaMasterDecision_apply ::
    "BmcaMasterDecision \<Rightarrow> (QualificationTimeoutPolicy \<Rightarrow> ClockDS \<Rightarrow> 'r) \<Rightarrow> 'r" where
  "BmcaMasterDecision_apply d new_port_state =
     (let qualification_timeout_policy =
            \<lparr>master_decision_point = decision_point d,
             policy_steps_removed = steps_removed (decision_grandmaster_ds d)\<rparr>
      in new_port_state qualification_timeout_policy (decision_grandmaster_ds d))"

subsection \<open>The state decision algorithm\<close>

record LocalDS =
  local_ds :: ClockDS
  local_topo_id :: PortIdentity

definition LocalDS_new :: "ClockDS \<Rightarrow> LocalDS" where
  "LocalDS_new ds = \<lparr>local_ds = ds, local_topo_id = PortIdentity (identity ds) (PortNumber 0)\<rparr>"

text \<open>\<open>Ok\<close> is \<open>Inr\<close> of the local data set, \<open>Err\<close> is \<open>Inl\<close> of the better foreign snapshot.\<close>

definition LocalDS_is_better_or_better_by_topology ::
    "LocalDS \<Rightarrow> BestForeignSnapshot \<Rightarrow> QualifiedForeignSnapshot + ClockDS" where
  "LocalDS_is_better_or_better_by_topology l other =
     (case other of
        Qualified foreign_ds src rcv \<Rightarrow>
          if TopologyDS_is_better_or_better_by_topology
               (TopologyDS_local (local_ds l) (local_topo_id l))
               (TopologyDS_foreign foreign_ds src rcv)
          then Inr (local_ds l)
          else Inl \<lparr>qfs_dataset = foreign_ds, qfs_source_port_identity = src,
                    qfs_receiver = rcv\<rparr>
      | Empty \<Rightarrow> Inr (local_ds l))"

definition AuthoritativeDecision_decision :: "LocalDS \<Rightarrow> BestForeignSnapshot \<Rightarrow> BmcaDecision" where
  "AuthoritativeDecision_decision d0 e_rbest =
     (case LocalDS_is_better_or_better_by_topology d0 e_rbest of
        Inr local_clock_ds \<Rightarrow>
          DecideMaster \<lparr>decision_point = M1, decision_grandmaster_ds = local_clock_ds\<rparr>
      | Inl _ \<Rightarrow> DecidePassive)"

definition BetterByTopologyDecision_decision ::
    "BestForeignSnapshot \<Rightarrow> QualifiedForeignSnapshot \<Rightarrow> BmcaDecision" where
  "BetterByTopologyDecision_decision e_rbest e_bst =
     (if QualifiedForeignSnapshot_is_better_by_topology e_bst e_rbest
      then DecidePassive
      else DecideMaster \<lparr>decision_point = M3,
             decision_grandmaster_ds = QualifiedForeignSnapshot_into_grandmaster_ds e_bst\<rparr>)"

definition ReceivedOnPortDecision_decision ::
    "PortNumber \<Rightarrow> BestForeignSnapshot \<Rightarrow> QualifiedForeignSnapshot \<Rightarrow> BmcaDecision" where
  "ReceivedOnPortDecision_decision port_number e_rbest e_bst =
     (case QualifiedForeignSnapshot_parent_if_received_on_port e_bst port_number of
        Some parent \<Rightarrow> DecideSlave parent
      | None \<Rightarrow> BetterByTopologyDecision_decision e_rbest e_bst)"

definition NonAuthoritativeDecision_decision ::
    "LocalDS \<Rightarrow> BestForeignSnapshot \<Rightarrow> PortNumber \<Rightarrow> BestForeignSnapshot \<Rightarrow> BmcaDecision" where
  "NonAuthoritativeDecision_decision d0 e_bst port_number e_rbest =
     (case LocalDS_is_better_or_better_by_topology d0 e_bst of
        Inr local_clock_ds \<Rightarrow>
          DecideMaster \<lparr>decision_point = M2, decision_grandmaster_ds = local_clock_ds\<rparr>
      | Inl qualified_e_best \<Rightarrow>
          ReceivedOnPortDecision_decision port_number e_rbest qualified_e_best)"

record BestMasterClockAlgorithm =
  bmca_d_0 :: ClockDS
  bmca_port_number :: PortNumber

definition BestMasterClockAlgorithm_decision ::
    "BestMasterClockAlgorithm \<Rightarrow> ClockDS \<Rightarrow> BestForeignSnapshot \<Rightarrow> BestForeignSnapshot \<Rightarrow>
     BmcaDecision \<times> BestMasterClockAlgorithm" where
  "BestMasterClockAlgorithm_decision b d0 e_bst e_rbest =
     (let b = b\<lparr>bmca_d_0 := d0\<rparr> in
      (if ClockDS_is_authoritative d0
       then AuthoritativeDecision_decision (LocalDS_new d0) e_rbest
       else NonAuthoritativeDecision_decision (LocalDS_new d0) e_bst (bmca_port_number b) e_rbest,
       b))"

subsection \<open>Triggering state decision events\<close>

record StateDecisionEventTrigger =
  previous_best_foreign :: BestForeignSnapshot
  received_on_port :: PortNumber

definition StateDecisionEventTrigger_trigger ::
    "StateDecisionEventTrigger \<Rightarrow> BestForeignSnapshot \<Rightarrow> world \<Rightarrow> StateDecisionEventTrigger \<times> world" where
  "StateDecisionEventTrigger_trigger t current w =
     (t\<lparr>previous_best_foreign := current\<rparr>,
      emit (StateDecisionTriggered (received_on_port t) current) w)"

definition StateDecisionEventTrigger_gated_trigger ::
    "StateDecisionEventTrigger \<Rightarrow> BestForeignSnapshot \<Rightarrow> world \<Rightarrow> StateDecisionEventTrigger \<times> world" where
  "StateDecisionEventTrigger_gated_trigger t current w =
     (if previous_best_foreign t \<noteq> current
      then (t\<lparr>previous_best_foreign := current\<rparr>,
            emit (StateDecisionTriggered (received_on_port t) current) w)
      else (t, w))"

subsection \<open>The roles\<close>

record ListeningBmca =
  lb_bmca :: BestMasterClockAlgorithm
  lb_best_foreign :: BestForeignRecord
  lb_state_decision_trigger :: StateDecisionEventTrigger

record GrandMasterTrackingBmca =
  gt_bmca :: BestMasterClockAlgorithm
  gt_best_foreign :: BestForeignRecord
  gt_grandmaster_ds :: ClockDS
  gt_state_decision_trigger :: StateDecisionEventTrigger

record ParentTrackingBmca =
  pt_bmca :: BestMasterClockAlgorithm
  pt_best_foreign :: BestForeignRecord
  pt_parent_port_identity :: ParentPortIdentity
  pt_state_decision_trigger :: StateDecisionEventTrigger

record PassiveBmca =
  pb_bmca :: BestMasterClockAlgorithm
  pb_best_foreign :: BestForeignRecord
  pb_state_decision_trigger :: StateDecisionEventTrigger

type_synonym bmca_parts = "BestMasterClockAlgorithm \<times> BestForeignRecord \<times> StateDecisionEventTrigger"

paragraph \<open>Listening\<close>

definition ListeningBmca_new ::
    "BestMasterClockAlgorithm \<Rightarrow> BestForeignRecord \<Rightarrow> StateDecisionEventTrigger \<Rightarrow> ListeningBmca" where
  "ListeningBmca_new b f t =
     \<lparr>lb_bmca = b, lb_best_foreign = f, lb_state_decision_trigger = t\<rparr>"

definition ListeningBmca_into_parent_tracking ::
    "ListeningBmca \<Rightarrow> ParentPortIdentity \<Rightarrow> ParentTrackingBmca" where
  "ListeningBmca_into_parent_tracking b parent =
     \<lparr>pt_bmca = lb_bmca b, pt_best_foreign = lb_best_foreign b, pt_parent_port_identity = parent,
      pt_state_decision_trigger = lb_state_decision_trigger b\<rparr>"

definition ListeningBmca_into_grandmaster_tracking ::
    "ListeningBmca \<Rightarrow> ClockDS \<Rightarrow> GrandMasterTrackingBmca" where
  "ListeningBmca_into_grandmaster_tracking b ds =
     \<lparr>gt_bmca = lb_bmca b, gt_best_foreign = lb_best_foreign b, gt_grandmaster_ds = ds,
      gt_state_decision_trigger = lb_state_decision_trigger b\<rparr>"

definition ListeningBmca_into_local_grandmaster_tracking ::
    "ListeningBmca \<Rightarrow> world \<Rightarrow> GrandMasterTrackingBmca \<times> world" where
  "ListeningBmca_into_local_grandmaster_tracking b w =
     (let current = BestForeignRecord_snapshot (lb_best_foreign b);
          (t, w) = StateDecisionEventTrigger_trigger (lb_state_decision_trigger b) current w;
          b = b\<lparr>lb_state_decision_trigger := t\<rparr>;
          ds = bmca_d_0 (lb_bmca b)
      in (ListeningBmca_into_grandmaster_tracking b ds, w))"

definition ListeningBmca_into_passive :: "ListeningBmca \<Rightarrow> PassiveBmca" where
  "ListeningBmca_into_passive b =
     \<lparr>pb_bmca = lb_bmca b, pb_best_foreign = lb_best_foreign b,
      pb_state_decision_trigger = lb_state_decision_trigger b\<rparr>"

definition ListeningBmca_into_parts :: "ListeningBmca \<Rightarrow> bmca_parts" where
  "ListeningBmca_into_parts b = (lb_bmca b, lb_best_foreign b, lb_state_decision_trigger b)"

definition ListeningBmca_consider ::
    "ListeningBmca \<Rightarrow> PortIdentity \<Rightarrow> ClockDS \<Rightarrow> LogInterval \<Rightarrow> Instant \<Rightarrow> world \<Rightarrow> ListeningBmca \<times> world" where
  "ListeningBmca_consider b src ds log_announce_interval now w =
     (let f = BestForeignRecord_consider (lb_best_foreign b) src ds log_announce_interval now;
          current = BestForeignRecord_snapshot f;
          (t, w) = StateDecisionEventTrigger_gated_trigger (lb_state_decision_trigger b) current w
      in (b\<lparr>lb_best_foreign := f, lb_state_decision_trigger := t\<rparr>, w))"

definition ListeningBmca_decision ::
    "ListeningBmca \<Rightarrow> ClockDS \<Rightarrow> BestForeignSnapshot \<Rightarrow> BmcaDecision option \<times> ListeningBmca" where
  "ListeningBmca_decision b d0 e_bst =
     (let e_rbest = BestForeignRecord_snapshot (lb_best_foreign b);
          (decision, bmca) = BestMasterClockAlgorithm_decision (lb_bmca b) d0 e_bst e_rbest;
          b = b\<lparr>lb_bmca := bmca\<rparr>
      in (case e_rbest of
            Qualified _ _ _ \<Rightarrow> (Some decision, b)
          | Empty \<Rightarrow> (None, b)))"

paragraph \<open>Grandmaster tracking\<close>

definition GrandMaster_announce ::
    "ClockDS \<Rightarrow> SequenceId \<Rightarrow> LogMessageInterval \<Rightarrow> TimeScale \<Rightarrow> AnnounceMessage" where
  "GrandMaster_announce ds sequence_id log_message_interval time_scale =
     \<lparr>an_sequence_id = sequence_id, an_log_message_interval = log_message_interval,
      an_foreign_clock_ds = ds, an_ptp_timescale = time_scale\<rparr>"

definition GrandMasterTrackingBmca_grandmaster :: "GrandMasterTrackingBmca \<Rightarrow> ClockDS" where
  "GrandMasterTrackingBmca_grandmaster b = gt_grandmaster_ds b"

definition GrandMasterTrackingBmca_with_grandmaster_ds ::
    "GrandMasterTrackingBmca \<Rightarrow> ClockDS \<Rightarrow> GrandMasterTrackingBmca" where
  "GrandMasterTrackingBmca_with_grandmaster_ds b ds = b\<lparr>gt_grandmaster_ds := ds\<rparr>"

definition GrandMasterTrackingBmca_into_parent_tracking ::
    "GrandMasterTrackingBmca \<Rightarrow> ParentPortIdentity \<Rightarrow> ParentTrackingBmca" where
  "GrandMasterTrackingBmca_into_parent_tracking b parent =
     \<lparr>pt_bmca = gt_bmca b, pt_best_foreign = gt_best_foreign b, pt_parent_port_identity = parent,
      pt_state_decision_trigger = gt_state_decision_trigger b\<rparr>"

definition GrandMasterTrackingBmca_into_passive :: "GrandMasterTrackingBmca \<Rightarrow> PassiveBmca" where
  "GrandMasterTrackingBmca_into_passive b =
     \<lparr>pb_bmca = gt_bmca b, pb_best_foreign = gt_best_foreign b,
      pb_state_decision_trigger = gt_state_decision_trigger b\<rparr>"

definition GrandMasterTrackingBmca_into_parts :: "GrandMasterTrackingBmca \<Rightarrow> bmca_parts" where
  "GrandMasterTrackingBmca_into_parts b =
     (gt_bmca b, gt_best_foreign b, gt_state_decision_trigger b)"

definition GrandMasterTrackingBmca_consider ::
    "GrandMasterTrackingBmca \<Rightarrow> PortIdentity \<Rightarrow> ClockDS \<Rightarrow> LogInterval \<Rightarrow> Instant \<Rightarrow> world \<Rightarrow>
     GrandMasterTrackingBmca \<times> world" where
  "GrandMasterTrackingBmca_consider b src ds log_announce_interval now w =
     (let f = BestForeignRecord_consider (gt_best_foreign b) src ds log_announce_interval now;
          current = BestForeignRecord_snapshot f;
          (t, w) = StateDecisionEventTrigger_gated_trigger (gt_state_decision_trigger b) current w
      in (b\<lparr>gt_best_foreign := f, gt_state_decision_trigger := t\<rparr>, w))"

definition GrandMasterTrackingBmca_decision ::
    "GrandMasterTrackingBmca \<Rightarrow> ClockDS \<Rightarrow> BestForeignSnapshot \<Rightarrow>
     BmcaDecision option \<times> GrandMasterTrackingBmca" where
  "GrandMasterTrackingBmca_decision b d0 e_bst =
     (let e_rbest = BestForeignRecord_snapshot (gt_best_foreign b);
          (decision, bmca) = BestMasterClockAlgorithm_decision (gt_bmca b) d0 e_bst e_rbest;
          b = b\<lparr>gt_bmca := bmca\<rparr>
      in (case decision of
            DecideMaster master_decision \<Rightarrow>
              if BmcaMasterDecision_matches_grandmaster master_decision (gt_grandmaster_ds b)
              then (None, b) else (Some decision, b)
          | DecideSlave _ \<Rightarrow> (Some decision, b)
          | DecidePassive \<Rightarrow> (Some decision, b)))"

paragraph \<open>Parent tracking\<close>

definition ParentTrackingBmca_matches_parent :: "ParentTrackingBmca \<Rightarrow> PortIdentity \<Rightarrow> bool" where
  "ParentTrackingBmca_matches_parent b source =
     ParentPortIdentity_matches (pt_parent_port_identity b) source"

definition ParentTrackingBmca_with_parent ::
    "ParentTrackingBmca \<Rightarrow> ParentPortIdentity \<Rightarrow> ParentTrackingBmca" where
  "ParentTrackingBmca_with_parent b parent = b\<lparr>pt_parent_port_identity := parent\<rparr>"

definition ParentTrackingBmca_into_grandmaster_tracking ::
    "ParentTrackingBmca \<Rightarrow> ClockDS \<Rightarrow> GrandMasterTrackingBmca" where
  "ParentTrackingBmca_into_grandmaster_tracking b ds =
     \<lparr>gt_bmca = pt_bmca b, gt_best_foreign = pt_best_foreign b, gt_grandmaster_ds = ds,
      gt_state_decision_trigger = pt_state_decision_trigger b\<rparr>"

definition ParentTrackingBmca_into_local_grandmaster_tracking ::
    "ParentTrackingBmca \<Rightarrow> world \<Rightarrow> GrandMasterTrackingBmca \<times> world" where
  "ParentTrackingBmca_into_local_grandmaster_tracking b w =
     (let current = BestForeignRecord_snapshot (pt_best_foreign b);
          (t, w) = StateDecisionEventTrigger_trigger (pt_state_decision_trigger b) current w;
          b = b\<lparr>pt_state_decision_trigger := t\<rparr>;
          ds = bmca_d_0 (pt_bmca b)
      in (ParentTrackingBmca_into_grandmaster_tracking b ds, w))"

definition ParentTrackingBmca_into_passive :: "ParentTrackingBmca \<Rightarrow> PassiveBmca" where
  "ParentTrackingBmca_into_passive b =
     \<lparr>pb_bmca = pt_bmca b, pb_best_foreign = pt_best_foreign b,
      pb_state_decision_trigger = pt_state_decision_trigger b\<rparr>"

definition ParentTrackingBmca_into_parts :: "ParentTrackingBmca \<Rightarrow> bmca_parts" where
  "ParentTrackingBmca_into_parts b = (pt_bmca b, pt_best_foreign b, pt_state_decision_trigger b)"

definition ParentTrackingBmca_consider ::
    "ParentTrackingBmca \<Rightarrow> PortIdentity \<Rightarrow> ClockDS \<Rightarrow> LogInterval \<Rightarrow> Instant \<Rightarrow> world \<Rightarrow>
     ParentTrackingBmca \<times> world" where
  "ParentTrackingBmca_consider b src ds log_announce_interval now w =
     (let f = BestForeignRecord_consider (pt_best_foreign b) src ds log_announce_interval now;
          current = BestForeignRecord_snapshot f;
          (t, w) = StateDecisionEventTrigger_gated_trigger (pt_state_decision_trigger b) current w
      in (b\<lparr>pt_best_foreign := f, pt_state_decision_trigger := t\<rparr>, w))"

definition ParentTrackingBmca_decision ::
    "ParentTrackingBmca \<Rightarrow> ClockDS \<Rightarrow> BestForeignSnapshot \<Rightarrow> BmcaDecision option \<times> ParentTrackingBmca" where
  "ParentTrackingBmca_decision b d0 e_bst =
     (let e_rbest = BestForeignRecord_snapshot (pt_best_foreign b);
          (decision, bmca) = BestMasterClockAlgorithm_decision (pt_bmca b) d0 e_bst e_rbest;
          b = b\<lparr>pt_bmca := bmca\<rparr>
      in (case decision of
            DecideSlave parent \<Rightarrow>
              if pt_parent_port_identity b \<noteq> parent then (Some decision, b) else (None, b)
          | _ \<Rightarrow> (Some decision, b)))"

paragraph \<open>Passive\<close>

definition PassiveBmca_into_parent_tracking ::
    "PassiveBmca \<Rightarrow> ParentPortIdentity \<Rightarrow> ParentTrackingBmca" where
  "PassiveBmca_into_parent_tracking b parent =
     \<lparr>pt_bmca = pb_bmca b, pt_best_foreign = pb_best_foreign b, pt_parent_port_identity = parent,
      pt_state_decision_trigger = pb_state_decision_trigger b\<rparr>"

definition PassiveBmca_into_grandmaster_tracking ::
    "PassiveBmca \<Rightarrow> ClockDS \<Rightarrow> GrandMasterTrackingBmca" where
  "PassiveBmca_into_grandmaster_tracking b ds =
     \<lparr>gt_bmca = pb_bmca b, gt_best_foreign = pb_best_foreign b, gt_grandmaster_ds = ds,
      gt_state_decision_trigger = pb_state_decision_trigger b\<rparr>"

definition PassiveBmca_into_local_grandmaster_tracking ::
    "PassiveBmca \<Rightarrow> world \<Rightarrow> GrandMasterTrackingBmca \<times> world" where
  "PassiveBmca_into_local_grandmaster_tracking b w =
     (let current = BestForeignRecord_snapshot (pb_best_foreign b);
          (t, w) = StateDecisionEventTrigger_trigger (pb_state_decision_trigger b) current w;
          b = b\<lparr>pb_state_decision_trigger := t\<rparr>;
          ds = bmca_d_0 (pb_bmca b)
      in (PassiveBmca_into_grandmaster_tracking b ds, w))"

definition PassiveBmca_into_parts :: "PassiveBmca \<Rightarrow> bmca_parts" where
  "PassiveBmca_into_parts b = (pb_bmca b, pb_best_foreign b, pb_state_decision_trigger b)"

definition PassiveBmca_consider ::
    "PassiveBmca \<Rightarrow> PortIdentity \<Rightarrow> ClockDS \<Rightarrow> LogInterval \<Rightarrow> Instant \<Rightarrow> world \<Rightarrow> PassiveBmca \<times> world" where
  "PassiveBmca_consider b src ds log_announce_interval now w =
     (let f = BestForeignRecord_consider (pb_best_foreign b) src ds log_announce_interval now;
          current = BestForeignRecord_snapshot f;
          (t, w) = StateDecisionEventTrigger_gated_trigger (pb_state_decision_trigger b) current w
      in (b\<lparr>pb_best_foreign := f, pb_state_decision_trigger := t\<rparr>, w))"

definition PassiveBmca_decision ::
    "PassiveBmca \<Rightarrow> ClockDS \<Rightarrow> BestForeignSnapshot \<Rightarrow> BmcaDecision option \<times> PassiveBmca" where
  "PassiveBmca_decision b d0 e_bst =
     (let e_rbest = BestForeignRecord_snapshot (pb_best_foreign b);
          (decision, bmca) = BestMasterClockAlgorithm_decision (pb_bmca b) d0 e_bst e_rbest;
          b = b\<lparr>pb_bmca := bmca\<rparr>
      in (case decision of
            DecidePassive \<Rightarrow> (None, b)
          | _ \<Rightarrow> (Some decision, b)))"

subsection \<open>Feeding announces\<close>

text \<open>\<open>AnnounceMessage::feed_bmca\<close>, for any role's \<open>consider\<close>.\<close>

definition AnnounceMessage_feed_bmca ::
    "('b \<Rightarrow> PortIdentity \<Rightarrow> ClockDS \<Rightarrow> LogInterval \<Rightarrow> Instant \<Rightarrow> world \<Rightarrow> 'b \<times> world) \<Rightarrow>
     AnnounceMessage \<Rightarrow> 'b \<Rightarrow> PortIdentity \<Rightarrow> Instant \<Rightarrow> world \<Rightarrow> 'b \<times> world" where
  "AnnounceMessage_feed_bmca consider msg bmca src now w =
     (case LogMessageInterval_log_interval (an_log_message_interval msg) of
        Some log_interval \<Rightarrow> consider bmca src (an_foreign_clock_ds msg) log_interval now w
      | None \<Rightarrow> (bmca, w))"

subsection \<open>The interface of a role\<close>

text \<open>A trigger is in step with the records when it last announced their current best.\<close>

definition in_step :: "bmca_parts \<Rightarrow> bool" where
  "in_step p \<longleftrightarrow> (case p of (m, f, t) \<Rightarrow> previous_best_foreign t = BestForeignRecord_snapshot f)"

definition parts_consider ::
    "bmca_parts \<Rightarrow> PortIdentity \<Rightarrow> ClockDS \<Rightarrow> LogInterval \<Rightarrow> Instant \<Rightarrow> world \<Rightarrow> bmca_parts \<times> world" where
  "parts_consider p src ds l now w =
     (case p of (m, f, t) \<Rightarrow>
        let f' = BestForeignRecord_consider f src ds l now;
            current = BestForeignRecord_snapshot f'
        in if previous_best_foreign t = current then ((m, f', t), w)
           else ((m, f', t\<lparr>previous_best_foreign := current\<rparr>),
                 emit (StateDecisionTriggered (received_on_port t) current) w))"

definition parts_decision :: "bmca_parts \<Rightarrow> ClockDS \<Rightarrow> BestForeignSnapshot \<Rightarrow> BmcaDecision" where
  "parts_decision p d0 e_bst =
     (case p of (m, f, t) \<Rightarrow>
        fst (BestMasterClockAlgorithm_decision m d0 e_bst (BestForeignRecord_snapshot f)))"

text \<open>
  What the trait \<open>Bmca\<close> promises: \<open>consider\<close> feeds the foreign records and triggers an event
  exactly when their best changes, and it keeps what the role has in force; \<open>decision\<close> stores
  the local data set and lets the outcome of the state decision algorithm through unless that
  outcome is already in force.
\<close>

locale bmca_role =
  fixes feed ::
      "'b \<Rightarrow> PortIdentity \<Rightarrow> ClockDS \<Rightarrow> LogInterval \<Rightarrow> Instant \<Rightarrow> world \<Rightarrow> 'b \<times> world"
    and decision :: "'b \<Rightarrow> ClockDS \<Rightarrow> BestForeignSnapshot \<Rightarrow> BmcaDecision option \<times> 'b"
    and parts :: "'b \<Rightarrow> bmca_parts"
    and in_force :: "'b \<Rightarrow> BmcaDecision \<Rightarrow> bool"
  assumes feed_parts:
      "(parts (fst (feed b src ds l now w)), snd (feed b src ds l now w))
         = parts_consider (parts b) src ds l now w"
    and decision_parts:
      "parts (snd (decision b d0 e)) = (case parts b of (m, f, t) \<Rightarrow> (m\<lparr>bmca_d_0 := d0\<rparr>, f, t))"
    and decision_result:
      "fst (decision b d0 e)
         = (if in_force b (parts_decision (parts b) d0 e) then None
            else Some (parts_decision (parts b) d0 e))"
    and decision_in_force: "in_force (snd (decision b d0 e)) = in_force b"
begin

lemma consider_in_step: "in_step (parts (fst (feed b src ds l now w)))"
  using feed_parts[of b src ds l now w]
  by (auto simp: in_step_def parts_consider_def Let_def split: prod.splits if_splits)

lemma decision_in_step: "in_step (parts (snd (decision b d0 e))) = in_step (parts b)"
  by (simp add: decision_parts in_step_def split: prod.splits)

text \<open>An announce that leaves the best record unchanged is silent.\<close>

lemma consider_silent:
  assumes "parts b = (m, f, t)" "in_step (parts b)"
    and "BestForeignRecord_snapshot (BestForeignRecord_consider f src ds l now)
           = BestForeignRecord_snapshot f"
  shows "snd (feed b src ds l now w) = w"
  using feed_parts[of b src ds l now w] assms
  by (simp add: in_step_def parts_consider_def Let_def)

lemma consider_triggers:
  assumes "parts b = (m, f, t)"
    and "current = BestForeignRecord_snapshot (BestForeignRecord_consider f src ds l now)"
    and "previous_best_foreign t \<noteq> current"
  shows "snd (feed b src ds l now w)
           = emit (StateDecisionTriggered (received_on_port t) current) w"
  using feed_parts[of b src ds l now w] assms
  by (simp add: parts_consider_def Let_def)

text \<open>Deciding twice on the same inputs gives the same answer.\<close>

lemma decision_stable:
  "fst (decision (snd (decision b d0 e)) d0 e) = fst (decision b d0 e)"
  by (simp add: decision_result decision_parts decision_in_force parts_decision_def
      BestMasterClockAlgorithm_decision_def Let_def split: prod.splits)

lemma feed_unspecified:
  assumes "an_log_message_interval msg = LogMessageInterval_unspecified"
  shows "AnnounceMessage_feed_bmca feed msg b src now w = (b, w)"
  using assms
  by (simp add: AnnounceMessage_feed_bmca_def LogMessageInterval_log_interval_def
      LogMessageInterval_unspecified_def MIN_LOG_VALUE_def MAX_LOG_VALUE_def)

end

definition listening_in_force :: "ListeningBmca \<Rightarrow> BmcaDecision \<Rightarrow> bool" where
  "listening_in_force b d \<longleftrightarrow> BestForeignRecord_snapshot (lb_best_foreign b) = Empty"

fun grandmaster_in_force :: "GrandMasterTrackingBmca \<Rightarrow> BmcaDecision \<Rightarrow> bool" where
  "grandmaster_in_force b (DecideMaster d) \<longleftrightarrow> decision_grandmaster_ds d = gt_grandmaster_ds b"
| "grandmaster_in_force b _ \<longleftrightarrow> False"

fun parent_in_force :: "ParentTrackingBmca \<Rightarrow> BmcaDecision \<Rightarrow> bool" where
  "parent_in_force b (DecideSlave p) \<longleftrightarrow> p = pt_parent_port_identity b"
| "parent_in_force b _ \<longleftrightarrow> False"

definition passive_in_force :: "PassiveBmca \<Rightarrow> BmcaDecision \<Rightarrow> bool" where
  "passive_in_force b d \<longleftrightarrow> d = DecidePassive"

lemmas role_defs =
  parts_consider_def parts_decision_def StateDecisionEventTrigger_gated_trigger_def
  BestMasterClockAlgorithm_decision_def Let_def

interpretation listening_role: bmca_role
  ListeningBmca_consider ListeningBmca_decision ListeningBmca_into_parts listening_in_force
  by unfold_locales
    (auto simp: ListeningBmca_consider_def ListeningBmca_decision_def ListeningBmca_into_parts_def
      role_defs listening_in_force_def fun_eq_iff split: BestForeignSnapshot.splits)

interpretation grandmaster_role: bmca_role
  GrandMasterTrackingBmca_consider GrandMasterTrackingBmca_decision
  GrandMasterTrackingBmca_into_parts grandmaster_in_force
proof unfold_locales
  fix b :: GrandMasterTrackingBmca and d0 e
  show "grandmaster_in_force (snd (GrandMasterTrackingBmca_decision b d0 e)) = grandmaster_in_force b"
  proof
    fix d show "grandmaster_in_force (snd (GrandMasterTrackingBmca_decision b d0 e)) d
        = grandmaster_in_force b d"
      by (cases d) (simp_all add: GrandMasterTrackingBmca_decision_def role_defs
          split: BmcaDecision.splits)
  qed
qed (auto simp: GrandMasterTrackingBmca_consider_def GrandMasterTrackingBmca_decision_def
      GrandMasterTrackingBmca_into_parts_def BmcaMasterDecision_matches_grandmaster_def
      role_defs split: BmcaDecision.splits)

interpretation parent_role: bmca_role
  ParentTrackingBmca_consider ParentTrackingBmca_decision ParentTrackingBmca_into_parts
  parent_in_force
proof unfold_locales
  fix b :: ParentTrackingBmca and d0 e
  show "parent_in_force (snd (ParentTrackingBmca_decision b d0 e)) = parent_in_force b"
  proof
    fix d show "parent_in_force (snd (ParentTrackingBmca_decision b d0 e)) d = parent_in_force b d"
      by (cases d) (simp_all add: ParentTrackingBmca_decision_def role_defs
          split: BmcaDecision.splits)
  qed
qed (auto simp: ParentTrackingBmca_consider_def ParentTrackingBmca_decision_def
      ParentTrackingBmca_into_parts_def role_defs split: BmcaDecision.splits)

interpretation passive_role: bmca_role
  PassiveBmca_consider PassiveBmca_decision PassiveBmca_into_parts passive_in_force
  by unfold_locales
    (auto simp: PassiveBmca_consider_def PassiveBmca_decision_def PassiveBmca_into_parts_def
      role_defs passive_in_force_def fun_eq_iff split: BmcaDecision.splits)

subsection \<open>Lemmas: the state decision\<close>

abbreviation local_better :: "ClockDS \<Rightarrow> ClockDS \<Rightarrow> PortIdentity \<Rightarrow> PortIdentity \<Rightarrow> bool" where
  "local_better d0 ds src rcv \<equiv>
     TopologyDS_is_better_or_better_by_topology
       (TopologyDS_local d0 (PortIdentity (identity d0) (PortNumber 0)))
       (TopologyDS_foreign ds src rcv)"

lemmas decision_defs =
  BestMasterClockAlgorithm_decision_def AuthoritativeDecision_decision_def
  NonAuthoritativeDecision_decision_def ReceivedOnPortDecision_decision_def
  BetterByTopologyDecision_decision_def LocalDS_is_better_or_better_by_topology_def
  LocalDS_new_def QualifiedForeignSnapshot_parent_if_received_on_port_def
  QualifiedForeignSnapshot_into_grandmaster_ds_def Let_def

lemma decision_Slave_iff:
  "fst (BestMasterClockAlgorithm_decision m d0 e_bst e_rbest) = DecideSlave parent \<longleftrightarrow>
   \<not> ClockDS_is_authoritative d0 \<and>
   (\<exists>ds src rcv. e_bst = Qualified ds src rcv \<and> \<not> local_better d0 ds src rcv \<and>
      pi_port_number rcv = bmca_port_number m \<and> parent = ParentPortIdentity src)"
  by (cases e_bst; cases e_rbest) (auto simp: decision_defs split: if_splits)

lemma decision_Master:
  assumes "fst (BestMasterClockAlgorithm_decision m d0 e_bst e_rbest) = DecideMaster d"
  shows "case decision_point d of
      M1 \<Rightarrow> ClockDS_is_authoritative d0 \<and> decision_grandmaster_ds d = d0
    | M2 \<Rightarrow> \<not> ClockDS_is_authoritative d0 \<and> decision_grandmaster_ds d = d0 \<and>
            (\<forall>ds src rcv. e_bst = Qualified ds src rcv \<longrightarrow> local_better d0 ds src rcv)
    | M3 \<Rightarrow> \<not> ClockDS_is_authoritative d0 \<and>
            (\<exists>ds src rcv. e_bst = Qualified ds src rcv \<and> \<not> local_better d0 ds src rcv \<and>
               pi_port_number rcv \<noteq> bmca_port_number m \<and>
               decision_grandmaster_ds d = ClockDS_with_added_step ds)"
  using assms by (cases e_bst; cases e_rbest) (auto simp: decision_defs split: if_splits)

lemma unat_qualification_timeout:
  "unat (duration_nanos (QualificationTimeoutPolicy_duration q l)) =
     (case master_decision_point q of
        M3 \<Rightarrow> min (unat (duration_nanos (LogInterval_duration l))
                    * (unat (StepsRemoved_as_u16 (policy_steps_removed q)) + 1)) (2 ^ 64 - 1)
      | _ \<Rightarrow> 0)"
proof -
  let ?s = "StepsRemoved_as_u16 (policy_steps_removed q)"
  have "unat ?s < 2 ^ 16" using unsigned_less[of ?s] by simp
  then have "unat ((ucast ?s :: u64) + 1) = unat ?s + 1"
    by (simp add: unat_word_ariths unsigned_ucast_eq take_bit_nat_eq_self)
  then show ?thesis
    by (simp add: QualificationTimeoutPolicy_duration_def Duration_from_secs_def
        Duration_saturating_mul_def unat_saturating_mul Let_def split: BmcaMasterDecisionPoint.splits)
qed

text \<open>The own data set against a foreign one, by rank; only data sets of one grandmaster are ordered by topology.\<close>

abbreviation own_rank :: "ClockDS \<Rightarrow> (u8 \<times> u8 \<times> u8 \<times> u16 \<times> u8 \<times> ClockIdentity) \<times> nat \<times> PortIdentity \<times> PortNumber" where
  "own_rank d0 \<equiv> rank d0 (PortIdentity (identity d0) (PortNumber 0)) (PortIdentity (identity d0) (PortNumber 0))"

lemma local_better_iff_rank:
  assumes "consistent_ds d0 ds" "src \<noteq> rcv"
  shows "local_better d0 ds src rcv \<longleftrightarrow>
    rank d0 (PortIdentity (identity d0) (PortNumber 0)) (PortIdentity (identity d0) (PortNumber 0)) < rank ds src rcv"
  using better_iff_rank[OF assms, of "PortIdentity (identity d0) (PortNumber 0)" "PortIdentity (identity d0) (PortNumber 0)"]
  by (simp add: TopologyDS_local_def TopologyDS_foreign_def)

lemma better_by_topology_same:
  "TopologyDS_is_better_by_topology (TopologyDS_foreign a sa ra) (TopologyDS_foreign b sb rb) \<Longrightarrow> identity a = identity b"
  by (rule ccontr) (simp add: TopologyDS_is_better_by_topology_def TopologyDS_foreign_def ClockDS_compare_key split: if_splits)

subsection \<open>Properties\<close>

text \<open>C14: When the ports of a clock evaluate one state decision event, at most one of them becomes
  slave: two ports that decide Slave have the same port number and the same parent, whatever
  records each of them holds.\<close>

theorem at_most_one_slave:
  assumes "fst (BestMasterClockAlgorithm_decision m1 d0 e r1) = DecideSlave p1"
    and "fst (BestMasterClockAlgorithm_decision m2 d0 e r2) = DecideSlave p2"
  shows "bmca_port_number m1 = bmca_port_number m2 \<and> p1 = p2"
  using assms by (auto simp: decision_Slave_iff)

theorem at_most_one_slave_witness:
  "\<exists>p1 p2 :: ParentPortIdentity. p1 = p2 \<and>
     fst (BestMasterClockAlgorithm_decision \<lparr>bmca_d_0 = demo_local_ds, bmca_port_number = PortNumber 1\<rparr>
       demo_local_ds (Qualified demo_master_ds demo_master demo_self) Empty) = DecideSlave p1 \<and>
     fst (BestMasterClockAlgorithm_decision \<lparr>bmca_d_0 = demo_master_ds, bmca_port_number = PortNumber 1\<rparr>
       demo_local_ds (Qualified demo_master_ds demo_master demo_self)
       (Qualified demo_master_ds demo_master demo_self)) = DecideSlave p2"
proof -
  let ?d = "\<lambda>l r. fst (BestMasterClockAlgorithm_decision \<lparr>bmca_d_0 = l, bmca_port_number = PortNumber 1\<rparr>
      demo_local_ds (Qualified demo_master_ds demo_master demo_self) r)"
  have d: "?d l r = DecideSlave (ParentPortIdentity demo_master)" for l r
    by (simp add: decision_Slave_iff TopologyDS_local_def TopologyDS_foreign_def
        better_or_better_by_topology_iff demo_local_ds_def demo_master_ds_def demo_id_def demo_self_def ds_key_def
        ClockDS_is_authoritative_def ClockQuality_is_authoritative_def ClockClass_is_authoritative_def)
  from at_most_one_slave[OF d d] d show ?thesis by blast
qed

text \<open>A port that is to become master on behalf of a foreign grandmaster (M3) waits one announce
  interval per step it is removed from it, plus one, saturating at the largest duration; masters
  of their own data set (M1, M2) do not wait.\<close>

theorem qualification_timeout:
  "unat (duration_nanos (QualificationTimeoutPolicy_duration q l)) =
     (case master_decision_point q of
        M3 \<Rightarrow> min (unat (duration_nanos (LogInterval_duration l))
                    * (unat (StepsRemoved_as_u16 (policy_steps_removed q)) + 1)) (2 ^ 64 - 1)
      | M1 \<Rightarrow> 0 | M2 \<Rightarrow> 0)"
  by (cases "master_decision_point q") (simp_all add: unat_qualification_timeout)

end
