(* ===== verification/Ptp_Servo.thy ===== *)
theory Ptp_Servo
  imports Ptp_Port
begin

section \<open>The clock servo (servo.rs)\<close>

text \<open>
  Models \<^verbatim>\<open>crates/rptp/src/servo.rs\<close> and \<open>TimeInterval::as_f64_seconds\<close> of \<^verbatim>\<open>time.rs\<close>: the
  stepping servo, and the PI servo with its step policy, drift calibration and control loop.
  The \<open>Cell\<close>s of the source are fields of the servo, which each call returns updated; steps,
  rate adjustments and metrics are effects on the world. A panic (an overflowing subtraction, a
  clamp with \<open>min > max\<close>) is \<open>None\<close>.

  The lemmas give the totality of a feed, the exact time the clock is stepped to, the bounds of
  the calibrated rate, and the state machine of the lock state.
\<close>

subsection \<open>Samples\<close>

definition TimeInterval_as_f64_seconds :: "TimeInterval \<Rightarrow> f64" where
  "TimeInterval_as_f64_seconds d =
     f64_div (f64_of_int (TimeInterval_total_nanos d)) (f64_round 1000000000)"

datatype Drift = Drift (drift: f64)

definition Drift_from_ppb :: "int \<Rightarrow> Drift" where
  "Drift_from_ppb ppb = Drift (f64_mul (f64_of_int ppb) (f64_round (1 / 10 ^ 9)))"

definition Drift_clamp :: "Drift \<Rightarrow> Drift \<Rightarrow> Drift \<Rightarrow> Drift option" where
  "Drift_clamp d mn mx = map_option Drift (f64_clamp (drift d) (drift mn) (drift mx))"

definition Drift_as_rate :: "Drift \<Rightarrow> f64" where
  "Drift_as_rate d = f64_add (Fin 1) (drift d)"

datatype ServoSampleOrdering = InOrder Drift | InOrderButLowDelta | OutOfOrder

record ServoSample =
  ingress :: TimeStamp
  offset :: TimeInterval

definition ServoSample_master_estimate :: "ServoSample \<Rightarrow> TimeStamp option" where
  "ServoSample_master_estimate s = TimeStamp_checked_sub (ingress s) (offset s)"

definition ServoSample_log :: "ServoSample \<Rightarrow> world \<Rightarrow> world" where
  "ServoSample_log s w = emit (OffsetRecorded (offset s)) w"

definition ServoSample_offset :: "ServoSample \<Rightarrow> f64" where
  "ServoSample_offset s = TimeInterval_as_f64_seconds (offset s)"

definition ServoSample_beyond_threshold :: "ServoSample \<Rightarrow> TimeInterval \<Rightarrow> bool" where
  "ServoSample_beyond_threshold s threshold \<longleftrightarrow> TimeInterval_abs (offset s) > threshold"

definition ServoSample_drift ::
    "ServoSample \<Rightarrow> ServoSample \<Rightarrow> TimeInterval \<Rightarrow> ServoSampleOrdering option" where
  "ServoSample_drift s other min_delta = do {
     let delta_ingress = TimeStamp_sub (ingress s) (ingress other);
     delta_offset \<leftarrow> TimeInterval_sub (offset s) (offset other);
     Some (if delta_ingress \<le> TimeInterval 0 0 then OutOfOrder
           else if TimeInterval_abs delta_ingress < min_delta then InOrderButLowDelta
           else let drift = f64_div (TimeInterval_as_f64_seconds delta_offset)
                                    (TimeInterval_as_f64_seconds delta_ingress)
                in InOrder (Drift drift))
   }"

subsection \<open>Step policy\<close>

datatype ServoThreshold = Disabled | Enabled TimeInterval

fun ServoThreshold_exceeded_by :: "ServoThreshold \<Rightarrow> ServoSample \<Rightarrow> bool" where
  "ServoThreshold_exceeded_by Disabled s \<longleftrightarrow> False"
| "ServoThreshold_exceeded_by (Enabled t) s \<longleftrightarrow>
     t > TimeInterval_ZERO \<and> ServoSample_beyond_threshold s t"

datatype ServoStepDecision = StepTo TimeStamp | NoStep

record StepPolicy =
  initial_threshold :: "ServoThreshold option"
  threshold :: ServoThreshold

definition StepPolicy_new :: "ServoThreshold \<Rightarrow> ServoThreshold \<Rightarrow> StepPolicy" where
  "StepPolicy_new initial t = \<lparr>initial_threshold = Some initial, threshold = t\<rparr>"

definition StepPolicy_should_step :: "StepPolicy \<Rightarrow> ServoSample \<Rightarrow> ServoStepDecision \<times> StepPolicy" where
  "StepPolicy_should_step p s =
     (let taken = initial_threshold p;
          p = p\<lparr>initial_threshold := None\<rparr>
      in if (case taken of Some t \<Rightarrow> ServoThreshold_exceeded_by t s | None \<Rightarrow> False)
         then (case ServoSample_master_estimate s of None \<Rightarrow> NoStep | Some ts \<Rightarrow> StepTo ts, p)
         else if ServoThreshold_exceeded_by (threshold p) s
         then (case ServoSample_master_estimate s of None \<Rightarrow> NoStep | Some ts \<Rightarrow> StepTo ts, p)
         else (NoStep, p))"

subsection \<open>Drift estimation\<close>

record ServoDriftEstimate =
  de_sample :: "ServoSample option"
  de_min :: Drift
  de_max :: Drift
  de_min_delta :: TimeInterval

definition ServoDriftEstimate_new :: "Drift \<Rightarrow> Drift \<Rightarrow> TimeInterval \<Rightarrow> ServoDriftEstimate" where
  "ServoDriftEstimate_new mn mx min_delta =
     \<lparr>de_sample = None, de_min = mn, de_max = mx, de_min_delta = min_delta\<rparr>"

definition ServoDriftEstimate_estimate ::
    "ServoDriftEstimate \<Rightarrow> ServoSample \<Rightarrow> (Drift option \<times> ServoDriftEstimate) option" where
  "ServoDriftEstimate_estimate e s =
     (case de_sample e of
        Some prev \<Rightarrow>
          (case ServoSample_drift s prev (de_min_delta e) of
             None \<Rightarrow> None
           | Some (InOrder d) \<Rightarrow>
               map_option (\<lambda>c. (Some c, e\<lparr>de_sample := Some s\<rparr>)) (Drift_clamp d (de_min e) (de_max e))
           | Some InOrderButLowDelta \<Rightarrow> Some (None, e)
           | Some OutOfOrder \<Rightarrow> Some (None, e\<lparr>de_sample := None\<rparr>))
      | None \<Rightarrow> Some (None, e\<lparr>de_sample := Some s\<rparr>))"

definition ServoDriftEstimate_reset :: "ServoDriftEstimate \<Rightarrow> ServoDriftEstimate" where
  "ServoDriftEstimate_reset e = e\<lparr>de_sample := None\<rparr>"

subsection \<open>The PI loop\<close>

record PiLoop =
  kp :: f64
  ki :: f64
  integral :: f64

definition PiLoop_new :: "f64 \<Rightarrow> f64 \<Rightarrow> PiLoop" where
  "PiLoop_new p i = \<lparr>kp = p, ki = i, integral = Fin 0\<rparr>"

definition PiLoop_feed :: "PiLoop \<Rightarrow> f64 \<Rightarrow> world \<Rightarrow> PiLoop \<times> world" where
  "PiLoop_feed l error w =
     (let i = f64_add (integral l) error;
          l = l\<lparr>integral := i\<rparr>;
          rate = f64_sub (f64_sub (Fin 1) (f64_mul (kp l) error)) (f64_mul (ki l) i)
      in (l, clock_adjust rate w))"

definition PiLoop_reset :: "PiLoop \<Rightarrow> PiLoop" where
  "PiLoop_reset l = l\<lparr>integral := Fin 0\<rparr>"

subsection \<open>Servos\<close>

datatype ServoState = Unlocked | Calibrating | Locked

definition SteppingServo_feed :: "ServoSample \<Rightarrow> world \<Rightarrow> ServoState \<times> world" where
  "SteppingServo_feed s w =
     (let w = ServoSample_log s w in
      case ServoSample_master_estimate s of
        Some ts \<Rightarrow> (Locked, clock_step ts w)
      | None \<Rightarrow> (Unlocked, w))"

record PiServo =
  step_policy :: StepPolicy
  drift_estimate :: ServoDriftEstimate
  pi_loop :: PiLoop
  pi_state :: ServoState

definition PiServo_new :: "StepPolicy \<Rightarrow> ServoDriftEstimate \<Rightarrow> PiLoop \<Rightarrow> PiServo" where
  "PiServo_new p e l = \<lparr>step_policy = p, drift_estimate = e, pi_loop = l, pi_state = Unlocked\<rparr>"

definition PiServo_step :: "PiServo \<Rightarrow> ServoSample \<Rightarrow> world \<Rightarrow> ServoState option \<times> PiServo \<times> world" where
  "PiServo_step v s w =
     (let (decision, p) = StepPolicy_should_step (step_policy v) s;
          v = v\<lparr>step_policy := p\<rparr>
      in case decision of
           StepTo ts \<Rightarrow>
             (let w = clock_step ts w;
                  v = v\<lparr>pi_loop := PiLoop_reset (pi_loop v)\<rparr>;
                  v = v\<lparr>drift_estimate := ServoDriftEstimate_reset (drift_estimate v)\<rparr>
              in (Some Unlocked, v, w))
         | NoStep \<Rightarrow> (None, v, w))"

definition PiServo_calibrate :: "PiServo \<Rightarrow> ServoSample \<Rightarrow> world \<Rightarrow> (ServoState \<times> PiServo \<times> world) option" where
  "PiServo_calibrate v s w =
     (case ServoDriftEstimate_estimate (drift_estimate v) s of
        None \<Rightarrow> None
      | Some (None, e) \<Rightarrow> Some (Calibrating, v\<lparr>drift_estimate := e\<rparr>, w)
      | Some (Some d, e) \<Rightarrow>
          Some (Locked, v\<lparr>drift_estimate := ServoDriftEstimate_reset e\<rparr>, clock_adjust (Drift_as_rate d) w))"

definition PiServo_feed :: "PiServo \<Rightarrow> ServoSample \<Rightarrow> world \<Rightarrow> (ServoState \<times> PiServo \<times> world) option" where
  "PiServo_feed v s w =
     (let w = ServoSample_log s w;
          (stepped, v, w) = PiServo_step v s w
      in case stepped of
           Some state \<Rightarrow> Some (state, v\<lparr>pi_state := state\<rparr>, w)
         | None \<Rightarrow> do {
             (state, v, w) \<leftarrow>
               (if pi_state v = Locked
                then let (l, w) = PiLoop_feed (pi_loop v) (ServoSample_offset s) w
                     in Some (Locked, v\<lparr>pi_loop := l\<rparr>, w)
                else PiServo_calibrate v s w);
             Some (state, v\<lparr>pi_state := state\<rparr>, w)
           })"

datatype Servo = Stepping | PI PiServo

fun Servo_feed :: "Servo \<Rightarrow> ServoSample \<Rightarrow> world \<Rightarrow> (ServoState \<times> Servo \<times> world) option" where
  "Servo_feed Stepping s w = (let (st, w) = SteppingServo_feed s w in Some (st, Stepping, w))"
| "Servo_feed (PI v) s w = map_option (\<lambda>(st, v, w). (st, PI v, w)) (PiServo_feed v s w)"

record PiServoConfig =
  first_step_threshold :: ServoThreshold
  step_threshold :: ServoThreshold
  drift_min :: Drift
  drift_max :: Drift
  drift_update_interval :: TimeInterval
  cfg_kp :: f64
  cfg_ki :: f64

datatype ServoConfig = SteppingConfig | PiConfig PiServoConfig

fun ServoConfig_servo :: "ServoConfig \<Rightarrow> Servo" where
  "ServoConfig_servo SteppingConfig = Stepping"
| "ServoConfig_servo (PiConfig c) =
     PI (PiServo_new (StepPolicy_new (first_step_threshold c) (step_threshold c))
           (ServoDriftEstimate_new (drift_min c) (drift_max c) (drift_update_interval c))
           (PiLoop_new (cfg_kp c) (cfg_ki c)))"

subsection \<open>Well-formed samples and servos\<close>

text \<open>
  A sample comes from four time stamps (\<open>Ptp_E2E\<close>): its offset is bounded by the range of
  time stamps, so that differences of offsets cannot overflow. A PI servo is well formed when
  its drift bounds are ordered; \<open>PiServoConfig\<close> has public fields and nothing enforces this.
\<close>

definition wf_sample :: "ServoSample \<Rightarrow> bool" where
  "wf_sample s \<longleftrightarrow> wf_ts (ingress s) \<and> small_ti (offset s)"

fun wf_servo :: "Servo \<Rightarrow> bool" where
  "wf_servo Stepping \<longleftrightarrow> True"
| "wf_servo (PI v) \<longleftrightarrow>
     f64_le (drift (de_min (drift_estimate v))) (drift (de_max (drift_estimate v))) \<and>
     (\<forall>s. de_sample (drift_estimate v) = Some s \<longrightarrow> wf_sample s)"

fun wf_servo_config :: "ServoConfig \<Rightarrow> bool" where
  "wf_servo_config SteppingConfig \<longleftrightarrow> True"
| "wf_servo_config (PiConfig c) \<longleftrightarrow> f64_le (drift (drift_min c)) (drift (drift_max c))"

lemma wf_servo_config_servo [simp]: "wf_servo_config c \<Longrightarrow> wf_servo (ServoConfig_servo c)"
  by (cases c) (simp_all add: PiServo_new_def ServoDriftEstimate_new_def)

subsection \<open>Lemmas: a feed is total\<close>

lemma ServoSample_drift_total:
  "wf_sample s \<Longrightarrow> wf_sample t \<Longrightarrow> \<exists>r. ServoSample_drift s t d = Some r"
  using TimeInterval_sub_small[of "offset s" "offset t"]
  by (auto simp: ServoSample_drift_def wf_sample_def Let_def)

lemma Drift_clamp_total: "f64_le (drift mn) (drift mx) \<Longrightarrow> \<exists>r. Drift_clamp d mn mx = Some r"
  by (simp add: Drift_clamp_def f64_clamp_def)

definition wf_estimate :: "ServoDriftEstimate \<Rightarrow> bool" where
  "wf_estimate e \<longleftrightarrow> f64_le (drift (de_min e)) (drift (de_max e)) \<and>
     (\<forall>s. de_sample e = Some s \<longrightarrow> wf_sample s)"

lemma wf_servo_PI: "wf_servo (PI v) \<longleftrightarrow> wf_estimate (drift_estimate v)"
  by (simp add: wf_estimate_def)

lemma estimate_total:
  assumes "wf_estimate e" "wf_sample s"
  shows "\<exists>r e'. ServoDriftEstimate_estimate e s = Some (r, e') \<and> wf_estimate e'"
proof (cases "de_sample e")
  case None
  then show ?thesis using assms by (simp add: ServoDriftEstimate_estimate_def wf_estimate_def)
next
  case (Some prev)
  then obtain r where r: "ServoSample_drift s prev (de_min_delta e) = Some r"
    using assms ServoSample_drift_total by (force simp: wf_estimate_def)
  show ?thesis
  proof (cases r)
    case (InOrder d)
    obtain c where "Drift_clamp d (de_min e) (de_max e) = Some c"
      using assms Drift_clamp_total by (force simp: wf_estimate_def)
    then show ?thesis
      using assms by (simp add: ServoDriftEstimate_estimate_def Some r InOrder wf_estimate_def)
  qed (use assms Some in \<open>simp_all add: ServoDriftEstimate_estimate_def r wf_estimate_def\<close>)
qed

lemma wf_estimate_reset [simp]: "wf_estimate e \<Longrightarrow> wf_estimate (ServoDriftEstimate_reset e)"
  by (simp add: wf_estimate_def ServoDriftEstimate_reset_def)

lemma PiServo_step_wf:
  "PiServo_step v s w = (r, v', w') \<Longrightarrow> wf_estimate (drift_estimate v) \<Longrightarrow>
   wf_estimate (drift_estimate v')"
  by (auto simp: PiServo_step_def Let_def split: prod.splits ServoStepDecision.splits)

lemma PiServo_calibrate_total:
  assumes "wf_estimate (drift_estimate v)" "wf_sample s"
  shows "\<exists>st v' w'. PiServo_calibrate v s w = Some (st, v', w') \<and> wf_estimate (drift_estimate v')"
proof -
  obtain r e where e: "ServoDriftEstimate_estimate (drift_estimate v) s = Some (r, e)" "wf_estimate e"
    using estimate_total[OF assms] by blast
  then show ?thesis by (cases r) (simp_all add: PiServo_calibrate_def)
qed

lemma Servo_feed_total:
  assumes "wf_servo v" "wf_sample s"
  shows "\<exists>st v' w'. Servo_feed v s w = Some (st, v', w') \<and> wf_servo v'"
proof (cases v)
  case (PI p)
  with assms have wf: "wf_estimate (drift_estimate p)" by (simp add: wf_servo_PI del: wf_servo.simps)
  obtain r p1 w1 where st: "PiServo_step p s (ServoSample_log s w) = (r, p1, w1)"
    by (metis prod_cases3)
  note wf1 = PiServo_step_wf[OF st wf]
  obtain st2 p2 w2 where cal: "PiServo_calibrate p1 s w1 = Some (st2, p2, w2)"
    and wf2: "wf_estimate (drift_estimate p2)" using PiServo_calibrate_total[OF wf1 assms(2)] by blast
  show ?thesis
    using wf1 wf2
    by (cases r; cases "pi_state p1 = Locked")
      (simp_all add: PI PiServo_feed_def st cal wf_servo_PI Let_def split_def del: wf_servo.simps)
qed (simp add: split_def Let_def)

subsection \<open>Lemmas: effects on the clock\<close>

text \<open>The servo only touches the clock and the metrics: no timer is created or dropped.\<close>

lemma Servo_feed_timers:
  assumes "Servo_feed v s w = Some (st, v', w')"
  shows "timers (trace w') = timers (trace w) \<and> next_timer w' = next_timer w"
  using assms
  by (cases v)
    (auto simp: SteppingServo_feed_def PiServo_feed_def PiServo_step_def PiServo_calibrate_def
      PiLoop_feed_def ServoSample_log_def world_defs Let_def
      split: option.splits prod.splits ServoStepDecision.splits if_splits)

lemma small_wf_ti: "small_ti d \<Longrightarrow> wf_ti d"
  by (simp add: small_ti_def)

lemma master_estimate_iff:
  assumes "wf_sample s"
  shows "ServoSample_master_estimate s = Some t \<longleftrightarrow>
           wf_ts t \<and> ts_total t = ts_total (ingress s) - ti_total (offset s)"
  using assms TimeStamp_checked_sub_iff[of "ingress s" "offset s" t]
  by (simp add: ServoSample_master_estimate_def wf_sample_def small_wf_ti)

lemma beyond_threshold_iff:
  assumes "wf_sample s" "wf_ti t"
  shows "ServoSample_beyond_threshold s t \<longleftrightarrow> ti_total t < \<bar>ti_total (offset s)\<bar>"
  using assms TimeInterval_abs_total[of "offset s"] ti_total_less_iff[of t "TimeInterval_abs (offset s)"]
  by (simp add: ServoSample_beyond_threshold_def wf_sample_def small_wf_ti)

lemma should_step_uses_initial_once:
  "initial_threshold (snd (StepPolicy_should_step p s)) = None"
  by (simp add: StepPolicy_should_step_def Let_def)

lemma should_step_StepTo:
  "fst (StepPolicy_should_step p s) = StepTo t \<longleftrightarrow>
     ServoSample_master_estimate s = Some t \<and>
     ((\<exists>i. initial_threshold p = Some i \<and> ServoThreshold_exceeded_by i s) \<or>
      ServoThreshold_exceeded_by (threshold p) s)"
  by (auto simp: StepPolicy_should_step_def Let_def split: option.splits)

lemma estimate_clamped:
  assumes "ServoDriftEstimate_estimate e s = Some (Some d, e')" "\<not> f64_is_nan (drift d)"
  shows "f64_le (drift (de_min e)) (drift d) \<and> f64_le (drift d) (drift (de_max e))"
proof -
  obtain prev d0 where "ServoSample_drift s prev (de_min_delta e) = Some (InOrder d0)"
    and c: "Drift_clamp d0 (de_min e) (de_max e) = Some d"
    using assms(1)
    by (auto simp: ServoDriftEstimate_estimate_def split: option.splits ServoSampleOrdering.splits)
  then obtain x where x: "f64_clamp (drift d0) (drift (de_min e)) (drift (de_max e)) = Some x" "d = Drift x"
    by (auto simp: Drift_clamp_def)
  have "\<not> f64_is_nan (drift d0)"
    using x assms(2) by (cases "drift d0") (auto simp: f64_clamp_def split: if_splits)
  then show ?thesis using f64_clamp_bounds[OF x(1)] by (simp add: x(2))
qed

text \<open>As fractional seconds: positive intervals give positive numbers, and the result is exact up
  to the two roundings.\<close>

lemma as_f64_seconds_pos:
  assumes "0 < ti_total d" "ti_total d \<le> 2 ^ 81"
  shows "\<exists>y. TimeInterval_as_f64_seconds d = Fin y \<and> 2 powi (- 30) \<le> y \<and> y \<le> 2 powi 81"
proof -
  let ?n = "of_int (ti_total d) :: rat"
  have n: "2 powi 0 \<le> ?n" "?n \<le> 2 powi 81"
    using assms by (simp_all add: power_int_def)
  then have v: "f64_round ?n = Fin (f64_value ?n)" "1 \<le> f64_value ?n" "f64_value ?n \<le> 2 ^ 81"
    using f64_round_bounded[of ?n 81] f64_value_ge_pow2[of 0 ?n] by (simp_all add: power_int_def)
  have g: "f64_round 1000000000 = Fin 1000000000"
    using f64_of_int_exact_pos[of 1000000000] by (simp add: f64_of_int_def)
  let ?q = "f64_value ?n / 1000000000"
  have q: "2 powi (- 30) \<le> ?q" "?q \<le> 2 powi 81"
    using v by (simp_all add: power_int_def field_simps)
  have "f64_round ?q = Fin (f64_value ?q)" "2 powi (- 30) \<le> f64_value ?q" "f64_value ?q \<le> 2 powi 81"
    using f64_round_bounded[of ?q 81] f64_value_ge_pow2[OF q(1)] q v by simp_all
  then show ?thesis
    using v(1) g by (auto simp: TimeInterval_as_f64_seconds_def f64_of_int_def)
qed

lemma ServoSample_drift_InOrder:
  assumes "ServoSample_drift s prev md = Some (InOrder d)" "wf_sample s" "wf_sample prev"
  obtains di dof where "drift d = f64_div (TimeInterval_as_f64_seconds dof) (TimeInterval_as_f64_seconds di)"
    "ti_total di = ts_total (ingress s) - ts_total (ingress prev)"
    "ti_total dof = ti_total (offset s) - ti_total (offset prev)"
    "0 < ti_total di" "ti_total di \<le> 2 ^ 81" "\<bar>ti_total dof\<bar> \<le> 2 ^ 81"
proof -
  let ?di = "TimeStamp_sub (ingress s) (ingress prev)"
  obtain dof where dof: "TimeInterval_sub (offset s) (offset prev) = Some dof"
    and d: "drift d = f64_div (TimeInterval_as_f64_seconds dof) (TimeInterval_as_f64_seconds ?di)"
    and pos: "\<not> ?di \<le> TimeInterval 0 0"
    using assms(1) by (auto simp: ServoSample_drift_def Let_def bind_eq_Some_conv split: if_splits)
  have wf: "wf_ts (ingress s)" "wf_ts (ingress prev)" "small_ti (offset s)" "small_ti (offset prev)"
    using assms by (simp_all add: wf_sample_def)
  have di: "ti_total ?di = ts_total (ingress s) - ts_total (ingress prev)" "wf_ti ?di"
    using TimeStamp_sub_total[OF wf(1,2)] by simp_all
  have "ti_total dof = ti_total (offset s) - ti_total (offset prev)"
    using TimeInterval_sub_Some[OF _ _ dof] wf by (simp add: small_ti_def)
  moreover have "\<bar>ti_total (offset s) - ti_total (offset prev)\<bar> \<le> 2 ^ 81"
    using wf(3,4) by (auto simp: small_ti_def)
  moreover have "0 < ti_total ?di"
    using pos ti_total_le_iff[OF di(2), of "TimeInterval 0 0"]
    by (simp add: wf_ti_def in_i64_def i64_MIN_def i64_MAX_def TimeInterval_total_nanos_def)
  moreover have "ti_total ?di \<le> 2 ^ 81"
    using di(1) wf_ts_D[OF wf(1)] wf_ts_D[OF wf(2)] by (simp add: ts_limit_def)
  ultimately show ?thesis using that d di(1) by simp
qed

text \<open>A clock that runs away ahead of its master is measured with a non-negative drift.\<close>

lemma growing_offset_drift:
  assumes "ServoSample_drift s prev md = Some (InOrder d)" "wf_sample s" "wf_sample prev"
    and "ti_total (offset prev) < ti_total (offset s)"
  shows "\<exists>y. drift d = Fin y \<and> 0 < y"
proof -
  obtain di dof where *: "drift d = f64_div (TimeInterval_as_f64_seconds dof) (TimeInterval_as_f64_seconds di)"
    "ti_total dof = ti_total (offset s) - ti_total (offset prev)"
    "0 < ti_total di" "ti_total di \<le> 2 ^ 81" "\<bar>ti_total dof\<bar> \<le> 2 ^ 81"
    using ServoSample_drift_InOrder[OF assms(1-3)] by metis
  then have "0 < ti_total dof" "ti_total dof \<le> 2 ^ 81" using assms(4) by linarith+
  then obtain a where a: "TimeInterval_as_f64_seconds dof = Fin a" "2 powi (- 30) \<le> a" "a \<le> 2 powi 81"
    using as_f64_seconds_pos by blast
  obtain b where b: "TimeInterval_as_f64_seconds di = Fin b" "2 powi (- 30) \<le> b" "b \<le> 2 powi 81"
    using as_f64_seconds_pos *(3,4) by blast
  have p: "(0 :: rat) < 2 powi (- 30)" by simp
  have ab: "0 < a" "0 < b" using a(2) b(2) p by linarith+
  have "2 powi (- 30) / 2 powi 81 \<le> a / b" using a b ab by (intro frac_le) simp_all
  then have lo: "2 powi (- 111) \<le> a / b" by (simp flip: power_int_diff)
  have "a / b \<le> 2 powi 81 / 2 powi (- 30)" using a b ab by (intro frac_le) simp_all
  then have hi: "a / b \<le> 2 powi 111" by (simp flip: power_int_diff)
  have "0 < a / b" using ab by simp
  then have "f64_round (a / b) = Fin (f64_value (a / b))"
    using f64_round_bounded[of "a / b" 111] hi by simp
  moreover have "0 < f64_value (a / b)"
    using f64_value_ge_pow2[OF lo] by (simp add: order_less_le_trans[rotated])
  ultimately show ?thesis using *(1) a(1) b(1) ab by simp
qed

lemma as_f64_seconds_not_nan: "\<not> f64_is_nan (TimeInterval_as_f64_seconds d)"
proof -
  have g: "f64_round 1000000000 = Fin 1000000000"
    using f64_of_int_exact_pos[of 1000000000] by (simp add: f64_of_int_def)
  show ?thesis
    by (cases "f64_of_int (ti_total d)")
      (simp_all add: TimeInterval_as_f64_seconds_def g, simp add: f64_of_int_def)
qed

lemma drift_not_nan:
  assumes "ServoSample_drift s prev md = Some (InOrder d)" "wf_sample s" "wf_sample prev"
  shows "\<not> f64_is_nan (drift d)"
proof -
  obtain di dof where *: "drift d = f64_div (TimeInterval_as_f64_seconds dof) (TimeInterval_as_f64_seconds di)"
    "0 < ti_total di" "ti_total di \<le> 2 ^ 81"
    using ServoSample_drift_InOrder[OF assms] by metis
  obtain b where b: "TimeInterval_as_f64_seconds di = Fin b" "2 powi (- 30) \<le> b"
    using as_f64_seconds_pos *(2,3) by blast
  have "(0 :: rat) < 2 powi (- 30)" by simp
  with b have "0 < b" by linarith
  then show ?thesis
    using as_f64_seconds_not_nan[of dof] by (cases "TimeInterval_as_f64_seconds dof") (simp_all add: * b)
qed

lemma calibrate_Locked:
  assumes "PiServo_calibrate v s w = Some (Locked, v', w')"
  obtains prev d0 d where "de_sample (drift_estimate v) = Some prev"
    "ServoSample_drift s prev (de_min_delta (drift_estimate v)) = Some (InOrder d0)"
    "f64_clamp (drift d0) (drift (de_min (drift_estimate v))) (drift (de_max (drift_estimate v))) = Some d"
    "w' = clock_adjust (f64_add (Fin 1) d) w"
  using assms
  by (fastforce simp: PiServo_calibrate_def ServoDriftEstimate_estimate_def Drift_clamp_def Drift_as_rate_def
      split: option.splits ServoSampleOrdering.splits prod.splits)

lemma clock_step_inj: "clock_step t w = clock_step t' w \<longleftrightarrow> t = t'"
  unfolding clock_step_def by (metis emit_simps(1) same_append_eq list.inject effect.inject(9))

lemma stepping_feed_iff:
  "Servo_feed Stepping s w = Some (Locked, Stepping, clock_step t (ServoSample_log s w)) \<longleftrightarrow>
     ServoSample_master_estimate s = Some t"
  by (auto simp: SteppingServo_feed_def Let_def clock_step_inj split: option.splits)

lemma pi_step_iff:
  "(\<exists>v'. PiServo_step v s w = (Some Unlocked, v', clock_step t w) \<and>
      integral (pi_loop v') = Fin 0 \<and> de_sample (drift_estimate v') = None) \<longleftrightarrow>
   ServoSample_master_estimate s = Some t \<and>
     ((\<exists>i. initial_threshold (step_policy v) = Some i \<and> ServoThreshold_exceeded_by i s) \<or>
      ServoThreshold_exceeded_by (threshold (step_policy v)) s)"
  unfolding should_step_StepTo[symmetric]
  by (auto simp: PiServo_step_def Let_def clock_step_inj PiLoop_reset_def ServoDriftEstimate_reset_def
      split: prod.splits ServoStepDecision.splits)

subsection \<open>Properties\<close>

text \<open>C30: A servo fed with any sample that the delay mechanism can produce never panics and stays
  well formed, and it is silent towards timers: neither the overflow of interval
  differences nor the assertion of \<open>clamp\<close> can be reached from a configuration whose
  smallest drift is at most its largest.\<close>

theorem servo_feed_total:
  assumes "wf_servo v" and "wf_sample s"
  shows "\<exists>st v' w'. Servo_feed v s w = Some (st, v', w') \<and> wf_servo v' \<and> timers (trace w') = timers (trace w)"
  using Servo_feed_total[OF assms, of w] Servo_feed_timers[of v s w] by blast

theorem servo_feed_total_witness:
  "\<exists>st v' w'. Servo_feed (ServoConfig_servo (PiConfig
     \<lparr>first_step_threshold = Disabled, step_threshold = Disabled, drift_min = Drift (Fin (- 1)), drift_max = Drift (Fin 1),
      drift_update_interval = TimeInterval 1 0, cfg_kp = Fin 0, cfg_ki = Fin 0\<rparr>))
     \<lparr>ingress = TimeStamp 1 0, offset = TimeInterval 0 5\<rparr> \<lparr>trace = [], next_timer = 0\<rparr> = Some (st, v', w')"
proof -
  let ?c = "PiConfig \<lparr>first_step_threshold = Disabled, step_threshold = Disabled, drift_min = Drift (Fin (- 1)),
      drift_max = Drift (Fin 1), drift_update_interval = TimeInterval 1 0, cfg_kp = Fin 0, cfg_ki = Fin 0\<rparr>"
  have "wf_servo (ServoConfig_servo ?c)" by (rule wf_servo_config_servo) simp
  moreover have "wf_sample \<lparr>ingress = TimeStamp 1 0, offset = TimeInterval 0 5\<rparr>"
    by (simp add: wf_sample_def wf_ts_def small_ti_def wf_ti_def in_i64_def i64_MIN_def i64_MAX_def
        TimeInterval_total_nanos_def)
  ultimately show ?thesis using servo_feed_total by blast
qed

text \<open>A servo that steps the clock sets it to the master's time: the new time is the ingress
  time of the sync minus the measured offset, exact to the nanosecond. The stepping servo does
  so on every sample whose master time is representable and reports Locked; the PI servo does so
  exactly when the offset exceeds the threshold (the initial threshold counting for the first
  sample only), reports Unlocked and forgets its integral and its drift sample.\<close>

theorem servo_steps_to_master_time:
  assumes "wf_sample s"
  shows "(Servo_feed Stepping s w = Some (Locked, Stepping, clock_step t (ServoSample_log s w)) \<longleftrightarrow>
      wf_ts t \<and> ts_total t = ts_total (ingress s) - ti_total (offset s)) \<and>
    ((\<exists>v'. PiServo_step v s w = (Some Unlocked, v', clock_step t w) \<and>
        integral (pi_loop v') = Fin 0 \<and> de_sample (drift_estimate v') = None) \<longleftrightarrow>
      wf_ts t \<and> ts_total t = ts_total (ingress s) - ti_total (offset s) \<and>
      ((\<exists>i. initial_threshold (step_policy v) = Some i \<and> ServoThreshold_exceeded_by i s) \<or>
       ServoThreshold_exceeded_by (threshold (step_policy v)) s))"
  using stepping_feed_iff[of s w t] pi_step_iff[of v s w t] master_estimate_iff[OF assms, of t] by simp

theorem servo_steps_to_master_time_witness:
  "Servo_feed Stepping \<lparr>ingress = TimeStamp 10 0, offset = TimeInterval 3 0\<rparr> \<lparr>trace = [], next_timer = 0\<rparr>
     = Some (Locked, Stepping, clock_step (TimeStamp 7 0)
         (ServoSample_log \<lparr>ingress = TimeStamp 10 0, offset = TimeInterval 3 0\<rparr> \<lparr>trace = [], next_timer = 0\<rparr>))"
  using servo_steps_to_master_time[of "\<lparr>ingress = TimeStamp 10 0, offset = TimeInterval 3 0\<rparr>"
      "\<lparr>trace = [], next_timer = 0\<rparr>" "TimeStamp 7 0"]
  by (simp add: wf_sample_def wf_ts_def small_ti_def wf_ti_def in_i64_def i64_MIN_def i64_MAX_def
      TimeInterval_total_nanos_def ts_total_def)

text \<open>When the PI servo finishes calibration it adjusts the clock rate once, to one plus a drift
  that is a number and lies between the configured smallest and largest drift.\<close>

theorem calibration_clamped:
  assumes "PiServo_calibrate v s w = Some (Locked, v', w')" and "wf_servo (PI v)" and "wf_sample s"
  shows "\<exists>d. trace w' = trace w @ [ClockAdjusted (f64_add (Fin 1) d)] \<and>
    f64_le (drift (de_min (drift_estimate v))) d \<and> f64_le d (drift (de_max (drift_estimate v)))"
proof -
  obtain prev d0 d where *: "de_sample (drift_estimate v) = Some prev"
    "ServoSample_drift s prev (de_min_delta (drift_estimate v)) = Some (InOrder d0)"
    "f64_clamp (drift d0) (drift (de_min (drift_estimate v))) (drift (de_max (drift_estimate v))) = Some d"
    "w' = clock_adjust (f64_add (Fin 1) d) w"
    by (rule calibrate_Locked[OF assms(1)])
  have "wf_sample prev" using assms(2) *(1) by simp
  then show ?thesis
    using f64_clamp_bounds[OF *(3)] drift_not_nan[OF *(2) assms(3)] *(4) by (auto simp: clock_adjust_def)
qed

definition demo_pi :: PiServo where
  "demo_pi = PiServo_new (StepPolicy_new Disabled Disabled)
     (ServoDriftEstimate_new (Drift (Fin (- 1))) (Drift (Fin 1)) (TimeInterval 1 0)
       \<lparr>de_sample := Some \<lparr>ingress = TimeStamp 1 0, offset = TimeInterval 0 0\<rparr>\<rparr>)
     (PiLoop_new (Fin 0) (Fin 0))"

definition demo_sample :: ServoSample where
  "demo_sample = \<lparr>ingress = TimeStamp 3 0, offset = TimeInterval 1 0\<rparr>"

lemma demo_calibration:
  "\<exists>v' w'. PiServo_calibrate demo_pi demo_sample \<lparr>trace = [], next_timer = 0\<rparr> = Some (Locked, v', w')"
  "wf_servo (PI demo_pi)" "wf_sample demo_sample"
proof -
  show wf: "wf_servo (PI demo_pi)" "wf_sample demo_sample"
    by (simp_all add: demo_pi_def demo_sample_def PiServo_new_def ServoDriftEstimate_new_def wf_sample_def
        wf_ts_def small_ti_def wf_ti_def in_i64_def i64_MIN_def i64_MAX_def TimeInterval_total_nanos_def)
  let ?prev = "\<lparr>ingress = TimeStamp 1 0, offset = TimeInterval 0 0\<rparr>"
  have sub: "TimeStamp_sub (TimeStamp 3 0) (TimeStamp 1 0) = TimeInterval 2 0"
    by (simp add: TimeStamp_sub_def TimeStamp_sub_opt_def TimeInterval_new_def i64_MIN_def)
  have "\<exists>d. ServoSample_drift demo_sample ?prev (TimeInterval 1 0) = Some (InOrder d)"
    by (simp add: ServoSample_drift_def demo_sample_def sub TimeInterval_sub_def i64_checked_def in_i64_def
        i64_MIN_def i64_MAX_def TimeInterval_new_def Let_def TimeInterval_abs_def less_eq_TimeInterval_def
        less_TimeInterval_def)
  then obtain d where "ServoSample_drift demo_sample ?prev (TimeInterval 1 0) = Some (InOrder d)" ..
  moreover obtain c where "Drift_clamp d (Drift (Fin (- 1))) (Drift (Fin 1)) = Some c"
    using Drift_clamp_total[of "Drift (Fin (- 1))" "Drift (Fin 1)" d] by auto
  ultimately show "\<exists>v' w'. PiServo_calibrate demo_pi demo_sample \<lparr>trace = [], next_timer = 0\<rparr> = Some (Locked, v', w')"
    by (simp add: PiServo_calibrate_def demo_pi_def PiServo_new_def ServoDriftEstimate_new_def
        ServoDriftEstimate_estimate_def)
qed

theorem calibration_clamped_witness:
  "\<exists>v' w' d. PiServo_calibrate demo_pi demo_sample \<lparr>trace = [], next_timer = 0\<rparr> = Some (Locked, v', w') \<and>
     trace w' = [ClockAdjusted (f64_add (Fin 1) d)] \<and> f64_le (Fin (- 1)) d \<and> f64_le d (Fin 1)"
proof -
  obtain v' w' where c: "PiServo_calibrate demo_pi demo_sample \<lparr>trace = [], next_timer = 0\<rparr> = Some (Locked, v', w')"
    using demo_calibration(1) by blast
  from calibration_clamped[OF c demo_calibration(2,3)] c show ?thesis
    by (auto simp: demo_pi_def PiServo_new_def ServoDriftEstimate_new_def)
qed

text \<open>C40: The direction of calibration: when the local clock gains on its master between the two
  samples (the offset grows), and positive drifts are allowed, calibration sets a rate of at
  least one: it makes a clock that is too fast run no slower, the opposite of what the PI loop
  does for the same sign.\<close>

theorem calibration_direction:
  assumes "PiServo_calibrate v s w = Some (Locked, v', w')" and "wf_servo (PI v)" and "wf_sample s"
    and "de_sample (drift_estimate v) = Some prev" and "ti_total (offset prev) < ti_total (offset s)"
    and "f64_le (Fin 0) (drift (de_max (drift_estimate v)))"
  shows "\<exists>rate. trace w' = trace w @ [ClockAdjusted rate] \<and> f64_le (Fin 1) rate"
proof -
  obtain d0 d where *: 
    "ServoSample_drift s prev (de_min_delta (drift_estimate v)) = Some (InOrder d0)"
    "f64_clamp (drift d0) (drift (de_min (drift_estimate v))) (drift (de_max (drift_estimate v))) = Some d"
    "w' = clock_adjust (f64_add (Fin 1) d) w"
    using calibrate_Locked[OF assms(1)] assms(4) by (metis option.inject)
  have "wf_sample prev" using assms(2,4) by simp
  from growing_offset_drift[OF *(1) assms(3) this assms(5)] obtain y where y: "drift d0 = Fin y" "0 < y" by blast
  have "f64_le (Fin 0) d"
    using *(2) y assms(6) by (auto intro: f64_clamp_nonneg)
  then have "f64_le (Fin 1) (f64_add (Fin 1) d)"
    by (cases d) (auto intro!: f64_round_ge_one)
  with *(3) show ?thesis by (auto simp: clock_adjust_def)
qed

theorem calibration_direction_witness:
  "\<exists>v' w' rate. PiServo_calibrate demo_pi demo_sample \<lparr>trace = [], next_timer = 0\<rparr> = Some (Locked, v', w') \<and>
     trace w' = [ClockAdjusted rate] \<and> f64_le (Fin 1) rate"
proof -
  obtain v' w' where c: "PiServo_calibrate demo_pi demo_sample \<lparr>trace = [], next_timer = 0\<rparr> = Some (Locked, v', w')"
    using demo_calibration(1) by blast
  from calibration_direction[OF c demo_calibration(2,3), where prev = "\<lparr>ingress = TimeStamp 1 0, offset = TimeInterval 0 0\<rparr>"] c
  show ?thesis
    by (auto simp: demo_pi_def PiServo_new_def ServoDriftEstimate_new_def demo_sample_def TimeInterval_total_nanos_def)
qed

text \<open>The direction of the PI loop: with non-negative gains and a non-negative integral, an offset
  that is not negative (the local clock is ahead) makes it set a rate of at most one, unless the
  computation is not a number at all; the integral stays non-negative.\<close>

theorem pi_loop_direction:
  assumes "f64_le (Fin 0) (kp l)" and "f64_le (Fin 0) (ki l)" and "f64_le (Fin 0) (integral l)"
    and "f64_le (Fin 0) error"
  shows "\<exists>rate. trace (snd (PiLoop_feed l error w)) = trace w @ [ClockAdjusted rate] \<and>
      (rate = NaN \<or> f64_le rate (Fin 1)) \<and> f64_le (Fin 0) (integral (fst (PiLoop_feed l error w)))"
proof -
  let ?i = "f64_add (integral l) error"
  have i: "f64_le (Fin 0) ?i" using assms(3,4) by (rule f64_add_nonneg)
  have "f64_sub (f64_sub (Fin 1) (f64_mul (kp l) error)) (f64_mul (ki l) ?i) = NaN \<or>
      f64_le (f64_sub (f64_sub (Fin 1) (f64_mul (kp l) error)) (f64_mul (ki l) ?i)) (Fin 1)"
    using f64_mul_nonneg[OF assms(1,4)] f64_mul_nonneg[OF assms(2) i] by (auto intro!: f64_sub_le_one)
  with i show ?thesis by (simp add: PiLoop_feed_def Let_def clock_adjust_def)
qed

theorem pi_loop_direction_witness:
  "\<exists>rate. trace (snd (PiLoop_feed (PiLoop_new (Fin 1) (Fin 0)) (Fin (1 / 2)) \<lparr>trace = [], next_timer = 0\<rparr>))
     = [ClockAdjusted rate] \<and> (rate = NaN \<or> f64_le rate (Fin 1))"
  using pi_loop_direction[of "PiLoop_new (Fin 1) (Fin 0)" "Fin (1 / 2)" "\<lparr>trace = [], next_timer = 0\<rparr>"]
  by (auto simp: PiLoop_new_def)

end
