(* ===== verification/Ptp_E2E.thy ===== *)
theory Ptp_E2E
  imports Ptp_Servo
begin

section \<open>End-to-end delay mechanism (e2e.rs)\<close>

text \<open>
  Models \<^verbatim>\<open>crates/rptp/src/e2e.rs\<close>: the windows that remember the latest sync, follow-up,
  delay request and delay response, the delay request cycle, and the sample computed from a
  matching pair of exchanges. The lemmas give the offset of a sample in nanoseconds from the
  four time stamps \<open>t1\<close> to \<open>t4\<close>, and that computing it cannot fail.
\<close>

subsection \<open>Windows and cycles\<close>

record 'm MessageWindow =
  current :: "'m option"

definition MessageWindow_new :: "'m MessageWindow" where
  "MessageWindow_new = \<lparr>current = None\<rparr>"

definition MessageWindow_record :: "'m MessageWindow \<Rightarrow> 'm \<Rightarrow> 'm MessageWindow" where
  "MessageWindow_record win msg = win\<lparr>current := Some msg\<rparr>"

definition MessageWindow_combine_latest ::
    "'m MessageWindow \<Rightarrow> 'n MessageWindow \<Rightarrow> ('m \<Rightarrow> 'n \<Rightarrow> 't option) \<Rightarrow> 't option" where
  "MessageWindow_combine_latest win other combine =
     (case (current win, current other) of
        (Some m, Some n) \<Rightarrow> combine m n
      | _ \<Rightarrow> None)"

record DelayCycle =
  dc_sequence_id :: SequenceId
  dc_timeout :: Timeout
  dc_log_interval :: LogInterval

definition DelayCycle_next :: "DelayCycle \<Rightarrow> world \<Rightarrow> DelayCycle \<times> world" where
  "DelayCycle_next c w =
     (let w = Timeout_restart (dc_timeout c) (LogInterval_duration (dc_log_interval c)) w
      in (c\<lparr>dc_sequence_id := SequenceId_next (dc_sequence_id c)\<rparr>, w))"

definition DelayCycle_delay_request :: "DelayCycle \<Rightarrow> DelayRequestMessage" where
  "DelayCycle_delay_request c = \<lparr>dreq_sequence_id = dc_sequence_id c\<rparr>"

subsection \<open>Exchanges\<close>

record SyncExchange =
  one_step_sync :: "(OneStepSyncMessage \<times> TimeStamp) option"
  two_step_sync_window :: "(TwoStepSyncMessage \<times> TimeStamp) MessageWindow"
  follow_up_window :: "FollowUpMessage MessageWindow"

definition SyncExchange_new :: SyncExchange where
  "SyncExchange_new =
     \<lparr>one_step_sync = None, two_step_sync_window = MessageWindow_new,
      follow_up_window = MessageWindow_new\<rparr>"

definition SyncExchange_record_one_step_sync ::
    "SyncExchange \<Rightarrow> OneStepSyncMessage \<Rightarrow> TimeStamp \<Rightarrow> SyncExchange" where
  "SyncExchange_record_one_step_sync x sync timestamp =
     x\<lparr>one_step_sync := Some (sync, timestamp)\<rparr>"

definition SyncExchange_record_two_step_sync ::
    "SyncExchange \<Rightarrow> TwoStepSyncMessage \<Rightarrow> TimeStamp \<Rightarrow> SyncExchange" where
  "SyncExchange_record_two_step_sync x sync timestamp =
     (let x = x\<lparr>one_step_sync := None\<rparr>
      in x\<lparr>two_step_sync_window := MessageWindow_record (two_step_sync_window x) (sync, timestamp)\<rparr>)"

definition SyncExchange_record_follow_up :: "SyncExchange \<Rightarrow> FollowUpMessage \<Rightarrow> SyncExchange" where
  "SyncExchange_record_follow_up x follow_up =
     x\<lparr>follow_up_window := MessageWindow_record (follow_up_window x) follow_up\<rparr>"

definition SyncExchange_master_slave_offset :: "SyncExchange \<Rightarrow> TimeInterval option" where
  "SyncExchange_master_slave_offset x =
     (case one_step_sync x of
        Some (sync, ts) \<Rightarrow> Some (OneStepSyncMessage_master_slave_offset sync ts)
      | None \<Rightarrow>
          MessageWindow_combine_latest (follow_up_window x) (two_step_sync_window x)
            (\<lambda>follow_up (sync, ts). FollowUpMessage_master_slave_offset follow_up sync ts))"

record DelayExchange =
  delay_request_window :: "(DelayRequestMessage \<times> TimeStamp) MessageWindow"
  delay_response_window :: "DelayResponseMessage MessageWindow"

definition DelayExchange_new :: DelayExchange where
  "DelayExchange_new =
     \<lparr>delay_request_window = MessageWindow_new, delay_response_window = MessageWindow_new\<rparr>"

definition DelayExchange_record_delay_request ::
    "DelayExchange \<Rightarrow> DelayRequestMessage \<Rightarrow> TimeStamp \<Rightarrow> DelayExchange" where
  "DelayExchange_record_delay_request x req timestamp =
     x\<lparr>delay_request_window := MessageWindow_record (delay_request_window x) (req, timestamp)\<rparr>"

definition DelayExchange_record_delay_response ::
    "DelayExchange \<Rightarrow> DelayResponseMessage \<Rightarrow> DelayExchange" where
  "DelayExchange_record_delay_response x resp =
     x\<lparr>delay_response_window := MessageWindow_record (delay_response_window x) resp\<rparr>"

definition DelayExchange_slave_master_offset :: "DelayExchange \<Rightarrow> TimeInterval option" where
  "DelayExchange_slave_master_offset x =
     MessageWindow_combine_latest (delay_response_window x) (delay_request_window x)
       (\<lambda>resp (req, ts). DelayResponseMessage_slave_master_offset resp req ts)"

subsection \<open>The mechanism\<close>

record EndToEndDelayMechanism =
  delay_cycle :: DelayCycle
  sync_exchange :: SyncExchange
  delay_exchange :: DelayExchange
  sync_ingress_timestamp :: "TimeStamp option"

definition EndToEndDelayMechanism_new :: "DelayCycle \<Rightarrow> EndToEndDelayMechanism" where
  "EndToEndDelayMechanism_new c =
     \<lparr>delay_cycle = c, sync_exchange = SyncExchange_new, delay_exchange = DelayExchange_new,
      sync_ingress_timestamp = None\<rparr>"

definition EndToEndDelayMechanism_delay_request ::
    "EndToEndDelayMechanism \<Rightarrow> world \<Rightarrow> DelayRequestMessage \<times> EndToEndDelayMechanism \<times> world" where
  "EndToEndDelayMechanism_delay_request m w =
     (let delay_request = DelayCycle_delay_request (delay_cycle m);
          (c, w) = DelayCycle_next (delay_cycle m) w
      in (delay_request, m\<lparr>delay_cycle := c\<rparr>, w))"

definition EndToEndDelayMechanism_record_one_step_sync ::
    "EndToEndDelayMechanism \<Rightarrow> OneStepSyncMessage \<Rightarrow> TimeStamp \<Rightarrow> EndToEndDelayMechanism" where
  "EndToEndDelayMechanism_record_one_step_sync m sync timestamp =
     m\<lparr>sync_exchange := SyncExchange_record_one_step_sync (sync_exchange m) sync timestamp,
       sync_ingress_timestamp := Some timestamp\<rparr>"

definition EndToEndDelayMechanism_record_two_step_sync ::
    "EndToEndDelayMechanism \<Rightarrow> TwoStepSyncMessage \<Rightarrow> TimeStamp \<Rightarrow> EndToEndDelayMechanism" where
  "EndToEndDelayMechanism_record_two_step_sync m sync timestamp =
     m\<lparr>sync_exchange := SyncExchange_record_two_step_sync (sync_exchange m) sync timestamp,
       sync_ingress_timestamp := Some timestamp\<rparr>"

definition EndToEndDelayMechanism_record_follow_up ::
    "EndToEndDelayMechanism \<Rightarrow> FollowUpMessage \<Rightarrow> EndToEndDelayMechanism" where
  "EndToEndDelayMechanism_record_follow_up m follow_up =
     m\<lparr>sync_exchange := SyncExchange_record_follow_up (sync_exchange m) follow_up\<rparr>"

definition EndToEndDelayMechanism_record_delay_request ::
    "EndToEndDelayMechanism \<Rightarrow> DelayRequestMessage \<Rightarrow> TimeStamp \<Rightarrow> EndToEndDelayMechanism" where
  "EndToEndDelayMechanism_record_delay_request m req timestamp =
     m\<lparr>delay_exchange := DelayExchange_record_delay_request (delay_exchange m) req timestamp\<rparr>"

definition EndToEndDelayMechanism_record_delay_response ::
    "EndToEndDelayMechanism \<Rightarrow> DelayResponseMessage \<Rightarrow> EndToEndDelayMechanism" where
  "EndToEndDelayMechanism_record_delay_response m resp =
     m\<lparr>delay_exchange := DelayExchange_record_delay_response (delay_exchange m) resp\<rparr>"

text \<open>The outer \<open>None\<close> is the panic of an overflowing subtraction; \<open>Some None\<close> is no sample.\<close>

definition EndToEndDelayMechanism_sample :: "EndToEndDelayMechanism \<Rightarrow> ServoSample option option" where
  "EndToEndDelayMechanism_sample m =
     (case SyncExchange_master_slave_offset (sync_exchange m) of
        None \<Rightarrow> Some None
      | Some ms_offset \<Rightarrow>
          (case DelayExchange_slave_master_offset (delay_exchange m) of
             None \<Rightarrow> Some None
           | Some sm_offset \<Rightarrow>
               (case sync_ingress_timestamp m of
                  None \<Rightarrow> Some None
                | Some sync_ingress \<Rightarrow> do {
                    delta \<leftarrow> TimeInterval_sub ms_offset sm_offset;
                    let offset_from_master = TimeInterval_half delta;
                    Some (Some \<lparr>ingress = sync_ingress, offset = offset_from_master\<rparr>)
                  })))"

subsection \<open>Well-formedness\<close>

text \<open>The windows hold messages that passed parsing and time stamps built by \<open>TimeStamp::new\<close>.\<close>

definition wf_sync_exchange :: "SyncExchange \<Rightarrow> bool" where
  "wf_sync_exchange x \<longleftrightarrow>
     (\<forall>s t. one_step_sync x = Some (s, t) \<longrightarrow> wf_ts (os_origin_timestamp s) \<and> wf_ts t) \<and>
     (\<forall>s t. current (two_step_sync_window x) = Some (s, t) \<longrightarrow> wf_ts t) \<and>
     (\<forall>f. current (follow_up_window x) = Some f \<longrightarrow> wf_ts (fu_precise_origin_timestamp f))"

definition wf_delay_exchange :: "DelayExchange \<Rightarrow> bool" where
  "wf_delay_exchange x \<longleftrightarrow>
     (\<forall>r t. current (delay_request_window x) = Some (r, t) \<longrightarrow> wf_ts t) \<and>
     (\<forall>r. current (delay_response_window x) = Some r \<longrightarrow> wf_ts (drsp_receive_timestamp r))"

definition wf_e2e :: "EndToEndDelayMechanism \<Rightarrow> bool" where
  "wf_e2e m \<longleftrightarrow> wf_sync_exchange (sync_exchange m) \<and> wf_delay_exchange (delay_exchange m) \<and>
     (\<forall>t. sync_ingress_timestamp m = Some t \<longrightarrow> wf_ts t) \<and> wf_log (dc_log_interval (delay_cycle m))"

lemmas e2e_defs =
  EndToEndDelayMechanism_record_one_step_sync_def EndToEndDelayMechanism_record_two_step_sync_def
  EndToEndDelayMechanism_record_follow_up_def EndToEndDelayMechanism_record_delay_request_def
  EndToEndDelayMechanism_record_delay_response_def SyncExchange_record_one_step_sync_def
  SyncExchange_record_two_step_sync_def SyncExchange_record_follow_up_def
  DelayExchange_record_delay_request_def DelayExchange_record_delay_response_def
  MessageWindow_record_def Let_def

lemmas wf_e2e_defs = wf_e2e_def wf_sync_exchange_def wf_delay_exchange_def

lemma wf_e2e_new [simp]: "wf_log (dc_log_interval c) \<Longrightarrow> wf_e2e (EndToEndDelayMechanism_new c)"
  by (simp add: wf_e2e_defs EndToEndDelayMechanism_new_def SyncExchange_new_def
      DelayExchange_new_def MessageWindow_new_def)

lemma wf_e2e_record [simp]:
  "wf_e2e m \<Longrightarrow> wf_ts (os_origin_timestamp s1) \<Longrightarrow> wf_ts t \<Longrightarrow>
     wf_e2e (EndToEndDelayMechanism_record_one_step_sync m s1 t)"
  "wf_e2e m \<Longrightarrow> wf_ts t \<Longrightarrow> wf_e2e (EndToEndDelayMechanism_record_two_step_sync m s2 t)"
  "wf_e2e m \<Longrightarrow> wf_ts (fu_precise_origin_timestamp f) \<Longrightarrow>
     wf_e2e (EndToEndDelayMechanism_record_follow_up m f)"
  "wf_e2e m \<Longrightarrow> wf_ts t \<Longrightarrow> wf_e2e (EndToEndDelayMechanism_record_delay_request m r t)"
  "wf_e2e m \<Longrightarrow> wf_ts (drsp_receive_timestamp q) \<Longrightarrow>
     wf_e2e (EndToEndDelayMechanism_record_delay_response m q)"
  by (simp_all add: wf_e2e_defs e2e_defs)

lemma wf_e2e_delay_request [simp]:
  "wf_e2e m \<Longrightarrow> EndToEndDelayMechanism_delay_request m w = (r, m', w') \<Longrightarrow> wf_e2e m'"
  by (auto simp: EndToEndDelayMechanism_delay_request_def DelayCycle_next_def Let_def wf_e2e_defs)

subsection \<open>Lemmas: offsets in nanoseconds\<close>

text \<open>
  \<open>sync_times\<close> are \<open>t1\<close> (origin) and \<open>t2\<close> (ingress) of the recorded sync, \<open>delay_times\<close> are
  \<open>t3\<close> (egress of the request) and \<open>t4\<close> (its reception by the master), where the recorded
  messages carry the same sequence id.
\<close>

definition sync_times :: "SyncExchange \<Rightarrow> (TimeStamp \<times> TimeStamp) option" where
  "sync_times x =
     (case one_step_sync x of
        Some (s, t2) \<Rightarrow> Some (os_origin_timestamp s, t2)
      | None \<Rightarrow>
         (case (current (follow_up_window x), current (two_step_sync_window x)) of
            (Some f, Some (s, t2)) \<Rightarrow>
              if fu_sequence_id f = tss_sequence_id s
              then Some (fu_precise_origin_timestamp f, t2) else None
          | _ \<Rightarrow> None))"

definition delay_times :: "DelayExchange \<Rightarrow> (TimeStamp \<times> TimeStamp) option" where
  "delay_times x =
     (case (current (delay_response_window x), current (delay_request_window x)) of
        (Some q, Some (r, t3)) \<Rightarrow>
          if drsp_sequence_id q = dreq_sequence_id r then Some (t3, drsp_receive_timestamp q) else None
      | _ \<Rightarrow> None)"

lemma master_slave_offset_times:
  "SyncExchange_master_slave_offset x = map_option (\<lambda>(t1, t2). TimeStamp_sub t2 t1) (sync_times x)"
  by (auto simp: SyncExchange_master_slave_offset_def sync_times_def MessageWindow_combine_latest_def
      OneStepSyncMessage_master_slave_offset_def FollowUpMessage_master_slave_offset_def
      split: option.splits)

lemma slave_master_offset_times:
  "DelayExchange_slave_master_offset x = map_option (\<lambda>(t3, t4). TimeStamp_sub t4 t3) (delay_times x)"
  by (auto simp: DelayExchange_slave_master_offset_def delay_times_def MessageWindow_combine_latest_def
      DelayResponseMessage_slave_master_offset_def split: option.splits)

lemma wf_sync_times:
  "wf_sync_exchange x \<Longrightarrow> sync_times x = Some (t1, t2) \<Longrightarrow> wf_ts t1 \<and> wf_ts t2"
  by (auto simp: wf_sync_exchange_def sync_times_def split: option.splits if_splits)

lemma wf_delay_times:
  "wf_delay_exchange x \<Longrightarrow> delay_times x = Some (t3, t4) \<Longrightarrow> wf_ts t3 \<and> wf_ts t4"
  by (auto simp: wf_delay_exchange_def delay_times_def split: option.splits if_splits)

lemma offset_of_times:
  assumes "wf_ts t1" "wf_ts t2" "wf_ts t3" "wf_ts t4"
  shows "\<exists>d. TimeInterval_sub (TimeStamp_sub t2 t1) (TimeStamp_sub t4 t3) = Some d \<and>
    small_ti (TimeInterval_half d) \<and>
    ti_total (TimeInterval_half d)
      = trunc_div ((ts_total t2 - ts_total t1) - (ts_total t4 - ts_total t3)) 2"
proof -
  let ?a = "TimeStamp_sub t2 t1" and ?b = "TimeStamp_sub t4 t3"
  have s: "small_ti ?a" "small_ti ?b" using assms small_ti_sub by blast+
  then obtain d where d: "TimeInterval_sub ?a ?b = Some d" using TimeInterval_sub_small by blast
  have wf: "wf_ti d" and tot: "ti_total d = (ts_total t2 - ts_total t1) - (ts_total t4 - ts_total t3)"
    using TimeInterval_sub_Some[OF _ _ d] s assms TimeStamp_sub_total(1) by (simp_all add: small_ti_def)
  have "\<bar>ti_total d\<bar> < 2 * (2 ^ 48 * 1000000000)"
    using tot wf_ts_D[OF assms(1)] wf_ts_D[OF assms(2)] wf_ts_D[OF assms(3)] wf_ts_D[OF assms(4)]
    unfolding ts_limit_def by linarith
  then have "\<bar>trunc_div (ti_total d) 2\<bar> < 2 ^ 50 * 1000000000"
    using trunc_div_2_bounds(1)[of "ti_total d"] by simp
  then show ?thesis
    using d TimeInterval_half_total[OF wf] tot by (simp add: small_ti_def)
qed

lemma sample_spec:
  assumes "wf_e2e m"
  shows "EndToEndDelayMechanism_sample m =
    (case (sync_times (sync_exchange m), delay_times (delay_exchange m), sync_ingress_timestamp m) of
       (Some (t1, t2), Some (t3, t4), Some i) \<Rightarrow>
         Some (Some \<lparr>ingress = i,
                     offset = TimeInterval_half (the (TimeInterval_sub (TimeStamp_sub t2 t1)
                                                                       (TimeStamp_sub t4 t3)))\<rparr>)
     | _ \<Rightarrow> Some None)"
proof (cases "sync_times (sync_exchange m) = None \<or> delay_times (delay_exchange m) = None")
  case True
  then show ?thesis
    by (auto simp: EndToEndDelayMechanism_sample_def master_slave_offset_times
        slave_master_offset_times split: option.splits)
next
  case False
  then obtain t1 t2 t3 t4 where t: "sync_times (sync_exchange m) = Some (t1, t2)"
    "delay_times (delay_exchange m) = Some (t3, t4)" by auto
  obtain d where "TimeInterval_sub (TimeStamp_sub t2 t1) (TimeStamp_sub t4 t3) = Some d"
    using offset_of_times wf_sync_times[OF _ t(1)] wf_delay_times[OF _ t(2)] assms
    unfolding wf_e2e_def by blast
  with t show ?thesis
    by (simp add: EndToEndDelayMechanism_sample_def master_slave_offset_times
        slave_master_offset_times Let_def split: option.splits)
qed

lemma sample_cases:
  assumes "wf_e2e m"
  obtains "EndToEndDelayMechanism_sample m = Some None"
  | t1 t2 t3 t4 i d where "sync_times (sync_exchange m) = Some (t1, t2)"
    "delay_times (delay_exchange m) = Some (t3, t4)" "sync_ingress_timestamp m = Some i"
    "EndToEndDelayMechanism_sample m = Some (Some \<lparr>ingress = i, offset = d\<rparr>)"
    "wf_sample \<lparr>ingress = i, offset = d\<rparr>"
    "ti_total d = trunc_div ((ts_total t2 - ts_total t1) - (ts_total t4 - ts_total t3)) 2"
proof (cases "sync_times (sync_exchange m) = None \<or> delay_times (delay_exchange m) = None \<or>
    sync_ingress_timestamp m = None")
  case True
  then show ?thesis
    by (intro that(1)) (auto simp: sample_spec[OF assms] split: option.splits)
next
  case False
  then obtain t1 t2 t3 t4 i where t: "sync_times (sync_exchange m) = Some (t1, t2)"
    "delay_times (delay_exchange m) = Some (t3, t4)" "sync_ingress_timestamp m = Some i" by auto
  obtain d where "TimeInterval_sub (TimeStamp_sub t2 t1) (TimeStamp_sub t4 t3) = Some d"
    "small_ti (TimeInterval_half d)" "ti_total (TimeInterval_half d)
      = trunc_div ((ts_total t2 - ts_total t1) - (ts_total t4 - ts_total t3)) 2"
    using offset_of_times wf_sync_times[OF _ t(1)] wf_delay_times[OF _ t(2)] assms
    unfolding wf_e2e_def by blast
  moreover have "wf_ts i" using assms t(3) by (simp add: wf_e2e_def)
  ultimately show ?thesis
    using t by (intro that(2)[of t1 t2 t3 t4 i "TimeInterval_half d"])
      (simp_all add: sample_spec[OF assms] wf_sample_def)
qed

lemma sample_total:
  assumes "wf_e2e m"
  shows "\<exists>r. EndToEndDelayMechanism_sample m = Some r \<and> (\<forall>s. r = Some s \<longrightarrow> wf_sample s)"
  by (rule sample_cases[OF assms]) auto

lemma sample_of_times:
  assumes "wf_e2e m" "sync_times (sync_exchange m) = Some (t1, t2)" "delay_times (delay_exchange m) = Some (t3, t4)"
    "sync_ingress_timestamp m = Some i"
  shows "\<exists>d. EndToEndDelayMechanism_sample m = Some (Some \<lparr>ingress = i, offset = d\<rparr>) \<and>
    wf_sample \<lparr>ingress = i, offset = d\<rparr> \<and>
    ti_total d = trunc_div ((ts_total t2 - ts_total t1) - (ts_total t4 - ts_total t3)) 2"
proof (rule sample_cases[OF assms(1)])
  assume "EndToEndDelayMechanism_sample m = Some None"
  with assms show ?thesis by (simp add: sample_spec)
qed (use assms in auto)

subsection \<open>Properties\<close>

text \<open>A complete exchange, recorded in the order in which a slave sees it.\<close>

definition two_step_exchange ::
    "EndToEndDelayMechanism \<Rightarrow> DelayRequestMessage \<times> TimeStamp \<Rightarrow> DelayResponseMessage \<Rightarrow>
     TwoStepSyncMessage \<times> TimeStamp \<Rightarrow> FollowUpMessage \<Rightarrow> EndToEndDelayMechanism" where
  "two_step_exchange m req resp sync follow_up =
     EndToEndDelayMechanism_record_follow_up
       (EndToEndDelayMechanism_record_two_step_sync
         (EndToEndDelayMechanism_record_delay_response
           (EndToEndDelayMechanism_record_delay_request m (fst req) (snd req)) resp)
         (fst sync) (snd sync)) follow_up"

lemma exchange_times:
  assumes "drsp_sequence_id resp = dreq_sequence_id req" "fu_sequence_id fu = tss_sequence_id sync"
  shows "sync_times (sync_exchange (two_step_exchange m (req, t3) resp (sync, t2) fu))
      = Some (fu_precise_origin_timestamp fu, t2)"
    and "delay_times (delay_exchange (two_step_exchange m (req, t3) resp (sync, t2) fu))
      = Some (t3, drsp_receive_timestamp resp)"
    and "sync_ingress_timestamp (two_step_exchange m (req, t3) resp (sync, t2) fu) = Some t2"
  using assms by (simp_all add: two_step_exchange_def e2e_defs sync_times_def delay_times_def)

lemma trunc_div_2_double: "trunc_div (2 * x) 2 = x"
  by (simp add: trunc_div_def abs_mult sgn_mult mult.assoc[symmetric] sgn_mult_abs)

text \<open>C12: After a complete two-step exchange with matching sequence ids, whatever was recorded before,
  the delay mechanism yields the sample of the standard's formula: ingress time \<open>t2\<close> and offset
  \<open>((t2 - t1) - (t4 - t3)) / 2\<close> in nanoseconds, rounded towards zero. When the path delay is the
  same in both directions, the measured offset is exactly the offset of the two clocks.\<close>

theorem exchange_measures_offset:
  assumes "wf_e2e m" and "wf_ts t2" and "wf_ts t3" and "wf_ts (drsp_receive_timestamp resp)"
    and "wf_ts (fu_precise_origin_timestamp fu)"
    and "drsp_sequence_id resp = dreq_sequence_id req" and "fu_sequence_id fu = tss_sequence_id sync"
  shows "\<exists>d. EndToEndDelayMechanism_sample (two_step_exchange m (req, t3) resp (sync, t2) fu)
        = Some (Some \<lparr>ingress = t2, offset = d\<rparr>) \<and> wf_sample \<lparr>ingress = t2, offset = d\<rparr> \<and>
      ti_total d = trunc_div ((ts_total t2 - ts_total (fu_precise_origin_timestamp fu))
                               - (ts_total (drsp_receive_timestamp resp) - ts_total t3)) 2 \<and>
      (\<forall>delay ahead. ts_total t2 = ts_total (fu_precise_origin_timestamp fu) + delay + ahead \<and>
         ts_total (drsp_receive_timestamp resp) + ahead = ts_total t3 + delay \<longrightarrow> ti_total d = ahead)"
proof -
  let ?m = "two_step_exchange m (req, t3) resp (sync, t2) fu"
  have wf: "wf_e2e ?m" using assms(1-5) by (simp add: two_step_exchange_def)
  note times = exchange_times[OF assms(6,7), of m t3 t2]
  obtain d where s: "EndToEndDelayMechanism_sample ?m = Some (Some \<lparr>ingress = t2, offset = d\<rparr>)"
    "wf_sample \<lparr>ingress = t2, offset = d\<rparr>"
    "ti_total d = trunc_div ((ts_total t2 - ts_total (fu_precise_origin_timestamp fu))
                               - (ts_total (drsp_receive_timestamp resp) - ts_total t3)) 2"
    using sample_of_times[OF wf times] by blast
  have "ti_total d = ahead"
    if "ts_total t2 = ts_total (fu_precise_origin_timestamp fu) + delay + ahead"
      "ts_total (drsp_receive_timestamp resp) + ahead = ts_total t3 + delay" for delay ahead
  proof -
    have "(ts_total t2 - ts_total (fu_precise_origin_timestamp fu))
        - (ts_total (drsp_receive_timestamp resp) - ts_total t3) = 2 * ahead" using that by linarith
    then show ?thesis by (simp add: s(3) trunc_div_2_double)
  qed
  with s show ?thesis by blast
qed

theorem exchange_measures_offset_witness:
  "\<exists>d. EndToEndDelayMechanism_sample
     (two_step_exchange (EndToEndDelayMechanism_new \<lparr>dc_sequence_id = SequenceId 0, dc_timeout = Timeout 0,
          dc_log_interval = LogInterval 0\<rparr>)
       (\<lparr>dreq_sequence_id = SequenceId 4\<rparr>, TimeStamp 13 0)
       \<lparr>drsp_sequence_id = SequenceId 4, drsp_log_message_interval = LogMessageInterval 0,
        drsp_receive_timestamp = TimeStamp 12 0, drsp_requesting_port_identity = demo_self\<rparr>
       (\<lparr>tss_sequence_id = SequenceId 9, tss_log_message_interval = LogMessageInterval 0\<rparr>, TimeStamp 15 0)
       \<lparr>fu_sequence_id = SequenceId 9, fu_log_message_interval = LogMessageInterval 0,
        fu_precise_origin_timestamp = TimeStamp 10 0\<rparr>)
     = Some (Some \<lparr>ingress = TimeStamp 15 0, offset = d\<rparr>) \<and> ti_total d = 3000000000"
proof -
  let ?m = "EndToEndDelayMechanism_new \<lparr>dc_sequence_id = SequenceId 0, dc_timeout = Timeout 0, dc_log_interval = LogInterval 0\<rparr>"
  have "wf_e2e ?m" by (rule wf_e2e_new) (simp add: wf_log_def MIN_LOG_VALUE_def MAX_LOG_VALUE_def)
  from exchange_measures_offset[OF this, of "TimeStamp 15 0" "TimeStamp 13 0"
      "\<lparr>drsp_sequence_id = SequenceId 4, drsp_log_message_interval = LogMessageInterval 0,
        drsp_receive_timestamp = TimeStamp 12 0, drsp_requesting_port_identity = demo_self\<rparr>"
      "\<lparr>fu_sequence_id = SequenceId 9, fu_log_message_interval = LogMessageInterval 0,
        fu_precise_origin_timestamp = TimeStamp 10 0\<rparr>" "\<lparr>dreq_sequence_id = SequenceId 4\<rparr>"
      "\<lparr>tss_sequence_id = SequenceId 9, tss_log_message_interval = LogMessageInterval 0\<rparr>"]
  show ?thesis by (auto simp: wf_ts_def ts_total_def trunc_div_def)
qed

text \<open>No sample is computed from messages that do not belong together: when the latest follow-up
  and the latest two-step sync, or the latest delay response and the latest delay request, carry
  different sequence ids, the mechanism yields no sample (and does not fail).\<close>

theorem mismatch_gives_no_sample:
  assumes "(one_step_sync (sync_exchange m) = None \<and>
       current (two_step_sync_window (sync_exchange m)) = Some (sync, t2) \<and>
       current (follow_up_window (sync_exchange m)) = Some fu \<and> fu_sequence_id fu \<noteq> tss_sequence_id sync) \<or>
     (current (delay_request_window (delay_exchange m)) = Some (req, t3) \<and>
       current (delay_response_window (delay_exchange m)) = Some resp \<and>
       drsp_sequence_id resp \<noteq> dreq_sequence_id req)"
  shows "EndToEndDelayMechanism_sample m = Some None"
  using assms
  by (auto simp: EndToEndDelayMechanism_sample_def master_slave_offset_times slave_master_offset_times
      sync_times_def delay_times_def split: option.splits)

theorem mismatch_gives_no_sample_witness:
  "EndToEndDelayMechanism_sample (EndToEndDelayMechanism_record_delay_response
     (EndToEndDelayMechanism_record_delay_request
       (EndToEndDelayMechanism_new \<lparr>dc_sequence_id = SequenceId 0, dc_timeout = Timeout 0, dc_log_interval = LogInterval 0\<rparr>)
       \<lparr>dreq_sequence_id = SequenceId 4\<rparr> (TimeStamp 13 0))
     \<lparr>drsp_sequence_id = SequenceId 5, drsp_log_message_interval = LogMessageInterval 0,
      drsp_receive_timestamp = TimeStamp 12 0, drsp_requesting_port_identity = demo_self\<rparr>) = Some None"
  by (rule mismatch_gives_no_sample[where req = "\<lparr>dreq_sequence_id = SequenceId 4\<rparr>" and ?t3.0 = "TimeStamp 13 0"
        and resp = "\<lparr>drsp_sequence_id = SequenceId 5, drsp_log_message_interval = LogMessageInterval 0,
      drsp_receive_timestamp = TimeStamp 12 0, drsp_requesting_port_identity = demo_self\<rparr>"])
    (simp add: e2e_defs EndToEndDelayMechanism_new_def DelayExchange_new_def)

end
