(* ===== verification/Ptp_State.thy ===== *)
theory Ptp_State
  imports Ptp_Bmca Ptp_E2E
begin

section \<open>The port states (initializing.rs, listening.rs, premaster.rs, master.rs, passive.rs, uncalibrated.rs, slave.rs, faulty.rs, profile.rs)\<close>

text \<open>
  One record per port state, with the operations of its source file: message handlers, sends,
  and the transitions, which consume the state and build the next one through the
  \<open>PortProfile\<close> (\<^verbatim>\<open>profile.rs\<close>). A transition returns the new state and the world; the
  timeout handles that it does not move into the new state are dropped at the end of the
  function, after the new state is built, in the order of the fields. Handlers that feed the
  servo return \<open>None\<close> where the source panics.
\<close>

subsection \<open>The states\<close>

record PortProfile =
  announce_receipt_timeout_interval :: Duration
  log_announce_interval :: LogInterval
  log_sync_interval :: LogInterval
  log_min_delay_request_interval :: LogInterval
  servo_config :: ServoConfig

record InitializingPort =
  in_port :: DomainPort
  in_bmca :: BestMasterClockAlgorithm
  in_best_foreign :: BestForeignRecord
  in_state_decision_trigger :: StateDecisionEventTrigger
  in_profile :: PortProfile

record ListeningPort =
  li_port :: DomainPort
  li_bmca :: ListeningBmca
  li_announce_receipt_timeout :: AnnounceReceiptTimeout
  li_profile :: PortProfile

record PreMasterPort =
  pm_port :: DomainPort
  pm_bmca :: GrandMasterTrackingBmca
  pm_qualification_timeout :: Timeout
  pm_profile :: PortProfile

record AnnounceCycle =
  ac_sequence_id :: SequenceId
  ac_timeout :: Timeout
  ac_log_interval :: LogInterval

record SyncCycle =
  sc_sequence_id :: SequenceId
  sc_timeout :: Timeout
  sc_log_interval :: LogInterval

record MasterPort =
  ma_port :: DomainPort
  ma_bmca :: GrandMasterTrackingBmca
  ma_announce_cycle :: AnnounceCycle
  ma_sync_cycle :: SyncCycle
  ma_log_min_delay_request_interval :: LogInterval
  ma_profile :: PortProfile

record PassivePort =
  pa_port :: DomainPort
  pa_bmca :: PassiveBmca
  pa_announce_receipt_timeout :: AnnounceReceiptTimeout
  pa_profile :: PortProfile

record UncalibratedPort =
  un_port :: DomainPort
  un_bmca :: ParentTrackingBmca
  un_announce_receipt_timeout :: AnnounceReceiptTimeout
  un_delay_mechanism :: EndToEndDelayMechanism
  un_servo :: Servo
  un_profile :: PortProfile

record SlavePort =
  sl_port :: DomainPort
  sl_bmca :: ParentTrackingBmca
  sl_announce_receipt_timeout :: AnnounceReceiptTimeout
  sl_delay_mechanism :: EndToEndDelayMechanism
  sl_servo :: Servo
  sl_profile :: PortProfile

record FaultyPort =
  fa_port :: DomainPort
  fa_bmca :: BestMasterClockAlgorithm
  fa_best_foreign :: BestForeignRecord
  fa_state_decision_trigger :: StateDecisionEventTrigger
  fa_profile :: PortProfile

datatype PortState =
    Initializing InitializingPort
  | Listening ListeningPort
  | Slave SlavePort
  | Master MasterPort
  | PreMaster PreMasterPort
  | Uncalibrated UncalibratedPort
  | Passive PassivePort
  | Faulty FaultyPort

subsection \<open>Entering a state\<close>

definition InitializingPort_new ::
    "DomainPort \<Rightarrow> BestMasterClockAlgorithm \<Rightarrow> BestForeignRecord \<Rightarrow> StateDecisionEventTrigger \<Rightarrow>
     PortProfile \<Rightarrow> world \<Rightarrow> InitializingPort \<times> world" where
  "InitializingPort_new port bmca f t profile w =
     (let w = DomainPort_log port (Static ''Become InitializingPort'') w
      in (\<lparr>in_port = port, in_bmca = bmca, in_best_foreign = f, in_state_decision_trigger = t,
           in_profile = profile\<rparr>, w))"

definition ListeningPort_new ::
    "DomainPort \<Rightarrow> ListeningBmca \<Rightarrow> AnnounceReceiptTimeout \<Rightarrow> PortProfile \<Rightarrow> world \<Rightarrow> ListeningPort \<times> world" where
  "ListeningPort_new port bmca announce_receipt_timeout profile w =
     (let w = DomainPort_log port (Static ''Become ListeningPort'') w
      in (\<lparr>li_port = port, li_bmca = bmca, li_announce_receipt_timeout = announce_receipt_timeout,
           li_profile = profile\<rparr>, w))"

definition PreMasterPort_new ::
    "DomainPort \<Rightarrow> GrandMasterTrackingBmca \<Rightarrow> Timeout \<Rightarrow> PortProfile \<Rightarrow> world \<Rightarrow> PreMasterPort \<times> world" where
  "PreMasterPort_new port bmca qualification_timeout profile w =
     (let w = DomainPort_log port (Static ''Become PreMasterPort'') w
      in (\<lparr>pm_port = port, pm_bmca = bmca, pm_qualification_timeout = qualification_timeout,
           pm_profile = profile\<rparr>, w))"

definition MasterPort_new ::
    "DomainPort \<Rightarrow> GrandMasterTrackingBmca \<Rightarrow> AnnounceCycle \<Rightarrow> SyncCycle \<Rightarrow> LogInterval \<Rightarrow> PortProfile \<Rightarrow>
     world \<Rightarrow> MasterPort \<times> world" where
  "MasterPort_new port bmca announce_cycle sync_cycle log_min profile w =
     (let w = DomainPort_log port (Static ''Become MasterPort'') w
      in (\<lparr>ma_port = port, ma_bmca = bmca, ma_announce_cycle = announce_cycle,
           ma_sync_cycle = sync_cycle, ma_log_min_delay_request_interval = log_min,
           ma_profile = profile\<rparr>, w))"

definition PassivePort_new ::
    "DomainPort \<Rightarrow> PassiveBmca \<Rightarrow> AnnounceReceiptTimeout \<Rightarrow> PortProfile \<Rightarrow> world \<Rightarrow> PassivePort \<times> world" where
  "PassivePort_new port bmca announce_receipt_timeout profile w =
     (let w = DomainPort_log port (Static ''Become PassivePort'') w
      in (\<lparr>pa_port = port, pa_bmca = bmca, pa_announce_receipt_timeout = announce_receipt_timeout,
           pa_profile = profile\<rparr>, w))"

definition UncalibratedPort_new ::
    "DomainPort \<Rightarrow> ParentTrackingBmca \<Rightarrow> AnnounceReceiptTimeout \<Rightarrow> EndToEndDelayMechanism \<Rightarrow> Servo \<Rightarrow>
     PortProfile \<Rightarrow> world \<Rightarrow> UncalibratedPort \<times> world" where
  "UncalibratedPort_new port bmca announce_receipt_timeout delay_mechanism servo profile w =
     (let w = DomainPort_log port (Static ''Become UncalibratedPort'') w
      in (\<lparr>un_port = port, un_bmca = bmca, un_announce_receipt_timeout = announce_receipt_timeout,
           un_delay_mechanism = delay_mechanism, un_servo = servo, un_profile = profile\<rparr>, w))"

definition SlavePort_new ::
    "DomainPort \<Rightarrow> ParentTrackingBmca \<Rightarrow> AnnounceReceiptTimeout \<Rightarrow> EndToEndDelayMechanism \<Rightarrow> Servo \<Rightarrow>
     PortProfile \<Rightarrow> world \<Rightarrow> SlavePort \<times> world" where
  "SlavePort_new port bmca announce_receipt_timeout delay_mechanism servo profile w =
     (let w = DomainPort_log port (Static ''Become SlavePort'') w
      in (\<lparr>sl_port = port, sl_bmca = bmca, sl_announce_receipt_timeout = announce_receipt_timeout,
           sl_delay_mechanism = delay_mechanism, sl_servo = servo, sl_profile = profile\<rparr>, w))"

definition FaultyPort_new ::
    "DomainPort \<Rightarrow> BestMasterClockAlgorithm \<Rightarrow> BestForeignRecord \<Rightarrow> StateDecisionEventTrigger \<Rightarrow>
     PortProfile \<Rightarrow> world \<Rightarrow> FaultyPort \<times> world" where
  "FaultyPort_new port bmca f t profile w =
     (let w = DomainPort_log port (Static ''Become FaultyPort'') w
      in (\<lparr>fa_port = port, fa_bmca = bmca, fa_best_foreign = f, fa_state_decision_trigger = t,
           fa_profile = profile\<rparr>, w))"

subsection \<open>The profile (profile.rs)\<close>

definition PortProfile_default :: PortProfile where
  "PortProfile_default =
     \<lparr>announce_receipt_timeout_interval = Duration_from_secs 5,
      log_announce_interval = the (LogInterval_new 0),
      log_sync_interval = the (LogInterval_new 0),
      log_min_delay_request_interval = the (LogInterval_new 0),
      servo_config = SteppingConfig\<rparr>"

definition PortProfile_with_servo_config :: "PortProfile \<Rightarrow> ServoConfig \<Rightarrow> PortProfile" where
  "PortProfile_with_servo_config p c = p\<lparr>servo_config := c\<rparr>"

definition PortProfile_initializing ::
    "PortProfile \<Rightarrow> DomainPort \<Rightarrow> BestMasterClockAlgorithm \<Rightarrow> BestForeignRecord \<Rightarrow>
     StateDecisionEventTrigger \<Rightarrow> world \<Rightarrow> PortState \<times> world" where
  "PortProfile_initializing profile port bmca f t w =
     (let (s, w) = InitializingPort_new port bmca f t profile w in (Initializing s, w))"

definition PortProfile_listening ::
    "PortProfile \<Rightarrow> DomainPort \<Rightarrow> ListeningBmca \<Rightarrow> world \<Rightarrow> PortState \<times> world" where
  "PortProfile_listening profile port bmca w =
     (let (timeout, w) = DomainPort_timeout port AnnounceReceiptTimeout w;
          art = \<lparr>art_timeout = timeout, art_interval = announce_receipt_timeout_interval profile\<rparr>;
          w = AnnounceReceiptTimeout_restart art w;
          (s, w) = ListeningPort_new port bmca art profile w
      in (Listening s, w))"

definition PortProfile_master ::
    "PortProfile \<Rightarrow> DomainPort \<Rightarrow> GrandMasterTrackingBmca \<Rightarrow> world \<Rightarrow> PortState \<times> world" where
  "PortProfile_master profile port bmca w =
     (let (announce_send_timeout, w) = DomainPort_timeout port AnnounceSendTimeout w;
          w = Timeout_restart announce_send_timeout (Duration_from_secs 0) w;
          announce_cycle = \<lparr>ac_sequence_id = SequenceId 0, ac_timeout = announce_send_timeout,
                            ac_log_interval = log_announce_interval profile\<rparr>;
          (sync_timeout, w) = DomainPort_timeout port SyncTimeout w;
          w = Timeout_restart sync_timeout (Duration_from_secs 0) w;
          sync_cycle = \<lparr>sc_sequence_id = SequenceId 0, sc_timeout = sync_timeout,
                        sc_log_interval = log_sync_interval profile\<rparr>;
          (s, w) = MasterPort_new port bmca announce_cycle sync_cycle
                     (log_min_delay_request_interval profile) profile w
      in (Master s, w))"

definition PortProfile_slave ::
    "PortProfile \<Rightarrow> DomainPort \<Rightarrow> ParentTrackingBmca \<Rightarrow> EndToEndDelayMechanism \<Rightarrow> Servo \<Rightarrow> world \<Rightarrow>
     PortState \<times> world" where
  "PortProfile_slave profile port bmca delay_mechanism servo w =
     (let (timeout, w) = DomainPort_timeout port AnnounceReceiptTimeout w;
          art = \<lparr>art_timeout = timeout, art_interval = announce_receipt_timeout_interval profile\<rparr>;
          w = AnnounceReceiptTimeout_restart art w;
          (s, w) = SlavePort_new port bmca art delay_mechanism servo profile w
      in (Slave s, w))"

definition PortProfile_pre_master ::
    "PortProfile \<Rightarrow> DomainPort \<Rightarrow> GrandMasterTrackingBmca \<Rightarrow> QualificationTimeoutPolicy \<Rightarrow> world \<Rightarrow>
     PortState \<times> world" where
  "PortProfile_pre_master profile port bmca policy w =
     (let (qualification_timeout, w) = DomainPort_timeout port QualificationTimeout w;
          w = Timeout_restart qualification_timeout
                (QualificationTimeoutPolicy_duration policy (log_announce_interval profile)) w;
          (s, w) = PreMasterPort_new port bmca qualification_timeout profile w
      in (PreMaster s, w))"

definition PortProfile_uncalibrated ::
    "PortProfile \<Rightarrow> DomainPort \<Rightarrow> ParentTrackingBmca \<Rightarrow> world \<Rightarrow> PortState \<times> world" where
  "PortProfile_uncalibrated profile port bmca w =
     (let (timeout, w) = DomainPort_timeout port AnnounceReceiptTimeout w;
          art = \<lparr>art_timeout = timeout, art_interval = announce_receipt_timeout_interval profile\<rparr>;
          w = AnnounceReceiptTimeout_restart art w;
          (delay_timeout, w) = DomainPort_timeout port DelayRequestTimeout w;
          w = Timeout_restart delay_timeout (Duration_from_secs 0) w;
          cycle = \<lparr>dc_sequence_id = SequenceId 0, dc_timeout = delay_timeout,
                   dc_log_interval = log_min_delay_request_interval profile\<rparr>;
          (s, w) = UncalibratedPort_new port bmca art (EndToEndDelayMechanism_new cycle)
                     (ServoConfig_servo (servo_config profile)) profile w
      in (Uncalibrated s, w))"

definition PortProfile_faulty ::
    "PortProfile \<Rightarrow> DomainPort \<Rightarrow> BestMasterClockAlgorithm \<Rightarrow> BestForeignRecord \<Rightarrow>
     StateDecisionEventTrigger \<Rightarrow> world \<Rightarrow> PortState \<times> world" where
  "PortProfile_faulty profile port bmca f t w =
     (let (s, w) = FaultyPort_new port bmca f t profile w in (Faulty s, w))"

definition PortProfile_passive ::
    "PortProfile \<Rightarrow> DomainPort \<Rightarrow> PassiveBmca \<Rightarrow> world \<Rightarrow> PortState \<times> world" where
  "PortProfile_passive profile port bmca w =
     (let (timeout, w) = DomainPort_timeout port AnnounceReceiptTimeout w;
          art = \<lparr>art_timeout = timeout, art_interval = announce_receipt_timeout_interval profile\<rparr>;
          w = AnnounceReceiptTimeout_restart art w;
          (s, w) = PassivePort_new port bmca art profile w
      in (Passive s, w))"

subsection \<open>Initializing (initializing.rs) and faulty (faulty.rs)\<close>

definition InitializingPort_initialized :: "InitializingPort \<Rightarrow> world \<Rightarrow> PortState \<times> world" where
  "InitializingPort_initialized s w =
     (let w = DomainPort_log (in_port s) EvInitialized w;
          bmca = ListeningBmca_new (in_bmca s) (in_best_foreign s) (in_state_decision_trigger s)
      in PortProfile_listening (in_profile s) (in_port s) bmca w)"

definition FaultyPort_fault_cleared :: "FaultyPort \<Rightarrow> world \<Rightarrow> PortState \<times> world" where
  "FaultyPort_fault_cleared s w =
     PortProfile_initializing (fa_profile s) (fa_port s) (fa_bmca s) (fa_best_foreign s)
       (fa_state_decision_trigger s) w"

subsection \<open>Listening (listening.rs)\<close>

definition ListeningPort_recommended_slave :: "ListeningPort \<Rightarrow> ParentPortIdentity \<Rightarrow> world \<Rightarrow> PortState \<times> world" where
  "ListeningPort_recommended_slave s parent w =
     (let w = DomainPort_log (li_port s) (EvRecommendedSlave parent) w;
          bmca = ListeningBmca_into_parent_tracking (li_bmca s) parent;
          (st, w) = PortProfile_uncalibrated (li_profile s) (li_port s) bmca w;
          w = Timeout_drop (art_timeout (li_announce_receipt_timeout s)) w
      in (st, w))"

definition ListeningPort_recommended_master :: "ListeningPort \<Rightarrow> BmcaMasterDecision \<Rightarrow> world \<Rightarrow> PortState \<times> world" where
  "ListeningPort_recommended_master s decision w =
     (let w = DomainPort_log (li_port s) EvRecommendedMaster w;
          (st, w) = BmcaMasterDecision_apply decision (\<lambda>policy grandmaster_ds.
            let bmca = ListeningBmca_into_grandmaster_tracking (li_bmca s) grandmaster_ds
            in PortProfile_pre_master (li_profile s) (li_port s) bmca policy w);
          w = Timeout_drop (art_timeout (li_announce_receipt_timeout s)) w
      in (st, w))"

definition ListeningPort_recommended_passive :: "ListeningPort \<Rightarrow> world \<Rightarrow> PortState \<times> world" where
  "ListeningPort_recommended_passive s w =
     (let w = DomainPort_log (li_port s) (Static ''RecommendedPassive'') w;
          bmca = ListeningBmca_into_passive (li_bmca s);
          (st, w) = PortProfile_passive (li_profile s) (li_port s) bmca w;
          w = Timeout_drop (art_timeout (li_announce_receipt_timeout s)) w
      in (st, w))"

definition ListeningPort_announce_receipt_timeout_expired :: "ListeningPort \<Rightarrow> world \<Rightarrow> PortState \<times> world" where
  "ListeningPort_announce_receipt_timeout_expired s w =
     (let w = DomainPort_log (li_port s) EvAnnounceReceiptTimeout w;
          (bmca, w) = ListeningBmca_into_local_grandmaster_tracking (li_bmca s) w;
          (st, w) = PortProfile_master (li_profile s) (li_port s) bmca w;
          w = Timeout_drop (art_timeout (li_announce_receipt_timeout s)) w
      in (st, w))"

definition ListeningPort_fault_detected :: "ListeningPort \<Rightarrow> world \<Rightarrow> PortState \<times> world" where
  "ListeningPort_fault_detected s w =
     (let (bmca, f, t) = ListeningBmca_into_parts (li_bmca s);
          (st, w) = PortProfile_faulty (li_profile s) (li_port s) bmca f t w;
          w = Timeout_drop (art_timeout (li_announce_receipt_timeout s)) w
      in (st, w))"

definition ListeningPort_state_decision_event ::
    "ListeningPort \<Rightarrow> StateDecisionSnapshot \<Rightarrow> StateDecision option \<times> ListeningPort" where
  "ListeningPort_state_decision_event s snapshot =
     (let (r, b) = ListeningBmca_decision (li_bmca s) (d_0 snapshot) (e_best snapshot);
          s = s\<lparr>li_bmca := b\<rparr>
      in case r of
           Some decision \<Rightarrow> (BmcaDecision_to_state_decision decision, s)
         | None \<Rightarrow> (None, s))"

definition ListeningPort_process_announce ::
    "ListeningPort \<Rightarrow> AnnounceMessage \<Rightarrow> PortIdentity \<Rightarrow> Instant \<Rightarrow> world \<Rightarrow> ListeningPort \<times> world" where
  "ListeningPort_process_announce s msg src now w =
     (let w = DomainPort_log (li_port s) (MessageReceived ''Announce'') w;
          w = AnnounceReceiptTimeout_restart (li_announce_receipt_timeout s) w;
          (b, w) = AnnounceMessage_feed_bmca ListeningBmca_consider msg (li_bmca s) src now w
      in (s\<lparr>li_bmca := b\<rparr>, w))"

subsection \<open>Pre-master (premaster.rs)\<close>

definition PreMasterPort_process_announce ::
    "PreMasterPort \<Rightarrow> AnnounceMessage \<Rightarrow> PortIdentity \<Rightarrow> Instant \<Rightarrow> world \<Rightarrow> PreMasterPort \<times> world" where
  "PreMasterPort_process_announce s msg src now w =
     (let w = DomainPort_log (pm_port s) (MessageReceived ''Announce'') w;
          (b, w) = AnnounceMessage_feed_bmca GrandMasterTrackingBmca_consider msg (pm_bmca s) src now w
      in (s\<lparr>pm_bmca := b\<rparr>, w))"

definition PreMasterPort_qualified :: "PreMasterPort \<Rightarrow> world \<Rightarrow> PortState \<times> world" where
  "PreMasterPort_qualified s w =
     (let w = DomainPort_log (pm_port s) EvQualifiedMaster w;
          (st, w) = PortProfile_master (pm_profile s) (pm_port s) (pm_bmca s) w;
          w = Timeout_drop (pm_qualification_timeout s) w
      in (st, w))"

definition PreMasterPort_recommended_slave :: "PreMasterPort \<Rightarrow> ParentPortIdentity \<Rightarrow> world \<Rightarrow> PortState \<times> world" where
  "PreMasterPort_recommended_slave s parent w =
     (let w = DomainPort_log (pm_port s) (EvRecommendedSlave parent) w;
          bmca = GrandMasterTrackingBmca_into_parent_tracking (pm_bmca s) parent;
          (st, w) = PortProfile_uncalibrated (pm_profile s) (pm_port s) bmca w;
          w = Timeout_drop (pm_qualification_timeout s) w
      in (st, w))"

definition PreMasterPort_recommended_master :: "PreMasterPort \<Rightarrow> BmcaMasterDecision \<Rightarrow> world \<Rightarrow> PortState \<times> world" where
  "PreMasterPort_recommended_master s decision w =
     (let w = DomainPort_log (pm_port s) EvRecommendedMaster w;
          (st, w) = BmcaMasterDecision_apply decision (\<lambda>policy grandmaster_ds.
            let bmca = GrandMasterTrackingBmca_with_grandmaster_ds (pm_bmca s) grandmaster_ds
            in PortProfile_pre_master (pm_profile s) (pm_port s) bmca policy w);
          w = Timeout_drop (pm_qualification_timeout s) w
      in (st, w))"

definition PreMasterPort_recommended_passive :: "PreMasterPort \<Rightarrow> world \<Rightarrow> PortState \<times> world" where
  "PreMasterPort_recommended_passive s w =
     (let w = DomainPort_log (pm_port s) (Static ''RecommendedPassive'') w;
          bmca = GrandMasterTrackingBmca_into_passive (pm_bmca s);
          (st, w) = PortProfile_passive (pm_profile s) (pm_port s) bmca w;
          w = Timeout_drop (pm_qualification_timeout s) w
      in (st, w))"

definition PreMasterPort_fault_detected :: "PreMasterPort \<Rightarrow> world \<Rightarrow> PortState \<times> world" where
  "PreMasterPort_fault_detected s w =
     (let (bmca, f, t) = GrandMasterTrackingBmca_into_parts (pm_bmca s);
          (st, w) = PortProfile_faulty (pm_profile s) (pm_port s) bmca f t w;
          w = Timeout_drop (pm_qualification_timeout s) w
      in (st, w))"

definition PreMasterPort_state_decision_event ::
    "PreMasterPort \<Rightarrow> StateDecisionSnapshot \<Rightarrow> StateDecision option \<times> PreMasterPort" where
  "PreMasterPort_state_decision_event s snapshot =
     (let (r, b) = GrandMasterTrackingBmca_decision (pm_bmca s) (d_0 snapshot) (e_best snapshot);
          s = s\<lparr>pm_bmca := b\<rparr>
      in case r of
           Some decision \<Rightarrow> (BmcaDecision_to_state_decision decision, s)
         | None \<Rightarrow> (None, s))"

subsection \<open>Master (master.rs)\<close>

definition AnnounceCycle_next :: "AnnounceCycle \<Rightarrow> world \<Rightarrow> AnnounceCycle \<times> world" where
  "AnnounceCycle_next c w =
     (let w = Timeout_restart (ac_timeout c) (LogInterval_duration (ac_log_interval c)) w
      in (c\<lparr>ac_sequence_id := SequenceId_next (ac_sequence_id c)\<rparr>, w))"

definition AnnounceCycle_announce :: "AnnounceCycle \<Rightarrow> TimeScale \<Rightarrow> ClockDS \<Rightarrow> AnnounceMessage" where
  "AnnounceCycle_announce c time_scale grandmaster =
     GrandMaster_announce grandmaster (ac_sequence_id c)
       (LogInterval_log_message_interval (ac_log_interval c)) time_scale"

definition SyncCycle_next :: "SyncCycle \<Rightarrow> world \<Rightarrow> SyncCycle \<times> world" where
  "SyncCycle_next c w =
     (let w = Timeout_restart (sc_timeout c) (LogInterval_duration (sc_log_interval c)) w
      in (c\<lparr>sc_sequence_id := SequenceId_next (sc_sequence_id c)\<rparr>, w))"

definition SyncCycle_two_step_sync :: "SyncCycle \<Rightarrow> TwoStepSyncMessage" where
  "SyncCycle_two_step_sync c =
     \<lparr>tss_sequence_id = sc_sequence_id c,
      tss_log_message_interval = LogInterval_log_message_interval (sc_log_interval c)\<rparr>"

definition MasterPort_send_announce :: "MasterPort \<Rightarrow> world \<Rightarrow> SendResult \<times> MasterPort \<times> world" where
  "MasterPort_send_announce s w =
     (let grandmaster = GrandMasterTrackingBmca_grandmaster (ma_bmca s);
          msg = AnnounceCycle_announce (ma_announce_cycle s) (clock_time_scale (ma_port s) (trace w))
                  grandmaster;
          (r, w) = DomainPort_send_general (ma_port s) (AnnounceMsg msg) w
      in case r of
           SendError \<Rightarrow> (SendError, s, w)
         | Ok \<Rightarrow>
             (let (c, w) = AnnounceCycle_next (ma_announce_cycle s) w;
                  s = s\<lparr>ma_announce_cycle := c\<rparr>;
                  w = DomainPort_log (ma_port s) (MessageSent ''Announce'') w
              in (Ok, s, w)))"

definition MasterPort_process_announce ::
    "MasterPort \<Rightarrow> AnnounceMessage \<Rightarrow> PortIdentity \<Rightarrow> Instant \<Rightarrow> world \<Rightarrow> MasterPort \<times> world" where
  "MasterPort_process_announce s msg src now w =
     (let w = DomainPort_log (ma_port s) (MessageReceived ''Announce'') w;
          (b, w) = AnnounceMessage_feed_bmca GrandMasterTrackingBmca_consider msg (ma_bmca s) src now w
      in (s\<lparr>ma_bmca := b\<rparr>, w))"

definition MasterPort_process_delay_request ::
    "MasterPort \<Rightarrow> DelayRequestMessage \<Rightarrow> TimeStamp \<Rightarrow> PortIdentity \<Rightarrow> world \<Rightarrow> SendResult \<times> world" where
  "MasterPort_process_delay_request s req ingress_timestamp requesting_port_identity w =
     (let w = DomainPort_log (ma_port s) (MessageReceived ''DelayReq'') w;
          response = DelayRequestMessage_response req
                       (LogInterval_log_message_interval (ma_log_min_delay_request_interval s))
                       ingress_timestamp requesting_port_identity;
          (result, w) = DomainPort_send_general (ma_port s) (DelayResp response) w;
          w = (if result = Ok then DomainPort_log (ma_port s) (MessageSent ''DelayResp'') w else w)
      in (result, w))"

definition MasterPort_send_sync :: "MasterPort \<Rightarrow> world \<Rightarrow> SendResult \<times> MasterPort \<times> world" where
  "MasterPort_send_sync s w =
     (let sync_message = SyncCycle_two_step_sync (ma_sync_cycle s);
          (r, w) = DomainPort_send_event (ma_port s) (TwoStepSync sync_message) w
      in case r of
           SendError \<Rightarrow> (SendError, s, w)
         | Ok \<Rightarrow>
             (let (c, w) = SyncCycle_next (ma_sync_cycle s) w;
                  s = s\<lparr>ma_sync_cycle := c\<rparr>;
                  w = DomainPort_log (ma_port s) (MessageSent ''TwoStepSync'') w
              in (Ok, s, w)))"

definition MasterPort_send_follow_up ::
    "MasterPort \<Rightarrow> TwoStepSyncMessage \<Rightarrow> TimeStamp \<Rightarrow> world \<Rightarrow> SendResult \<times> world" where
  "MasterPort_send_follow_up s sync egress_ts w =
     (let (r, w) = DomainPort_send_general (ma_port s)
                     (FollowUpMsg (TwoStepSyncMessage_follow_up sync egress_ts)) w
      in case r of
           SendError \<Rightarrow> (SendError, w)
         | Ok \<Rightarrow> (Ok, DomainPort_log (ma_port s) (MessageSent ''FollowUp'') w))"

definition MasterPort_recommended_slave :: "MasterPort \<Rightarrow> ParentPortIdentity \<Rightarrow> world \<Rightarrow> PortState \<times> world" where
  "MasterPort_recommended_slave s parent w =
     (let w = DomainPort_log (ma_port s) (EvRecommendedSlave parent) w;
          bmca = GrandMasterTrackingBmca_into_parent_tracking (ma_bmca s) parent;
          (st, w) = PortProfile_uncalibrated (ma_profile s) (ma_port s) bmca w;
          w = Timeout_drop (ac_timeout (ma_announce_cycle s)) w;
          w = Timeout_drop (sc_timeout (ma_sync_cycle s)) w
      in (st, w))"

definition MasterPort_recommended_master :: "MasterPort \<Rightarrow> BmcaMasterDecision \<Rightarrow> world \<Rightarrow> PortState \<times> world" where
  "MasterPort_recommended_master s decision w =
     (let w = DomainPort_log (ma_port s) EvRecommendedMaster w;
          (st, w) = BmcaMasterDecision_apply decision (\<lambda>policy grandmaster_ds.
            let bmca = GrandMasterTrackingBmca_with_grandmaster_ds (ma_bmca s) grandmaster_ds
            in PortProfile_pre_master (ma_profile s) (ma_port s) bmca policy w);
          w = Timeout_drop (ac_timeout (ma_announce_cycle s)) w;
          w = Timeout_drop (sc_timeout (ma_sync_cycle s)) w
      in (st, w))"

definition MasterPort_recommended_passive :: "MasterPort \<Rightarrow> world \<Rightarrow> PortState \<times> world" where
  "MasterPort_recommended_passive s w =
     (let w = DomainPort_log (ma_port s) (Static ''RecommendedPassive'') w;
          bmca = GrandMasterTrackingBmca_into_passive (ma_bmca s);
          (st, w) = PortProfile_passive (ma_profile s) (ma_port s) bmca w;
          w = Timeout_drop (ac_timeout (ma_announce_cycle s)) w;
          w = Timeout_drop (sc_timeout (ma_sync_cycle s)) w
      in (st, w))"

definition MasterPort_fault_detected :: "MasterPort \<Rightarrow> world \<Rightarrow> PortState \<times> world" where
  "MasterPort_fault_detected s w =
     (let (bmca, f, t) = GrandMasterTrackingBmca_into_parts (ma_bmca s);
          (st, w) = PortProfile_faulty (ma_profile s) (ma_port s) bmca f t w;
          w = Timeout_drop (ac_timeout (ma_announce_cycle s)) w;
          w = Timeout_drop (sc_timeout (ma_sync_cycle s)) w
      in (st, w))"

definition MasterPort_state_decision_event ::
    "MasterPort \<Rightarrow> StateDecisionSnapshot \<Rightarrow> StateDecision option \<times> MasterPort" where
  "MasterPort_state_decision_event s snapshot =
     (let (r, b) = GrandMasterTrackingBmca_decision (ma_bmca s) (d_0 snapshot) (e_best snapshot);
          s = s\<lparr>ma_bmca := b\<rparr>
      in case r of
           Some decision \<Rightarrow> (BmcaDecision_to_state_decision decision, s)
         | None \<Rightarrow> (None, s))"

subsection \<open>Passive (passive.rs)\<close>

definition PassivePort_recommended_slave :: "PassivePort \<Rightarrow> ParentPortIdentity \<Rightarrow> world \<Rightarrow> PortState \<times> world" where
  "PassivePort_recommended_slave s parent w =
     (let w = DomainPort_log (pa_port s) (EvRecommendedSlave parent) w;
          bmca = PassiveBmca_into_parent_tracking (pa_bmca s) parent;
          (st, w) = PortProfile_uncalibrated (pa_profile s) (pa_port s) bmca w;
          w = Timeout_drop (art_timeout (pa_announce_receipt_timeout s)) w
      in (st, w))"

definition PassivePort_recommended_master :: "PassivePort \<Rightarrow> BmcaMasterDecision \<Rightarrow> world \<Rightarrow> PortState \<times> world" where
  "PassivePort_recommended_master s decision w =
     (let w = DomainPort_log (pa_port s) EvRecommendedMaster w;
          (st, w) = BmcaMasterDecision_apply decision (\<lambda>policy grandmaster_ds.
            let bmca = PassiveBmca_into_grandmaster_tracking (pa_bmca s) grandmaster_ds
            in PortProfile_pre_master (pa_profile s) (pa_port s) bmca policy w);
          w = Timeout_drop (art_timeout (pa_announce_receipt_timeout s)) w
      in (st, w))"

definition PassivePort_announce_receipt_timeout_expired :: "PassivePort \<Rightarrow> world \<Rightarrow> PortState \<times> world" where
  "PassivePort_announce_receipt_timeout_expired s w =
     (let w = DomainPort_log (pa_port s) EvAnnounceReceiptTimeout w;
          (bmca, w) = PassiveBmca_into_local_grandmaster_tracking (pa_bmca s) w;
          (st, w) = PortProfile_master (pa_profile s) (pa_port s) bmca w;
          w = Timeout_drop (art_timeout (pa_announce_receipt_timeout s)) w
      in (st, w))"

definition PassivePort_fault_detected :: "PassivePort \<Rightarrow> world \<Rightarrow> PortState \<times> world" where
  "PassivePort_fault_detected s w =
     (let (bmca, f, t) = PassiveBmca_into_parts (pa_bmca s);
          (st, w) = PortProfile_faulty (pa_profile s) (pa_port s) bmca f t w;
          w = Timeout_drop (art_timeout (pa_announce_receipt_timeout s)) w
      in (st, w))"

definition PassivePort_state_decision_event ::
    "PassivePort \<Rightarrow> StateDecisionSnapshot \<Rightarrow> StateDecision option \<times> PassivePort" where
  "PassivePort_state_decision_event s snapshot =
     (let (r, b) = PassiveBmca_decision (pa_bmca s) (d_0 snapshot) (e_best snapshot);
          s = s\<lparr>pa_bmca := b\<rparr>
      in case r of
           Some decision \<Rightarrow> (BmcaDecision_to_state_decision decision, s)
         | None \<Rightarrow> (None, s))"

definition PassivePort_process_announce ::
    "PassivePort \<Rightarrow> AnnounceMessage \<Rightarrow> PortIdentity \<Rightarrow> Instant \<Rightarrow> world \<Rightarrow> PassivePort \<times> world" where
  "PassivePort_process_announce s msg src now w =
     (let w = DomainPort_log (pa_port s) (MessageReceived ''Announce'') w;
          w = AnnounceReceiptTimeout_restart (pa_announce_receipt_timeout s) w;
          (b, w) = AnnounceMessage_feed_bmca PassiveBmca_consider msg (pa_bmca s) src now w
      in (s\<lparr>pa_bmca := b\<rparr>, w))"

subsection \<open>Uncalibrated (uncalibrated.rs)\<close>

definition UncalibratedPort_process_announce ::
    "UncalibratedPort \<Rightarrow> AnnounceMessage \<Rightarrow> PortIdentity \<Rightarrow> Instant \<Rightarrow> world \<Rightarrow> UncalibratedPort \<times> world" where
  "UncalibratedPort_process_announce s msg src now w =
     (let w = DomainPort_log (un_port s) (MessageReceived ''Announce'') w;
          w = AnnounceReceiptTimeout_restart (un_announce_receipt_timeout s) w;
          (b, w) = AnnounceMessage_feed_bmca ParentTrackingBmca_consider msg (un_bmca s) src now w
      in (s\<lparr>un_bmca := b\<rparr>, w))"

definition UncalibratedPort_process_one_step_sync ::
    "UncalibratedPort \<Rightarrow> OneStepSyncMessage \<Rightarrow> PortIdentity \<Rightarrow> TimeStamp \<Rightarrow> world \<Rightarrow>
     (StateDecision option \<times> UncalibratedPort \<times> world) option" where
  "UncalibratedPort_process_one_step_sync s sync src ingress_timestamp w =
     (let w = DomainPort_log (un_port s) (MessageReceived ''One-Step Sync'') w in
      if \<not> ParentTrackingBmca_matches_parent (un_bmca s) src then Some (None, s, w)
      else
        let m = EndToEndDelayMechanism_record_one_step_sync (un_delay_mechanism s) sync ingress_timestamp;
            s = s\<lparr>un_delay_mechanism := m\<rparr>
        in case EndToEndDelayMechanism_sample m of
             None \<Rightarrow> None
           | Some None \<Rightarrow> Some (None, s, w)
           | Some (Some sample) \<Rightarrow> do {
               (servo_state, v, w) \<leftarrow> Servo_feed (un_servo s) sample w;
               let s = s\<lparr>un_servo := v\<rparr>;
               Some (if servo_state = Locked then Some (MasterClockSelected (ParentPortIdentity src)) else None, s, w)
             })"

definition UncalibratedPort_process_two_step_sync ::
    "UncalibratedPort \<Rightarrow> TwoStepSyncMessage \<Rightarrow> PortIdentity \<Rightarrow> TimeStamp \<Rightarrow> world \<Rightarrow>
     StateDecision option \<times> UncalibratedPort \<times> world" where
  "UncalibratedPort_process_two_step_sync s sync src ingress_timestamp w =
     (let w = DomainPort_log (un_port s) (MessageReceived ''Two-Step Sync'') w in
      if \<not> ParentTrackingBmca_matches_parent (un_bmca s) src then (None, s, w)
      else
        let m = EndToEndDelayMechanism_record_two_step_sync (un_delay_mechanism s) sync ingress_timestamp
        in (None, s\<lparr>un_delay_mechanism := m\<rparr>, w))"

definition UncalibratedPort_process_follow_up ::
    "UncalibratedPort \<Rightarrow> FollowUpMessage \<Rightarrow> PortIdentity \<Rightarrow> world \<Rightarrow>
     (StateDecision option \<times> UncalibratedPort \<times> world) option" where
  "UncalibratedPort_process_follow_up s follow_up src w =
     (let w = DomainPort_log (un_port s) (MessageReceived ''FollowUp'') w in
      if \<not> ParentTrackingBmca_matches_parent (un_bmca s) src then Some (None, s, w)
      else
        let m = EndToEndDelayMechanism_record_follow_up (un_delay_mechanism s) follow_up;
            s = s\<lparr>un_delay_mechanism := m\<rparr>
        in case EndToEndDelayMechanism_sample m of
             None \<Rightarrow> None
           | Some None \<Rightarrow> Some (None, s, w)
           | Some (Some sample) \<Rightarrow> do {
               (servo_state, v, w) \<leftarrow> Servo_feed (un_servo s) sample w;
               let s = s\<lparr>un_servo := v\<rparr>;
               Some (if servo_state = Locked then Some (MasterClockSelected (ParentPortIdentity src)) else None, s, w)
             })"

definition UncalibratedPort_process_delay_request ::
    "UncalibratedPort \<Rightarrow> DelayRequestMessage \<Rightarrow> TimeStamp \<Rightarrow> world \<Rightarrow> StateDecision option \<times> UncalibratedPort \<times> world" where
  "UncalibratedPort_process_delay_request s req egress_ts w =
     (let w = DomainPort_log (un_port s) (MessageReceived ''DelayReq'') w;
          m = EndToEndDelayMechanism_record_delay_request (un_delay_mechanism s) req egress_ts
      in (None, s\<lparr>un_delay_mechanism := m\<rparr>, w))"

definition UncalibratedPort_process_delay_response ::
    "UncalibratedPort \<Rightarrow> DelayResponseMessage \<Rightarrow> PortIdentity \<Rightarrow> world \<Rightarrow> StateDecision option \<times> UncalibratedPort \<times> world" where
  "UncalibratedPort_process_delay_response s resp src w =
     (let w = DomainPort_log (un_port s) (MessageReceived ''DelayResp'') w in
      if \<not> ParentTrackingBmca_matches_parent (un_bmca s) src then (None, s, w)
      else
        let m = EndToEndDelayMechanism_record_delay_response (un_delay_mechanism s) resp
        in (None, s\<lparr>un_delay_mechanism := m\<rparr>, w))"

definition UncalibratedPort_send_delay_request :: "UncalibratedPort \<Rightarrow> world \<Rightarrow> SendResult \<times> UncalibratedPort \<times> world" where
  "UncalibratedPort_send_delay_request s w =
     (let (delay_request, m, w) = EndToEndDelayMechanism_delay_request (un_delay_mechanism s) w;
          s = s\<lparr>un_delay_mechanism := m\<rparr>;
          (r, w) = DomainPort_send_event (un_port s) (DelayReq delay_request) w
      in case r of
           SendError \<Rightarrow> (SendError, s, w)
         | Ok \<Rightarrow> (Ok, s, DomainPort_log (un_port s) (MessageSent ''DelayReq'') w))"

definition UncalibratedPort_master_clock_selected ::
    "UncalibratedPort \<Rightarrow> ParentPortIdentity \<Rightarrow> world \<Rightarrow> PortState \<times> world" where
  "UncalibratedPort_master_clock_selected s parent w =
     (let w = DomainPort_log (un_port s) (EvMasterClockSelected parent) w;
          (st, w) = PortProfile_slave (un_profile s) (un_port s) (un_bmca s) (un_delay_mechanism s)
                      (un_servo s) w;
          w = Timeout_drop (art_timeout (un_announce_receipt_timeout s)) w
      in (st, w))"

definition UncalibratedPort_recommended_slave :: "UncalibratedPort \<Rightarrow> ParentPortIdentity \<Rightarrow> world \<Rightarrow> PortState \<times> world" where
  "UncalibratedPort_recommended_slave s parent w =
     (let w = DomainPort_log (un_port s) (EvRecommendedSlave parent) w;
          bmca = ParentTrackingBmca_with_parent (un_bmca s) parent;
          (st, w) = PortProfile_uncalibrated (un_profile s) (un_port s) bmca w;
          w = Timeout_drop (art_timeout (un_announce_receipt_timeout s)) w;
          w = Timeout_drop (dc_timeout (delay_cycle (un_delay_mechanism s))) w
      in (st, w))"

definition UncalibratedPort_recommended_master :: "UncalibratedPort \<Rightarrow> BmcaMasterDecision \<Rightarrow> world \<Rightarrow> PortState \<times> world" where
  "UncalibratedPort_recommended_master s decision w =
     (let w = DomainPort_log (un_port s) EvRecommendedMaster w;
          (st, w) = BmcaMasterDecision_apply decision (\<lambda>policy grandmaster_ds.
            let bmca = ParentTrackingBmca_into_grandmaster_tracking (un_bmca s) grandmaster_ds
            in PortProfile_pre_master (un_profile s) (un_port s) bmca policy w);
          w = Timeout_drop (art_timeout (un_announce_receipt_timeout s)) w;
          w = Timeout_drop (dc_timeout (delay_cycle (un_delay_mechanism s))) w
      in (st, w))"

definition UncalibratedPort_recommended_passive :: "UncalibratedPort \<Rightarrow> world \<Rightarrow> PortState \<times> world" where
  "UncalibratedPort_recommended_passive s w =
     (let w = DomainPort_log (un_port s) (Static ''RecommendedPassive'') w;
          bmca = ParentTrackingBmca_into_passive (un_bmca s);
          (st, w) = PortProfile_passive (un_profile s) (un_port s) bmca w;
          w = Timeout_drop (art_timeout (un_announce_receipt_timeout s)) w;
          w = Timeout_drop (dc_timeout (delay_cycle (un_delay_mechanism s))) w
      in (st, w))"

definition UncalibratedPort_announce_receipt_timeout_expired :: "UncalibratedPort \<Rightarrow> world \<Rightarrow> PortState \<times> world" where
  "UncalibratedPort_announce_receipt_timeout_expired s w =
     (let w = DomainPort_log (un_port s) EvAnnounceReceiptTimeout w;
          (bmca, w) = ParentTrackingBmca_into_local_grandmaster_tracking (un_bmca s) w;
          (st, w) = PortProfile_master (un_profile s) (un_port s) bmca w;
          w = Timeout_drop (art_timeout (un_announce_receipt_timeout s)) w;
          w = Timeout_drop (dc_timeout (delay_cycle (un_delay_mechanism s))) w
      in (st, w))"

definition UncalibratedPort_fault_detected :: "UncalibratedPort \<Rightarrow> world \<Rightarrow> PortState \<times> world" where
  "UncalibratedPort_fault_detected s w =
     (let (bmca, f, t) = ParentTrackingBmca_into_parts (un_bmca s);
          (st, w) = PortProfile_faulty (un_profile s) (un_port s) bmca f t w;
          w = Timeout_drop (art_timeout (un_announce_receipt_timeout s)) w;
          w = Timeout_drop (dc_timeout (delay_cycle (un_delay_mechanism s))) w
      in (st, w))"

definition UncalibratedPort_state_decision_event ::
    "UncalibratedPort \<Rightarrow> StateDecisionSnapshot \<Rightarrow> StateDecision option \<times> UncalibratedPort" where
  "UncalibratedPort_state_decision_event s snapshot =
     (let (r, b) = ParentTrackingBmca_decision (un_bmca s) (d_0 snapshot) (e_best snapshot);
          s = s\<lparr>un_bmca := b\<rparr>
      in case r of
           Some decision \<Rightarrow> (BmcaDecision_to_state_decision decision, s)
         | None \<Rightarrow> (None, s))"

subsection \<open>Slave (slave.rs)\<close>

definition SlavePort_process_announce ::
    "SlavePort \<Rightarrow> AnnounceMessage \<Rightarrow> PortIdentity \<Rightarrow> Instant \<Rightarrow> world \<Rightarrow> SlavePort \<times> world" where
  "SlavePort_process_announce s msg src now w =
     (let w = DomainPort_log (sl_port s) (MessageReceived ''Announce'') w;
          w = AnnounceReceiptTimeout_restart (sl_announce_receipt_timeout s) w;
          (b, w) = AnnounceMessage_feed_bmca ParentTrackingBmca_consider msg (sl_bmca s) src now w
      in (s\<lparr>sl_bmca := b\<rparr>, w))"

definition SlavePort_process_one_step_sync ::
    "SlavePort \<Rightarrow> OneStepSyncMessage \<Rightarrow> PortIdentity \<Rightarrow> TimeStamp \<Rightarrow> world \<Rightarrow>
     (StateDecision option \<times> SlavePort \<times> world) option" where
  "SlavePort_process_one_step_sync s sync src ingress_timestamp w =
     (let w = DomainPort_log (sl_port s) (MessageReceived ''One-Step Sync'') w in
      if \<not> ParentTrackingBmca_matches_parent (sl_bmca s) src then Some (None, s, w)
      else
        let m = EndToEndDelayMechanism_record_one_step_sync (sl_delay_mechanism s) sync ingress_timestamp;
            s = s\<lparr>sl_delay_mechanism := m\<rparr>
        in case EndToEndDelayMechanism_sample m of
             None \<Rightarrow> None
           | Some None \<Rightarrow> Some (None, s, w)
           | Some (Some sample) \<Rightarrow> do {
               (servo_state, v, w) \<leftarrow> Servo_feed (sl_servo s) sample w;
               let s = s\<lparr>sl_servo := v\<rparr>;
               Some (if servo_state = Locked then None else Some SynchronizationFault, s, w)
             })"

definition SlavePort_process_two_step_sync ::
    "SlavePort \<Rightarrow> TwoStepSyncMessage \<Rightarrow> PortIdentity \<Rightarrow> TimeStamp \<Rightarrow> world \<Rightarrow>
     StateDecision option \<times> SlavePort \<times> world" where
  "SlavePort_process_two_step_sync s sync src ingress_timestamp w =
     (let w = DomainPort_log (sl_port s) (MessageReceived ''Two-Step Sync'') w in
      if \<not> ParentTrackingBmca_matches_parent (sl_bmca s) src then (None, s, w)
      else
        let m = EndToEndDelayMechanism_record_two_step_sync (sl_delay_mechanism s) sync ingress_timestamp
        in (None, s\<lparr>sl_delay_mechanism := m\<rparr>, w))"

definition SlavePort_process_follow_up ::
    "SlavePort \<Rightarrow> FollowUpMessage \<Rightarrow> PortIdentity \<Rightarrow> world \<Rightarrow>
     (StateDecision option \<times> SlavePort \<times> world) option" where
  "SlavePort_process_follow_up s follow_up src w =
     (let w = DomainPort_log (sl_port s) (MessageReceived ''FollowUp'') w in
      if \<not> ParentTrackingBmca_matches_parent (sl_bmca s) src then Some (None, s, w)
      else
        let m = EndToEndDelayMechanism_record_follow_up (sl_delay_mechanism s) follow_up;
            s = s\<lparr>sl_delay_mechanism := m\<rparr>
        in case EndToEndDelayMechanism_sample m of
             None \<Rightarrow> None
           | Some None \<Rightarrow> Some (None, s, w)
           | Some (Some sample) \<Rightarrow> do {
               (servo_state, v, w) \<leftarrow> Servo_feed (sl_servo s) sample w;
               let s = s\<lparr>sl_servo := v\<rparr>;
               Some (if servo_state = Locked then None else Some SynchronizationFault, s, w)
             })"

definition SlavePort_process_delay_request ::
    "SlavePort \<Rightarrow> DelayRequestMessage \<Rightarrow> TimeStamp \<Rightarrow> world \<Rightarrow> StateDecision option \<times> SlavePort \<times> world" where
  "SlavePort_process_delay_request s req egress_ts w =
     (let w = DomainPort_log (sl_port s) (MessageReceived ''DelayReq'') w;
          m = EndToEndDelayMechanism_record_delay_request (sl_delay_mechanism s) req egress_ts
      in (None, s\<lparr>sl_delay_mechanism := m\<rparr>, w))"

definition SlavePort_process_delay_response ::
    "SlavePort \<Rightarrow> DelayResponseMessage \<Rightarrow> PortIdentity \<Rightarrow> world \<Rightarrow> StateDecision option \<times> SlavePort \<times> world" where
  "SlavePort_process_delay_response s resp src w =
     (let w = DomainPort_log (sl_port s) (MessageReceived ''DelayResp'') w in
      if \<not> ParentTrackingBmca_matches_parent (sl_bmca s) src then (None, s, w)
      else
        let m = EndToEndDelayMechanism_record_delay_response (sl_delay_mechanism s) resp
        in (None, s\<lparr>sl_delay_mechanism := m\<rparr>, w))"

definition SlavePort_send_delay_request :: "SlavePort \<Rightarrow> world \<Rightarrow> SendResult \<times> SlavePort \<times> world" where
  "SlavePort_send_delay_request s w =
     (let (delay_request, m, w) = EndToEndDelayMechanism_delay_request (sl_delay_mechanism s) w;
          s = s\<lparr>sl_delay_mechanism := m\<rparr>;
          (r, w) = DomainPort_send_event (sl_port s) (DelayReq delay_request) w
      in case r of
           SendError \<Rightarrow> (SendError, s, w)
         | Ok \<Rightarrow> (Ok, s, DomainPort_log (sl_port s) (MessageSent ''DelayReq'') w))"

definition SlavePort_recommended_slave :: "SlavePort \<Rightarrow> ParentPortIdentity \<Rightarrow> world \<Rightarrow> PortState \<times> world" where
  "SlavePort_recommended_slave s parent w =
     (let w = DomainPort_log (sl_port s) (EvRecommendedSlave parent) w;
          bmca = ParentTrackingBmca_with_parent (sl_bmca s) parent;
          (st, w) = PortProfile_uncalibrated (sl_profile s) (sl_port s) bmca w;
          w = Timeout_drop (art_timeout (sl_announce_receipt_timeout s)) w;
          w = Timeout_drop (dc_timeout (delay_cycle (sl_delay_mechanism s))) w
      in (st, w))"

definition SlavePort_recommended_master :: "SlavePort \<Rightarrow> BmcaMasterDecision \<Rightarrow> world \<Rightarrow> PortState \<times> world" where
  "SlavePort_recommended_master s decision w =
     (let w = DomainPort_log (sl_port s) EvRecommendedMaster w;
          (st, w) = BmcaMasterDecision_apply decision (\<lambda>policy grandmaster_ds.
            let bmca = ParentTrackingBmca_into_grandmaster_tracking (sl_bmca s) grandmaster_ds
            in PortProfile_pre_master (sl_profile s) (sl_port s) bmca policy w);
          w = Timeout_drop (art_timeout (sl_announce_receipt_timeout s)) w;
          w = Timeout_drop (dc_timeout (delay_cycle (sl_delay_mechanism s))) w
      in (st, w))"

definition SlavePort_recommended_passive :: "SlavePort \<Rightarrow> world \<Rightarrow> PortState \<times> world" where
  "SlavePort_recommended_passive s w =
     (let w = DomainPort_log (sl_port s) (Static ''RecommendedPassive'') w;
          bmca = ParentTrackingBmca_into_passive (sl_bmca s);
          (st, w) = PortProfile_passive (sl_profile s) (sl_port s) bmca w;
          w = Timeout_drop (art_timeout (sl_announce_receipt_timeout s)) w;
          w = Timeout_drop (dc_timeout (delay_cycle (sl_delay_mechanism s))) w
      in (st, w))"

definition SlavePort_announce_receipt_timeout_expired :: "SlavePort \<Rightarrow> world \<Rightarrow> PortState \<times> world" where
  "SlavePort_announce_receipt_timeout_expired s w =
     (let w = DomainPort_log (sl_port s) EvAnnounceReceiptTimeout w;
          (bmca, w) = ParentTrackingBmca_into_local_grandmaster_tracking (sl_bmca s) w;
          (st, w) = PortProfile_master (sl_profile s) (sl_port s) bmca w;
          w = Timeout_drop (art_timeout (sl_announce_receipt_timeout s)) w;
          w = Timeout_drop (dc_timeout (delay_cycle (sl_delay_mechanism s))) w
      in (st, w))"

definition SlavePort_fault_detected :: "SlavePort \<Rightarrow> world \<Rightarrow> PortState \<times> world" where
  "SlavePort_fault_detected s w =
     (let (bmca, f, t) = ParentTrackingBmca_into_parts (sl_bmca s);
          (st, w) = PortProfile_faulty (sl_profile s) (sl_port s) bmca f t w;
          w = Timeout_drop (art_timeout (sl_announce_receipt_timeout s)) w;
          w = Timeout_drop (dc_timeout (delay_cycle (sl_delay_mechanism s))) w
      in (st, w))"

definition SlavePort_state_decision_event ::
    "SlavePort \<Rightarrow> StateDecisionSnapshot \<Rightarrow> StateDecision option \<times> SlavePort" where
  "SlavePort_state_decision_event s snapshot =
     (let (r, b) = ParentTrackingBmca_decision (sl_bmca s) (d_0 snapshot) (e_best snapshot);
          s = s\<lparr>sl_bmca := b\<rparr>
      in case r of
           Some decision \<Rightarrow> (BmcaDecision_to_state_decision decision, s)
         | None \<Rightarrow> (None, s))"

definition SlavePort_synchronization_fault :: "SlavePort \<Rightarrow> world \<Rightarrow> PortState \<times> world" where
  "SlavePort_synchronization_fault s w =
     (let w = DomainPort_log (sl_port s) EvSynchronizationFault w;
          (u, w) = UncalibratedPort_new (sl_port s) (sl_bmca s) (sl_announce_receipt_timeout s)
                     (sl_delay_mechanism s) (sl_servo s) (sl_profile s) w
      in (Uncalibrated u, w))"

end
