(* ===== verification/Ptp_Invariant.thy ===== *)
theory Ptp_Invariant
  imports Ptp_Fsm
begin

section \<open>Invariants of the port state machine\<close>

text \<open>
  The invariant of a port: its data are well formed (so that no arithmetic of the servo or the
  delay mechanism can overflow), and the timers alive in the world are the ones its state owns,
  each with the message that state expects, beside those of the rest of the clock (\<open>base\<close>).
  Every message keeps it; the lemmas on dispatch and on the decisions say where the machine
  panics.
\<close>

subsection \<open>Ownership of timers\<close>

abbreviation art_timer :: "AnnounceReceiptTimeout \<Rightarrow> nat \<times> SystemMessage" where
  "art_timer a \<equiv> (timer_id (art_timeout a), AnnounceReceiptTimeout)"

abbreviation delay_timer :: "EndToEndDelayMechanism \<Rightarrow> nat \<times> SystemMessage" where
  "delay_timer m \<equiv> (timer_id (dc_timeout (delay_cycle m)), DelayRequestTimeout)"

fun owned :: "PortState \<Rightarrow> (nat \<times> SystemMessage) list" where
  "owned (Initializing s) = []"
| "owned (Listening s) = [art_timer (li_announce_receipt_timeout s)]"
| "owned (PreMaster s) = [(timer_id (pm_qualification_timeout s), QualificationTimeout)]"
| "owned (Master s) =
     [(timer_id (ac_timeout (ma_announce_cycle s)), AnnounceSendTimeout),
      (timer_id (sc_timeout (ma_sync_cycle s)), SyncTimeout)]"
| "owned (Passive s) = [art_timer (pa_announce_receipt_timeout s)]"
| "owned (Uncalibrated s) =
     [art_timer (un_announce_receipt_timeout s), delay_timer (un_delay_mechanism s)]"
| "owned (Slave s) =
     [art_timer (sl_announce_receipt_timeout s), delay_timer (sl_delay_mechanism s)]"
| "owned (Faulty s) = []"

definition timers_inv :: "(nat \<rightharpoonup> SystemMessage) \<Rightarrow> PortState \<Rightarrow> world \<Rightarrow> bool" where
  "timers_inv base st w \<longleftrightarrow>
     distinct (map fst (owned st)) \<and> fst ` set (owned st) \<inter> dom base = {} \<and>
     timers (trace w) = base ++ map_of (owned st) \<and> wf_world w"

text \<open>A state entered with fresh timers.\<close>

definition entered :: "world \<Rightarrow> PortState \<Rightarrow> world \<Rightarrow> bool" where
  "entered w st w' \<longleftrightarrow>
     distinct (map fst (owned st)) \<and>
     fst ` set (owned st) \<subseteq> {next_timer w..<next_timer w'} \<and> next_timer w \<le> next_timer w' \<and>
     timers (trace w') = timers (trace w) ++ map_of (owned st)"

text \<open>A world reached without creating or dropping timers.\<close>

definition same_timers :: "world \<Rightarrow> world \<Rightarrow> bool" where
  "same_timers w w' \<longleftrightarrow> timers (trace w') = timers (trace w) \<and> next_timer w' = next_timer w"

lemma same_timers_refl [simp]: "same_timers w w"
  by (simp add: same_timers_def)

lemma same_timers_trans: "same_timers a b \<Longrightarrow> same_timers b c \<Longrightarrow> same_timers a c"
  by (simp add: same_timers_def)

lemma same_timers_inv: "same_timers w w' \<Longrightarrow> timers_inv base st w \<Longrightarrow> owned st' = owned st \<Longrightarrow>
  timers_inv base st' w'"
  by (simp add: same_timers_def timers_inv_def wf_world_def)

lemma same_timers_entered: "same_timers w w' \<Longrightarrow> entered w' st w'' \<Longrightarrow> entered w st w''"
  by (simp add: same_timers_def entered_def)

lemma entered_intros:
  "entered w (fst (PortProfile_initializing p port b f t w)) (snd (PortProfile_initializing p port b f t w))"
  "entered w (fst (PortProfile_listening p port lb w)) (snd (PortProfile_listening p port lb w))"
  "entered w (fst (PortProfile_master p port gb w)) (snd (PortProfile_master p port gb w))"
  "entered w (fst (PortProfile_pre_master p port gb q w)) (snd (PortProfile_pre_master p port gb q w))"
  "entered w (fst (PortProfile_uncalibrated p port pt w)) (snd (PortProfile_uncalibrated p port pt w))"
  "entered w (fst (PortProfile_faulty p port b f t w)) (snd (PortProfile_faulty p port b f t w))"
  "entered w (fst (PortProfile_passive p port pb w)) (snd (PortProfile_passive p port pb w))"
  by (simp_all add: entered_def PortProfile_initializing_def PortProfile_listening_def
      PortProfile_master_def PortProfile_pre_master_def PortProfile_uncalibrated_def
      PortProfile_faulty_def PortProfile_passive_def InitializingPort_new_def ListeningPort_new_def
      MasterPort_new_def PreMasterPort_new_def UncalibratedPort_new_def FaultyPort_new_def
      PassivePort_new_def EndToEndDelayMechanism_new_def world_defs Let_def fun_upd_twist)

text \<open>Dropping the timers of the state that is left.\<close>

lemma timers_drop [simp]:
  "timers (trace (Timeout_drop t w)) = (timers (trace w))(timer_id t := None)"
  "next_timer (Timeout_drop t w) = next_timer w"
  by (simp_all add: Timeout_drop_def)

lemma timers_log [simp]:
  "same_timers w (DomainPort_log p e w)" "same_timers w (Timeout_restart t d w)"
  "same_timers w (AnnounceReceiptTimeout_restart a w)"
  by (simp_all add: same_timers_def world_defs)

lemma leave_state:
  assumes "timers_inv base st w" "entered w st' w1"
    "timers (trace w2) = timers (trace w1) |` (- fst ` set (owned st))" "next_timer w2 = next_timer w1"
  shows "timers_inv base st' w2"
proof -
  have old: "i < next_timer w" if "i \<in> fst ` set (owned st) \<union> dom base" for i
    using assms(1) that unfolding timers_inv_def wf_world_def
    by (auto simp: dom_map_of_conv_image_fst)
  have new: "next_timer w \<le> i" if "i \<in> fst ` set (owned st')" for i
    using assms(2) that by (auto simp: entered_def)
  have disj: "fst ` set (owned st') \<inter> (fst ` set (owned st) \<union> dom base) = {}"
    using old new by (meson disjoint_iff leD)
  have "timers (trace w2) i = (base ++ map_of (owned st')) i" for i
  proof (cases "i \<in> fst ` set (owned st')")
    case True
    then have "i \<notin> fst ` set (owned st)" using disj by blast
    then show ?thesis using True assms(2,3)
      by (simp add: entered_def map_add_dom_app_simps(1) dom_map_of_conv_image_fst restrict_map_def)
  next
    case False
    then have n: "map_of (owned st') i = None" by (simp add: map_of_eq_None_iff)
    show ?thesis
    proof (cases "i \<in> fst ` set (owned st)")
      case True
      then have "base i = None" using assms(1) by (auto simp: timers_inv_def)
      then show ?thesis using True assms(3) n by (simp add: map_add_def)
    next
      case False
      then have "map_of (owned st) i = None" by (simp add: map_of_eq_None_iff)
      then show ?thesis using False assms(1-3) n
        by (simp add: entered_def timers_inv_def map_add_def restrict_map_def)
    qed
  qed
  then have t: "timers (trace w2) = base ++ map_of (owned st')" ..
  moreover have "wf_world w2"
    using t old assms(2,4) unfolding wf_world_def entered_def
    by (auto simp: dom_map_of_conv_image_fst) force+
  ultimately show ?thesis using assms(2) disj by (auto simp: timers_inv_def entered_def)
qed

subsection \<open>Every transition hands over its timers\<close>

lemma drop_timers:
  "m(i := None) = m |` (- {i})" "m |` (- {i} \<inter> - {j}) = m |` (- {i, j})"
  "m |` UNIV = m"
  by (auto simp: restrict_map_def)

lemma same_timers_into_local [simp]:
  "same_timers w (snd (ListeningBmca_into_local_grandmaster_tracking lb w))"
  "same_timers w (snd (ParentTrackingBmca_into_local_grandmaster_tracking pt w))"
  "same_timers w (snd (PassiveBmca_into_local_grandmaster_tracking pb w))"
  by (simp_all add: same_timers_def ListeningBmca_into_local_grandmaster_tracking_def
      ParentTrackingBmca_into_local_grandmaster_tracking_def
      PassiveBmca_into_local_grandmaster_tracking_def StateDecisionEventTrigger_trigger_def Let_def)

lemma same_timers_into_local_log [simp]:
  "same_timers w (snd (ListeningBmca_into_local_grandmaster_tracking lb (DomainPort_log p e w)))"
  "same_timers w (snd (ParentTrackingBmca_into_local_grandmaster_tracking pt (DomainPort_log p e w)))"
  "same_timers w (snd (PassiveBmca_into_local_grandmaster_tracking pb (DomainPort_log p e w)))"
  using same_timers_trans[OF timers_log(1) same_timers_into_local(1)]
    same_timers_trans[OF timers_log(1) same_timers_into_local(2)]
    same_timers_trans[OF timers_log(1) same_timers_into_local(3)] by simp_all

lemmas leave = leave_state[OF _ same_timers_entered[OF _ entered_intros(2)]]
  leave_state[OF _ same_timers_entered[OF _ entered_intros(3)]]
  leave_state[OF _ same_timers_entered[OF _ entered_intros(4)]]
  leave_state[OF _ same_timers_entered[OF _ entered_intros(5)]]
  leave_state[OF _ same_timers_entered[OF _ entered_intros(6)]]
  leave_state[OF _ same_timers_entered[OF _ entered_intros(7)]]
  leave_state[OF _ same_timers_entered[OF _ entered_intros(1)]]

lemma listening_timers:
  assumes "timers_inv base (Listening s) w"
  shows
    "timers_inv base (fst (ListeningPort_recommended_slave s parent w)) (snd (ListeningPort_recommended_slave s parent w))"
    "timers_inv base (fst (ListeningPort_recommended_master s d w)) (snd (ListeningPort_recommended_master s d w))"
    "timers_inv base (fst (ListeningPort_recommended_passive s w)) (snd (ListeningPort_recommended_passive s w))"
    "timers_inv base (fst (ListeningPort_announce_receipt_timeout_expired s w)) (snd (ListeningPort_announce_receipt_timeout_expired s w))"
    "timers_inv base (fst (ListeningPort_fault_detected s w)) (snd (ListeningPort_fault_detected s w))"
  subgoal
    unfolding ListeningPort_recommended_slave_def Let_def split_def fst_conv snd_conv
    by (rule leave(4)[OF assms]) (simp_all add: drop_timers)
  subgoal
    unfolding ListeningPort_recommended_master_def BmcaMasterDecision_apply_def Let_def split_def fst_conv snd_conv
    by (rule leave(3)[OF assms]) (simp_all add: drop_timers)
  subgoal
    unfolding ListeningPort_recommended_passive_def Let_def split_def fst_conv snd_conv
    by (rule leave(6)[OF assms]) (simp_all add: drop_timers)
  subgoal
    unfolding ListeningPort_announce_receipt_timeout_expired_def Let_def split_def fst_conv snd_conv
    by (rule leave(2)[OF assms]) (simp_all add: drop_timers)
  subgoal
    unfolding ListeningPort_fault_detected_def Let_def split_def fst_conv snd_conv
    by (rule leave(5)[OF assms]) (simp_all add: drop_timers)
  done

lemma premaster_timers:
  assumes "timers_inv base (PreMaster s) w"
  shows
    "timers_inv base (fst (PreMasterPort_recommended_slave s parent w)) (snd (PreMasterPort_recommended_slave s parent w))"
    "timers_inv base (fst (PreMasterPort_recommended_master s d w)) (snd (PreMasterPort_recommended_master s d w))"
    "timers_inv base (fst (PreMasterPort_recommended_passive s w)) (snd (PreMasterPort_recommended_passive s w))"
    "timers_inv base (fst (PreMasterPort_fault_detected s w)) (snd (PreMasterPort_fault_detected s w))"
    "timers_inv base (fst (PreMasterPort_qualified s w)) (snd (PreMasterPort_qualified s w))"
  subgoal
    unfolding PreMasterPort_recommended_slave_def Let_def split_def fst_conv snd_conv
    by (rule leave(4)[OF assms]) (simp_all add: drop_timers)
  subgoal
    unfolding PreMasterPort_recommended_master_def BmcaMasterDecision_apply_def Let_def split_def fst_conv snd_conv
    by (rule leave(3)[OF assms]) (simp_all add: drop_timers)
  subgoal
    unfolding PreMasterPort_recommended_passive_def Let_def split_def fst_conv snd_conv
    by (rule leave(6)[OF assms]) (simp_all add: drop_timers)
  subgoal
    unfolding PreMasterPort_fault_detected_def Let_def split_def fst_conv snd_conv
    by (rule leave(5)[OF assms]) (simp_all add: drop_timers)
  subgoal
    unfolding PreMasterPort_qualified_def Let_def split_def fst_conv snd_conv
    by (rule leave(2)[OF assms]) (simp_all add: drop_timers)
  done

lemma master_timers:
  assumes "timers_inv base (Master s) w"
  shows
    "timers_inv base (fst (MasterPort_recommended_slave s parent w)) (snd (MasterPort_recommended_slave s parent w))"
    "timers_inv base (fst (MasterPort_recommended_master s d w)) (snd (MasterPort_recommended_master s d w))"
    "timers_inv base (fst (MasterPort_recommended_passive s w)) (snd (MasterPort_recommended_passive s w))"
    "timers_inv base (fst (MasterPort_fault_detected s w)) (snd (MasterPort_fault_detected s w))"
  subgoal
    unfolding MasterPort_recommended_slave_def Let_def split_def fst_conv snd_conv
    by (rule leave(4)[OF assms]) (simp_all add: drop_timers)
  subgoal
    unfolding MasterPort_recommended_master_def BmcaMasterDecision_apply_def Let_def split_def fst_conv snd_conv
    by (rule leave(3)[OF assms]) (simp_all add: drop_timers)
  subgoal
    unfolding MasterPort_recommended_passive_def Let_def split_def fst_conv snd_conv
    by (rule leave(6)[OF assms]) (simp_all add: drop_timers)
  subgoal
    unfolding MasterPort_fault_detected_def Let_def split_def fst_conv snd_conv
    by (rule leave(5)[OF assms]) (simp_all add: drop_timers)
  done

lemma passive_timers:
  assumes "timers_inv base (Passive s) w"
  shows
    "timers_inv base (fst (PassivePort_recommended_slave s parent w)) (snd (PassivePort_recommended_slave s parent w))"
    "timers_inv base (fst (PassivePort_recommended_master s d w)) (snd (PassivePort_recommended_master s d w))"
    "timers_inv base (fst (PassivePort_announce_receipt_timeout_expired s w)) (snd (PassivePort_announce_receipt_timeout_expired s w))"
    "timers_inv base (fst (PassivePort_fault_detected s w)) (snd (PassivePort_fault_detected s w))"
  subgoal
    unfolding PassivePort_recommended_slave_def Let_def split_def fst_conv snd_conv
    by (rule leave(4)[OF assms]) (simp_all add: drop_timers)
  subgoal
    unfolding PassivePort_recommended_master_def BmcaMasterDecision_apply_def Let_def split_def fst_conv snd_conv
    by (rule leave(3)[OF assms]) (simp_all add: drop_timers)
  subgoal
    unfolding PassivePort_announce_receipt_timeout_expired_def Let_def split_def fst_conv snd_conv
    by (rule leave(2)[OF assms]) (simp_all add: drop_timers)
  subgoal
    unfolding PassivePort_fault_detected_def Let_def split_def fst_conv snd_conv
    by (rule leave(5)[OF assms]) (simp_all add: drop_timers)
  done

lemma uncalibrated_timers:
  assumes "timers_inv base (Uncalibrated s) w"
  shows
    "timers_inv base (fst (UncalibratedPort_recommended_slave s parent w)) (snd (UncalibratedPort_recommended_slave s parent w))"
    "timers_inv base (fst (UncalibratedPort_recommended_master s d w)) (snd (UncalibratedPort_recommended_master s d w))"
    "timers_inv base (fst (UncalibratedPort_recommended_passive s w)) (snd (UncalibratedPort_recommended_passive s w))"
    "timers_inv base (fst (UncalibratedPort_announce_receipt_timeout_expired s w)) (snd (UncalibratedPort_announce_receipt_timeout_expired s w))"
    "timers_inv base (fst (UncalibratedPort_fault_detected s w)) (snd (UncalibratedPort_fault_detected s w))"
  subgoal
    unfolding UncalibratedPort_recommended_slave_def Let_def split_def fst_conv snd_conv
    by (rule leave(4)[OF assms]) (simp_all add: drop_timers)
  subgoal
    unfolding UncalibratedPort_recommended_master_def BmcaMasterDecision_apply_def Let_def split_def fst_conv snd_conv
    by (rule leave(3)[OF assms]) (simp_all add: drop_timers)
  subgoal
    unfolding UncalibratedPort_recommended_passive_def Let_def split_def fst_conv snd_conv
    by (rule leave(6)[OF assms]) (simp_all add: drop_timers)
  subgoal
    unfolding UncalibratedPort_announce_receipt_timeout_expired_def Let_def split_def fst_conv snd_conv
    by (rule leave(2)[OF assms]) (simp_all add: drop_timers)
  subgoal
    unfolding UncalibratedPort_fault_detected_def Let_def split_def fst_conv snd_conv
    by (rule leave(5)[OF assms]) (simp_all add: drop_timers)
  done

lemma slave_timers:
  assumes "timers_inv base (Slave s) w"
  shows
    "timers_inv base (fst (SlavePort_recommended_slave s parent w)) (snd (SlavePort_recommended_slave s parent w))"
    "timers_inv base (fst (SlavePort_recommended_master s d w)) (snd (SlavePort_recommended_master s d w))"
    "timers_inv base (fst (SlavePort_recommended_passive s w)) (snd (SlavePort_recommended_passive s w))"
    "timers_inv base (fst (SlavePort_announce_receipt_timeout_expired s w)) (snd (SlavePort_announce_receipt_timeout_expired s w))"
    "timers_inv base (fst (SlavePort_fault_detected s w)) (snd (SlavePort_fault_detected s w))"
  subgoal
    unfolding SlavePort_recommended_slave_def Let_def split_def fst_conv snd_conv
    by (rule leave(4)[OF assms]) (simp_all add: drop_timers)
  subgoal
    unfolding SlavePort_recommended_master_def BmcaMasterDecision_apply_def Let_def split_def fst_conv snd_conv
    by (rule leave(3)[OF assms]) (simp_all add: drop_timers)
  subgoal
    unfolding SlavePort_recommended_passive_def Let_def split_def fst_conv snd_conv
    by (rule leave(6)[OF assms]) (simp_all add: drop_timers)
  subgoal
    unfolding SlavePort_announce_receipt_timeout_expired_def Let_def split_def fst_conv snd_conv
    by (rule leave(2)[OF assms]) (simp_all add: drop_timers)
  subgoal
    unfolding SlavePort_fault_detected_def Let_def split_def fst_conv snd_conv
    by (rule leave(5)[OF assms]) (simp_all add: drop_timers)
  done

lemma initializing_timers:
  assumes "timers_inv base (Initializing s) w"
  shows
    "timers_inv base (fst (InitializingPort_initialized s w)) (snd (InitializingPort_initialized s w))"
  subgoal
    unfolding InitializingPort_initialized_def Let_def split_def fst_conv snd_conv
    by (rule leave(1)[OF assms]) (simp_all add: drop_timers)
  done

lemma faulty_timers:
  assumes "timers_inv base (Faulty s) w"
  shows
    "timers_inv base (fst (FaultyPort_fault_cleared s w)) (snd (FaultyPort_fault_cleared s w))"
  subgoal
    unfolding FaultyPort_fault_cleared_def Let_def split_def fst_conv snd_conv
    by (rule leave(7)[OF assms]) (simp_all add: drop_timers)
  done

lemma wf_world_created:
  "wf_world w \<Longrightarrow> i = next_timer w \<Longrightarrow>
   wf_world (emit (TimerCreated i m) (w\<lparr>next_timer := Suc i\<rparr>))"
  using wf_world_timeout[of w p m] by (simp add: DomainPort_timeout_def)

lemma master_clock_selected_timers:
  assumes "timers_inv base (Uncalibrated s) w"
  shows "timers_inv base (fst (UncalibratedPort_master_clock_selected s parent w))
           (snd (UncalibratedPort_master_clock_selected s parent w))"
proof -
  have "next_timer w \<notin> dom base" "next_timer w \<noteq> fst (delay_timer (un_delay_mechanism s))"
    "next_timer w \<noteq> fst (art_timer (un_announce_receipt_timeout s))"
    using assms unfolding timers_inv_def wf_world_def by (auto simp: map_add_def split: if_splits)
  then show ?thesis
    using assms wf_world_timeout[of w "un_port s" AnnounceReceiptTimeout]
    by (auto simp: UncalibratedPort_master_clock_selected_def PortProfile_slave_def SlavePort_new_def
        timers_inv_def world_defs Let_def fun_eq_iff map_add_def wf_world_created split: if_splits)
qed

lemma synchronization_fault_timers:
  assumes "timers_inv base (Slave s) w"
  shows "timers_inv base (fst (SlavePort_synchronization_fault s w))
           (snd (SlavePort_synchronization_fault s w))"
  by (rule same_timers_inv[OF _ assms])
    (simp_all add: SlavePort_synchronization_fault_def UncalibratedPort_new_def same_timers_def
      world_defs Let_def)

lemmas transition_timers =
  listening_timers premaster_timers master_timers passive_timers uncalibrated_timers slave_timers
  initializing_timers faulty_timers master_clock_selected_timers synchronization_fault_timers

lemma apply_timers:
  assumes "PortState_apply st d w = Some (st', w')" "timers_inv base st w"
  shows "timers_inv base st' w'"
proof -
  have "pred_option (\<lambda>r. timers_inv base (fst r) (snd r)) (PortState_apply st d w)"
    using assms(2) by (cases d; cases st) (simp_all add: PortState_apply_def transition_timers)
  then show ?thesis by (simp add: assms(1))
qed

subsection \<open>Well-formed states\<close>

definition wf_profile :: "PortProfile \<Rightarrow> bool" where
  "wf_profile p \<longleftrightarrow> wf_log (log_announce_interval p) \<and> wf_log (log_sync_interval p) \<and>
     wf_log (log_min_delay_request_interval p) \<and> wf_servo_config (servo_config p)"

lemma wf_profile_default [simp]: "wf_profile PortProfile_default"
  by (simp add: wf_profile_def PortProfile_default_def LogInterval_new_def wf_log_def
      MIN_LOG_VALUE_def MAX_LOG_VALUE_def)

fun state_port :: "PortState \<Rightarrow> DomainPort" where
  "state_port (Initializing s) = in_port s"
| "state_port (Listening s) = li_port s"
| "state_port (PreMaster s) = pm_port s"
| "state_port (Master s) = ma_port s"
| "state_port (Passive s) = pa_port s"
| "state_port (Uncalibrated s) = un_port s"
| "state_port (Slave s) = sl_port s"
| "state_port (Faulty s) = fa_port s"

fun state_profile :: "PortState \<Rightarrow> PortProfile" where
  "state_profile (Initializing s) = in_profile s"
| "state_profile (Listening s) = li_profile s"
| "state_profile (PreMaster s) = pm_profile s"
| "state_profile (Master s) = ma_profile s"
| "state_profile (Passive s) = pa_profile s"
| "state_profile (Uncalibrated s) = un_profile s"
| "state_profile (Slave s) = sl_profile s"
| "state_profile (Faulty s) = fa_profile s"

text \<open>What every state carries on to the next one: the algorithm, the foreign records, the trigger.\<close>

fun state_parts :: "PortState \<Rightarrow> bmca_parts" where
  "state_parts (Initializing s) = (in_bmca s, in_best_foreign s, in_state_decision_trigger s)"
| "state_parts (Listening s) = ListeningBmca_into_parts (li_bmca s)"
| "state_parts (PreMaster s) = GrandMasterTrackingBmca_into_parts (pm_bmca s)"
| "state_parts (Master s) = GrandMasterTrackingBmca_into_parts (ma_bmca s)"
| "state_parts (Passive s) = PassiveBmca_into_parts (pa_bmca s)"
| "state_parts (Uncalibrated s) = ParentTrackingBmca_into_parts (un_bmca s)"
| "state_parts (Slave s) = ParentTrackingBmca_into_parts (sl_bmca s)"
| "state_parts (Faulty s) = (fa_bmca s, fa_best_foreign s, fa_state_decision_trigger s)"

abbreviation state_records :: "PortState \<Rightarrow> BestForeignRecord" where
  "state_records st \<equiv> fst (snd (state_parts st))"

fun wf_local :: "PortState \<Rightarrow> bool" where
  "wf_local (PreMaster s) \<longleftrightarrow> wf_ds (gt_grandmaster_ds (pm_bmca s))"
| "wf_local (Master s) \<longleftrightarrow> wf_ds (gt_grandmaster_ds (ma_bmca s)) \<and>
     ac_log_interval (ma_announce_cycle s) = log_announce_interval (ma_profile s) \<and>
     sc_log_interval (ma_sync_cycle s) = log_sync_interval (ma_profile s) \<and>
     ma_log_min_delay_request_interval s = log_min_delay_request_interval (ma_profile s)"
| "wf_local (Uncalibrated s) \<longleftrightarrow> wf_e2e (un_delay_mechanism s) \<and> wf_servo (un_servo s)"
| "wf_local (Slave s) \<longleftrightarrow> wf_e2e (sl_delay_mechanism s) \<and> wf_servo (sl_servo s)"
| "wf_local _ \<longleftrightarrow> True"

definition wf_state :: "PortState \<Rightarrow> bool" where
  "wf_state st \<longleftrightarrow> wf_profile (state_profile st) \<and> wf_ds (bmca_d_0 (fst (state_parts st))) \<and>
     wf_local st"

fun wf_decision :: "StateDecision \<Rightarrow> bool" where
  "wf_decision (RecommendedMaster d) \<longleftrightarrow> wf_ds (decision_grandmaster_ds d)"
| "wf_decision _ \<longleftrightarrow> True"

text \<open>What a transition keeps.\<close>

definition carries_over :: "PortState \<Rightarrow> PortState \<Rightarrow> bool" where
  "carries_over st st' \<longleftrightarrow>
     state_port st' = state_port st \<and> state_profile st' = state_profile st \<and>
     fst (state_parts st') = fst (state_parts st) \<and> state_records st' = state_records st \<and>
     received_on_port (snd (snd (state_parts st'))) = received_on_port (snd (snd (state_parts st))) \<and>
     (in_step (state_parts st) \<longrightarrow> in_step (state_parts st'))"

lemmas announce_defs =
  ListeningPort_process_announce_def PreMasterPort_process_announce_def
  MasterPort_process_announce_def PassivePort_process_announce_def
  UncalibratedPort_process_announce_def SlavePort_process_announce_def

lemmas profile_defs =
  PortProfile_initializing_def PortProfile_listening_def PortProfile_master_def
  PortProfile_slave_def PortProfile_pre_master_def PortProfile_uncalibrated_def
  PortProfile_faulty_def PortProfile_passive_def InitializingPort_new_def ListeningPort_new_def
  MasterPort_new_def PreMasterPort_new_def UncalibratedPort_new_def SlavePort_new_def
  FaultyPort_new_def PassivePort_new_def DomainPort_timeout_def

lemmas parts_defs =
  ListeningBmca_into_parts_def GrandMasterTrackingBmca_into_parts_def PassiveBmca_into_parts_def
  ParentTrackingBmca_into_parts_def ListeningBmca_new_def ListeningBmca_into_parent_tracking_def
  ListeningBmca_into_grandmaster_tracking_def ListeningBmca_into_passive_def
  ListeningBmca_into_local_grandmaster_tracking_def
  GrandMasterTrackingBmca_with_grandmaster_ds_def GrandMasterTrackingBmca_into_parent_tracking_def
  GrandMasterTrackingBmca_into_passive_def ParentTrackingBmca_with_parent_def
  ParentTrackingBmca_into_grandmaster_tracking_def ParentTrackingBmca_into_passive_def
  ParentTrackingBmca_into_local_grandmaster_tracking_def PassiveBmca_into_parent_tracking_def
  PassiveBmca_into_grandmaster_tracking_def PassiveBmca_into_local_grandmaster_tracking_def
  StateDecisionEventTrigger_trigger_def BmcaMasterDecision_apply_def

lemmas transition_defs =
  ListeningPort_recommended_slave_def ListeningPort_recommended_master_def
  ListeningPort_recommended_passive_def ListeningPort_announce_receipt_timeout_expired_def
  ListeningPort_fault_detected_def PreMasterPort_recommended_slave_def
  PreMasterPort_recommended_master_def PreMasterPort_recommended_passive_def
  PreMasterPort_fault_detected_def PreMasterPort_qualified_def MasterPort_recommended_slave_def
  MasterPort_recommended_master_def MasterPort_recommended_passive_def MasterPort_fault_detected_def
  PassivePort_recommended_slave_def PassivePort_recommended_master_def
  PassivePort_announce_receipt_timeout_expired_def PassivePort_fault_detected_def
  UncalibratedPort_recommended_slave_def UncalibratedPort_recommended_master_def
  UncalibratedPort_recommended_passive_def UncalibratedPort_announce_receipt_timeout_expired_def
  UncalibratedPort_fault_detected_def UncalibratedPort_master_clock_selected_def
  SlavePort_recommended_slave_def SlavePort_recommended_master_def SlavePort_recommended_passive_def
  SlavePort_announce_receipt_timeout_expired_def SlavePort_fault_detected_def
  SlavePort_synchronization_fault_def InitializingPort_initialized_def FaultyPort_fault_cleared_def

lemma apply_carries_over:
  assumes "PortState_apply st d w = Some (st', w')"
  shows "carries_over st st'"
proof -
  have "pred_option (\<lambda>r. carries_over st (fst r)) (PortState_apply st d w)"
    by (cases d; cases st)
      (simp_all add: PortState_apply_def carries_over_def transition_defs profile_defs parts_defs
        in_step_def Let_def)
  then show ?thesis by (simp add: assms)
qed

lemma apply_wf_local:
  assumes "PortState_apply st d w = Some (st', w')" "wf_state st" "wf_decision d"
  shows "wf_local st'"
proof -
  have "pred_option (\<lambda>r. wf_local (fst r)) (PortState_apply st d w)"
    using assms(2,3)
    by (cases d; cases st)
      (simp_all add: PortState_apply_def wf_state_def wf_profile_def transition_defs profile_defs
        parts_defs Let_def)
  then show ?thesis by (simp add: assms)
qed

lemma apply_wf_state:
  "PortState_apply st d w = Some (st', w') \<Longrightarrow> wf_state st \<Longrightarrow> wf_decision d \<Longrightarrow> wf_state st'"
  using apply_carries_over[of st d w st' w'] apply_wf_local[of st d w st' w']
  by (simp add: wf_state_def carries_over_def)

subsection \<open>Every handler keeps the invariant\<close>

lemma same_timers_emit [simp]:
  "(\<forall>m t. timer_effect e t = t) \<Longrightarrow> same_timers w (emit e w)"
  by (simp add: same_timers_def)

context bmca_role
begin

lemma feed_bmca_world: "same_timers w (snd (AnnounceMessage_feed_bmca feed msg b src now w))"
proof -
  have "same_timers w (snd (feed b src ds l now w))" for ds l
    using feed_parts[of b src ds l now w]
    by (auto simp: parts_consider_def Let_def split: prod.splits if_splits)
  then show ?thesis by (simp add: AnnounceMessage_feed_bmca_def split: option.splits)
qed

lemma feed_bmca_in_step:
  "in_step (parts b) \<Longrightarrow> in_step (parts (fst (AnnounceMessage_feed_bmca feed msg b src now w)))"
  using consider_in_step by (simp add: AnnounceMessage_feed_bmca_def split: option.splits)

lemma feed_bmca_d0: "fst (parts (fst (AnnounceMessage_feed_bmca feed msg b src now w))) = fst (parts b)"
proof -
  have "fst (parts (fst (feed b src ds l now w))) = fst (parts b)" for ds l
    using feed_parts[of b src ds l now w]
    by (auto simp: parts_consider_def Let_def split: prod.splits if_splits)
  then show ?thesis by (simp add: AnnounceMessage_feed_bmca_def split: option.splits)
qed

lemma decision_d0: "fst (parts (snd (decision b d0 e))) = (fst (parts b))\<lparr>bmca_d_0 := d0\<rparr>"
  by (simp add: decision_parts split: prod.splits)

lemma decision_some: "fst (decision b d0 e) = Some d \<Longrightarrow> d = parts_decision (parts b) d0 e \<and> \<not> in_force b d"
  by (auto simp: decision_result split: if_splits)

end

lemma feed_bmca_keeps [simp]:
  "gt_grandmaster_ds (fst (AnnounceMessage_feed_bmca GrandMasterTrackingBmca_consider msg b src now w))
     = gt_grandmaster_ds b"
  "pt_parent_port_identity (fst (AnnounceMessage_feed_bmca ParentTrackingBmca_consider msg c src now w))
     = pt_parent_port_identity c"
  by (simp_all add: AnnounceMessage_feed_bmca_def GrandMasterTrackingBmca_consider_def
      ParentTrackingBmca_consider_def Let_def split_def split: option.splits)

lemma decision_keeps [simp]:
  "gt_grandmaster_ds (snd (GrandMasterTrackingBmca_decision b d0 e)) = gt_grandmaster_ds b"
  "pt_parent_port_identity (snd (ParentTrackingBmca_decision c d0 e)) = pt_parent_port_identity c"
  by (auto simp: GrandMasterTrackingBmca_decision_def ParentTrackingBmca_decision_def Let_def split_def
      split: BmcaDecision.splits)

lemma parts_decision_wf:
  assumes "wf_ds d0" "\<forall>ds src rcv. e = Qualified ds src rcv \<longrightarrow> wf_ds ds"
    "parts_decision p d0 e = DecideMaster d"
  shows "wf_ds (decision_grandmaster_ds d)"
proof -
  obtain m f t where "p = (m, f, t)" by (cases p)
  with assms(3) have "fst (BestMasterClockAlgorithm_decision m d0 e (BestForeignRecord_snapshot f))
      = DecideMaster d" by (simp add: parts_decision_def)
  from decision_Master[OF this] show ?thesis
    using assms(1,2)
    by (auto simp: ClockDS_with_added_step_def wf_ds_def split: BmcaMasterDecisionPoint.splits)
qed

text \<open>The result of a dispatch that is safe: it exists, keeps the invariant, and its decision is well
  formed.\<close>

definition safe_dispatch :: "PortState \<Rightarrow> world \<Rightarrow> dispatched \<Rightarrow> bool" where
  "safe_dispatch st w r \<longleftrightarrow>
     (\<exists>d st' w'. r = Some (d, st', w') \<and> wf_state st' \<and> same_timers w w' \<and> owned st' = owned st \<and>
        state_port st' = state_port st \<and> state_profile st' = state_profile st \<and>
        received_on_port (snd (snd (state_parts st'))) = received_on_port (snd (snd (state_parts st))) \<and>
        (in_step (state_parts st) \<longrightarrow> in_step (state_parts st')) \<and>
        (\<forall>x. d = Some x \<longrightarrow> wf_decision x))"

lemma safe_stay [simp]: "wf_state st \<Longrightarrow> safe_dispatch st w (Some (None, st, w))"
  by (simp add: safe_dispatch_def)

text \<open>Rewriting \<open>same_timers\<close> through the calls that create and drop none.\<close>

lemma same_timers_eq: "same_timers w w' \<Longrightarrow> same_timers v w' = same_timers v w"
  by (auto simp: same_timers_def)

lemma same_timers_calls [simp]:
  "same_timers v (DomainPort_log p e w) = same_timers v w"
  "same_timers v (Timeout_restart t d w) = same_timers v w"
  "same_timers v (AnnounceReceiptTimeout_restart a w) = same_timers v w"
  "same_timers v (snd (DomainPort_send_event p em w)) = same_timers v w"
  "same_timers v (snd (DomainPort_send_general p gm w)) = same_timers v w"
  by (simp_all add: same_timers_def world_defs)

context bmca_role
begin

lemma feed_bmca_same_timers:
  "same_timers v (snd (AnnounceMessage_feed_bmca feed msg b src now w)) = same_timers v w"
  by (rule same_timers_eq[OF feed_bmca_world])

lemma feed_bmca_port:
  "received_on_port (snd (snd (parts (fst (AnnounceMessage_feed_bmca feed msg b src now w)))))
     = received_on_port (snd (snd (parts b)))"
proof -
  have "received_on_port (snd (snd (parts (fst (feed b src ds l now w)))))
      = received_on_port (snd (snd (parts b)))" for ds l
    using feed_parts[of b src ds l now w]
    by (auto simp: parts_consider_def Let_def split: prod.splits if_splits)
  then show ?thesis by (simp add: AnnounceMessage_feed_bmca_def split: option.splits)
qed

lemma decision_port: "snd (parts (snd (decision b d0 e))) = snd (parts b)"
  by (simp add: decision_parts split: prod.splits)

lemmas role_simps = feed_bmca_same_timers feed_bmca_port feed_bmca_d0 feed_bmca_in_step decision_port
  decision_d0 decision_in_step

end

lemmas role_simps =
  listening_role.role_simps grandmaster_role.role_simps parent_role.role_simps passive_role.role_simps

lemma announce_safe:
  assumes "wf_state st"
  shows "safe_dispatch st w (PortState_dispatch_general st (AnnounceMsg m) src now w)"
  using assms
  by (cases st)
    (simp_all add: PortState_dispatch_general_def safe_dispatch_def wf_state_def Let_def split_def
      announce_defs role_simps)

lemma to_state_decision_some:
  "BmcaDecision_to_state_decision x = Some (case x of DecideMaster d \<Rightarrow> RecommendedMaster d
     | DecideSlave p \<Rightarrow> RecommendedSlave p | DecidePassive \<Rightarrow> RecommendedPassive)"
  by (cases x) simp_all

lemma wf_to_state_decision:
  assumes "wf_ds d0" "\<forall>ds src rcv. e = Qualified ds src rcv \<longrightarrow> wf_ds ds"
    "BmcaDecision_to_state_decision (parts_decision p d0 e) = Some y"
  shows "wf_decision y"
  using assms parts_decision_wf[OF assms(1,2), where p = p]
  by (auto simp: to_state_decision_some split: BmcaDecision.splits)

lemma state_decision_safe:
  assumes "wf_state st" "wf_system (StateDecisionEvent snapshot)"
  shows "safe_dispatch st w (PortState_dispatch_system st (StateDecisionEvent snapshot) w)"
proof -
  have wf: "wf_decision y"
    if "BmcaDecision_to_state_decision (parts_decision p (d_0 snapshot) (e_best snapshot)) = Some y"
    for p y
    using wf_to_state_decision[OF _ _ that] assms(2) by simp
  show ?thesis
    using assms
    by (cases st)
      (auto intro: wf simp: PortState_dispatch_system_def safe_dispatch_def wf_state_def Let_def split_def
        ListeningPort_state_decision_event_def PreMasterPort_state_decision_event_def
        MasterPort_state_decision_event_def PassivePort_state_decision_event_def
        UncalibratedPort_state_decision_event_def SlavePort_state_decision_event_def role_simps
        split: option.splits
        dest!: listening_role.decision_some grandmaster_role.decision_some
          parent_role.decision_some passive_role.decision_some)
qed

lemma Servo_feed_same_timers: "Servo_feed v s w = Some (st, v', w') \<Longrightarrow> same_timers u w' = same_timers u w"
  using Servo_feed_timers[of v s w st v' w'] by (simp add: same_timers_def)

text \<open>The delay cycle's timer never changes hands inside a handler.\<close>

lemma delay_cycle_record [simp]:
  "delay_cycle (EndToEndDelayMechanism_record_one_step_sync m s1 t) = delay_cycle m"
  "delay_cycle (EndToEndDelayMechanism_record_two_step_sync m s2 t) = delay_cycle m"
  "delay_cycle (EndToEndDelayMechanism_record_follow_up m f) = delay_cycle m"
  "delay_cycle (EndToEndDelayMechanism_record_delay_request m r t) = delay_cycle m"
  "delay_cycle (EndToEndDelayMechanism_record_delay_response m q) = delay_cycle m"
  by (simp_all add: e2e_defs)

text \<open>Feeding the servo with the sample of a well-formed mechanism: the common tail of
  \<open>process_one_step_sync\<close> and \<open>process_follow_up\<close>.\<close>

lemma feed_sample_cases:
  assumes "wf_e2e m" "wf_servo v"
  obtains "EndToEndDelayMechanism_sample m = Some None"
  | s st v' w' where "EndToEndDelayMechanism_sample m = Some (Some s)"
    "Servo_feed v s w = Some (st, v', w')" "wf_servo v'" "same_timers w w'"
proof -
  obtain r where r: "EndToEndDelayMechanism_sample m = Some r" "\<forall>s. r = Some s \<longrightarrow> wf_sample s"
    using sample_total[OF assms(1)] by blast
  show ?thesis
  proof (cases r)
    case None
    then show ?thesis using r that(1) by simp
  next
    case (Some s)
    then obtain st v' w' where "Servo_feed v s w = Some (st, v', w')" "wf_servo v'"
      using Servo_feed_total[OF assms(2)] r by blast
    then show ?thesis using r Some that(2) Servo_feed_same_timers[of v s w st v' w' w] by simp
  qed
qed

lemma one_step_sync_safe:
  assumes "wf_state st" "wf_ts (os_origin_timestamp m)" "wf_ts ts"
  shows "safe_dispatch st w (PortState_dispatch_event st (OneStepSync m) src ts w)"
proof (cases st)
  case (Uncalibrated s)
  let ?m = "EndToEndDelayMechanism_record_one_step_sync (un_delay_mechanism s) m ts"
  let ?w = "DomainPort_log (un_port s) (MessageReceived ''One-Step Sync'') w"
  have "wf_e2e ?m" "wf_servo (un_servo s)" using assms by (simp_all add: Uncalibrated wf_state_def)
  then show ?thesis
    by (rule feed_sample_cases[where w = ?w])
      (use assms in \<open>auto simp: Uncalibrated PortState_dispatch_event_def safe_dispatch_def wf_state_def
        UncalibratedPort_process_one_step_sync_def Let_def Servo_feed_same_timers same_timers_def DomainPort_log_def\<close>)
next
  case (Slave s)
  let ?m = "EndToEndDelayMechanism_record_one_step_sync (sl_delay_mechanism s) m ts"
  let ?w = "DomainPort_log (sl_port s) (MessageReceived ''One-Step Sync'') w"
  have "wf_e2e ?m" "wf_servo (sl_servo s)" using assms by (simp_all add: Slave wf_state_def)
  then show ?thesis
    by (rule feed_sample_cases[where w = ?w])
      (use assms in \<open>auto simp: Slave PortState_dispatch_event_def safe_dispatch_def wf_state_def
        SlavePort_process_one_step_sync_def Let_def Servo_feed_same_timers same_timers_def DomainPort_log_def\<close>)
qed (use assms in \<open>simp_all add: PortState_dispatch_event_def\<close>)

lemma follow_up_safe:
  assumes "wf_state st" "wf_ts (fu_precise_origin_timestamp m)"
  shows "safe_dispatch st w (PortState_dispatch_general st (FollowUpMsg m) src now w)"
proof (cases st)
  case (Uncalibrated s)
  let ?m = "EndToEndDelayMechanism_record_follow_up (un_delay_mechanism s) m"
  let ?w = "DomainPort_log (un_port s) (MessageReceived ''FollowUp'') w"
  have "wf_e2e ?m" "wf_servo (un_servo s)" using assms by (simp_all add: Uncalibrated wf_state_def)
  then show ?thesis
    by (rule feed_sample_cases[where w = ?w])
      (use assms in \<open>auto simp: Uncalibrated PortState_dispatch_general_def safe_dispatch_def wf_state_def
        UncalibratedPort_process_follow_up_def Let_def Servo_feed_same_timers same_timers_def DomainPort_log_def\<close>)
next
  case (Slave s)
  let ?m = "EndToEndDelayMechanism_record_follow_up (sl_delay_mechanism s) m"
  let ?w = "DomainPort_log (sl_port s) (MessageReceived ''FollowUp'') w"
  have "wf_e2e ?m" "wf_servo (sl_servo s)" using assms by (simp_all add: Slave wf_state_def)
  then show ?thesis
    by (rule feed_sample_cases[where w = ?w])
      (use assms in \<open>auto simp: Slave PortState_dispatch_general_def safe_dispatch_def wf_state_def
        SlavePort_process_follow_up_def Let_def Servo_feed_same_timers same_timers_def DomainPort_log_def\<close>)
qed (use assms in \<open>simp_all add: PortState_dispatch_general_def\<close>)

lemma delay_response_safe:
  assumes "wf_state st" "wf_ts (drsp_receive_timestamp m)"
  shows "safe_dispatch st w (PortState_dispatch_general st (DelayResp m) src now w)"
  using assms
  by (cases st)
    (auto simp: PortState_dispatch_general_def safe_dispatch_def wf_state_def Let_def
      UncalibratedPort_process_delay_response_def SlavePort_process_delay_response_def)

lemma two_step_sync_safe:
  assumes "wf_state st" "wf_ts ts"
  shows "safe_dispatch st w (PortState_dispatch_event st (TwoStepSync m) src ts w)"
  using assms
  by (cases st)
    (auto simp: PortState_dispatch_event_def safe_dispatch_def wf_state_def Let_def
      UncalibratedPort_process_two_step_sync_def SlavePort_process_two_step_sync_def)

lemma delay_request_safe:
  assumes "wf_state st"
  shows "safe_dispatch st w (PortState_dispatch_event st (DelayReq m) src ts w)"
  using assms
  by (cases st)
    (auto simp: PortState_dispatch_event_def safe_dispatch_def fault_on_error_def Let_def split_def
      MasterPort_process_delay_request_def split: SendResult.splits)

lemma delay_request_mechanism:
  "delay_cycle m' = (delay_cycle m)\<lparr>dc_sequence_id := SequenceId_next (dc_sequence_id (delay_cycle m))\<rparr> \<and>
   same_timers w w'" if "EndToEndDelayMechanism_delay_request m w = (r, m', w')"
  using that by (auto simp: EndToEndDelayMechanism_delay_request_def DelayCycle_next_def Let_def)

lemma send_delay_request_safe:
  assumes "wf_state st"
  shows "safe_dispatch st w (PortState_dispatch_system st DelayRequestTimeout w)"
proof (cases st)
  case (Uncalibrated s)
  obtain r m w1 where d: "EndToEndDelayMechanism_delay_request (un_delay_mechanism s) w = (r, m, w1)"
    by (metis prod_cases3)
  show ?thesis
    using assms delay_request_mechanism[OF d] wf_e2e_delay_request[OF _ d]
    by (auto simp: Uncalibrated PortState_dispatch_system_def safe_dispatch_def wf_state_def
        UncalibratedPort_send_delay_request_def d fault_on_error_def Let_def split_def
        split: SendResult.splits)
next
  case (Slave s)
  obtain r m w1 where d: "EndToEndDelayMechanism_delay_request (sl_delay_mechanism s) w = (r, m, w1)"
    by (metis prod_cases3)
  show ?thesis
    using assms delay_request_mechanism[OF d] wf_e2e_delay_request[OF _ d]
    by (auto simp: Slave PortState_dispatch_system_def safe_dispatch_def wf_state_def
        SlavePort_send_delay_request_def d fault_on_error_def Let_def split_def
        split: SendResult.splits)
qed (use assms in \<open>simp_all add: PortState_dispatch_system_def\<close>)

lemma timestamp_safe:
  assumes "wf_state st" "wf_ts (egress_timestamp m)"
  shows "safe_dispatch st w (PortState_dispatch_system st (Timestamp m) w)"
  using assms
  by (cases st; cases "event_msg m")
    (auto simp: PortState_dispatch_system_def safe_dispatch_def wf_state_def fault_on_error_def Let_def
      split_def MasterPort_send_follow_up_def UncalibratedPort_process_delay_request_def
      SlavePort_process_delay_request_def split: SendResult.splits)

lemma master_sends_safe:
  assumes "wf_state st" "msg = AnnounceSendTimeout \<or> msg = SyncTimeout"
  shows "safe_dispatch st w (PortState_dispatch_system st msg w)"
  using assms
  by (cases st)
    (auto simp: PortState_dispatch_system_def safe_dispatch_def wf_state_def fault_on_error_def Let_def
      split_def MasterPort_send_announce_def MasterPort_send_sync_def AnnounceCycle_next_def
      SyncCycle_next_def split: SendResult.splits)

lemma dispatch_safe:
  assumes "wf_state st" "wf_input i"
  shows "safe_dispatch st w (PortState_dispatch i st w)"
proof (cases i)
  case (EventIn src msg ts)
  then show ?thesis
    using assms by (cases msg) (simp_all add: one_step_sync_safe two_step_sync_safe delay_request_safe)
next
  case (GeneralIn src msg now)
  then show ?thesis
    using assms by (cases msg) (simp_all add: announce_safe follow_up_safe delay_response_safe)
next
  case (SystemIn msg)
  then show ?thesis
    using assms
  proof (cases msg)
    case Initialized
    then show ?thesis using assms SystemIn
      by (cases st) (simp_all add: PortState_dispatch_system_def safe_dispatch_def)
  next
    case FaultCleared
    then show ?thesis using assms SystemIn
      by (cases st) (simp_all add: PortState_dispatch_system_def safe_dispatch_def)
  next
    case AnnounceReceiptTimeout
    then show ?thesis using assms SystemIn
      by (cases st) (simp_all add: PortState_dispatch_system_def safe_dispatch_def)
  next
    case QualificationTimeout
    then show ?thesis using assms SystemIn
      by (cases st) (simp_all add: PortState_dispatch_system_def safe_dispatch_def)
  qed (simp_all add: state_decision_safe timestamp_safe master_sends_safe send_delay_request_safe)
qed

subsection \<open>Where the machine panics\<close>

lemma apply_total_iff:
  "PortState_apply st d w = None \<longleftrightarrow>
     (case d of
        AnnounceReceiptTimeoutExpired \<Rightarrow> \<not> (case st of Listening _ \<Rightarrow> True | Slave _ \<Rightarrow> True
          | Uncalibrated _ \<Rightarrow> True | Passive _ \<Rightarrow> True | _ \<Rightarrow> False)
      | MasterClockSelected _ \<Rightarrow> (\<forall>s. st \<noteq> Uncalibrated s)
      | RecommendedSlave _ \<Rightarrow> (case st of Initializing _ \<Rightarrow> True | Faulty _ \<Rightarrow> True | _ \<Rightarrow> False)
      | RecommendedMaster _ \<Rightarrow> (case st of Initializing _ \<Rightarrow> True | Faulty _ \<Rightarrow> True | _ \<Rightarrow> False)
      | RecommendedPassive \<Rightarrow> (case st of Initializing _ \<Rightarrow> True | Faulty _ \<Rightarrow> True
          | Passive _ \<Rightarrow> True | _ \<Rightarrow> False)
      | SDInitialized \<Rightarrow> (\<forall>s. st \<noteq> Initializing s)
      | QualificationTimeoutExpired \<Rightarrow> (\<forall>s. st \<noteq> PreMaster s)
      | SynchronizationFault \<Rightarrow> (\<forall>s. st \<noteq> Slave s)
      | FaultDetected \<Rightarrow> (\<exists>s. st = Initializing s)
      | SDFaultCleared \<Rightarrow> (\<forall>s. st \<noteq> Faulty s))"
  by (cases d; cases st) (simp_all add: PortState_apply_def)

lemma decision_accepted_event:
  assumes "PortState_dispatch_event st msg src ts w = Some (Some x, st', w')"
  shows "PortState_apply st' x w' \<noteq> None"
  using assms
  by (cases st; cases msg)
    (auto simp: PortState_dispatch_event_def UncalibratedPort_process_one_step_sync_def
      SlavePort_process_one_step_sync_def UncalibratedPort_process_two_step_sync_def
      SlavePort_process_two_step_sync_def fault_on_error_def Let_def split_def apply_total_iff
      bind_eq_Some_conv split: if_splits option.splits SendResult.splits prod.splits)

lemma decision_accepted_general:
  assumes "PortState_dispatch_general st msg src now w = Some (Some x, st', w')"
  shows "PortState_apply st' x w' \<noteq> None"
  using assms
  by (cases st; cases msg)
    (auto simp: PortState_dispatch_general_def UncalibratedPort_process_follow_up_def
      SlavePort_process_follow_up_def UncalibratedPort_process_delay_response_def
      SlavePort_process_delay_response_def Let_def split_def apply_total_iff
      bind_eq_Some_conv split: if_splits option.splits prod.splits)

lemma passive_decision: "fst (PassiveBmca_decision b d0 e) \<noteq> Some DecidePassive"
  using passive_role.decision_some[of b d0 e DecidePassive] by (auto simp: passive_in_force_def)

lemma decision_accepted_system:
  assumes "PortState_dispatch_system st msg w = Some (Some x, st', w')"
  shows "PortState_apply st' x w' \<noteq> None \<longleftrightarrow> \<not> ((\<exists>s. st = Master s) \<and> msg = AnnounceReceiptTimeout)"
proof (cases "\<exists>snapshot. msg = StateDecisionEvent snapshot")
  case True
  then obtain snapshot where "msg = StateDecisionEvent snapshot" ..
  with assms show ?thesis
    using passive_decision
    by (cases st)
      (auto simp: PortState_dispatch_system_def apply_total_iff Let_def split_def
        ListeningPort_state_decision_event_def PreMasterPort_state_decision_event_def
        MasterPort_state_decision_event_def PassivePort_state_decision_event_def
        UncalibratedPort_state_decision_event_def SlavePort_state_decision_event_def
        to_state_decision_some split: option.splits BmcaDecision.splits)
next
  case False
  with assms show ?thesis
    by (cases msg; cases st)
      (auto simp: PortState_dispatch_system_def apply_total_iff fault_on_error_def Let_def split_def
        UncalibratedPort_process_delay_request_def SlavePort_process_delay_request_def
        split: SendResult.splits EventMessage.splits)
qed

definition stale_announce_timeout :: "PortState \<Rightarrow> input \<Rightarrow> bool" where
  "stale_announce_timeout st i \<longleftrightarrow> (\<exists>s. st = Master s) \<and> i = SystemIn AnnounceReceiptTimeout"

lemma decision_accepted:
  assumes "PortState_dispatch i st w = Some (Some x, st', w')"
  shows "PortState_apply st' x w' \<noteq> None \<longleftrightarrow> \<not> stale_announce_timeout st i"
  using assms decision_accepted_event decision_accepted_general decision_accepted_system
  by (cases i) (fastforce simp: stale_announce_timeout_def)+

lemma stale_dispatch:
  "stale_announce_timeout st i \<Longrightarrow>
   PortState_dispatch i st w = Some (Some AnnounceReceiptTimeoutExpired, st, w)"
  by (auto simp: stale_announce_timeout_def PortState_dispatch_system_def)

subsection \<open>The invariant of the machine\<close>

definition fsm_inv :: "(nat \<rightharpoonup> SystemMessage) \<Rightarrow> PortFsm \<times> world \<Rightarrow> bool" where
  "fsm_inv base c \<longleftrightarrow>
     (\<exists>st. fsm_state (fst c) = Some st \<and> wf_state st \<and> timers_inv base st (snd c) \<and>
           in_step (state_parts st))"

lemma input_panics_iff:
  assumes "fsm_state f = Some st" "wf_state st" "wf_input i"
  shows "PortFsm_input f i w = None \<longleftrightarrow> stale_announce_timeout st i"
proof -
  obtain d st' w' where r: "PortState_dispatch i st w = Some (d, st', w')"
    using dispatch_safe[OF assms(2,3), of w] by (auto simp: safe_dispatch_def)
  show ?thesis
  proof (cases d)
    case None
    then show ?thesis
      using r stale_dispatch[of st i w] by (auto simp: PortFsm_input_process PortFsm_process_def assms(1))
  next
    case (Some x)
    then show ?thesis
      using r decision_accepted[of i st w x st' w']
      by (cases "PortState_apply st' x w'")
        (simp_all add: PortFsm_input_process PortFsm_process_def PortFsm_apply_decision_def assms(1))
  qed
qed

lemma input_keeps_inv:
  assumes "fsm_inv base (f, w)" "wf_input i" "PortFsm_input f i w = Some c"
  shows "fsm_inv base c"
proof -
  obtain st where st: "fsm_state f = Some st" "wf_state st" "timers_inv base st w"
    "in_step (state_parts st)" using assms(1) by (auto simp: fsm_inv_def)
  obtain d st' w' where r: "PortState_dispatch i st w = Some (d, st', w')" "wf_state st'"
    "same_timers w w'" "owned st' = owned st" "in_step (state_parts st')"
    "\<forall>x. d = Some x \<longrightarrow> wf_decision x"
    using dispatch_safe[OF st(2) assms(2), of w] st(4) by (auto simp: safe_dispatch_def)
  have t: "timers_inv base st' w'" by (rule same_timers_inv[OF r(3) st(3) r(4)])
  show ?thesis
  proof (cases d)
    case None
    then show ?thesis
      using assms(3) r t st(1) by (auto simp: PortFsm_input_process PortFsm_process_def fsm_inv_def)
  next
    case (Some x)
    then obtain st2 w2 where a: "PortState_apply st' x w' = Some (st2, w2)"
      "c = (f\<lparr>fsm_state := Some st2\<rparr>, w2)"
      using assms(3) r(1) st(1)
      by (auto simp: PortFsm_input_process PortFsm_process_def PortFsm_apply_decision_def)
    then show ?thesis
      using apply_wf_state[OF a(1) r(2)] apply_timers[OF a(1) t] apply_carries_over[OF a(1)] r Some
      by (auto simp: fsm_inv_def carries_over_def)
  qed
qed

lemma reaches_inv: "fsm_reaches c c' \<Longrightarrow> fsm_inv base c \<Longrightarrow> fsm_inv base c'"
  by (induction rule: fsm_reaches.induct) (auto intro: input_keeps_inv)

lemma event_general_never_stale:
  "\<not> stale_announce_timeout st (EventIn src m ts)" "\<not> stale_announce_timeout st (GeneralIn src g now)"
  by (simp_all add: stale_announce_timeout_def)

lemma input_total:
  assumes "fsm_inv base (f, w)" "wf_input i" "\<And>st. \<not> stale_announce_timeout st i"
  shows "\<exists>f' w'. PortFsm_input f i w = Some (f', w') \<and> fsm_inv base (f', w')"
proof -
  obtain st where "fsm_state f = Some st" "wf_state st" using assms(1) by (auto simp: fsm_inv_def)
  then have "PortFsm_input f i w \<noteq> None" using input_panics_iff assms(2,3) by blast
  then obtain f' w' where "PortFsm_input f i w = Some (f', w')" by auto
  with input_keeps_inv [OF assms(1,2)] show ?thesis by blast
qed

subsection \<open>Repeated state decision events\<close>

text \<open>The outcome of the state decision algorithm as a function of the port number and its inputs.\<close>

definition bmca_outcome :: "PortNumber \<Rightarrow> ClockDS \<Rightarrow> BestForeignSnapshot \<Rightarrow> BestForeignSnapshot \<Rightarrow> BmcaDecision" where
  "bmca_outcome n d0 e r =
     (if ClockDS_is_authoritative d0 then AuthoritativeDecision_decision (LocalDS_new d0) r
      else NonAuthoritativeDecision_decision (LocalDS_new d0) e n r)"

lemma decision_outcome:
  "BestMasterClockAlgorithm_decision m d0 e r = (bmca_outcome (bmca_port_number m) d0 e r, m\<lparr>bmca_d_0 := d0\<rparr>)"
  by (simp add: BestMasterClockAlgorithm_decision_def bmca_outcome_def Let_def)

lemmas decision_event_defs =
  PortFsm_process_system_message_def PortFsm_process_def PortFsm_apply_decision_def
  PortState_dispatch_system_def PortState_apply_def decision_outcome
  ListeningPort_state_decision_event_def PreMasterPort_state_decision_event_def
  MasterPort_state_decision_event_def PassivePort_state_decision_event_def
  UncalibratedPort_state_decision_event_def SlavePort_state_decision_event_def
  ListeningBmca_decision_def GrandMasterTrackingBmca_decision_def ParentTrackingBmca_decision_def
  PassiveBmca_decision_def BmcaMasterDecision_matches_grandmaster_def

lemma decision_event_twice:
  assumes "PortFsm_process_system_message \<lparr>fsm_state = Some st\<rparr> (StateDecisionEvent snapshot) w = Some (f1, w1)"
  shows "PortFsm_process_system_message f1 (StateDecisionEvent snapshot) w1 = Some (f1, w1)"
proof -
  let ?o = "bmca_outcome (bmca_port_number (fst (state_parts st))) (d_0 snapshot) (e_best snapshot)
      (BestForeignRecord_snapshot (state_records st))"
  show ?thesis
    using assms
    by (cases st; cases ?o; cases "BestForeignRecord_snapshot (state_records st)")
      (auto simp: decision_event_defs transition_defs profile_defs parts_defs Let_def split: if_splits)
qed

subsection \<open>The phases of a port\<close>

datatype phase = InitializingP | ListeningP | UncalibratedP | SlaveP | PreMasterP | MasterP | PassiveP | FaultyP

fun phase_of :: "PortState \<Rightarrow> phase" where
  "phase_of (Initializing _) = InitializingP"
| "phase_of (Listening _) = ListeningP"
| "phase_of (Uncalibrated _) = UncalibratedP"
| "phase_of (Slave _) = SlaveP"
| "phase_of (PreMaster _) = PreMasterP"
| "phase_of (Master _) = MasterP"
| "phase_of (Passive _) = PassiveP"
| "phase_of (Faulty _) = FaultyP"

text \<open>The successors of a phase in the state machine of the protocol.\<close>

fun successors :: "phase \<Rightarrow> phase set" where
  "successors InitializingP = {ListeningP}"
| "successors ListeningP = {UncalibratedP, PreMasterP, PassiveP, MasterP, FaultyP}"
| "successors UncalibratedP = {UncalibratedP, SlaveP, PreMasterP, PassiveP, MasterP, FaultyP}"
| "successors SlaveP = {UncalibratedP, PreMasterP, PassiveP, MasterP, FaultyP}"
| "successors PreMasterP = {PreMasterP, MasterP, UncalibratedP, PassiveP, FaultyP}"
| "successors MasterP = {PreMasterP, UncalibratedP, PassiveP, FaultyP}"
| "successors PassiveP = {PreMasterP, UncalibratedP, MasterP, FaultyP}"
| "successors FaultyP = {FaultyP, InitializingP}"

lemma dispatch_phase:
  "PortState_dispatch i st w = Some (d, st', w') \<Longrightarrow> phase_of st' = phase_of st"
  by (cases i; cases st)
    (auto simp: PortState_dispatch_event_def PortState_dispatch_general_def PortState_dispatch_system_def
      split: EventMessage.splits GeneralMessage.splits SystemMessage.splits prod.splits)

lemma apply_phase:
  "PortState_apply st d w = Some (st', w') \<Longrightarrow> phase_of st' \<in> successors (phase_of st)"
  by (cases d; cases st)
    (auto simp: PortState_apply_def transition_defs profile_defs BmcaMasterDecision_apply_def Let_def
      split: prod.splits)

lemma input_cases:
  assumes "fsm_state f = Some st" "PortFsm_input f i w = Some (f', w')"
  obtains (stays) st' where "PortState_dispatch i st w = Some (None, st', w')" "f' = \<lparr>fsm_state = Some st'\<rparr>"
  | (moves) d st1 w1 st' where "PortState_dispatch i st w = Some (Some d, st1, w1)"
      "PortState_apply st1 d w1 = Some (st', w')" "f' = \<lparr>fsm_state = Some st'\<rparr>"
proof -
  obtain d st1 w1 where disp: "PortState_dispatch i st w = Some (d, st1, w1)"
    using assms by (auto simp: PortFsm_input_process PortFsm_process_def split: option.splits)
  show ?thesis
  proof (cases d)
    case None
    with disp assms show ?thesis by (intro stays[of st1]) (auto simp: PortFsm_input_process PortFsm_process_def)
  next
    case (Some x)
    with disp assms obtain st' where "PortState_apply st1 x w1 = Some (st', w')" "fsm_state f' = Some st'"
      by (auto simp: PortFsm_input_process PortFsm_process_def PortFsm_apply_decision_def)
    with disp Some show ?thesis by (intro moves[of x st1 w1 st']) simp_all
  qed
qed

lemma input_phase:
  assumes "fsm_state f = Some st" "PortFsm_input f i w = Some (f', w')"
  obtains st' where "fsm_state f' = Some st'" "phase_of st' \<in> insert (phase_of st) (successors (phase_of st))"
  using assms
proof (cases rule: input_cases)
  case (stays st')
  then show ?thesis using that[of st'] dispatch_phase[OF stays(1)] by simp
next
  case (moves d st1 w1 st')
  then show ?thesis using that[of st'] dispatch_phase[OF moves(1)] apply_phase[OF moves(2)] by simp
qed

subsection \<open>The network ingress\<close>

lemma lookup_Inr:
  "SingleDomainPortMap_port_by_domain ports d = Inr p \<longleftrightarrow> d = map_domain_number ports \<and> p = port_fsm ports"
  by (auto simp: SingleDomainPortMap_port_by_domain_def)

lemma receive_event_total:
  assumes "fsm_inv base (port_fsm ports, w)" "wf_ts ts"
  shows "\<exists>r ports' w'. MessageIngress_receive_event bf ports b ts w = Some (r, ports', w') \<and>
      fsm_inv base (port_fsm ports', w') \<and> (isl r \<longrightarrow> ports' = ports \<and> w' = w)"
proof (cases "parse_event bf (SingleDomainPortMap_port_by_domain ports) b")
  case (Inl e)
  then show ?thesis using assms(1) by (simp add: MessageIngress_receive_event_def)
next
  case (Inr x)
  obtain p src m where x: "x = (p, src, m)" by (cases x)
  note parsed = Inr[unfolded x]
  have "p = port_fsm ports" by (rule parse_event_Inr[OF parsed]) (simp add: lookup_Inr)
  moreover obtain f' w' where "PortFsm_input (port_fsm ports) (EventIn src m ts) w = Some (f', w')"
      "fsm_inv base (f', w')"
    using input_total[OF assms(1), of "EventIn src m ts"] parse_event_wf[OF parsed] assms(2)
      event_general_never_stale(1) by auto
  ultimately show ?thesis using parsed by (simp add: MessageIngress_receive_event_def)
qed

lemma receive_general_total:
  assumes "fsm_inv base (port_fsm ports, w)"
  shows "\<exists>r ports' w'. MessageIngress_receive_general bf ports b now w = Some (r, ports', w') \<and>
      fsm_inv base (port_fsm ports', w') \<and> (isl r \<longrightarrow> ports' = ports \<and> w' = w)"
proof (cases "parse_general bf (SingleDomainPortMap_port_by_domain ports) b")
  case (Inl e)
  then show ?thesis using assms(1) by (simp add: MessageIngress_receive_general_def)
next
  case (Inr x)
  obtain p src m where x: "x = (p, src, m)" by (cases x)
  note parsed = Inr[unfolded x]
  have "p = port_fsm ports" by (rule parse_general_Inr[OF parsed]) (simp add: lookup_Inr)
  moreover obtain f' w' where "PortFsm_input (port_fsm ports) (GeneralIn src m now) w = Some (f', w')"
      "fsm_inv base (f', w')"
    using input_total[OF assms(1), of "GeneralIn src m now"] parse_general_wf[OF parsed]
      event_general_never_stale(2) by auto
  ultimately show ?thesis using parsed by (simp add: MessageIngress_receive_general_def)
qed

lemma receive_event_accepted:
  assumes "MessageIngress_receive_event bf ports b ts w = Some (Inr (), c)"
  shows "length_checked_v2 b = Inr b \<and> MessageHeader_domain_number b = map_domain_number ports \<and>
    MessageHeader_message_type b \<in> {Inr Sync, Inr DelayRequest}"
proof -
  obtain p src m where parsed: "parse_event bf (SingleDomainPortMap_port_by_domain ports) b = Inr (p, src, m)"
    using assms by (cases "parse_event bf (SingleDomainPortMap_port_by_domain ports) b")
      (auto simp: MessageIngress_receive_event_def)
  show ?thesis by (rule parse_event_Inr[OF parsed]) (auto simp: lookup_Inr dest: EventMessage_new_type)
qed

lemma receive_general_accepted:
  assumes "MessageIngress_receive_general bf ports b now w = Some (Inr (), c)"
  shows "length_checked_v2 b = Inr b \<and> MessageHeader_domain_number b = map_domain_number ports \<and>
    MessageHeader_message_type b \<in> {Inr Announce, Inr FollowUp, Inr DelayResponse}"
proof -
  obtain p src m where parsed: "parse_general bf (SingleDomainPortMap_port_by_domain ports) b = Inr (p, src, m)"
    using assms by (cases "parse_general bf (SingleDomainPortMap_port_by_domain ports) b")
      (auto simp: MessageIngress_receive_general_def)
  show ?thesis by (rule parse_general_Inr[OF parsed]) (auto simp: lookup_Inr dest: GeneralMessage_new_type)
qed

lemma event_round_trip:
  assumes "documented_bitflags bf" "map_domain_number ports = domain_number p" "wf_event m"
  shows "\<exists>b ok es. trace (snd (DomainPort_send_event p m w)) = trace w @ EventSent b ok # es \<and>
    MessageIngress_receive_event bf ports b ts w' =
      map_option (\<lambda>(f, w). (Inr (), ports\<lparr>port_fsm := f\<rparr>, w))
        (PortFsm_process_event_message (port_fsm ports) (port_identity p) m ts w')"
proof -
  have l: "SingleDomainPortMap_port_by_domain ports (domain_number p) = Inr (port_fsm ports)"
    using assms(2) by (simp add: lookup_Inr)
  have "parse_event bf (SingleDomainPortMap_port_by_domain ports)
      (EventMessage_to_wire m (fresh_buffer (domain_number p) (port_identity p)))
      = Inr (port_fsm ports, port_identity p, m)"
    by (rule parse_event_to_wire[where lookup = "SingleDomainPortMap_port_by_domain ports", OF assms(1,3) l])
  then show ?thesis
    by (simp add: DomainPort_send_event_def Let_def MessageIngress_receive_event_def) force
qed

lemma general_round_trip:
  assumes "documented_bitflags bf" "map_domain_number ports = domain_number p" "wf_general g"
  shows "\<exists>b ok. trace (snd (DomainPort_send_general p g w)) = trace w @ [GeneralSent b ok] \<and>
    MessageIngress_receive_general bf ports b now w' =
      map_option (\<lambda>(f, w). (Inr (), ports\<lparr>port_fsm := f\<rparr>, w))
        (PortFsm_process_general_message (port_fsm ports) (port_identity p) g now w')"
proof -
  have l: "SingleDomainPortMap_port_by_domain ports (domain_number p) = Inr (port_fsm ports)"
    using assms(2) by (simp add: lookup_Inr)
  have "parse_general bf (SingleDomainPortMap_port_by_domain ports)
      (GeneralMessage_to_wire g (fresh_buffer (domain_number p) (port_identity p)))
      = Inr (port_fsm ports, port_identity p, g)"
    by (rule parse_general_to_wire[where lookup = "SingleDomainPortMap_port_by_domain ports", OF assms(1,3) l])
  then show ?thesis
    by (simp add: DomainPort_send_general_def Let_def MessageIngress_receive_general_def)
qed

end
