(* ===== verification/Ptp_Clock.thy ===== *)
theory Ptp_Clock
  imports Ptp_Invariant
begin

section \<open>Ordinary and boundary clocks (ordinary.rs, boundary.rs, infra.rs)\<close>

text \<open>
  Models \<^verbatim>\<open>crates/rptp/src/ordinary.rs\<close>, \<^verbatim>\<open>boundary.rs\<close> and the port notifications of
  \<^verbatim>\<open>ordinary.rs\<close> and \<^verbatim>\<open>infra.rs\<close>: how a clock creates its ports, collects the best foreign
  master of each port, and sends every port the same state decision snapshot. The boundary
  clock, generic in the source, is modelled with the stores of \<^verbatim>\<open>infra.rs\<close>.

  A port calls \<open>trigger\<close> of its clock in the middle of a handler. No handler reads the state
  that \<open>trigger\<close> writes, so the call is recorded in the trace where it happens and the clock
  runs the recorded calls, in their order, when the handler has returned.
\<close>

subsection \<open>Port notifications\<close>

record SinglePortNotification =
  spn_timeout :: "Timeout option"

definition SinglePortNotification_new :: SinglePortNotification where
  "SinglePortNotification_new = \<lparr>spn_timeout = None\<rparr>"

definition SinglePortNotification_add_port ::
    "SinglePortNotification \<Rightarrow> Timeout \<Rightarrow> world \<Rightarrow> SinglePortNotification \<times> world" where
  "SinglePortNotification_add_port n timeout w =
     (n\<lparr>spn_timeout := Some timeout\<rparr>,
      case spn_timeout n of Some old \<Rightarrow> Timeout_drop old w | None \<Rightarrow> w)"

definition SinglePortNotification_notify_all ::
    "SinglePortNotification \<Rightarrow> StateDecisionSnapshot \<Rightarrow> world \<Rightarrow> world" where
  "SinglePortNotification_notify_all n snapshot w =
     (case spn_timeout n of
        Some timeout \<Rightarrow>
          Timeout_restart_with_message timeout (StateDecisionEvent snapshot) (Duration_from_secs 0) w
      | None \<Rightarrow> w)"

record MultiPortNotification =
  mpn_timeouts :: "Timeout list"

definition MultiPortNotification_new :: MultiPortNotification where
  "MultiPortNotification_new = \<lparr>mpn_timeouts = []\<rparr>"

definition MultiPortNotification_add_port ::
    "MultiPortNotification \<Rightarrow> Timeout \<Rightarrow> MultiPortNotification" where
  "MultiPortNotification_add_port n timeout = n\<lparr>mpn_timeouts := mpn_timeouts n @ [timeout]\<rparr>"

definition MultiPortNotification_notify_all ::
    "MultiPortNotification \<Rightarrow> StateDecisionSnapshot \<Rightarrow> world \<Rightarrow> world" where
  "MultiPortNotification_notify_all n snapshot w =
     (let msg = StateDecisionEvent snapshot; delay = Duration_from_secs 0
      in fold (\<lambda>timeout w. Timeout_restart_with_message timeout msg delay w) (mpn_timeouts n) w)"

subsection \<open>Ordinary clock\<close>

record OrdinaryClock =
  oc_default_ds :: ClockDS
  oc_domain_number :: DomainNumber
  oc_port_enumeration :: PortEnumeration
  oc_foreign_candidates :: BestForeignSnapshot
  oc_port_notification :: SinglePortNotification
  oc_profile :: PortProfile

text \<open>\<open>PortEnumeration::single()\<close> cannot fail: \<open>1 \<ge> 1\<close>.\<close>

definition OrdinaryClock_new :: "ClockDS \<Rightarrow> DomainNumber \<Rightarrow> PortProfile \<Rightarrow> OrdinaryClock" where
  "OrdinaryClock_new default_ds dn profile =
     \<lparr>oc_default_ds = default_ds, oc_domain_number = dn,
      oc_port_enumeration = the PortEnumeration_single, oc_foreign_candidates = Empty,
      oc_port_notification = SinglePortNotification_new, oc_profile = profile\<rparr>"

text \<open>
  What \<open>port\<close> is given of the infrastructure: the physical port's answers to sends, the time scale of
  the clock, and the record store of the port.
\<close>

record infra =
  infra_send_event :: "effect list \<Rightarrow> bytes \<Rightarrow> bool"
  infra_send_general :: "effect list \<Rightarrow> bytes \<Rightarrow> bool"
  infra_time_scale :: "effect list \<Rightarrow> TimeScale"
  infra_records :: ForeignClockRecordsVec

definition DomainPort_new :: "infra \<Rightarrow> PortIdentity \<Rightarrow> DomainNumber \<Rightarrow> DomainPort" where
  "DomainPort_new infr pid dn =
     \<lparr>port_identity = pid, domain_number = dn, physical_send_event = infra_send_event infr,
      physical_send_general = infra_send_general infr, clock_time_scale = infra_time_scale infr\<rparr>"

definition StateDecisionEventTrigger_new :: "BestForeignSnapshot \<Rightarrow> PortNumber \<Rightarrow> StateDecisionEventTrigger" where
  "StateDecisionEventTrigger_new previous n =
     \<lparr>previous_best_foreign = previous, received_on_port = n\<rparr>"

definition OrdinaryClock_port ::
    "OrdinaryClock \<Rightarrow> infra \<Rightarrow> world \<Rightarrow> (PortState option \<times> OrdinaryClock \<times> world) option" where
  "OrdinaryClock_port c infr w =
     (case PortEnumeration_next (oc_port_enumeration c) of
        None \<Rightarrow> None
      | Some (None, en) \<Rightarrow> Some (None, c\<lparr>oc_port_enumeration := en\<rparr>, w)
      | Some (Some n, en) \<Rightarrow>
          (let c = c\<lparr>oc_port_enumeration := en\<rparr>;
               pid = PortIdentity (identity (oc_default_ds c)) n;
               domain_port = DomainPort_new infr pid (oc_domain_number c);
               (state_decision_timeout, w) = DomainPort_timeout domain_port
                 (StateDecisionEvent \<lparr>d_0 = oc_default_ds c, e_best = Empty\<rparr>) w;
               (pn, w) = SinglePortNotification_add_port (oc_port_notification c)
                           state_decision_timeout w;
               c = c\<lparr>oc_port_notification := pn\<rparr>;
               bmca = \<lparr>bmca_d_0 = oc_default_ds c, bmca_port_number = n\<rparr>;
               best_foreign = \<lparr>bfr_receiver = pid, foreign_clock_records = infra_records infr\<rparr>;
               trg = StateDecisionEventTrigger_new (BestForeignRecord_snapshot best_foreign) n;
               (st, w) = PortProfile_initializing (oc_profile c) domain_port bmca best_foreign trg w
           in Some (Some st, c, w)))"

definition OrdinaryClock_trigger ::
    "OrdinaryClock \<Rightarrow> PortNumber \<Rightarrow> BestForeignSnapshot \<Rightarrow> world \<Rightarrow> (OrdinaryClock \<times> world) option" where
  "OrdinaryClock_trigger c n e_rbest w =
     (case Cell_remember (oc_foreign_candidates c) n e_rbest of
        None \<Rightarrow> None
      | Some cell \<Rightarrow>
          (let c = c\<lparr>oc_foreign_candidates := cell\<rparr>;
               best = Cell_best (oc_foreign_candidates c)
           in Some (c, SinglePortNotification_notify_all (oc_port_notification c)
                         \<lparr>d_0 = oc_default_ds c, e_best = best\<rparr> w)))"

subsection \<open>Boundary clock\<close>

record BoundaryClock =
  bc_default_ds :: ClockDS
  bc_domain_number :: DomainNumber
  bc_port_enumeration :: PortEnumeration
  bc_foreign_candidates :: MultiPortForeignCandidates
  bc_port_notification :: MultiPortNotification

definition BoundaryClock_new ::
    "ClockDS \<Rightarrow> DomainNumber \<Rightarrow> u16 \<Rightarrow> MultiPortForeignCandidates \<Rightarrow> MultiPortNotification \<Rightarrow>
     BoundaryClock option" where
  "BoundaryClock_new default_ds dn num_ports candidates notification =
     map_option (\<lambda>en.
       \<lparr>bc_default_ds = default_ds, bc_domain_number = dn, bc_port_enumeration = en,
        bc_foreign_candidates = candidates, bc_port_notification = notification\<rparr>)
       (PortEnumeration_sequential num_ports)"

definition BoundaryClock_port ::
    "BoundaryClock \<Rightarrow> infra \<Rightarrow> world \<Rightarrow> (PortState option \<times> BoundaryClock \<times> world) option" where
  "BoundaryClock_port c infr w =
     (case PortEnumeration_next (bc_port_enumeration c) of
        None \<Rightarrow> None
      | Some (None, en) \<Rightarrow> Some (None, c\<lparr>bc_port_enumeration := en\<rparr>, w)
      | Some (Some n, en) \<Rightarrow>
          (let c = c\<lparr>bc_port_enumeration := en\<rparr>;
               pid = PortIdentity (identity (bc_default_ds c)) n;
               domain_port = DomainPort_new infr pid (bc_domain_number c);
               (state_decision_timeout, w) = DomainPort_timeout domain_port
                 (StateDecisionEvent \<lparr>d_0 = bc_default_ds c, e_best = Empty\<rparr>) w;
               c = c\<lparr>bc_port_notification :=
                      MultiPortNotification_add_port (bc_port_notification c) state_decision_timeout\<rparr>;
               bmca = \<lparr>bmca_d_0 = bc_default_ds c, bmca_port_number = n\<rparr>;
               best_foreign = \<lparr>bfr_receiver = pid, foreign_clock_records = infra_records infr\<rparr>;
               trg = StateDecisionEventTrigger_new (BestForeignRecord_snapshot best_foreign) n;
               (st, w) = PortProfile_initializing PortProfile_default domain_port bmca best_foreign
                           trg w
           in Some (Some st, c, w)))"

definition BoundaryClock_trigger ::
    "BoundaryClock \<Rightarrow> PortNumber \<Rightarrow> BestForeignSnapshot \<Rightarrow> world \<Rightarrow> BoundaryClock \<times> world" where
  "BoundaryClock_trigger c n e_rbest w =
     (let c = c\<lparr>bc_foreign_candidates :=
                 MultiPortForeignCandidates_remember (bc_foreign_candidates c) n e_rbest\<rparr>;
          best = MultiPortForeignCandidates_best (bc_foreign_candidates c)
      in (c, MultiPortNotification_notify_all (bc_port_notification c)
               \<lparr>d_0 = bc_default_ds c, e_best = best\<rparr> w))"

subsection \<open>A port and its clock\<close>

text \<open>The calls of \<open>trigger\<close> a handler recorded, run by the clock.\<close>

fun OrdinaryClock_run_triggers ::
    "effect list \<Rightarrow> OrdinaryClock \<Rightarrow> world \<Rightarrow> (OrdinaryClock \<times> world) option" where
  "OrdinaryClock_run_triggers [] c w = Some (c, w)"
| "OrdinaryClock_run_triggers (StateDecisionTriggered n s # es) c w =
     (case OrdinaryClock_trigger c n s w of
        None \<Rightarrow> None
      | Some (c, w) \<Rightarrow> OrdinaryClock_run_triggers es c w)"
| "OrdinaryClock_run_triggers (_ # es) c w = OrdinaryClock_run_triggers es c w"

fun BoundaryClock_run_triggers :: "effect list \<Rightarrow> BoundaryClock \<Rightarrow> world \<Rightarrow> BoundaryClock \<times> world" where
  "BoundaryClock_run_triggers [] c w = (c, w)"
| "BoundaryClock_run_triggers (StateDecisionTriggered n s # es) c w =
     (let (c, w) = BoundaryClock_trigger c n s w in BoundaryClock_run_triggers es c w)"
| "BoundaryClock_run_triggers (_ # es) c w = BoundaryClock_run_triggers es c w"

definition OrdinaryClock_deliver ::
    "OrdinaryClock \<Rightarrow> PortFsm \<Rightarrow> input \<Rightarrow> world \<Rightarrow> (OrdinaryClock \<times> PortFsm \<times> world) option" where
  "OrdinaryClock_deliver c f i w =
     (case PortFsm_input f i w of
        None \<Rightarrow> None
      | Some (f', w') \<Rightarrow>
          map_option (\<lambda>(c', w''). (c', f', w''))
            (OrdinaryClock_run_triggers (drop (length (trace w)) (trace w')) c w'))"

definition BoundaryClock_deliver ::
    "BoundaryClock \<Rightarrow> PortFsm list \<Rightarrow> nat \<Rightarrow> input \<Rightarrow> world \<Rightarrow> (BoundaryClock \<times> PortFsm list \<times> world) option" where
  "BoundaryClock_deliver c fs k i w =
     (if k < length fs then
        (case PortFsm_input (fs ! k) i w of
           None \<Rightarrow> None
         | Some (f', w') \<Rightarrow>
             (let (c', w'') = BoundaryClock_run_triggers (drop (length (trace w)) (trace w')) c w'
              in Some (c', fs[k := f'], w'')))
      else Some (c, fs, w))"

end
