(* ===== verification/Ptp_Host.thy ===== *)
theory Ptp_Host
  imports Ptp_Clock
begin

section \<open>A clock and its ports\<close>

text \<open>
  What the assembled clocks of \<^verbatim>\<open>ordinary.rs\<close> and \<^verbatim>\<open>boundary.rs\<close> do over a whole run. The first part
  shows which calls of \<open>trigger\<close> a port makes while it processes one input. The locale
  \<open>decision_host\<close> is the contract of the trait \<open>StateDecisionEvent\<close> that the ports rely on; in it
  the agreement of a clock with its ports is shown to be invariant under every input to every
  port. Both clocks interpret it, and the runs of a clock, from its construction on, keep it.
\<close>

subsection \<open>What a port reports to its clock\<close>

text \<open>The calls of \<open>trigger\<close> in a piece of the trace, and that a handler has appended such a piece.\<close>

fun triggers :: "effect list \<Rightarrow> (PortNumber \<times> BestForeignSnapshot) list" where
  "triggers [] = []"
| "triggers (StateDecisionTriggered n s # es) = (n, s) # triggers es"
| "triggers (_ # es) = triggers es"

lemma triggers_append [simp]: "triggers (xs @ ys) = triggers xs @ triggers ys"
  by (induction xs rule: triggers.induct) simp_all

definition extends :: "(PortNumber \<times> BestForeignSnapshot) list \<Rightarrow> world \<Rightarrow> world \<Rightarrow> bool" where
  "extends ts w w' \<longleftrightarrow> (\<exists>es. trace w' = trace w @ es \<and> triggers es = ts)"

lemma extends_refl [simp]: "extends [] w w"
  by (simp add: extends_def)

lemma extends_trans: "extends ts v w \<Longrightarrow> extends us w x \<Longrightarrow> extends (ts @ us) v x"
  by (auto simp: extends_def)

lemma extends_emit [simp]: "triggers [e] = [] \<Longrightarrow> extends ts v w \<Longrightarrow> extends ts v (emit e w)"
  by (auto simp: extends_def)

lemma extends_timer [simp]: "extends ts v w \<Longrightarrow> extends ts v (w\<lparr>next_timer := n\<rparr>)"
  by (simp add: extends_def)

lemma extends_trigger: "extends ts v w \<Longrightarrow> extends (ts @ [(n, s)]) v (emit (StateDecisionTriggered n s) w)"
  by (auto simp: extends_def)

lemmas extends_one = extends_trigger[of "[]", simplified]

lemma extends_calls [simp]:
  assumes "extends ts v w"
  shows "extends ts v (DomainPort_log p e w)" "extends ts v (Timeout_restart t d w)"
    "extends ts v (AnnounceReceiptTimeout_restart a w)" "extends ts v (Timeout_drop t w)"
    "extends ts v (snd (DomainPort_timeout p m w))"
    "extends ts v (snd (DomainPort_send_event p em w))" "extends ts v (snd (DomainPort_send_general p gm w))"
  using assms by (simp_all add: world_defs DomainPort_send_event_def DomainPort_send_general_def Let_def)

lemma Servo_feed_extends:
  assumes "Servo_feed v s w = Some (st, v', w')" "extends ts u w"
  shows "extends ts u w'"
  using assms
  by (cases v)
    (auto simp: SteppingServo_feed_def PiServo_feed_def PiServo_step_def PiServo_calibrate_def
      PiLoop_feed_def ServoSample_log_def world_defs Let_def
      split: option.splits prod.splits ServoStepDecision.splits if_splits)

text \<open>Records hold data sets in the form in which they are read from the wire.\<close>

definition records_wf :: "BestForeignRecord \<Rightarrow> bool" where
  "records_wf b \<longleftrightarrow> (\<forall>r \<in> set (records (foreign_clock_records b)). wf_ds (foreign_clock_ds r))"

lemma records_wf_consider:
  assumes "records_wf b" "wf_ds ds"
  shows "records_wf (BestForeignRecord_consider b src ds l now)"
proof -
  have "wf_ds (foreign_clock_ds x)"
    if "update_first p (\<lambda>e. snd (ForeignClockRecord_update_from e (ForeignClockRecord_new src ds l now))) xs = Some ys"
      "\<forall>x \<in> set xs. wf_ds (foreign_clock_ds x)" "x \<in> set ys" for p xs ys x
    using that
  proof (induction xs arbitrary: ys)
    case Nil
    then show ?case by simp
  next
    case (Cons y xs)
    then show ?case
      using assms(2)
      by (auto simp: ForeignClockRecord_update_from_def ForeignClockRecord_new_def Let_def split: if_splits)
  qed
  then show ?thesis
    using assms
    by (auto simp: records_wf_def BestForeignRecord_consider_def ForeignClockRecordsVec_remember_def
        ForeignClockRecordsVec_prune_stale_def ForeignClockRecord_new_def Let_def split: option.splits)
qed

lemma records_wf_snapshot: "records_wf b \<Longrightarrow> BestForeignRecord_snapshot b = Qualified ds src rcv \<Longrightarrow> wf_ds ds"
  by (drule snapshot_Qualified) (auto simp: records_wf_def)

text \<open>What a port with new records has to report: its best record, when that has changed.\<close>

definition report_of :: "bmca_parts \<Rightarrow> bmca_parts \<Rightarrow> (PortNumber \<times> BestForeignSnapshot) list" where
  "report_of p p' =
     (if BestForeignRecord_snapshot (fst (snd p')) = BestForeignRecord_snapshot (fst (snd p)) then []
      else [(received_on_port (snd (snd p)), BestForeignRecord_snapshot (fst (snd p')))])"

lemma report_of_same [simp]: "fst (snd p') = fst (snd p) \<Longrightarrow> report_of p p' = []"
  by (simp add: report_of_def)

context bmca_role
begin

lemma feed_extends:
  assumes "in_step (parts b)" "extends [] v w"
  shows "extends (report_of (parts b) (parts (fst (feed b src ds l now w)))) v (snd (feed b src ds l now w))"
proof -
  obtain m f t where p: "parts b = (m, f, t)" by (cases "parts b")
  show ?thesis
    using feed_parts[of b src ds l now w] assms
    by (auto simp: p parts_consider_def in_step_def report_of_def Let_def dest: extends_trigger split: if_splits)
qed

lemma feed_bmca_extends:
  assumes "in_step (parts b)" "extends [] v w"
  shows "extends (report_of (parts b) (parts (fst (AnnounceMessage_feed_bmca feed msg b src now w)))) v
    (snd (AnnounceMessage_feed_bmca feed msg b src now w))"
  using assms feed_extends by (simp add: AnnounceMessage_feed_bmca_def split: option.splits)

lemma feed_bmca_receiver:
  "bfr_receiver (fst (snd (parts (fst (AnnounceMessage_feed_bmca feed msg b src now w))))) = bfr_receiver (fst (snd (parts b)))"
proof -
  have "bfr_receiver (fst (snd (parts (fst (feed b src ds l now w))))) = bfr_receiver (fst (snd (parts b)))" for ds l
    using feed_parts[of b src ds l now w]
    by (auto simp: parts_consider_def BestForeignRecord_consider_def Let_def split: prod.splits if_splits)
  then show ?thesis by (simp add: AnnounceMessage_feed_bmca_def split: option.splits)
qed

lemma feed_bmca_wf:
  assumes "wf_general (AnnounceMsg msg)" "records_wf (fst (snd (parts b)))"
  shows "records_wf (fst (snd (parts (fst (AnnounceMessage_feed_bmca feed msg b src now w)))))"
proof -
  have "records_wf (fst (snd (parts (fst (feed b src (an_foreign_clock_ds msg) l now w)))))" for l
    using feed_parts[of b src "an_foreign_clock_ds msg" l now w] assms records_wf_consider
    by (auto simp: parts_consider_def Let_def split: prod.splits if_splits)
  then show ?thesis using assms(2) by (simp add: AnnounceMessage_feed_bmca_def split: option.splits)
qed

end

lemma announce_reports:
  assumes "PortState_dispatch_general st (AnnounceMsg m) src now w = Some (d, st', w')" "in_step (state_parts st)"
  shows "extends (report_of (state_parts st) (state_parts st')) w w'"
  using assms
  by (cases st)
    (auto simp: PortState_dispatch_general_def Let_def split_def
      announce_defs
      intro!: listening_role.feed_bmca_extends grandmaster_role.feed_bmca_extends
        parent_role.feed_bmca_extends passive_role.feed_bmca_extends)

lemma silent_general:
  assumes "PortState_dispatch_general st m src now w = Some (d, st', w')" "\<forall>a. m \<noteq> AnnounceMsg a"
  shows "state_parts st' = state_parts st \<and> extends [] w w'"
  using assms
  by (cases m; cases st)
    (auto simp: PortState_dispatch_general_def Let_def bind_eq_Some_conv
      UncalibratedPort_process_delay_response_def SlavePort_process_delay_response_def
      UncalibratedPort_process_follow_up_def SlavePort_process_follow_up_def
      intro: Servo_feed_extends split: if_splits option.splits)

lemma silent_event:
  assumes "PortState_dispatch_event st m src ts w = Some (d, st', w')"
  shows "state_parts st' = state_parts st \<and> extends [] w w'"
  using assms
  by (cases m; cases st)
    (auto simp: PortState_dispatch_event_def Let_def bind_eq_Some_conv MasterPort_process_delay_request_def split_def
      UncalibratedPort_process_two_step_sync_def SlavePort_process_two_step_sync_def
      UncalibratedPort_process_one_step_sync_def SlavePort_process_one_step_sync_def
      intro: Servo_feed_extends split: if_splits option.splits)

lemma silent_decision:
  assumes "PortState_dispatch_system st (StateDecisionEvent e) w = Some (d, st', w')"
  shows "snd (state_parts st') = snd (state_parts st) \<and> extends [] w w' \<and>
    bmca_port_number (fst (state_parts st')) = bmca_port_number (fst (state_parts st))"
  using assms
  by (cases st)
    (auto simp: PortState_dispatch_system_def Let_def split_def role_simps
      ListeningPort_state_decision_event_def PreMasterPort_state_decision_event_def
      MasterPort_state_decision_event_def PassivePort_state_decision_event_def
      UncalibratedPort_state_decision_event_def SlavePort_state_decision_event_def
      split: option.splits)

lemma silent_system:
  assumes "PortState_dispatch_system st m w = Some (d, st', w')"
  shows "snd (state_parts st') = snd (state_parts st) \<and> extends [] w w' \<and>
    bmca_port_number (fst (state_parts st')) = bmca_port_number (fst (state_parts st))"
proof (cases "\<exists>e. m = StateDecisionEvent e")
  case True
  with assms silent_decision show ?thesis by blast
next
  case False
  with assms show ?thesis
    by (cases m; cases st)
      (auto simp: PortState_dispatch_system_def Let_def split_def
        MasterPort_send_announce_def MasterPort_send_sync_def MasterPort_send_follow_up_def
        SlavePort_send_delay_request_def UncalibratedPort_send_delay_request_def
        SlavePort_process_delay_request_def UncalibratedPort_process_delay_request_def
        AnnounceCycle_next_def SyncCycle_next_def EndToEndDelayMechanism_delay_request_def DelayCycle_next_def
        split: SendResult.splits EventMessage.splits)
qed

lemma announce_port:
  assumes "PortState_dispatch_general st (AnnounceMsg m) src now w = Some (d, st', w')"
  shows "received_on_port (snd (snd (state_parts st'))) = received_on_port (snd (snd (state_parts st))) \<and>
    bmca_port_number (fst (state_parts st')) = bmca_port_number (fst (state_parts st))"
  using assms
  by (cases st)
    (auto simp: PortState_dispatch_general_def Let_def split_def role_simps
      announce_defs)

lemma dispatch_reports:
  assumes "PortState_dispatch i st w = Some (d, st', w')" "in_step (state_parts st)"
  shows "extends (report_of (state_parts st) (state_parts st')) w w' \<and>
    received_on_port (snd (snd (state_parts st'))) = received_on_port (snd (snd (state_parts st)))"
proof (cases "\<exists>src m now. i = GeneralIn src (AnnounceMsg m) now")
  case True
  with assms announce_reports announce_port show ?thesis by fastforce
next
  case False
  then have "snd (state_parts st') = snd (state_parts st) \<and> extends [] w w'"
    using assms(1) silent_event silent_system silent_general by (cases i) fastforce+
  then show ?thesis by simp
qed

lemma apply_reports:
  assumes "PortState_apply st d w = Some (st', w')"
  shows "extends (if d = AnnounceReceiptTimeoutExpired
      then [(received_on_port (snd (snd (state_parts st))), BestForeignRecord_snapshot (state_records st))] else []) w w'"
  using assms
  by (cases d; cases st)
    (auto simp: PortState_apply_def transition_defs profile_defs parts_defs world_defs Let_def extends_one)

text \<open>One input: the port reports nothing but its best record, at most once for a change and once for the
  loss of its master, and afterwards the last report is its best record.\<close>

lemma input_reports:
  assumes "fsm_inv base (f, w)" "fsm_state f = Some st" "wf_input i" "PortFsm_input f i w = Some (f', w')"
  obtains st' ts where "fsm_state f' = Some st'" "extends ts w w'"
    "received_on_port (snd (snd (state_parts st'))) = received_on_port (snd (snd (state_parts st)))"
    "set ts \<subseteq> {(received_on_port (snd (snd (state_parts st))), BestForeignRecord_snapshot (state_records st'))}"
    "ts = [] \<longrightarrow> BestForeignRecord_snapshot (state_records st') = BestForeignRecord_snapshot (state_records st)"
proof -
  have step: "in_step (state_parts st)" using assms(1,2) by (auto simp: fsm_inv_def)
  show ?thesis
    using assms(2,4)
  proof (cases rule: input_cases)
    case (stays st1)
    with dispatch_reports[OF stays(1) step] show ?thesis
      by (intro that[of st1 "report_of (state_parts st) (state_parts st1)"]) (auto simp: report_of_def split: if_splits)
  next
    case (moves d st1 w1 st')
    note rep = dispatch_reports[OF moves(1) step]
    have same: "state_records st' = state_records st1"
      "received_on_port (snd (snd (state_parts st'))) = received_on_port (snd (snd (state_parts st)))"
      using apply_carries_over[OF moves(2)] rep by (simp_all add: carries_over_def)
    let ?ts = "report_of (state_parts st) (state_parts st1) @ (if d = AnnounceReceiptTimeoutExpired
      then [(received_on_port (snd (snd (state_parts st1))), BestForeignRecord_snapshot (state_records st1))] else [])"
    show ?thesis
    proof (rule that[OF _ extends_trans[OF conjunct1[OF rep] apply_reports[OF moves(2)]] same(2)])
      show "fsm_state f' = Some st'" using moves(3) by simp
      show "set ?ts \<subseteq> {(received_on_port (snd (snd (state_parts st))), BestForeignRecord_snapshot (state_records st'))}"
        using conjunct2[OF rep] by (auto simp: same(1) report_of_def)
      show "?ts = [] \<longrightarrow> BestForeignRecord_snapshot (state_records st') = BestForeignRecord_snapshot (state_records st)"
        unfolding same(1) by (simp add: report_of_def)
    qed
  qed
qed

lemma dispatch_receiver:
  assumes "PortState_dispatch i st w = Some (d, st', w')"
  shows "bfr_receiver (state_records st') = bfr_receiver (state_records st) \<and>
    bmca_port_number (fst (state_parts st')) = bmca_port_number (fst (state_parts st))"
proof (cases "\<exists>src m now. i = GeneralIn src (AnnounceMsg m) now")
  case True
  with assms have "bfr_receiver (state_records st') = bfr_receiver (state_records st)"
    by (cases st)
      (auto simp: PortState_dispatch_general_def Let_def split_def
        announce_defs
        listening_role.feed_bmca_receiver grandmaster_role.feed_bmca_receiver
        parent_role.feed_bmca_receiver passive_role.feed_bmca_receiver)
  with True assms announce_port show ?thesis by fastforce
next
  case False
  then have "snd (state_parts st') = snd (state_parts st) \<and>
      bmca_port_number (fst (state_parts st')) = bmca_port_number (fst (state_parts st))"
    using assms silent_event silent_system silent_general by (cases i) fastforce+
  then show ?thesis by simp
qed

lemma input_receiver:
  assumes "fsm_state f = Some st" "PortFsm_input f i w = Some (f', w')" "fsm_state f' = Some st'"
  shows "bfr_receiver (state_records st') = bfr_receiver (state_records st) \<and>
    bmca_port_number (fst (state_parts st')) = bmca_port_number (fst (state_parts st))"
  using assms(1,2)
proof (cases rule: input_cases)
  case (stays st1)
  then show ?thesis using dispatch_receiver[OF stays(1)] assms(3) by simp
next
  case (moves d st1 w1 st2)
  then show ?thesis
    using dispatch_receiver[OF moves(1)] apply_carries_over[OF moves(2)] assms(3) by (simp add: carries_over_def)
qed

lemma dispatch_records_wf:
  assumes "PortState_dispatch i st w = Some (d, st', w')" "wf_input i" "records_wf (state_records st)"
  shows "records_wf (state_records st')"
proof (cases "\<exists>src m now. i = GeneralIn src (AnnounceMsg m) now")
  case True
  with assms show ?thesis
    by (cases st)
      (auto simp: PortState_dispatch_general_def Let_def split_def
        announce_defs
        simp del: wf_general.simps intro!: listening_role.feed_bmca_wf grandmaster_role.feed_bmca_wf
        parent_role.feed_bmca_wf passive_role.feed_bmca_wf)
next
  case False
  then have "snd (state_parts st') = snd (state_parts st)"
    using assms(1) silent_event silent_system silent_general by (cases i) fastforce+
  with assms(3) show ?thesis by simp
qed

lemma input_records_wf:
  assumes "fsm_state f = Some st" "PortFsm_input f i w = Some (f', w')" "fsm_state f' = Some st'"
    and "wf_input i" "records_wf (state_records st)"
  shows "records_wf (state_records st')"
  using assms(1,2)
proof (cases rule: input_cases)
  case (stays st1)
  then show ?thesis using dispatch_records_wf[OF stays(1) assms(4,5)] assms(3) by simp
next
  case (moves d st1 w1 st2)
  then show ?thesis
    using dispatch_records_wf[OF moves(1) assms(4,5)] apply_carries_over[OF moves(2)] assms(3)
    by (simp add: carries_over_def)
qed

subsection \<open>The clock as host of its ports\<close>

text \<open>
  The trait \<open>StateDecisionEvent\<close>, which a clock implements for its ports: a call of \<open>trigger\<close> records what
  a port reports and rearms the notification timer of every port with one snapshot, the clock's own
  data set and the best of all reports. \<open>ports\<close> are the port numbers the clock is built for.
\<close>

definition port_no :: "nat \<Rightarrow> PortNumber" where
  "port_no j = PortNumber (of_nat (Suc j))"

lemma port_no_inj: "i < 2 ^ 16 - 1 \<Longrightarrow> j < 2 ^ 16 - 1 \<Longrightarrow> port_no i = port_no j \<longleftrightarrow> i = j"
proof -
  assume "i < 2 ^ 16 - 1" "j < 2 ^ 16 - 1"
  then have "unat (of_nat (Suc i) :: u16) = Suc i" "unat (of_nat (Suc j) :: u16) = Suc j"
    by (simp_all only: unat_of_nat) simp_all
  then show ?thesis unfolding port_no_def by (metis PortNumber.inject nat.inject)
qed

definition notify :: "nat list \<Rightarrow> StateDecisionSnapshot \<Rightarrow> world \<Rightarrow> world" where
  "notify ks snapshot w =
     fold (\<lambda>k. emit (TimerRestartedWith k (StateDecisionEvent snapshot) (Duration_from_secs 0))) ks w"

lemma timers_notify:
  assumes "set ks \<subseteq> dom (timers (trace w))"
  shows "timers (trace (notify ks s w))
      = (\<lambda>k. if k \<in> set ks then Some (StateDecisionEvent s) else timers (trace w) k) \<and>
    next_timer (notify ks s w) = next_timer w"
  using assms
proof (induction ks arbitrary: w)
  case (Cons k ks)
  have "set ks \<subseteq> dom (timers (trace (emit (TimerRestartedWith k (StateDecisionEvent s) (Duration_from_secs 0)) w)))"
    using Cons.prems by auto
  from Cons.IH[OF this] Cons.prems show ?case by (auto simp: notify_def fun_eq_iff)
qed (simp add: notify_def)

text \<open>Every port's timers are alive and owned by that port only, the notification timers by none.\<close>

abbreviation own_ids :: "PortState \<Rightarrow> nat set" where
  "own_ids st \<equiv> fst ` set (owned st)"

definition timers_shared :: "nat list \<Rightarrow> PortState list \<Rightarrow> world \<Rightarrow> bool" where
  "timers_shared ks sts w \<longleftrightarrow>
     wf_world w \<and> set ks \<subseteq> dom (timers (trace w)) \<and>
     (\<forall>j < length sts. distinct (map fst (owned (sts ! j))) \<and>
        map_of (owned (sts ! j)) \<subseteq>\<^sub>m timers (trace w) \<and> own_ids (sts ! j) \<inter> set ks = {}) \<and>
     (\<forall>i < length sts. \<forall>j < length sts. i \<noteq> j \<longrightarrow> own_ids (sts ! i) \<inter> own_ids (sts ! j) = {})"

abbreviation others :: "PortState \<Rightarrow> world \<Rightarrow> nat \<rightharpoonup> SystemMessage" where
  "others st w \<equiv> timers (trace w) |` (- own_ids st)"

lemma dom_owned [simp]: "dom (map_of (owned st)) = own_ids st"
  by (rule dom_map_of_conv_image_fst)

lemma timers_shared_inv:
  assumes "timers_shared ks sts w" "j < length sts"
  shows "timers_inv (others (sts ! j) w) (sts ! j) w"
proof -
  let ?o = "owned (sts ! j)"
  have st: "wf_world w" "distinct (map fst ?o)" "map_of ?o \<subseteq>\<^sub>m timers (trace w)"
    using assms by (simp_all add: timers_shared_def)
  have "timers (trace w) k = (others (sts ! j) w ++ map_of ?o) k" for k
  proof (cases "map_of ?o k")
    case None
    then have "k \<notin> own_ids (sts ! j)" by (simp add: map_of_eq_None_iff)
    with None show ?thesis by (simp add: map_add_def)
  next
    case (Some m)
    then have "timers (trace w) k = Some m" using st(3) by (metis domI map_le_def)
    with Some show ?thesis by simp
  qed
  with st show ?thesis by (auto simp: timers_inv_def)
qed

text \<open>A timer of somebody else survives a step of a port, and the port does not take its identity.\<close>

lemma others_kept:
  assumes inv: "timers_inv (others st w) st' w'" and k: "k \<in> dom (timers (trace w))" "k \<notin> own_ids st"
  shows "timers (trace w') k = timers (trace w) k" and "k \<in> dom (timers (trace w'))" and "k \<notin> own_ids st'"
proof -
  have t: "timers (trace w') = others st w ++ map_of (owned st')" "own_ids st' \<inter> dom (others st w) = {}"
    using inv by (simp_all add: timers_inv_def)
  have b: "k \<in> dom (others st w)" "others st w k = timers (trace w) k" using k by (auto simp: restrict_map_def)
  then show new: "k \<notin> own_ids st'" using t(2) by blast
  then have "map_of (owned st') k = None" by (simp add: map_of_eq_None_iff)
  then show same: "timers (trace w') k = timers (trace w) k" by (simp add: t(1) map_add_def b(2))
  then show "k \<in> dom (timers (trace w'))" using k(1) by (simp add: dom_def)
qed

lemma timers_shared_other:
  assumes "timers_shared ks sts w" "i < length sts" "j < length sts" "i \<noteq> j" "k \<in> own_ids (sts ! i)"
  shows "k \<in> dom (timers (trace w)) \<and> k \<notin> own_ids (sts ! j)"
proof -
  have "map_of (owned (sts ! i)) \<subseteq>\<^sub>m timers (trace w)" and dj: "own_ids (sts ! i) \<inter> own_ids (sts ! j) = {}"
    using assms(1-4) by (simp_all add: timers_shared_def)
  then have "own_ids (sts ! i) \<subseteq> dom (timers (trace w))"
    using map_le_implies_dom_le[of "map_of (owned (sts ! i))"] by simp
  with assms(5) dj show ?thesis by blast
qed

lemma timers_shared_step:
  assumes sh: "timers_shared ks sts w" and j: "j < length sts"
    and inv: "timers_inv (others (sts ! j) w) st' w'"
  shows "timers_shared ks (sts[j := st']) w' \<and> (\<forall>k \<in> set ks. timers (trace w') k = timers (trace w) k)"
proof -
  note keep = others_kept[OF inv] and other = timers_shared_other[OF sh _ j]
  have st': "distinct (map fst (owned st'))" "wf_world w'" "map_of (owned st') \<subseteq>\<^sub>m timers (trace w')"
    using inv by (simp_all add: timers_inv_def)
  have ks: "k \<in> dom (timers (trace w)) \<and> k \<notin> own_ids (sts ! j)" if "k \<in> set ks" for k
    using that sh j unfolding timers_shared_def by blast
  have fresh: "own_ids (sts ! l) \<inter> own_ids st' = {}" if "l < length sts" "l \<noteq> j" for l
    using other[OF that] keep(3) by blast
  have dj: "own_ids ((sts[j := st']) ! i) \<inter> own_ids ((sts[j := st']) ! l) = {}"
    if "i < length sts" "l < length sts" "i \<noteq> l" for i l
    using that fresh[of i] fresh[of l] sh
    by (cases "i = j"; cases "l = j") (simp_all add: timers_shared_def Int_commute)
  have each: "distinct (map fst (owned ((sts[j := st']) ! i))) \<and>
      map_of (owned ((sts[j := st']) ! i)) \<subseteq>\<^sub>m timers (trace w') \<and> own_ids ((sts[j := st']) ! i) \<inter> set ks = {}"
    if i: "i < length sts" for i
  proof (cases "i = j")
    case True
    have "own_ids st' \<inter> set ks = {}" using ks keep(3) by blast
    with True st' j show ?thesis by simp
  next
    case False
    have "map_of (owned (sts ! i)) \<subseteq>\<^sub>m timers (trace w)" using sh i by (simp add: timers_shared_def)
    then have "map_of (owned (sts ! i)) \<subseteq>\<^sub>m timers (trace w')"
      using other[OF i False] keep(1) by (simp add: map_le_def)
    with False sh i show ?thesis by (simp add: timers_shared_def)
  qed
  have "set ks \<subseteq> dom (timers (trace w'))" using ks keep(2) by blast
  then have "timers_shared ks (sts[j := st']) w'"
    unfolding timers_shared_def using st'(2) each dj by simp
  then show ?thesis using ks keep(1) by blast
qed

lemma timers_shared_notify:
  assumes "timers_shared ks sts w"
  shows "timers_shared ks sts (notify ks s w) \<and>
    (\<forall>k \<in> set ks. timers (trace (notify ks s w)) k = Some (StateDecisionEvent s))"
proof -
  have ks: "set ks \<subseteq> dom (timers (trace w))" using assms by (simp add: timers_shared_def)
  note t = timers_notify[OF ks, of s]
  have le: "map_of (owned st) \<subseteq>\<^sub>m timers (trace (notify ks s w))"
    if "map_of (owned st) \<subseteq>\<^sub>m timers (trace w)" "own_ids st \<inter> set ks = {}" for st
    using that t by (auto simp: map_le_def)
  have "wf_world (notify ks s w)"
    unfolding wf_world_def
  proof
    fix i assume "i \<in> dom (timers (trace (notify ks s w)))"
    then have "i \<in> dom (timers (trace w))" using t ks by (auto split: if_splits)
    then show "i < next_timer (notify ks s w)" using assms t by (simp add: timers_shared_def wf_world_def)
  qed
  moreover have "set ks \<subseteq> dom (timers (trace (notify ks s w)))" using t by auto
  ultimately show ?thesis using assms le t by (auto simp: timers_shared_def)
qed

locale decision_host =
  fixes trigger :: "'c \<Rightarrow> PortNumber \<Rightarrow> BestForeignSnapshot \<Rightarrow> world \<Rightarrow> ('c \<times> world) option"
    and reported :: "'c \<Rightarrow> PortNumber \<Rightarrow> BestForeignSnapshot"
    and best :: "'c \<Rightarrow> BestForeignSnapshot"
    and own :: "'c \<Rightarrow> ClockDS"
    and notified :: "'c \<Rightarrow> nat list"
    and ports :: "PortNumber set"
    and invar :: "'c \<Rightarrow> bool"
  assumes trigger_ok: "invar c \<Longrightarrow> n \<in> ports \<Longrightarrow> x = Empty \<or> pi_port_number (snap_receiver x) = n \<Longrightarrow>
      \<exists>c'. trigger c n x w = Some (c', notify (notified c) \<lparr>d_0 = own c, e_best = best c'\<rparr> w) \<and>
        invar c' \<and> reported c' = (reported c)(n := x) \<and> own c' = own c \<and> notified c' = notified c"
begin

text \<open>The clock agrees with its ports, in the states \<open>sts\<close>.\<close>

definition agrees :: "'c \<Rightarrow> PortState list \<Rightarrow> world \<Rightarrow> bool" where
  "agrees c sts w \<longleftrightarrow>
     invar c \<and> length sts < 2 ^ 16 \<and> timers_shared (notified c) sts w \<and>
     distinct (notified c) \<and> length (notified c) = length sts \<and> wf_ds (own c) \<and>
     (\<forall>n. (\<forall>j < length sts. n \<noteq> port_no j) \<longrightarrow> reported c n = Empty) \<and>
     (\<forall>k \<in> set (notified c). timers (trace w) k = Some (StateDecisionEvent \<lparr>d_0 = own c, e_best = best c\<rparr>)) \<and>
     (\<forall>j < length sts. wf_state (sts ! j) \<and> in_step (state_parts (sts ! j)) \<and> port_no j \<in> ports \<and>
        received_on_port (snd (snd (state_parts (sts ! j)))) = port_no j \<and>
        pi_port_number (bfr_receiver (state_records (sts ! j))) = port_no j \<and>
        bmca_port_number (fst (state_parts (sts ! j))) = port_no j \<and> records_wf (state_records (sts ! j)) \<and>
        reported c (port_no j) = BestForeignRecord_snapshot (state_records (sts ! j)))"

fun run :: "(PortNumber \<times> BestForeignSnapshot) list \<Rightarrow> 'c \<Rightarrow> world \<Rightarrow> ('c \<times> world) option" where
  "run [] c w = Some (c, w)"
| "run ((n, x) # ts) c w = do { (c, w) \<leftarrow> trigger c n x w; run ts c w }"

text \<open>Reports of one port, all of the same record.\<close>

lemma run_ok:
  assumes "invar c" "timers_shared (notified c) sts w" "set ts \<subseteq> {(n, x)}" "n \<in> ports"
    "x = Empty \<or> pi_port_number (snap_receiver x) = n" "ts = [] \<longrightarrow> reported c n = x"
    "\<forall>k \<in> set (notified c). timers (trace w) k = Some (StateDecisionEvent \<lparr>d_0 = own c, e_best = best c\<rparr>)"
  shows "\<exists>c' w'. run ts c w = Some (c', w') \<and> invar c' \<and> timers_shared (notified c') sts w' \<and>
    reported c' = (reported c)(n := x) \<and> own c' = own c \<and> notified c' = notified c \<and>
    (\<forall>k \<in> set (notified c'). timers (trace w') k = Some (StateDecisionEvent \<lparr>d_0 = own c', e_best = best c'\<rparr>))"
  using assms
proof (induction ts arbitrary: c w)
  case Nil
  then show ?case by auto
next
  case (Cons t ts)
  have t: "t = (n, x)" using Cons.prems(3) by simp
  obtain c1 where c1: "trigger c n x w = Some (c1, notify (notified c) \<lparr>d_0 = own c, e_best = best c1\<rparr> w)"
    "invar c1" "reported c1 = (reported c)(n := x)" "own c1 = own c" "notified c1 = notified c"
    using trigger_ok[OF Cons.prems(1,4,5)] by blast
  let ?w = "notify (notified c) \<lparr>d_0 = own c, e_best = best c1\<rparr> w"
  have sh: "timers_shared (notified c1) sts ?w \<and>
      (\<forall>k \<in> set (notified c1). timers (trace ?w) k = Some (StateDecisionEvent \<lparr>d_0 = own c1, e_best = best c1\<rparr>))"
    using timers_shared_notify[OF Cons.prems(2)] c1(4,5) by simp
  have "\<exists>c' w'. run ts c1 ?w = Some (c', w') \<and> invar c' \<and> timers_shared (notified c') sts w' \<and>
    reported c' = (reported c1)(n := x) \<and> own c' = own c1 \<and> notified c' = notified c1 \<and>
    (\<forall>k \<in> set (notified c'). timers (trace w') k = Some (StateDecisionEvent \<lparr>d_0 = own c', e_best = best c'\<rparr>))"
    by (rule Cons.IH) (use sh c1 Cons.prems in auto)
  moreover have "run (t # ts) c w = run ts c1 ?w" using c1(1) by (simp add: t)
  ultimately show ?case unfolding c1(3-5) fun_upd_upd by (simp only:)
qed

text \<open>One input to one port, and then the calls of \<open>trigger\<close> it has made.\<close>

lemma agrees_inv:
  assumes "agrees c sts w" "j < length sts"
  shows "fsm_inv (others (sts ! j) w) (\<lparr>fsm_state = Some (sts ! j)\<rparr>, w)"
  using assms timers_shared_inv[of "notified c" sts w j] by (auto simp: agrees_def fsm_inv_def)

lemma agrees_step:
  assumes ag: "agrees c sts w" and j: "j < length sts" and i: "wf_input i"
    and f: "PortFsm_input \<lparr>fsm_state = Some (sts ! j)\<rparr> i w = Some (f', w')"
  shows "\<exists>st' es c' w''. f' = \<lparr>fsm_state = Some st'\<rparr> \<and> trace w' = trace w @ es \<and>
    run (triggers es) c w' = Some (c', w'') \<and> agrees c' (sts[j := st']) w'' \<and> own c' = own c"
proof -
  have port: "port_no j \<in> ports" "received_on_port (snd (snd (state_parts (sts ! j)))) = port_no j"
      "pi_port_number (bfr_receiver (state_records (sts ! j))) = port_no j"
      "bmca_port_number (fst (state_parts (sts ! j))) = port_no j"
      "reported c (port_no j) = BestForeignRecord_snapshot (state_records (sts ! j))"
    using ag j by (simp_all add: agrees_def)
  note inv = agrees_inv[OF ag j]
  obtain st' ts where st': "fsm_state f' = Some st'" "extends ts w w'"
    "received_on_port (snd (snd (state_parts st'))) = port_no j"
    "set ts \<subseteq> {(port_no j, BestForeignRecord_snapshot (state_records st'))}"
    "ts = [] \<longrightarrow> BestForeignRecord_snapshot (state_records st') = reported c (port_no j)"
    using input_reports[OF inv _ i f, of "sts ! j"] port by auto
  let ?x = "BestForeignRecord_snapshot (state_records st')"
  have rcv: "pi_port_number (bfr_receiver (state_records st')) = port_no j"
      "bmca_port_number (fst (state_parts st')) = port_no j"
    using input_receiver[OF _ f st'(1), of "sts ! j"] port(3,4) by simp_all
  have rwf: "records_wf (state_records st')"
    using input_records_wf[OF _ f st'(1) i, of "sts ! j"] ag j by (simp add: agrees_def)
  have x: "?x = Empty \<or> pi_port_number (snap_receiver ?x) = port_no j"
    using snapshot_Qualified[of "state_records st'"] rcv by (cases ?x) auto
  have inv': "timers_inv (others (sts ! j) w) st' w'" "wf_state st'" "in_step (state_parts st')"
    using input_keeps_inv[OF inv i f] st'(1) by (auto simp: fsm_inv_def)
  have sh: "timers_shared (notified c) (sts[j := st']) w'"
    "\<forall>k \<in> set (notified c). timers (trace w') k = Some (StateDecisionEvent \<lparr>d_0 = own c, e_best = best c\<rparr>)"
    using timers_shared_step[OF _ j inv'(1), of "notified c"] ag by (auto simp: agrees_def)
  from st'(2) obtain es where es: "trace w' = trace w @ es" "triggers es = ts" by (auto simp: extends_def)
  obtain c' w'' where run: "run ts c w' = Some (c', w'')" "invar c'" "timers_shared (notified c') (sts[j := st']) w''"
    "reported c' = (reported c)(port_no j := ?x)" "own c' = own c" "notified c' = notified c"
    "\<forall>k \<in> set (notified c'). timers (trace w'') k = Some (StateDecisionEvent \<lparr>d_0 = own c', e_best = best c'\<rparr>)"
    using run_ok[OF _ sh(1) st'(4) port(1) x _ sh(2)] st'(5) ag by (auto simp: agrees_def)
  have each: "wf_state (sts[j := st'] ! l) \<and> in_step (state_parts (sts[j := st'] ! l)) \<and> port_no l \<in> ports \<and>
      received_on_port (snd (snd (state_parts (sts[j := st'] ! l)))) = port_no l \<and>
      pi_port_number (bfr_receiver (state_records (sts[j := st'] ! l))) = port_no l \<and>
      bmca_port_number (fst (state_parts (sts[j := st'] ! l))) = port_no l \<and>
      records_wf (state_records (sts[j := st'] ! l)) \<and>
      reported c' (port_no l) = BestForeignRecord_snapshot (state_records (sts[j := st'] ! l))"
    if l: "l < length sts" for l
  proof (cases "l = j")
    case True
    with j inv' st'(3) rcv rwf run(4) port(1) show ?thesis by simp
  next
    case False
    then have "port_no l \<noteq> port_no j"
      using port_no_inj[of l j] l j ag by (simp add: agrees_def)
    with False l ag run(4) show ?thesis by (simp add: agrees_def)
  qed
  have "agrees c' (sts[j := st']) w''"
    unfolding agrees_def using run(2-7) each ag j by (simp add: agrees_def)
  moreover have "f' = \<lparr>fsm_state = Some st'\<rparr>" using st'(1) by simp
  ultimately show ?thesis using es run(1,5) by blast
qed

end

subsection \<open>The two clocks as hosts\<close>

definition OrdinaryClock_reported :: "OrdinaryClock \<Rightarrow> PortNumber \<Rightarrow> BestForeignSnapshot" where
  "OrdinaryClock_reported c n = (if n = PortNumber 1 then oc_foreign_candidates c else Empty)"

definition OrdinaryClock_notified :: "OrdinaryClock \<Rightarrow> nat list" where
  "OrdinaryClock_notified c = (case spn_timeout (oc_port_notification c) of Some t \<Rightarrow> [timer_id t] | None \<Rightarrow> [])"

interpretation ordinary_host: decision_host
  OrdinaryClock_trigger OrdinaryClock_reported oc_foreign_candidates oc_default_ds OrdinaryClock_notified
  "{PortNumber 1}" "\<lambda>_. True"
proof (unfold_locales, goal_cases)
  case (1 c n x w)
  then show ?case
    by (cases x; cases "spn_timeout (oc_port_notification c)")
      (auto simp: OrdinaryClock_trigger_def Cell_remember_def Cell_best_def OrdinaryClock_reported_def
        OrdinaryClock_notified_def SinglePortNotification_notify_all_def Timeout_restart_with_message_def
        notify_def fun_eq_iff)
qed

abbreviation BoundaryClock_notified :: "BoundaryClock \<Rightarrow> nat list" where
  "BoundaryClock_notified c \<equiv> map timer_id (mpn_timeouts (bc_port_notification c))"

interpretation boundary_host: decision_host
  "\<lambda>c n x w. Some (BoundaryClock_trigger c n x w)" "\<lambda>c. reported_by (bc_foreign_candidates c)"
  "\<lambda>c. MultiPortForeignCandidates_best (bc_foreign_candidates c)" bc_default_ds BoundaryClock_notified
  UNIV "\<lambda>c. wf_candidates (bc_foreign_candidates c)"
proof (unfold_locales, goal_cases)
  case (1 c n x w)
  then show ?case
    using candidates_remember[of "bc_foreign_candidates c" n x]
    by (simp add: BoundaryClock_trigger_def Let_def MultiPortNotification_notify_all_def notify_def
        Timeout_restart_with_message_def fold_map comp_def)
qed

lemma OrdinaryClock_run_triggers_run: "OrdinaryClock_run_triggers es c w = ordinary_host.run (triggers es) c w"
  by (induction es c w rule: OrdinaryClock_run_triggers.induct) (auto split: option.splits)

lemma BoundaryClock_run_triggers_run: "Some (BoundaryClock_run_triggers es c w) = boundary_host.run (triggers es) c w"
  by (induction es c w rule: BoundaryClock_run_triggers.induct) (auto simp: split_def Let_def)

lemma ordinary_deliver_agrees:
  assumes "ordinary_host.agrees c [st] w" "wf_input i"
  shows "OrdinaryClock_deliver c \<lparr>fsm_state = Some st\<rparr> i w = None \<longleftrightarrow> stale_announce_timeout st i"
    and "OrdinaryClock_deliver c \<lparr>fsm_state = Some st\<rparr> i w = Some (c', f', w'') \<Longrightarrow>
      \<exists>st'. f' = \<lparr>fsm_state = Some st'\<rparr> \<and> ordinary_host.agrees c' [st'] w'' \<and> oc_default_ds c' = oc_default_ds c"
proof -
  let ?f = "\<lparr>fsm_state = Some st\<rparr>"
  have wf: "wf_state st" using assms(1) by (simp add: ordinary_host.agrees_def)
  have step: "\<exists>st' es c' w''. g = \<lparr>fsm_state = Some st'\<rparr> \<and> OrdinaryClock_deliver c ?f i w = Some (c', g, w'') \<and>
      ordinary_host.agrees c' [st'] w'' \<and> oc_default_ds c' = oc_default_ds c"
    if g: "PortFsm_input ?f i w = Some (g, w')" for g w'
  proof -
    obtain st' es c1 w1 where *: "g = \<lparr>fsm_state = Some st'\<rparr>" "trace w' = trace w @ es"
      "ordinary_host.run (triggers es) c w' = Some (c1, w1)" "ordinary_host.agrees c1 [st'] w1"
      "oc_default_ds c1 = oc_default_ds c"
      using ordinary_host.agrees_step[OF assms(1) _ assms(2), of 0 g w'] g by auto
    then have "OrdinaryClock_deliver c ?f i w = Some (c1, g, w1)"
      using g by (simp add: OrdinaryClock_deliver_def OrdinaryClock_run_triggers_run)
    with * show ?thesis by blast
  qed
  show "OrdinaryClock_deliver c ?f i w = None \<longleftrightarrow> stale_announce_timeout st i"
  proof (cases "PortFsm_input ?f i w")
    case None
    then show ?thesis using input_panics_iff[of ?f st i w] wf assms(2) by (simp add: OrdinaryClock_deliver_def)
  next
    case (Some r)
    obtain g w' where "r = (g, w')" by (cases r)
    then show ?thesis using step[of g w'] Some input_panics_iff[of ?f st i w] wf assms(2) by auto
  qed
  show "\<exists>st'. f' = \<lparr>fsm_state = Some st'\<rparr> \<and> ordinary_host.agrees c' [st'] w'' \<and> oc_default_ds c' = oc_default_ds c"
    if d: "OrdinaryClock_deliver c ?f i w = Some (c', f', w'')"
  proof -
    obtain g w' where "PortFsm_input ?f i w = Some (g, w')"
      using d by (auto simp: OrdinaryClock_deliver_def split: option.splits)
    from step[OF this] d show ?thesis by auto
  qed
qed

lemma boundary_deliver_agrees:
  assumes "boundary_host.agrees c sts w" "j < length sts" "wf_input i"
  shows "BoundaryClock_deliver c (map PortFsm_new sts) j i w = None \<longleftrightarrow> stale_announce_timeout (sts ! j) i"
    and "BoundaryClock_deliver c (map PortFsm_new sts) j i w = Some (c', fs', w'') \<Longrightarrow>
      \<exists>st'. fs' = map PortFsm_new (sts[j := st']) \<and> boundary_host.agrees c' (sts[j := st']) w'' \<and>
        bc_default_ds c' = bc_default_ds c"
proof -
  let ?f = "\<lparr>fsm_state = Some (sts ! j)\<rparr>" and ?fs = "map PortFsm_new sts"
  have f: "?fs ! j = ?f" using assms(2) by (simp add: PortFsm_new_def)
  have wf: "wf_state (sts ! j)" using assms(1,2) by (simp add: boundary_host.agrees_def)
  have step: "\<exists>st' c' w''. BoundaryClock_deliver c ?fs j i w = Some (c', map PortFsm_new (sts[j := st']), w'') \<and>
      boundary_host.agrees c' (sts[j := st']) w'' \<and> bc_default_ds c' = bc_default_ds c"
    if g: "PortFsm_input ?f i w = Some (g, w')" for g w'
  proof -
    obtain st' es c1 w1 where *: "g = \<lparr>fsm_state = Some st'\<rparr>" "trace w' = trace w @ es"
      "boundary_host.run (triggers es) c w' = Some (c1, w1)" "boundary_host.agrees c1 (sts[j := st']) w1"
      "bc_default_ds c1 = bc_default_ds c"
      using boundary_host.agrees_step[OF assms g] by blast
    from *(3) have "BoundaryClock_run_triggers es c w' = (c1, w1)"
      by (simp flip: BoundaryClock_run_triggers_run)
    then have "BoundaryClock_deliver c ?fs j i w = Some (c1, map PortFsm_new (sts[j := st']), w1)"
      using g *(1,2) assms(2) by (simp add: BoundaryClock_deliver_def f map_update PortFsm_new_def)
    with * show ?thesis by blast
  qed
  show "BoundaryClock_deliver c ?fs j i w = None \<longleftrightarrow> stale_announce_timeout (sts ! j) i"
  proof (cases "PortFsm_input ?f i w")
    case None
    then show ?thesis
      using input_panics_iff[of ?f "sts ! j" i w] wf assms(2,3) by (simp add: BoundaryClock_deliver_def f)
  next
    case (Some r)
    obtain g w' where "r = (g, w')" by (cases r)
    then show ?thesis using step[of g w'] Some input_panics_iff[of ?f "sts ! j" i w] wf assms(3) by auto
  qed
  show "\<exists>st'. fs' = map PortFsm_new (sts[j := st']) \<and> boundary_host.agrees c' (sts[j := st']) w'' \<and>
      bc_default_ds c' = bc_default_ds c"
    if d: "BoundaryClock_deliver c ?fs j i w = Some (c', fs', w'')"
  proof -
    obtain g w' where "PortFsm_input ?f i w = Some (g, w')"
      using d assms(2) by (auto simp: BoundaryClock_deliver_def f split: option.splits)
    from step[OF this] d show ?thesis by auto
  qed
qed

subsection \<open>Building and running a clock\<close>

text \<open>
  A clock is built by creating its ports, in any environment whose record stores are empty, and
  then run by delivering inputs to its ports in any order.
\<close>

inductive ordinary_runs :: "OrdinaryClock \<Rightarrow> PortFsm \<Rightarrow> world \<Rightarrow> bool" where
  ordinary_built: "wf_ds ds \<Longrightarrow> wf_profile profile \<Longrightarrow> wf_world w \<Longrightarrow>
    infra_records infr = ForeignClockRecordsVec_new \<Longrightarrow>
    OrdinaryClock_port (OrdinaryClock_new ds dn profile) infr w = Some (Some st, c, w') \<Longrightarrow>
    ordinary_runs c (PortFsm_new st) w'"
| ordinary_delivers: "ordinary_runs c f w \<Longrightarrow> wf_input i \<Longrightarrow>
    OrdinaryClock_deliver c f i w = Some (c', f', w') \<Longrightarrow> ordinary_runs c' f' w'"

inductive boundary_built :: "BoundaryClock \<Rightarrow> PortState list \<Rightarrow> world \<Rightarrow> bool" where
  boundary_empty: "wf_ds ds \<Longrightarrow> wf_world w \<Longrightarrow>
    BoundaryClock_new ds dn n MultiPortForeignCandidates_new MultiPortNotification_new = Some c \<Longrightarrow>
    boundary_built c [] w"
| boundary_port: "boundary_built c sts w \<Longrightarrow> infra_records infr = ForeignClockRecordsVec_new \<Longrightarrow>
    BoundaryClock_port c infr w = Some (Some st, c', w') \<Longrightarrow> boundary_built c' (sts @ [st]) w'"

inductive boundary_runs :: "BoundaryClock \<Rightarrow> PortFsm list \<Rightarrow> world \<Rightarrow> bool" where
  boundary_starts: "boundary_built c sts w \<Longrightarrow> boundary_runs c (map PortFsm_new sts) w"
| boundary_delivers: "boundary_runs c fs w \<Longrightarrow> wf_input i \<Longrightarrow>
    BoundaryClock_deliver c fs j i w = Some (c', fs', w') \<Longrightarrow> boundary_runs c' fs' w'"

lemma fresh_snapshot [simp]:
  "BestForeignRecord_snapshot \<lparr>bfr_receiver = r, foreign_clock_records = ForeignClockRecordsVec_new\<rparr> = Empty"
  by (simp add: BestForeignRecord_snapshot_def ForeignClockRecordsVec_new_def)

lemma records_wf_fresh [simp]:
  "records_wf \<lparr>bfr_receiver = r, foreign_clock_records = ForeignClockRecordsVec_new\<rparr>"
  by (simp add: records_wf_def ForeignClockRecordsVec_new_def)

lemma timers_shared_add:
  assumes "timers_shared ks sts w" "owned st = []"
    and "timers (trace w') = (timers (trace w))(next_timer w \<mapsto> m)" "next_timer w' = Suc (next_timer w)"
  shows "timers_shared (ks @ [next_timer w]) (sts @ [st]) w'"
proof -
  have wf: "i < next_timer w" if "i \<in> dom (timers (trace w))" for i
    using that assms(1) by (simp add: timers_shared_def wf_world_def)
  have old: "map_of (owned (sts ! j)) \<subseteq>\<^sub>m timers (trace w')" "next_timer w \<notin> own_ids (sts ! j)"
    if "j < length sts" for j
  proof -
    have le: "map_of (owned (sts ! j)) \<subseteq>\<^sub>m timers (trace w)"
      using assms(1) that by (simp add: timers_shared_def)
    then have "own_ids (sts ! j) \<subseteq> dom (timers (trace w))"
      using map_le_implies_dom_le[of "map_of (owned (sts ! j))"] by simp
    then show n: "next_timer w \<notin> own_ids (sts ! j)" using wf by blast
    with le show "map_of (owned (sts ! j)) \<subseteq>\<^sub>m timers (trace w')"
      by (force simp: assms(3) map_le_def)
  qed
  have "wf_world w'" using wf assms(3,4) by (auto simp: wf_world_def less_Suc_eq)
  then show ?thesis
    using assms old by (auto simp: timers_shared_def nth_append less_Suc_eq)
qed

lemma ordinary_built_agrees:
  assumes "wf_ds ds" "wf_profile profile" "wf_world w" "infra_records infr = ForeignClockRecordsVec_new"
    and "OrdinaryClock_port (OrdinaryClock_new ds dn profile) infr w = Some (Some st, c, w')"
  shows "ordinary_host.agrees c [st] w'"
proof -
  have e: "the PortEnumeration_single = \<lparr>pe_count = 1, pe_next = 1\<rparr>"
    by (simp add: PortEnumeration_single_def PortEnumeration_sequential_def)
  have c: "OrdinaryClock_notified c = [next_timer w]" "oc_foreign_candidates c = Empty" "oc_default_ds c = ds"
    and st: "owned st = []" "wf_state st" "in_step (state_parts st)" "BestForeignRecord_snapshot (state_records st) = Empty"
      "received_on_port (snd (snd (state_parts st))) = PortNumber 1"
      "pi_port_number (bfr_receiver (state_records st)) = PortNumber 1"
      "bmca_port_number (fst (state_parts st)) = PortNumber 1" "records_wf (state_records st)"
    and w': "timers (trace w') = (timers (trace w))(next_timer w \<mapsto> StateDecisionEvent \<lparr>d_0 = ds, e_best = Empty\<rparr>)"
      "next_timer w' = Suc (next_timer w)"
    using assms
    by (auto simp: OrdinaryClock_port_def OrdinaryClock_new_def PortEnumeration_next_def e Let_def profile_defs
        world_defs SinglePortNotification_add_port_def SinglePortNotification_new_def OrdinaryClock_notified_def
        StateDecisionEventTrigger_new_def wf_state_def in_step_def)
  have "timers_shared ([] @ [next_timer w]) ([] @ [st]) w'"
    by (rule timers_shared_add[OF _ st(1) w']) (use assms(3) in \<open>simp add: timers_shared_def\<close>)
  then show ?thesis
    using c st w' assms(1) by (simp add: ordinary_host.agrees_def OrdinaryClock_reported_def port_no_def)
qed

lemma ordinary_runs_agrees:
  assumes "ordinary_runs c f w"
  shows "\<exists>st. f = \<lparr>fsm_state = Some st\<rparr> \<and> ordinary_host.agrees c [st] w"
  using assms
proof induction
  case (ordinary_built ds profile w infr dn st c w')
  then show ?case using ordinary_built_agrees by (auto simp: PortFsm_new_def)
next
  case (ordinary_delivers c f w i c' f' w')
  then show ?case using ordinary_deliver_agrees(2) by blast
qed

lemma wf_candidates_new: "wf_candidates MultiPortForeignCandidates_new"
  by (simp add: MultiPortForeignCandidates_new_def wf_candidates_def)

lemma candidates_new_best: "MultiPortForeignCandidates_best MultiPortForeignCandidates_new = Empty"
  by (simp add: MultiPortForeignCandidates_new_def MultiPortForeignCandidates_best_def)

lemma reported_by_new: "reported_by MultiPortForeignCandidates_new n = Empty"
  by (simp add: MultiPortForeignCandidates_new_def reported_by_def)

lemma boundary_built_agrees:
  assumes "boundary_built c sts w"
  shows "boundary_host.agrees c sts w \<and> bc_foreign_candidates c = MultiPortForeignCandidates_new \<and>
    unat (pe_next (bc_port_enumeration c)) = Suc (length sts) \<and> wf_ds (bc_default_ds c)"
  using assms
proof induction
  case (boundary_empty ds w dn n c)
  then have "bc_foreign_candidates c = MultiPortForeignCandidates_new"
      "bc_port_notification c = MultiPortNotification_new" "bc_default_ds c = ds"
      "pe_next (bc_port_enumeration c) = 1"
    by (auto simp: BoundaryClock_new_def PortEnumeration_sequential_Some)
  moreover have "timers_shared [] [] w" using boundary_empty by (simp add: timers_shared_def)
  ultimately show ?case
    using boundary_empty(1)
    by (simp add: boundary_host.agrees_def MultiPortNotification_new_def wf_candidates_new reported_by_new)
next
  case (boundary_port c sts w infr st c' w')
  let ?n = "pe_next (bc_port_enumeration c)"
  have n: "unat ?n = Suc (length sts)" "unat ?n + 1 < 2 ^ 16"
    using boundary_port by (auto simp: BoundaryClock_port_def PortEnumeration_next_def Let_def split: if_splits)
  have "PortNumber ?n = port_no (length sts)"
    unfolding port_no_def n(1)[symmetric] by simp
  moreover have "unat (?n + 1) = Suc (Suc (length sts))"
    using n by (simp add: unat_word_ariths)
  ultimately have c': "BoundaryClock_notified c' = BoundaryClock_notified c @ [next_timer w]"
      "bc_foreign_candidates c' = bc_foreign_candidates c" "bc_default_ds c' = bc_default_ds c"
      "unat (pe_next (bc_port_enumeration c')) = Suc (Suc (length sts))"
    and st: "owned st = []" "wf_state st" "in_step (state_parts st)" "BestForeignRecord_snapshot (state_records st) = Empty"
      "received_on_port (snd (snd (state_parts st))) = port_no (length sts)"
      "pi_port_number (bfr_receiver (state_records st)) = port_no (length sts)"
      "bmca_port_number (fst (state_parts st)) = port_no (length sts)" "records_wf (state_records st)"
    and w': "timers (trace w') = (timers (trace w))(next_timer w \<mapsto>
        StateDecisionEvent \<lparr>d_0 = bc_default_ds c, e_best = Empty\<rparr>)" "next_timer w' = Suc (next_timer w)"
    using boundary_port
    by (auto simp: BoundaryClock_port_def PortEnumeration_next_def Let_def profile_defs world_defs
        MultiPortNotification_add_port_def StateDecisionEventTrigger_new_def wf_state_def in_step_def split: if_splits)
  have ag: "boundary_host.agrees c sts w" "bc_foreign_candidates c = MultiPortForeignCandidates_new" "wf_ds (bc_default_ds c)"
    using boundary_port.IH by simp_all
  have "timers_shared (BoundaryClock_notified c @ [next_timer w]) (sts @ [st]) w'"
    by (rule timers_shared_add[OF _ st(1) w']) (use ag(1) in \<open>simp add: boundary_host.agrees_def\<close>)
  moreover have "next_timer w \<notin> set (BoundaryClock_notified c)"
    using ag(1) by (auto simp: boundary_host.agrees_def timers_shared_def wf_world_def simp del: set_map)
  ultimately show ?case
    using ag c' st w' n by (auto simp: boundary_host.agrees_def less_Suc_eq nth_append candidates_new_best reported_by_new)
qed


lemma boundary_runs_agrees:
  assumes "boundary_runs c fs w"
  shows "\<exists>sts. fs = map PortFsm_new sts \<and> boundary_host.agrees c sts w"
  using assms
proof induction
  case (boundary_starts c sts w)
  then show ?case using boundary_built_agrees by blast
next
  case (boundary_delivers c fs w i j c' fs' w')
  then obtain sts where sts: "fs = map PortFsm_new sts" "boundary_host.agrees c sts w" by blast
  show ?case
  proof (cases "j < length sts")
    case True
    from boundary_deliver_agrees(2)[OF sts(2) this boundary_delivers(2)] boundary_delivers(3) sts(1)
    show ?thesis by blast
  next
    case False
    with boundary_delivers(3) sts show ?thesis by (auto simp: BoundaryClock_deliver_def)
  qed
qed

subsection \<open>The ports after a state decision event\<close>

text \<open>
  A port takes part in the state decisions of its clock when it is up, and a listening port when
  it has a qualified record of its own. \<open>follows\<close> says that a port is in the state a decision of
  the best master clock algorithm asks for, with its parent or its grandmaster's data set.
\<close>

definition takes_part :: "PortState \<Rightarrow> bool" where
  "takes_part st \<longleftrightarrow> phase_of st \<notin> {InitializingP, FaultyP} \<and>
     (phase_of st = ListeningP \<longrightarrow> BestForeignRecord_snapshot (state_records st) \<noteq> Empty)"

fun follows :: "BmcaDecision \<Rightarrow> PortState \<Rightarrow> bool" where
  "follows (DecideSlave p) (Uncalibrated s) \<longleftrightarrow> pt_parent_port_identity (un_bmca s) = p"
| "follows (DecideSlave p) (Slave s) \<longleftrightarrow> pt_parent_port_identity (sl_bmca s) = p"
| "follows (DecideMaster d) (PreMaster s) \<longleftrightarrow> gt_grandmaster_ds (pm_bmca s) = decision_grandmaster_ds d"
| "follows (DecideMaster d) (Master s) \<longleftrightarrow> gt_grandmaster_ds (ma_bmca s) = decision_grandmaster_ds d"
| "follows DecidePassive (Passive s) \<longleftrightarrow> True"
| "follows _ _ \<longleftrightarrow> False"

abbreviation outcome_at :: "StateDecisionSnapshot \<Rightarrow> PortState \<Rightarrow> BmcaDecision" where
  "outcome_at s st \<equiv> bmca_outcome (bmca_port_number (fst (state_parts st))) (d_0 s) (e_best s)
     (BestForeignRecord_snapshot (state_records st))"

definition settled :: "StateDecisionSnapshot \<Rightarrow> PortState \<Rightarrow> bool" where
  "settled s st \<longleftrightarrow> (takes_part st \<longrightarrow> follows (outcome_at s st) st)"

lemma decision_event_settles:
  assumes "PortFsm_process_system_message \<lparr>fsm_state = Some st\<rparr> (StateDecisionEvent s) w = Some (f', w')"
  shows "\<exists>st'. f' = \<lparr>fsm_state = Some st'\<rparr> \<and> settled s st' \<and> takes_part st' = takes_part st \<and>
    extends [] w w'"
  using assms
  by (cases st; cases "outcome_at s st"; cases "BestForeignRecord_snapshot (state_records st)")
    (auto simp: decision_event_defs transition_defs profile_defs parts_defs Let_def
      settled_def takes_part_def BmcaMasterDecision_apply_def world_defs split: if_splits)

text \<open>Each port of a list in turn processes a state decision event.\<close>

fun deliver_decisions ::
    "StateDecisionSnapshot \<Rightarrow> nat list \<Rightarrow> BoundaryClock \<Rightarrow> PortFsm list \<Rightarrow> world \<Rightarrow>
     (BoundaryClock \<times> PortFsm list \<times> world) option" where
  "deliver_decisions s [] c fs w = Some (c, fs, w)"
| "deliver_decisions s (j # js) c fs w = do {
     (c, fs, w) \<leftarrow> BoundaryClock_deliver c fs j (SystemIn (StateDecisionEvent s)) w;
     deliver_decisions s js c fs w }"

text \<open>The snapshot that the notification timers of a boundary clock carry.\<close>

definition BoundaryClock_pending :: "BoundaryClock \<Rightarrow> StateDecisionSnapshot" where
  "BoundaryClock_pending c =
     \<lparr>d_0 = bc_default_ds c, e_best = MultiPortForeignCandidates_best (bc_foreign_candidates c)\<rparr>"

lemma boundary_best_reported:
  assumes "boundary_host.agrees c sts w" "MultiPortForeignCandidates_best (bc_foreign_candidates c) = Qualified ds src rcv"
  shows "\<exists>j < length sts. BestForeignRecord_snapshot (state_records (sts ! j)) = Qualified ds src rcv"
proof -
  have wf: "wf_candidates (bc_foreign_candidates c)" using assms(1) by (simp add: boundary_host.agrees_def)
  obtain n where n: "reported_by (bc_foreign_candidates c) n = Qualified ds src rcv"
    using multi_port.best_reported[OF wf] assms(2) by auto
  then obtain j where "j < length sts" "n = port_no j"
    using assms(1) unfolding boundary_host.agrees_def by (metis BestForeignSnapshot.distinct(1))
  with n assms(1) show ?thesis by (auto simp: boundary_host.agrees_def)
qed

lemma boundary_pending_wf:
  assumes "boundary_host.agrees c sts w"
  shows "wf_input (SystemIn (StateDecisionEvent (BoundaryClock_pending c)))"
proof -
  have "wf_ds ds" if "MultiPortForeignCandidates_best (bc_foreign_candidates c) = Qualified ds src rcv" for ds src rcv
    using boundary_best_reported[OF assms that] assms records_wf_snapshot by (auto simp: boundary_host.agrees_def)
  with assms show ?thesis by (simp add: BoundaryClock_pending_def boundary_host.agrees_def)
qed

lemma deliver_decision_ok:
  assumes ag: "boundary_host.agrees c sts w" and j: "j < length sts"
  obtains st' w' where
    "BoundaryClock_deliver c (map PortFsm_new sts) j (SystemIn (StateDecisionEvent (BoundaryClock_pending c))) w
       = Some (c, map PortFsm_new (sts[j := st']), w')"
    "boundary_host.agrees c (sts[j := st']) w'"
    "settled (BoundaryClock_pending c) st'" "takes_part st' = takes_part (sts ! j)"
proof -
  let ?i = "SystemIn (StateDecisionEvent (BoundaryClock_pending c))"
  obtain c' fs' w' where d: "BoundaryClock_deliver c (map PortFsm_new sts) j ?i w = Some (c', fs', w')"
    using boundary_deliver_agrees(1)[OF ag j boundary_pending_wf[OF ag]] by (auto simp: stale_announce_timeout_def)
  from boundary_deliver_agrees(2)[OF ag j boundary_pending_wf[OF ag] d] obtain st'
    where st': "fs' = map PortFsm_new (sts[j := st'])" "boundary_host.agrees c' (sts[j := st']) w'" by blast
  obtain f' w1 where f': "PortFsm_process_system_message \<lparr>fsm_state = Some (sts ! j)\<rparr>
      (StateDecisionEvent (BoundaryClock_pending c)) w = Some (f', w1)"
    "(c', w') = BoundaryClock_run_triggers (drop (length (trace w)) (trace w1)) c w1"
    "fs' = (map PortFsm_new sts)[j := f']"
    using d j by (auto simp: BoundaryClock_deliver_def PortFsm_new_def split: option.splits prod.splits)
  from decision_event_settles[OF f'(1)] obtain st1 where st1: "f' = \<lparr>fsm_state = Some st1\<rparr>"
      "settled (BoundaryClock_pending c) st1" "takes_part st1 = takes_part (sts ! j)" "extends [] w w1" by blast
  have "fs' ! j = f'" using f'(3) j by simp
  moreover have "fs' ! j = PortFsm_new st'" using st'(1) j by simp
  ultimately have "st1 = st'" using st1(1) by (simp add: PortFsm_new_def)
  moreover have "c' = c"
    using f'(2) st1(4) BoundaryClock_run_triggers_run[of "drop (length (trace w)) (trace w1)" c w1]
    by (auto simp: extends_def)
  ultimately show ?thesis using that[of st' w'] d st' st1(2,3) by simp
qed

lemma deliver_decisions_ok:
  assumes "boundary_host.agrees c sts w" "set js \<subseteq> {..<length sts}"
  shows "\<exists>sts' w'. deliver_decisions (BoundaryClock_pending c) js c (map PortFsm_new sts) w
      = Some (c, map PortFsm_new sts', w') \<and> boundary_host.agrees c sts' w' \<and> length sts' = length sts \<and>
    (\<forall>j < length sts. (j \<in> set js \<or> settled (BoundaryClock_pending c) (sts ! j) \<longrightarrow>
       settled (BoundaryClock_pending c) (sts' ! j)) \<and> takes_part (sts' ! j) = takes_part (sts ! j))"
  using assms
proof (induction js arbitrary: sts w)
  case Nil
  then show ?case by auto
next
  case (Cons j js)
  then have j: "j < length sts" by simp
  obtain st' w' where d: "BoundaryClock_deliver c (map PortFsm_new sts) j
      (SystemIn (StateDecisionEvent (BoundaryClock_pending c))) w = Some (c, map PortFsm_new (sts[j := st']), w')"
    "boundary_host.agrees c (sts[j := st']) w'"
    "settled (BoundaryClock_pending c) st'" "takes_part st' = takes_part (sts ! j)"
    by (rule deliver_decision_ok[OF Cons.prems(1) j])
  from Cons.IH[OF d(2)] Cons.prems(2) obtain sts' w'' where
    r: "deliver_decisions (BoundaryClock_pending c) js c (map PortFsm_new (sts[j := st'])) w'
        = Some (c, map PortFsm_new sts', w'')" "boundary_host.agrees c sts' w''" "length sts' = length sts"
      "\<forall>l < length sts. (l \<in> set js \<or> settled (BoundaryClock_pending c) (sts[j := st'] ! l) \<longrightarrow>
        settled (BoundaryClock_pending c) (sts' ! l)) \<and> takes_part (sts' ! l) = takes_part (sts[j := st'] ! l)"
    by auto
  have "(l \<in> set (j # js) \<or> settled (BoundaryClock_pending c) (sts ! l) \<longrightarrow> settled (BoundaryClock_pending c) (sts' ! l)) \<and>
      takes_part (sts' ! l) = takes_part (sts ! l)" if "l < length sts" for l
    using r(4) d(3,4) j that by (cases "l = j") auto
  with d(1) r(1-3) show ?case by auto
qed

lemma outcome_one_slave:
  assumes "bmca_outcome n d0 e r = DecideSlave p" "bmca_outcome n' d0 e r' = DecideSlave p'"
  shows "n = n'"
proof -
  have "fst (BestMasterClockAlgorithm_decision \<lparr>bmca_d_0 = d0, bmca_port_number = n\<rparr> d0 e r) = DecideSlave p"
    "fst (BestMasterClockAlgorithm_decision \<lparr>bmca_d_0 = d0, bmca_port_number = n'\<rparr> d0 e r') = DecideSlave p'"
    using assms by (simp_all add: decision_outcome)
  then show ?thesis by (auto simp: decision_Slave_iff)
qed

lemma follows_slave: "follows o' st \<Longrightarrow> phase_of st \<in> {UncalibratedP, SlaveP} \<Longrightarrow> \<exists>p. o' = DecideSlave p"
  by (cases o'; cases st) auto

lemma settled_one_slave:
  assumes ag: "boundary_host.agrees c sts w" and settled: "\<forall>j < length sts. settled s (sts ! j)"
    and ij: "i < length sts" "j < length sts" "phase_of (sts ! i) \<in> {UncalibratedP, SlaveP}"
      "phase_of (sts ! j) \<in> {UncalibratedP, SlaveP}"
  shows "i = j"
proof -
  have "\<exists>p. outcome_at s (sts ! l) = DecideSlave p" if "l < length sts" "phase_of (sts ! l) \<in> {UncalibratedP, SlaveP}" for l
    using settled that follows_slave[of _ "sts ! l"] by (auto simp: settled_def takes_part_def)
  from this[OF ij(1,3)] this[OF ij(2,4)]
  have "bmca_port_number (fst (state_parts (sts ! i))) = bmca_port_number (fst (state_parts (sts ! j)))"
    using outcome_one_slave by blast
  then have "port_no i = port_no j" using ag ij by (simp add: boundary_host.agrees_def)
  moreover have "length sts < 2 ^ 16" using ag by (simp add: boundary_host.agrees_def)
  ultimately show ?thesis using port_no_inj[of i j] ij by simp
qed

lemma boundary_best_Empty:
  assumes "boundary_host.agrees c sts w" "MultiPortForeignCandidates_best (bc_foreign_candidates c) = Empty" "j < length sts"
  shows "BestForeignRecord_snapshot (state_records (sts ! j)) = Empty"
  using multi_port.best_Empty[of "bc_foreign_candidates c" "port_no j"] assms by (simp add: boundary_host.agrees_def)

text \<open>What the decision of a port is when the best foreign clock beats the own one.\<close>

lemma beaten_outcome:
  assumes "\<not> ClockDS_is_authoritative d0" "\<not> local_better d0 ds src rcv"
  shows "bmca_outcome n d0 (Qualified ds src rcv) r =
    (if pi_port_number rcv = n then DecideSlave (ParentPortIdentity src)
     else if \<exists>ds' src' rcv'. r = Qualified ds' src' rcv' \<and>
       TopologyDS_is_better_by_topology (TopologyDS_foreign ds src rcv) (TopologyDS_foreign ds' src' rcv') then DecidePassive
     else DecideMaster \<lparr>decision_point = M3, decision_grandmaster_ds = ClockDS_with_added_step ds\<rparr>)"
  using assms by (cases r) (auto simp: bmca_outcome_def decision_defs)

text \<open>The best of the reported clocks, when one of them beats the own data set.\<close>

lemma boundary_best_beats:
  assumes ag: "boundary_host.agrees c sts w" and cmp: "comparable_reports (bc_default_ds c) (bc_foreign_candidates c)"
    and r: "reported_by (bc_foreign_candidates c) n = Qualified ds' src' rcv'" "rank ds' src' rcv' < own_rank (bc_default_ds c)"
  obtains j ds src rcv where "j < length sts" "reported_by (bc_foreign_candidates c) (port_no j) = Qualified ds src rcv"
    "MultiPortForeignCandidates_best (bc_foreign_candidates c) = Qualified ds src rcv" "pi_port_number rcv = port_no j"
    "\<not> local_better (bc_default_ds c) ds src rcv"
    "\<forall>m ds' src' rcv'. reported_by (bc_foreign_candidates c) m = Qualified ds' src' rcv' \<longrightarrow> rank ds src rcv \<le> rank ds' src' rcv'"
proof -
  let ?rep = "reported_by (bc_foreign_candidates c)"
  have wf: "wf_candidates (bc_foreign_candidates c)" using ag by (simp add: boundary_host.agrees_def)
  obtain ds src rcv where b: "MultiPortForeignCandidates_best (bc_foreign_candidates c) = Qualified ds src rcv"
    "rank ds src rcv \<le> rank ds' src' rcv'" using best_least_rank[OF wf cmp r(1)] by blast
  have least: "\<forall>m ds' src' rcv'. ?rep m = Qualified ds' src' rcv' \<longrightarrow> rank ds src rcv \<le> rank ds' src' rcv'"
    using best_least_rank[OF wf cmp] b(1) by fastforce
  obtain j where j: "j < length sts" "BestForeignRecord_snapshot (state_records (sts ! j)) = Qualified ds src rcv"
    using boundary_best_reported[OF ag b(1)] by blast
  then have rep: "?rep (port_no j) = Qualified ds src rcv" "pi_port_number rcv = port_no j"
    using ag snapshot_Qualified[OF j(2)] by (auto simp: boundary_host.agrees_def)
  have "\<not> local_better (bc_default_ds c) ds src rcv"
    using cmp rep(1) b(2) r(2) by (subst local_better_iff_rank) (auto simp: comparable_reports_def)
  with that[OF j(1) rep(1) b(1) rep(2) _ least] show thesis .
qed

end
