(* ===== verification/Ptp_Egress.thy ===== *)
theory Ptp_Egress
  imports Ptp_Invariant
begin

section \<open>The frames a port sends\<close>

text \<open>
  Every frame that a port hands to its physical port, in any run, is the encoding of a well-formed
  message under the port's domain and identity, and every timer carries a well-formed system
  message. \<open>frame_ok\<close> says so of one effect and \<open>emits_ok\<close> of everything a handler has appended to the trace; the lemmas show it handler by handler, for the
  dispatch functions of \<^verbatim>\<open>portstate.rs\<close> and for its transitions.
\<close>

fun frame_ok :: "DomainPort \<Rightarrow> effect \<Rightarrow> bool" where
  "frame_ok p (EventSent b ok) \<longleftrightarrow>
     (\<exists>m. wf_event m \<and> b = EventMessage_to_wire m (fresh_buffer (domain_number p) (port_identity p)))"
| "frame_ok p (GeneralSent b ok) \<longleftrightarrow>
     (\<exists>m. wf_general m \<and> b = GeneralMessage_to_wire m (fresh_buffer (domain_number p) (port_identity p)))"
| "frame_ok p (TimerCreated k msg) \<longleftrightarrow> wf_system msg"
| "frame_ok p (TimerRestartedWith k msg d) \<longleftrightarrow> wf_system msg"
| "frame_ok p _ \<longleftrightarrow> True"

text \<open>Timers are numbered in the order of their creation, from the counter of the world on.\<close>

fun numbered :: "nat \<Rightarrow> effect list \<Rightarrow> nat option" where
  "numbered n [] = Some n"
| "numbered n (TimerCreated k msg # es) = (if k = n then numbered (Suc n) es else None)"
| "numbered n (_ # es) = numbered n es"

lemma numbered_append: "numbered n (xs @ ys) = Option.bind (numbered n xs) (\<lambda>n. numbered n ys)"
  by (induction n xs rule: numbered.induct) simp_all

definition emits_ok :: "DomainPort \<Rightarrow> world \<Rightarrow> world \<Rightarrow> bool" where
  "emits_ok p w w' \<longleftrightarrow> (\<exists>es. trace w' = trace w @ es \<and> list_all (frame_ok p) es \<and>
     numbered (next_timer w) es = Some (next_timer w'))"

lemma emits_ok_refl [simp]: "emits_ok p w w"
  by (simp add: emits_ok_def)

lemma emits_ok_trans: "emits_ok p u v \<Longrightarrow> emits_ok p v w \<Longrightarrow> emits_ok p u w"
  by (auto simp: emits_ok_def numbered_append)

lemma emits_ok_emit [simp]:
  "frame_ok p e \<Longrightarrow> \<forall>n. numbered n [e] = Some n \<Longrightarrow> emits_ok p v w \<Longrightarrow> emits_ok p v (emit e w)"
  by (auto simp: emits_ok_def emit_def numbered_append)

lemma emits_ok_create [simp]:
  "emits_ok p v w \<Longrightarrow> k = next_timer w \<Longrightarrow> n = Suc k \<Longrightarrow> wf_system m \<Longrightarrow>
    emits_ok p v (emit (TimerCreated k m) (w\<lparr>next_timer := n\<rparr>))"
  by (auto simp: emits_ok_def emit_def numbered_append)

lemma emits_ok_send [simp]:
  assumes "emits_ok p v w"
  shows "wf_event m \<Longrightarrow> emits_ok p v (snd (DomainPort_send_event p m w))"
    and "wf_general g \<Longrightarrow> emits_ok p v (snd (DomainPort_send_general p g w))"
  using assms by (auto simp: DomainPort_send_event_def DomainPort_send_general_def Let_def intro!: emits_ok_emit)

lemma emits_ok_calls [simp]:
  assumes "emits_ok p v w"
  shows "emits_ok p v (DomainPort_log q e w)" "emits_ok p v (Timeout_restart t d w)"
    "emits_ok p v (AnnounceReceiptTimeout_restart a w)" "emits_ok p v (Timeout_drop t w)"
    "wf_system m \<Longrightarrow> emits_ok p v (snd (DomainPort_timeout q m w))"
  using assms by (simp_all add: world_defs Let_def)

lemma Servo_feed_emits:
  assumes "Servo_feed v s w = Some (st, v', w')" "emits_ok p u w"
  shows "emits_ok p u w'"
  using assms
  by (cases v)
    (auto simp: SteppingServo_feed_def PiServo_feed_def PiServo_step_def PiServo_calibrate_def
      PiLoop_feed_def ServoSample_log_def world_defs Let_def
      split: option.splits prod.splits ServoStepDecision.splits if_splits)

context bmca_role
begin

lemma feed_bmca_emits:
  assumes "emits_ok p v w"
  shows "emits_ok p v (snd (AnnounceMessage_feed_bmca feed msg b src now w))"
proof -
  have "emits_ok p v (snd (feed b src ds l now w))" for ds l
    using feed_parts[of b src ds l now w] assms
    by (auto simp: parts_consider_def Let_def split: prod.splits if_splits)
  with assms show ?thesis by (simp add: AnnounceMessage_feed_bmca_def split: option.splits)
qed

end

lemma general_emits:
  assumes "PortState_dispatch_general st m src now w = Some (d, st', w')"
  shows "emits_ok (state_port st) w w' \<and> state_port st' = state_port st"
  using assms
  by (cases m; cases st)
    (auto simp: PortState_dispatch_general_def Let_def bind_eq_Some_conv split_def announce_defs
      listening_role.feed_bmca_emits grandmaster_role.feed_bmca_emits
      parent_role.feed_bmca_emits passive_role.feed_bmca_emits
      UncalibratedPort_process_delay_response_def SlavePort_process_delay_response_def
      UncalibratedPort_process_follow_up_def SlavePort_process_follow_up_def
      intro: Servo_feed_emits split: if_splits option.splits)

lemma event_emits:
  assumes "PortState_dispatch_event st m src ts w = Some (d, st', w')" "wf_state st" "wf_ts ts"
  shows "emits_ok (state_port st) w w' \<and> state_port st' = state_port st"
  using assms
  by (cases m; cases st)
    (auto simp: PortState_dispatch_event_def Let_def bind_eq_Some_conv MasterPort_process_delay_request_def split_def
      UncalibratedPort_process_two_step_sync_def SlavePort_process_two_step_sync_def
      UncalibratedPort_process_one_step_sync_def SlavePort_process_one_step_sync_def DelayRequestMessage_response_def
      intro: Servo_feed_emits split: if_splits option.splits)

lemma system_emits:
  assumes "PortState_dispatch_system st m w = Some (d, st', w')" "wf_state st" "wf_system m"
  shows "emits_ok (state_port st) w w' \<and> state_port st' = state_port st"
  using assms
  by (cases m; cases st)
    (auto simp: PortState_dispatch_system_def Let_def split_def wf_state_def
        MasterPort_send_announce_def MasterPort_send_sync_def MasterPort_send_follow_up_def
        SlavePort_send_delay_request_def UncalibratedPort_send_delay_request_def
        SlavePort_process_delay_request_def UncalibratedPort_process_delay_request_def
        ListeningPort_state_decision_event_def PreMasterPort_state_decision_event_def
        MasterPort_state_decision_event_def PassivePort_state_decision_event_def
        UncalibratedPort_state_decision_event_def SlavePort_state_decision_event_def
        AnnounceCycle_announce_def GrandMaster_announce_def GrandMasterTrackingBmca_grandmaster_def
        TwoStepSyncMessage_follow_up_def AnnounceCycle_next_def SyncCycle_next_def EndToEndDelayMechanism_delay_request_def DelayCycle_next_def
        split: SendResult.splits EventMessage.splits option.splits)

lemma apply_emits:
  assumes "PortState_apply st d w = Some (st', w')"
  shows "emits_ok p w w'"
  using assms
  by (cases d; cases st)
    (auto simp: PortState_apply_def transition_defs profile_defs parts_defs world_defs Let_def)


lemma input_emits:
  assumes "fsm_state f = Some st" "wf_state st" "wf_input i" "PortFsm_input f i w = Some (f', w')"
  shows "emits_ok (state_port st) w w' \<and> (\<exists>st'. fsm_state f' = Some st' \<and> state_port st' = state_port st)"
proof -
  have em: "emits_ok (state_port st) w w1 \<and> state_port st1 = state_port st"
    if "PortState_dispatch i st w = Some (d, st1, w1)" for d st1 w1
    using that assms(2,3) event_emits general_emits system_emits by (cases i) auto
  show ?thesis
    using assms(1,4)
  proof (cases rule: input_cases)
    case (stays st1)
    with em[OF stays(1)] show ?thesis by simp
  next
    case (moves d st1 w1 st')
    with em[OF moves(1)] apply_emits[OF moves(2)] apply_carries_over[OF moves(2)] show ?thesis
      by (auto simp: carries_over_def intro: emits_ok_trans)
  qed
qed

lemma reaches_emits:
  assumes "fsm_reaches x y" "fsm_inv base x" "fsm_state (fst x) = Some st"
  shows "emits_ok (state_port st) (snd x) (snd y) \<and>
    (\<exists>st'. fsm_state (fst y) = Some st' \<and> state_port st' = state_port st)"
  using assms
proof (induction rule: fsm_reaches.induct)
  case (fsm_here c)
  then show ?case by simp
next
  case (fsm_step x f w i c)
  then obtain st1 where st1: "fsm_state f = Some st1" "state_port st1 = state_port st" "emits_ok (state_port st) (snd x) w"
    by auto
  have "wf_state st1" using reaches_inv[OF fsm_step(1)] fsm_step.prems(1) st1(1) by (auto simp: fsm_inv_def)
  moreover obtain f' w' where c: "c = (f', w')" by (cases c)
  ultimately show ?case
    using input_emits[OF st1(1) _ fsm_step(2)] fsm_step(3) st1(2,3) by (auto intro: emits_ok_trans)
qed

text \<open>A frame that is well formed is accepted by the parser.\<close>

lemma frame_ok_parses:
  assumes "documented_bitflags bf"
  shows "frame_ok p (EventSent b ok) \<Longrightarrow>
      \<exists>m. wf_event m \<and> parse_event bf Inr b = Inr (domain_number p, port_identity p, m)"
    and "frame_ok p (GeneralSent b ok) \<Longrightarrow>
      \<exists>m. wf_general m \<and> parse_general bf Inr b = Inr (domain_number p, port_identity p, m)"
  using parse_event_to_wire[where lookup = Inr, OF assms] parse_general_to_wire[where lookup = Inr, OF assms]
  by fastforce+

end
