(* ===== verification/Ptp_Examples.thy ===== *)
theory Ptp_Examples
  imports Ptp_Host Ptp_Egress
begin

section \<open>A concrete clock\<close>

text \<open>
  Concrete data sets, a port whose sends succeed, and the initial state of an ordinary clock's
  port, with which the hypotheses of the properties are discharged at a concrete input.
\<close>

definition demo_port :: DomainPort where
  "demo_port =
     \<lparr>port_identity = demo_self, domain_number = DomainNumber 0,
      physical_send_event = (\<lambda>_ _. True), physical_send_general = (\<lambda>_ _. True),
      clock_time_scale = (\<lambda>_. Ptp)\<rparr>"

definition demo_world :: world where
  "demo_world = \<lparr>trace = [], next_timer = 0\<rparr>"

definition demo_init :: InitializingPort where
  "demo_init =
     \<lparr>in_port = demo_port,
      in_bmca = \<lparr>bmca_d_0 = demo_local_ds, bmca_port_number = PortNumber 1\<rparr>,
      in_best_foreign = \<lparr>bfr_receiver = demo_self, foreign_clock_records = ForeignClockRecordsVec_new\<rparr>,
      in_state_decision_trigger = \<lparr>previous_best_foreign = Empty, received_on_port = PortNumber 1\<rparr>,
      in_profile = PortProfile_default\<rparr>"

definition demo_fsm :: PortFsm where
  "demo_fsm = PortFsm_new (Initializing demo_init)"

definition demo_ts :: "u64 \<Rightarrow> TimeStamp" where
  "demo_ts s = TimeStamp s 0"

lemma demo_fsm_inv [simp]: "fsm_inv Map.empty (demo_fsm, demo_world)"
  by (simp add: fsm_inv_def demo_fsm_def PortFsm_new_def wf_state_def demo_init_def timers_inv_def
      demo_world_def in_step_def)

text \<open>The demo port after a sequence of inputs.\<close>

definition demo_run :: "input list \<Rightarrow> (PortFsm \<times> world) option" where
  "demo_run is = foldl (\<lambda>c i. case c of None \<Rightarrow> None | Some (f, w) \<Rightarrow> PortFsm_input f i w)
     (Some (demo_fsm, demo_world)) is"

lemma demo_run_reaches:
  assumes "demo_run is = Some c" "list_all wf_input is"
  shows "fsm_reaches (demo_fsm, demo_world) c"
  using assms
proof (induction "is" arbitrary: c rule: rev_induct)
  case Nil
  then show ?case by (simp add: demo_run_def fsm_here)
next
  case (snoc i "is")
  then obtain f w where "demo_run is = Some (f, w)" "PortFsm_input f i w = Some c"
    by (auto simp: demo_run_def split: option.splits)
  with snoc show ?case by (auto intro: fsm_step)
qed

lemma demo_run_inv: "demo_run is = Some c \<Longrightarrow> list_all wf_input is \<Longrightarrow> fsm_inv Map.empty c"
  using demo_run_reaches reaches_inv demo_fsm_inv by blast

lemmas demo_defs =
  demo_run_def demo_fsm_def demo_init_def demo_world_def demo_port_def PortFsm_new_def

lemma demo_becomes_master:
  "\<exists>s w. demo_run [SystemIn Initialized, SystemIn AnnounceReceiptTimeout] = Some (\<lparr>fsm_state = Some (Master s)\<rparr>, w)"
  by (simp add: demo_defs decision_event_defs transition_defs profile_defs parts_defs world_defs Let_def)

text \<open>Ports of the demo clock in the other phases, with the master's record qualified.\<close>

definition demo_record :: ForeignClockRecord where
  "demo_record =
     \<lparr>source_port_identity = demo_master, foreign_clock_ds = demo_master_ds,
      qualification = \<lparr>swq_last = Instant_from_secs 2, swq_prev = Some (Instant_from_secs 1),
        swq_window = ForeignMasterTimeWindow_duration (LogInterval 0)\<rparr>\<rparr>"

definition demo_best :: BestForeignRecord where
  "demo_best = \<lparr>bfr_receiver = demo_self, foreign_clock_records = \<lparr>records = [demo_record]\<rparr>\<rparr>"

definition demo_bmca :: BestMasterClockAlgorithm where
  "demo_bmca = \<lparr>bmca_d_0 = demo_local_ds, bmca_port_number = PortNumber 1\<rparr>"

definition demo_trigger :: StateDecisionEventTrigger where
  "demo_trigger = \<lparr>previous_best_foreign = Qualified demo_master_ds demo_master demo_self,
     received_on_port = PortNumber 1\<rparr>"

definition demo_art :: AnnounceReceiptTimeout where
  "demo_art = \<lparr>art_timeout = Timeout 0, art_interval = Duration_from_secs 5\<rparr>"

definition demo_listening :: ListeningPort where
  "demo_listening =
     \<lparr>li_port = demo_port, li_bmca = ListeningBmca_new demo_bmca demo_best demo_trigger,
      li_announce_receipt_timeout = demo_art, li_profile = PortProfile_default\<rparr>"

definition demo_parent :: ParentTrackingBmca where
  "demo_parent =
     \<lparr>pt_bmca = demo_bmca, pt_best_foreign = demo_best, pt_parent_port_identity = ParentPortIdentity demo_master,
      pt_state_decision_trigger = demo_trigger\<rparr>"

definition demo_e2e :: EndToEndDelayMechanism where
  "demo_e2e = EndToEndDelayMechanism_new
     \<lparr>dc_sequence_id = SequenceId 0, dc_timeout = Timeout 1, dc_log_interval = LogInterval 0\<rparr>"

definition demo_uncalibrated :: UncalibratedPort where
  "demo_uncalibrated =
     \<lparr>un_port = demo_port, un_bmca = demo_parent, un_announce_receipt_timeout = demo_art,
      un_delay_mechanism = demo_e2e, un_servo = Stepping, un_profile = PortProfile_default\<rparr>"

definition demo_slave :: SlavePort where
  "demo_slave =
     \<lparr>sl_port = demo_port, sl_bmca = demo_parent, sl_announce_receipt_timeout = demo_art,
      sl_delay_mechanism = demo_e2e, sl_servo = Stepping, sl_profile = PortProfile_default\<rparr>"

definition demo_masterport :: MasterPort where
  "demo_masterport =
     \<lparr>ma_port = demo_port,
      ma_bmca = \<lparr>gt_bmca = demo_bmca, gt_best_foreign = demo_best, gt_grandmaster_ds = demo_local_ds,
                 gt_state_decision_trigger = demo_trigger\<rparr>,
      ma_announce_cycle = \<lparr>ac_sequence_id = SequenceId 0, ac_timeout = Timeout 0, ac_log_interval = LogInterval 0\<rparr>,
      ma_sync_cycle = \<lparr>sc_sequence_id = SequenceId 0, sc_timeout = Timeout 1, sc_log_interval = LogInterval 0\<rparr>,
      ma_log_min_delay_request_interval = LogInterval 0, ma_profile = PortProfile_default\<rparr>"

lemma demo_best_snapshot [simp]:
  "BestForeignRecord_snapshot demo_best = Qualified demo_master_ds demo_master demo_self"
  by (simp add: demo_best_def demo_record_def BestForeignRecord_snapshot_def ForeignClockRecord_qualified_def
      is_qualified_iff demo_instants demo_window QualifiedForeignClockRecord_snapshot_def)

lemma demo_local_worse [simp]:
  "\<not> local_better demo_local_ds demo_master_ds demo_master demo_self"
  "\<not> ClockDS_is_authoritative demo_local_ds"
  by (simp_all add: TopologyDS_local_def TopologyDS_foreign_def better_or_better_by_topology_iff
      demo_local_ds_def demo_master_ds_def demo_id_def ds_key_def ClockDS_is_authoritative_def
      ClockQuality_is_authoritative_def ClockClass_is_authoritative_def)

lemma demo_wf_states [simp]:
  "wf_state (Listening demo_listening)" "wf_state (Uncalibrated demo_uncalibrated)"
  "wf_state (Slave demo_slave)" "wf_state (Master demo_masterport)"
  "wf_e2e demo_e2e"
proof -
  have l: "wf_log (LogInterval 0)" by (simp add: wf_log_def MIN_LOG_VALUE_def MAX_LOG_VALUE_def)
  show "wf_e2e demo_e2e" by (simp add: demo_e2e_def l)
  then show "wf_state (Listening demo_listening)" "wf_state (Uncalibrated demo_uncalibrated)"
    "wf_state (Slave demo_slave)" "wf_state (Master demo_masterport)"
    by (simp_all add: wf_state_def demo_listening_def demo_uncalibrated_def demo_slave_def demo_masterport_def
        demo_parent_def demo_bmca_def parts_defs PortProfile_default_def LogInterval_new_def
        MIN_LOG_VALUE_def MAX_LOG_VALUE_def wf_profile_def l)
qed

subsection \<open>A boundary clock with two ports\<close>

text \<open>Both ports of the clock start, the second becomes master, and the first hears two announces of a better clock.\<close>

definition demo_infra :: infra where
  "demo_infra = \<lparr>infra_send_event = (\<lambda>_ _. True), infra_send_general = (\<lambda>_ _. True),
     infra_time_scale = (\<lambda>_. Ptp), infra_records = ForeignClockRecordsVec_new\<rparr>"

definition demo_boundary_start :: "(BoundaryClock \<times> PortFsm list \<times> world) option" where
  "demo_boundary_start =
     (case BoundaryClock_new demo_local_ds (DomainNumber 0) 2 MultiPortForeignCandidates_new MultiPortNotification_new of
        None \<Rightarrow> None
      | Some c \<Rightarrow>
          (case BoundaryClock_port c demo_infra demo_world of
             Some (Some st1, c, w) \<Rightarrow>
               (case BoundaryClock_port c demo_infra w of
                  Some (Some st2, c, w) \<Rightarrow> Some (c, map PortFsm_new [st1, st2], w)
                | _ \<Rightarrow> None)
           | _ \<Rightarrow> None))"

fun demo_boundary_run :: "(nat \<times> input) list \<Rightarrow> BoundaryClock \<times> PortFsm list \<times> world \<Rightarrow>
    (BoundaryClock \<times> PortFsm list \<times> world) option" where
  "demo_boundary_run [] x = Some x"
| "demo_boundary_run ((j, i) # ps) (c, fs, w) = do {
     x \<leftarrow> BoundaryClock_deliver c fs j i w;
     demo_boundary_run ps x }"

definition demo_announce_in :: "u16 \<Rightarrow> u32 \<Rightarrow> input" where
  "demo_announce_in n s = GeneralIn demo_master (AnnounceMsg
     \<lparr>an_sequence_id = SequenceId n, an_log_message_interval = LogMessageInterval 0,
      an_foreign_clock_ds = demo_master_ds, an_ptp_timescale = Ptp\<rparr>) (Instant_from_secs s)"

definition demo_inputs :: "(nat \<times> input) list" where
  "demo_inputs = [(0, SystemIn Initialized), (1, SystemIn Initialized), (1, SystemIn AnnounceReceiptTimeout),
     (0, demo_announce_in 0 1), (0, demo_announce_in 1 2)]"

definition demo_boundary :: "(BoundaryClock \<times> PortFsm list \<times> world) option" where
  "demo_boundary = do { x \<leftarrow> demo_boundary_start; demo_boundary_run demo_inputs x }"



definition demo_heard :: ForeignClockRecord where
  "demo_heard = ForeignClockRecord_new demo_master demo_master_ds (LogInterval 0) (Instant_from_secs 1)"

lemma demo_heard_once [simp]:
  "BestForeignRecord_consider \<lparr>bfr_receiver = r, foreign_clock_records = ForeignClockRecordsVec_new\<rparr>
     demo_master demo_master_ds (LogInterval 0) (Instant_from_secs 1)
     = \<lparr>bfr_receiver = r, foreign_clock_records = \<lparr>records = [demo_heard]\<rparr>\<rparr>"
  "BestForeignRecord_snapshot \<lparr>bfr_receiver = r, foreign_clock_records = \<lparr>records = [demo_heard]\<rparr>\<rparr> = Empty"
  by (simp_all add: BestForeignRecord_consider_def ForeignClockRecordsVec_prune_stale_def
      ForeignClockRecordsVec_remember_def ForeignClockRecordsVec_new_def demo_heard_def ForeignClockRecord_new_def Let_def
      BestForeignRecord_snapshot_def ForeignClockRecord_qualified_def is_qualified_iff
      SlidingWindowQualification_new_unqualified_def)

lemma demo_heard_twice [simp]:
  "BestForeignRecord_consider \<lparr>bfr_receiver = r, foreign_clock_records = \<lparr>records = [demo_heard]\<rparr>\<rparr>
     demo_master demo_master_ds (LogInterval 0) (Instant_from_secs 2)
     = \<lparr>bfr_receiver = r, foreign_clock_records = \<lparr>records = [demo_record]\<rparr>\<rparr>"
  "BestForeignRecord_snapshot \<lparr>bfr_receiver = r, foreign_clock_records = \<lparr>records = [demo_record]\<rparr>\<rparr>
     = Qualified demo_master_ds demo_master r"
  by (simp_all add: BestForeignRecord_consider_def ForeignClockRecordsVec_prune_stale_def
      ForeignClockRecordsVec_remember_def demo_heard_def demo_record_def ForeignClockRecord_new_def Let_def
      ForeignClockRecord_is_stale_def is_stale_iff ForeignClockRecord_same_source_as_def update_from_eq
      SlidingWindowQualification_new_unqualified_def SlidingWindowQualification_qualify_def
      BestForeignRecord_snapshot_def ForeignClockRecord_qualified_def is_qualified_iff
      QualifiedForeignClockRecord_snapshot_def demo_instants demo_window)

lemma demo_interval [simp]: "LogMessageInterval_log_interval (LogMessageInterval 0) = Some (LogInterval 0)"
  by (simp add: LogMessageInterval_log_interval_def MIN_LOG_VALUE_def MAX_LOG_VALUE_def LogInterval_new_def)

lemmas demo_build_defs =
  demo_boundary_start_def BoundaryClock_new_def PortEnumeration_sequential_def BoundaryClock_port_def
  PortEnumeration_next_def demo_infra_def demo_world_def MultiPortNotification_new_def
  MultiPortNotification_add_port_def StateDecisionEventTrigger_new_def DomainPort_new_def
  MultiPortForeignCandidates_new_def

lemmas demo_deliver_defs =
  BoundaryClock_deliver_def PortFsm_new_def decision_event_defs transition_defs profile_defs parts_defs
  PortProfile_default_def BoundaryClock_trigger_def MultiPortForeignCandidates_best_def
  MultiPortForeignCandidates_remember_def MultiPortNotification_notify_all_def demo_announce_in_def
  PortFsm_process_general_message_def PortState_dispatch_general_def ListeningPort_process_announce_def
  AnnounceMessage_feed_bmca_def ListeningBmca_consider_def ListeningBmca_new_def
  StateDecisionEventTrigger_gated_trigger_def

lemma demo_self_identity [simp]: "PortIdentity (identity demo_local_ds) (PortNumber 1) = demo_self"
  by (simp add: demo_self_def demo_local_ds_def)

lemma demo_boundary_state:
  "\<exists>c s0 s1 w. demo_boundary = Some (c, map PortFsm_new [Listening s0, Master s1], w) \<and>
     lb_best_foreign (li_bmca s0) = demo_best \<and> bc_default_ds c = demo_local_ds \<and>
     MultiPortForeignCandidates_best (bc_foreign_candidates c) = Qualified demo_master_ds demo_master demo_self \<and>
     by_port (bc_foreign_candidates c) = [(PortNumber 1, Qualified demo_master_ds demo_master demo_self)]"
  unfolding demo_boundary_def demo_inputs_def
  by (simp add: demo_build_defs demo_deliver_defs world_defs Let_def demo_best_def)

lemma demo_boundary_start_runs:
  assumes "demo_boundary_start = Some (c, fs, w)"
  shows "boundary_runs c fs w"
proof -
  obtain c0 st1 c1 w1 st2 where
    b: "BoundaryClock_new demo_local_ds (DomainNumber 0) 2 MultiPortForeignCandidates_new MultiPortNotification_new = Some c0"
      "BoundaryClock_port c0 demo_infra demo_world = Some (Some st1, c1, w1)"
      "BoundaryClock_port c1 demo_infra w1 = Some (Some st2, c, w)" "fs = map PortFsm_new [st1, st2]"
    using assms unfolding demo_boundary_start_def
    by (auto split: option.splits prod.splits)
  have "wf_world demo_world" by (simp add: demo_world_def wf_world_def)
  moreover have r: "infra_records demo_infra = ForeignClockRecordsVec_new" by (simp add: demo_infra_def)
  ultimately have "boundary_built c (([] @ [st1]) @ [st2]) w"
    by (intro boundary_port[OF boundary_port[OF boundary_empty[OF demo_wf_ds(1) _ b(1)] r b(2)] r b(3)])
  from boundary_starts[OF this] b(4) show ?thesis by simp
qed

lemma demo_boundary_run_runs:
  assumes "boundary_runs c fs w" "list_all (\<lambda>(j, i). wf_input i) ps" "demo_boundary_run ps (c, fs, w) = Some (c', fs', w')"
  shows "boundary_runs c' fs' w'"
  using assms
proof (induction ps arbitrary: c fs w)
  case Nil
  then show ?case by simp
next
  case (Cons p ps)
  obtain j i where p: "p = (j, i)" by (cases p)
  with Cons.prems(3) obtain c1 fs1 w1 where d: "BoundaryClock_deliver c fs j i w = Some (c1, fs1, w1)"
    "demo_boundary_run ps (c1, fs1, w1) = Some (c', fs', w')" by (auto simp: bind_eq_Some_conv)
  from Cons.prems(2) p have "wf_input i" "list_all (\<lambda>(j, i). wf_input i) ps" by simp_all
  with Cons.IH[OF boundary_delivers[OF Cons.prems(1) _ d(1)]] d(2) show ?case by blast
qed

lemma demo_boundary_runs:
  assumes "demo_boundary = Some (c, fs, w)"
  shows "boundary_runs c fs w"
proof -
  obtain c0 fs0 w0 where "demo_boundary_start = Some (c0, fs0, w0)"
    and "demo_boundary_run demo_inputs (c0, fs0, w0) = Some (c, fs, w)"
    using assms unfolding demo_boundary_def by (cases demo_boundary_start) (simp, metis bind.simps(2) prod_cases3)
  moreover have "list_all (\<lambda>(j, i). wf_input i) demo_inputs" by (simp add: demo_inputs_def demo_announce_in_def)
  ultimately show ?thesis using demo_boundary_run_runs[OF demo_boundary_start_runs] by blast
qed


lemma demo_slave_outcome:
  "bmca_outcome (PortNumber 1) demo_local_ds (Qualified demo_master_ds demo_master demo_self) r
     = DecideSlave (ParentPortIdentity demo_master)"
proof -
  have "fst (BestMasterClockAlgorithm_decision demo_bmca demo_local_ds (Qualified demo_master_ds demo_master demo_self) r)
      = DecideSlave (ParentPortIdentity demo_master)"
    by (simp add: decision_Slave_iff demo_bmca_def) (simp add: demo_self_def)
  then show ?thesis by (simp add: decision_outcome demo_bmca_def)
qed

definition demo_ordinary :: "(OrdinaryClock \<times> PortFsm \<times> world) option" where
  "demo_ordinary =
     (case OrdinaryClock_port (OrdinaryClock_new demo_local_ds (DomainNumber 0) PortProfile_default) demo_infra demo_world of
        Some (Some st, c, w) \<Rightarrow> Some (c, PortFsm_new st, w)
      | _ \<Rightarrow> None)"

lemma demo_ordinary_runs: "\<exists>c f w. demo_ordinary = Some (c, f, w) \<and> ordinary_runs c f w"
proof -
  obtain st c w where p: "OrdinaryClock_port (OrdinaryClock_new demo_local_ds (DomainNumber 0) PortProfile_default)
      demo_infra demo_world = Some (Some st, c, w)"
    by (simp add: OrdinaryClock_port_def OrdinaryClock_new_def PortEnumeration_single_def demo_build_defs
        profile_defs world_defs Let_def split_def)
  moreover have "wf_world demo_world" "infra_records demo_infra = ForeignClockRecordsVec_new"
    by (simp_all add: demo_world_def wf_world_def demo_infra_def)
  ultimately show ?thesis using ordinary_built[OF demo_wf_ds(1) wf_profile_default] by (simp add: demo_ordinary_def)
qed

text \<open>An announce of the better master as a frame of the network.\<close>

definition demo_frame :: bytes where
  "demo_frame = GeneralMessage_to_wire (AnnounceMsg
     \<lparr>an_sequence_id = SequenceId 0, an_log_message_interval = LogMessageInterval 0,
      an_foreign_clock_ds = demo_master_ds, an_ptp_timescale = Ptp\<rparr>) (fresh_buffer (DomainNumber 0) demo_master)"

lemma demo_frame_parses:
  "map_domain_number ports = DomainNumber 0 \<Longrightarrow>
    parse_general demo_bitflags (SingleDomainPortMap_port_by_domain ports) demo_frame =
      Inr (port_fsm ports, demo_master, AnnounceMsg
        \<lparr>an_sequence_id = SequenceId 0, an_log_message_interval = LogMessageInterval 0,
         an_foreign_clock_ds = demo_master_ds, an_ptp_timescale = Ptp\<rparr>)"
  unfolding demo_frame_def
  by (rule parse_general_to_wire[OF demo_bitflags_documented]) (simp_all add: SingleDomainPortMap_port_by_domain_def)

end
