(* ===== verification/Ptp_Node.thy ===== *)
theory Ptp_Node
  imports Ptp_Host Ptp_Egress
begin

section \<open>What an ordinary clock and its port hand to a host\<close>

text \<open>
  The hosts (\<^verbatim>\<open>rptp-daemon\<close>, \<^verbatim>\<open>rptp-embedded-demo\<close>) feed datagrams and system messages into the port of
  an ordinary clock and perform the calls that its handlers make. These lemmas say what a host can rely
  on for one message: a datagram is refused or is a well-formed message for the port, the handler
  and the state decisions it triggers keep the clock and the port in agreement, the calls are well
  formed and number the timers in order, and the handler of a transmit timestamp sends no event message.
\<close>

subsection \<open>The calls\<close>

lemma run_triggers_emits:
  assumes "OrdinaryClock_run_triggers es c w = Some (c', w')" "wf_ds (oc_default_ds c)"
    and "\<forall>(n, x) \<in> set (triggers es). \<forall>ds src rcv. x = Qualified ds src rcv \<longrightarrow> wf_ds ds"
  shows "emits_ok p w w'"
  using assms
proof (induction es c w rule: OrdinaryClock_run_triggers.induct)
  case (2 n x es c w)
  obtain c1 w1 where t: "OrdinaryClock_trigger c n x w = Some (c1, w1)" "OrdinaryClock_run_triggers es c1 w1 = Some (c', w')"
    using 2(2) by (auto split: option.splits)
  have "emits_ok p w w1 \<and> oc_default_ds c1 = oc_default_ds c"
    using t(1) 2(3,4)
    by (auto simp: OrdinaryClock_trigger_def Let_def Cell_best_def Cell_remember_def SinglePortNotification_notify_all_def
        Timeout_restart_with_message_def split: option.splits if_splits)
  with 2(1)[OF t(1)] t(2) 2(3,4) show ?case by (auto intro: emits_ok_trans)
qed simp_all

lemma ordinary_deliver_emits:
  assumes ag: "ordinary_host.agrees c [st] w" and i: "wf_input i"
    and d: "OrdinaryClock_deliver c \<lparr>fsm_state = Some st\<rparr> i w = Some (c', f', w'')"
  shows "emits_ok (state_port st) w w''"
proof -
  let ?f = "\<lparr>fsm_state = Some st\<rparr>"
  obtain w' where f: "PortFsm_input ?f i w = Some (f', w')"
    "OrdinaryClock_run_triggers (drop (length (trace w)) (trace w')) c w' = Some (c', w'')"
    using d by (auto simp: OrdinaryClock_deliver_def split: option.splits)
  note A = ag[unfolded ordinary_host.agrees_def]
  have wf: "wf_state st" "records_wf (state_records st)" "wf_ds (oc_default_ds c)" using A by simp_all
  have inv: "fsm_inv (others st w) (?f, w)" using ordinary_host.agrees_inv[OF ag, of 0] by simp
  obtain st' ts where st': "fsm_state f' = Some st'" "extends ts w w'"
    "set ts \<subseteq> {(received_on_port (snd (snd (state_parts st))), BestForeignRecord_snapshot (state_records st'))}"
    using input_reports[OF inv _ i f(1), of st, OF _ that] by simp
  have rwf: "records_wf (state_records st')" using input_records_wf[OF _ f(1) st'(1) i, of st] wf(2) by simp
  have "emits_ok (state_port st) w w'" using input_emits[OF _ wf(1) i f(1)] by simp
  moreover have "emits_ok (state_port st) w' w''"
  proof (rule run_triggers_emits[OF f(2) wf(3)])
    have "triggers (drop (length (trace w)) (trace w')) = ts" using st'(2) by (auto simp: extends_def)
    moreover have "BestForeignRecord_snapshot (state_records st') = x" if "(n, x) \<in> set ts" for n x
      using st'(3) that by auto
    ultimately show "\<forall>(n, x) \<in> set (triggers (drop (length (trace w)) (trace w'))).
        \<forall>ds src rcv. x = Qualified ds src rcv \<longrightarrow> wf_ds ds"
      using records_wf_snapshot[OF rwf] by blast
  qed
  ultimately show ?thesis by (rule emits_ok_trans)
qed

lemma ordinary_handled:
  assumes ag: "ordinary_host.agrees c [st] w" and i: "wf_input i"
    and f: "PortFsm_input \<lparr>fsm_state = Some st\<rparr> i w = Some (f', w')"
  obtains c2 w2 es st2 where "OrdinaryClock_run_triggers (drop (length (trace w)) (trace w')) c w' = Some (c2, w2)"
    "f' = \<lparr>fsm_state = Some st2\<rparr>" "ordinary_host.agrees c2 [st2] w2" "trace w2 = trace w @ es"
    "list_all (frame_ok (state_port st)) es" "numbered (next_timer w) es = Some (next_timer w2)"
proof -
  have wf: "wf_state st" using ag by (simp add: ordinary_host.agrees_def)
  have "\<not> stale_announce_timeout st i" using input_panics_iff[of "\<lparr>fsm_state = Some st\<rparr>" st i w] wf i f by simp
  then obtain c2 f2 w2 where d: "OrdinaryClock_deliver c \<lparr>fsm_state = Some st\<rparr> i w = Some (c2, f2, w2)"
    using ordinary_deliver_agrees(1)[OF ag i] by (cases "OrdinaryClock_deliver c \<lparr>fsm_state = Some st\<rparr> i w") auto
  then have t: "f2 = f'" "OrdinaryClock_run_triggers (drop (length (trace w)) (trace w')) c w' = Some (c2, w2)"
    using f by (auto simp: OrdinaryClock_deliver_def)
  show ?thesis
    using that[OF t(2)] ordinary_deliver_agrees(2)[OF ag i d] ordinary_deliver_emits[OF ag i d] t(1)
    by (auto simp: emits_ok_def)
qed

text \<open>A datagram is refused, or is a well-formed message for the port.\<close>

lemma ingress_cases:
  assumes "port_fsm ports = \<lparr>fsm_state = Some st\<rparr>" "wf_state st" "wf_ts ts"
  shows "(\<exists>e. MessageIngress_receive_event bf ports b ts w = Some (Inl e, ports, w)) \<or>
      (\<exists>i f' w'. wf_input i \<and> PortFsm_input \<lparr>fsm_state = Some st\<rparr> i w = Some (f', w') \<and>
         MessageIngress_receive_event bf ports b ts w = Some (Inr (), ports\<lparr>port_fsm := f'\<rparr>, w'))"
    and "(\<exists>e. MessageIngress_receive_general bf ports b now w = Some (Inl e, ports, w)) \<or>
      (\<exists>i f' w'. wf_input i \<and> PortFsm_input \<lparr>fsm_state = Some st\<rparr> i w = Some (f', w') \<and>
         MessageIngress_receive_general bf ports b now w = Some (Inr (), ports\<lparr>port_fsm := f'\<rparr>, w'))"
proof -
  have go: "\<exists>f' w'. PortFsm_input \<lparr>fsm_state = Some st\<rparr> i w = Some (f', w')"
    if "wf_input i" "\<not> stale_announce_timeout st i" for i
    using input_panics_iff[of "\<lparr>fsm_state = Some st\<rparr>" st i w] assms(2) that
    by (cases "PortFsm_input \<lparr>fsm_state = Some st\<rparr> i w") auto
  show "(\<exists>e. MessageIngress_receive_event bf ports b ts w = Some (Inl e, ports, w)) \<or>
      (\<exists>i f' w'. wf_input i \<and> PortFsm_input \<lparr>fsm_state = Some st\<rparr> i w = Some (f', w') \<and>
         MessageIngress_receive_event bf ports b ts w = Some (Inr (), ports\<lparr>port_fsm := f'\<rparr>, w'))"
  proof (cases "parse_event bf (SingleDomainPortMap_port_by_domain ports) b")
    case (Inr r)
    obtain f src m where r: "r = (f, src, m)" by (cases r)
    have "f = port_fsm ports" by (rule parse_event_Inr[OF Inr[unfolded r]]) (simp add: lookup_Inr)
    moreover have "wf_input (EventIn src m ts)" using parse_event_wf[OF Inr[unfolded r]] assms(3) by simp
    moreover from this obtain f' w' where "PortFsm_input \<lparr>fsm_state = Some st\<rparr> (EventIn src m ts) w = Some (f', w')"
      using go[OF _ event_general_never_stale(1)] by blast
    ultimately show ?thesis
      using Inr r assms(1)
      by (intro disjI2 exI[of _ "EventIn src m ts"] exI[of _ f'] exI[of _ w']) (simp add: MessageIngress_receive_event_def)
  qed (simp add: MessageIngress_receive_event_def)
  show "(\<exists>e. MessageIngress_receive_general bf ports b now w = Some (Inl e, ports, w)) \<or>
      (\<exists>i f' w'. wf_input i \<and> PortFsm_input \<lparr>fsm_state = Some st\<rparr> i w = Some (f', w') \<and>
         MessageIngress_receive_general bf ports b now w = Some (Inr (), ports\<lparr>port_fsm := f'\<rparr>, w'))"
  proof (cases "parse_general bf (SingleDomainPortMap_port_by_domain ports) b")
    case (Inr r)
    obtain f src m where r: "r = (f, src, m)" by (cases r)
    have "f = port_fsm ports" by (rule parse_general_Inr[OF Inr[unfolded r]]) (simp add: lookup_Inr)
    moreover have "wf_input (GeneralIn src m now)" using parse_general_wf[OF Inr[unfolded r]] by simp
    moreover from this obtain f' w' where "PortFsm_input \<lparr>fsm_state = Some st\<rparr> (GeneralIn src m now) w = Some (f', w')"
      using go[OF _ event_general_never_stale(2)] by blast
    ultimately show ?thesis
      using Inr r assms(1)
      by (intro disjI2 exI[of _ "GeneralIn src m now"] exI[of _ f'] exI[of _ w']) (simp add: MessageIngress_receive_general_def)
  qed (simp add: MessageIngress_receive_general_def)
qed

subsection \<open>Requests for transmit timestamps\<close>

fun is_stamp :: "effect \<Rightarrow> bool" where
  "is_stamp (StampEgress m) \<longleftrightarrow> True"
| "is_stamp _ \<longleftrightarrow> False"

definition stamps :: "effect list \<Rightarrow> nat" where
  "stamps es = length (filter is_stamp es)"

lemma stamps_simps [simp]:
  "stamps [] = 0" "stamps (e # es) = (if is_stamp e then 1 else 0) + stamps es" "stamps (xs @ ys) = stamps xs + stamps ys"
  by (simp_all add: stamps_def)

definition quiet :: "world \<Rightarrow> world \<Rightarrow> bool" where
  "quiet w w' \<longleftrightarrow> (\<exists>es. trace w' = trace w @ es \<and> stamps es = 0)"

lemma quiet_refl [simp]: "quiet w w"
  by (simp add: quiet_def)

lemma quiet_trans: "quiet u v \<Longrightarrow> quiet v w \<Longrightarrow> quiet u w"
  by (auto simp: quiet_def)

lemma quiet_emit [simp]: "\<not> is_stamp e \<Longrightarrow> quiet v w \<Longrightarrow> quiet v (emit e w)" "quiet v (w\<lparr>next_timer := n\<rparr>) = quiet v w"
  by (auto simp: quiet_def emit_def)

lemma quiet_send [simp]: "quiet v w \<Longrightarrow> quiet v (snd (DomainPort_send_general p g w))"
  by (auto simp: DomainPort_send_general_def Let_def)

lemma Servo_feed_quiet:
  assumes "Servo_feed v s w = Some (st, v', w')" "quiet u w"
  shows "quiet u w'"
  using assms
  by (cases v)
    (auto simp: SteppingServo_feed_def PiServo_feed_def PiServo_step_def PiServo_calibrate_def
      PiLoop_feed_def ServoSample_log_def world_defs Let_def
      split: option.splits prod.splits ServoStepDecision.splits if_splits)

lemma timestamp_quiet:
  assumes "PortState_dispatch_system st (Timestamp m) w = Some (d, st', w')"
  shows "quiet w w'"
  using assms
  by (cases st)
    (auto simp: PortState_dispatch_system_def Let_def split_def MasterPort_send_follow_up_def
        SlavePort_process_delay_request_def UncalibratedPort_process_delay_request_def
        world_defs
        intro: Servo_feed_quiet split: SendResult.splits EventMessage.splits option.splits if_splits)

lemma apply_quiet:
  assumes "PortState_apply st d w = Some (st', w')"
  shows "quiet w w'"
  using assms
  by (cases d; cases st)
    (auto simp: PortState_apply_def transition_defs profile_defs parts_defs world_defs Let_def)

lemma run_triggers_quiet:
  assumes "OrdinaryClock_run_triggers es c w = Some (c', w')"
  shows "quiet w w'"
  using assms
proof (induction es c w rule: OrdinaryClock_run_triggers.induct)
  case (2 n x es c w)
  obtain c1 w1 where t: "OrdinaryClock_trigger c n x w = Some (c1, w1)" "OrdinaryClock_run_triggers es c1 w1 = Some (c', w')"
    using 2(2) by (auto split: option.splits)
  have "quiet w w1"
    using t(1)
    by (auto simp: OrdinaryClock_trigger_def Let_def SinglePortNotification_notify_all_def
        Timeout_restart_with_message_def split: option.splits if_splits)
  with 2(1)[OF t(1)] t(2) show ?case by (auto intro: quiet_trans)
qed simp_all

lemma timestamp_input_quiet:
  assumes "PortFsm_input \<lparr>fsm_state = Some st\<rparr> (SystemIn (Timestamp m)) w = Some (f', w')"
  shows "quiet w w'"
proof -
  have "fsm_state \<lparr>fsm_state = Some st\<rparr> = Some st" by simp
  then show ?thesis
    using assms
  proof (cases rule: input_cases)
    case (stays st1)
    then show ?thesis using timestamp_quiet by simp
  next
    case (moves d st1 w1 st')
    then show ?thesis using timestamp_quiet[of st m w] apply_quiet[OF moves(2)] by (auto intro: quiet_trans)
  qed
qed

subsection \<open>Announce receipt timeouts\<close>

text \<open>The states that become master when their announce receipt timeout expires.\<close>

fun times_out :: "PortState \<Rightarrow> bool" where
  "times_out (Listening s) \<longleftrightarrow> True"
| "times_out (Uncalibrated s) \<longleftrightarrow> True"
| "times_out (Slave s) \<longleftrightarrow> True"
| "times_out (Passive s) \<longleftrightarrow> True"
| "times_out _ \<longleftrightarrow> False"

lemma timeout_makes_master:
  assumes "times_out st" "PortFsm_process_system_message \<lparr>fsm_state = Some st\<rparr> AnnounceReceiptTimeout w = Some (f', w')"
  shows "\<exists>m. f' = \<lparr>fsm_state = Some (Master m)\<rparr>"
  using assms by (cases st) (auto simp: decision_event_defs transition_defs profile_defs parts_defs Let_def split_def)

lemma run_triggers_notification:
  assumes "OrdinaryClock_run_triggers es c w = Some (c', w')"
  shows "oc_port_notification c' = oc_port_notification c"
  using assms
proof (induction es c w rule: OrdinaryClock_run_triggers.induct)
  case (2 n x es c w)
  obtain c1 w1 where t: "OrdinaryClock_trigger c n x w = Some (c1, w1)" "OrdinaryClock_run_triggers es c1 w1 = Some (c', w')"
    using 2(2) by (auto split: option.splits)
  have "oc_port_notification c1 = oc_port_notification c"
    using t(1) by (auto simp: OrdinaryClock_trigger_def Let_def SinglePortNotification_notify_all_def split: option.splits)
  with 2(1)[OF t(1)] t(2) show ?case by auto
qed simp_all

end
