(* ===== verification/Ptp_Heapless.thy ===== *)
theory Ptp_Heapless
  imports Ptp_Foreign
begin

section \<open>The fixed-capacity record store (heapless.rs)\<close>

text \<open>
  Models \<^verbatim>\<open>crates/rptp/src/heapless.rs\<close>: the implementation of \<open>ForeignClockRecords\<close> over the
  fixed-capacity vector of the \<open>heapless\<close> crate, with its replacement policy. The crate is not
  part of the sources: its vector is a parameter \<open>hv\<close> of the definitions, and
  \<open>documented_heapless\<close> is what its documentation says of the operations the store calls:

  \<^item> \<open>push\<close> appends an element, or gives it back and leaves the vector alone when \<open>N\<close> elements are stored;
  \<^item> \<open>remove\<close> takes an element out and shifts those after it, and panics out of bounds;
  \<^item> \<open>retain\<close> keeps the elements that satisfy a predicate, in their order;
  \<^item> the elements are read and written in place through the slice of the vector.
\<close>

record 'v heapless_vec =
  hv_new :: 'v
  hv_slice :: "'v \<Rightarrow> ForeignClockRecord list"
  hv_write :: "'v \<Rightarrow> nat \<Rightarrow> ForeignClockRecord \<Rightarrow> 'v"
  hv_push :: "'v \<Rightarrow> ForeignClockRecord \<Rightarrow> bool \<times> 'v"
  hv_remove :: "'v \<Rightarrow> nat \<Rightarrow> 'v option"
  hv_retain :: "'v \<Rightarrow> (ForeignClockRecord \<Rightarrow> bool) \<Rightarrow> 'v"

definition documented_heapless :: "nat \<Rightarrow> 'v heapless_vec \<Rightarrow> bool" where
  "documented_heapless n hv \<longleftrightarrow>
     hv_slice hv (hv_new hv) = [] \<and>
     (\<forall>v i r. i < length (hv_slice hv v) \<longrightarrow> hv_slice hv (hv_write hv v i r) = (hv_slice hv v)[i := r]) \<and>
     (\<forall>v r. if length (hv_slice hv v) < n
        then fst (hv_push hv v r) \<and> hv_slice hv (snd (hv_push hv v r)) = hv_slice hv v @ [r]
        else hv_push hv v r = (False, v)) \<and>
     (\<forall>v i. if i < length (hv_slice hv v)
        then \<exists>v'. hv_remove hv v i = Some v' \<and>
          hv_slice hv v' = take i (hv_slice hv v) @ drop (Suc i) (hv_slice hv v)
        else hv_remove hv v i = None) \<and>
     (\<forall>v p. hv_slice hv (hv_retain hv v p) = filter p (hv_slice hv v))"

subsection \<open>The replacement policy\<close>

definition RemovalPolicy_step ::
    "ForeignClockRecord list \<Rightarrow> ForeignClockRecord \<Rightarrow> PortIdentity \<Rightarrow> nat option \<Rightarrow> nat \<times> ForeignClockRecord \<Rightarrow>
     nat option" where
  "RemovalPolicy_step stored candidate rcv worst_index = (\<lambda>(i, record).
     if ForeignClockRecord_is_better_than candidate record rcv then
       (case worst_index of
          None \<Rightarrow> Some i
        | Some w \<Rightarrow>
            if ForeignClockRecord_is_better_than record (stored ! w) rcv then Some w else Some i)
     else worst_index)"

definition RemovalPolicy_candidate_index ::
    "ForeignClockRecord list \<Rightarrow> ForeignClockRecord \<Rightarrow> PortIdentity \<Rightarrow> nat option" where
  "RemovalPolicy_candidate_index stored candidate rcv =
     foldl (RemovalPolicy_step stored candidate rcv) None (List.enumerate 0 stored)"

subsection \<open>The store\<close>

record 'v HeaplessForeignClockRecords =
  hf_records :: 'v
  hf_receiver :: PortIdentity

definition HeaplessForeignClockRecords_new :: "'v heapless_vec \<Rightarrow> PortIdentity \<Rightarrow> 'v HeaplessForeignClockRecords" where
  "HeaplessForeignClockRecords_new hv rcv = \<lparr>hf_records = hv_new hv, hf_receiver = rcv\<rparr>"

text \<open>\<open>iter_mut().find(p)\<close> as the index of the element found.\<close>

fun find_index :: "('a \<Rightarrow> bool) \<Rightarrow> 'a list \<Rightarrow> nat option" where
  "find_index p [] = None"
| "find_index p (x # xs) = (if p x then Some 0 else map_option Suc (find_index p xs))"

text \<open>\<open>None\<close> is a panic: an index out of bounds, or the failed assertion of the second \<open>push\<close>.\<close>

definition HeaplessForeignClockRecords_remember ::
    "'v heapless_vec \<Rightarrow> 'v HeaplessForeignClockRecords \<Rightarrow> ForeignClockRecord \<Rightarrow> 'v HeaplessForeignClockRecords option" where
  "HeaplessForeignClockRecords_remember hv s record =
     (let stored = hv_slice hv (hf_records s) in
      case find_index (\<lambda>r. ForeignClockRecord_same_source_as r (source_port_identity record)) stored of
        Some i \<Rightarrow>
          (let existing = snd (ForeignClockRecord_update_from (stored ! i) record)
           in Some (s\<lparr>hf_records := hv_write hv (hf_records s) i existing\<rparr>))
      | None \<Rightarrow>
          (let (is_ok, v) = hv_push hv (hf_records s) record in
           if is_ok then Some (s\<lparr>hf_records := v\<rparr>)
           else
             (case RemovalPolicy_candidate_index (hv_slice hv v) record (hf_receiver s) of
                None \<Rightarrow> Some (s\<lparr>hf_records := v\<rparr>)
              | Some index \<Rightarrow>
                  (case hv_remove hv v index of
                     None \<Rightarrow> None
                   | Some v \<Rightarrow>
                       (let (is_ok, v) = hv_push hv v record
                        in if is_ok then Some (s\<lparr>hf_records := v\<rparr>) else None)))))"

definition HeaplessForeignClockRecords_iter ::
    "'v heapless_vec \<Rightarrow> 'v HeaplessForeignClockRecords \<Rightarrow> ForeignClockRecord list" where
  "HeaplessForeignClockRecords_iter hv s = hv_slice hv (hf_records s)"

definition HeaplessForeignClockRecords_prune_stale ::
    "'v heapless_vec \<Rightarrow> 'v HeaplessForeignClockRecords \<Rightarrow> Instant \<Rightarrow> bool \<times> 'v HeaplessForeignClockRecords" where
  "HeaplessForeignClockRecords_prune_stale hv s now =
     (let before = length (hv_slice hv (hf_records s));
          s = s\<lparr>hf_records := hv_retain hv (hf_records s) (\<lambda>record. \<not> ForeignClockRecord_is_stale record now)\<rparr>
      in (length (hv_slice hv (hf_records s)) \<noteq> before, s))"

subsection \<open>Lemmas: searching\<close>

lemma find_index_Some:
  "find_index p xs = Some i \<Longrightarrow> i < length xs \<and> p (xs ! i) \<and> (\<forall>j < i. \<not> p (xs ! j))"
  by (induction xs arbitrary: i) (auto simp: nth_Cons less_Suc_eq_0_disj split: if_splits nat.splits)

lemma find_index_None: "find_index p xs = None \<longleftrightarrow> (\<forall>x \<in> set xs. \<not> p x)"
  by (induction xs) auto

lemma update_first_find_index:
  "update_first p f xs = map_option (\<lambda>i. xs[i := f (xs ! i)]) (find_index p xs)"
  by (induction xs) (auto simp: option.map_comp comp_def)

text \<open>What the scan of the policy has found after the records at the indices below \<open>k\<close>.\<close>

definition policy_inv :: "ForeignClockRecord list \<Rightarrow> ForeignClockRecord \<Rightarrow> PortIdentity \<Rightarrow> nat \<Rightarrow> nat option \<Rightarrow> bool" where
  "policy_inv stored cand rcv k worst \<longleftrightarrow>
     (case worst of
        None \<Rightarrow> \<forall>i < k. \<not> ForeignClockRecord_is_better_than cand (stored ! i) rcv
      | Some w \<Rightarrow> w < k \<and> ForeignClockRecord_is_better_than cand (stored ! w) rcv)"

lemma policy_scan:
  assumes "\<And>k worst. k < length stored \<Longrightarrow> I k worst \<Longrightarrow>
      I (Suc k) (RemovalPolicy_step stored cand rcv worst (k, stored ! k))"
    and "I 0 None"
  shows "I (length stored) (RemovalPolicy_candidate_index stored cand rcv)"
proof -
  have "I k (foldl (RemovalPolicy_step stored cand rcv) None (take k (List.enumerate 0 stored)))"
    if "k \<le> length stored" for k
    using that
  proof (induction k)
    case 0
    then show ?case using assms(2) by simp
  next
    case (Suc k)
    then show ?case
      using assms(1)[of k] by (simp add: take_Suc_conv_app_nth nth_enumerate_eq)
  qed
  from this[of "length stored"] show ?thesis by (simp add: RemovalPolicy_candidate_index_def)
qed

lemma candidate_index_inv: "policy_inv stored cand rcv (length stored) (RemovalPolicy_candidate_index stored cand rcv)"
  by (rule policy_scan) (auto simp: policy_inv_def RemovalPolicy_step_def less_Suc_eq split: option.splits)


text \<open>Among comparable records the policy chooses one of largest rank.\<close>

definition comparable :: "PortIdentity \<Rightarrow> ForeignClockRecord set \<Rightarrow> bool" where
  "comparable rcv rs \<longleftrightarrow> (\<forall>r \<in> rs. source_port_identity r \<noteq> rcv \<and>
     (\<forall>r' \<in> rs. consistent_ds (foreign_clock_ds r) (foreign_clock_ds r')))"

abbreviation record_rank :: "PortIdentity \<Rightarrow> ForeignClockRecord \<Rightarrow>
    (u8 \<times> u8 \<times> u8 \<times> u16 \<times> u8 \<times> ClockIdentity) \<times> nat \<times> PortIdentity \<times> PortNumber" where
  "record_rank rcv r \<equiv> rank (foreign_clock_ds r) (source_port_identity r) rcv"

lemma comparable_better:
  "comparable rcv rs \<Longrightarrow> r \<in> rs \<Longrightarrow> r' \<in> rs \<Longrightarrow>
    ForeignClockRecord_is_better_than r r' rcv \<longleftrightarrow> record_rank rcv r < record_rank rcv r'"
  by (simp add: ForeignClockRecord_is_better_than_def better_iff_rank comparable_def)

lemma candidate_index_worst:
  assumes cmp: "comparable rcv (insert cand (set stored))"
    and w: "RemovalPolicy_candidate_index stored cand rcv = Some w" and x: "x \<in> set stored"
  shows "record_rank rcv x \<le> record_rank rcv (stored ! w)"
proof -
  let ?k = "record_rank rcv"
  let ?I = "\<lambda>k worst. policy_inv stored cand rcv k worst \<and>
    (\<forall>w. worst = Some w \<longrightarrow> (\<forall>i < k. ?k cand < ?k (stored ! i) \<longrightarrow> ?k (stored ! i) \<le> ?k (stored ! w)))"
  have better: "ForeignClockRecord_is_better_than a b rcv \<longleftrightarrow> ?k a < ?k b"
    if "a \<in> insert cand (set stored)" "b \<in> insert cand (set stored)" for a b
    using comparable_better[OF cmp that] .
  have "?I (length stored) (RemovalPolicy_candidate_index stored cand rcv)"
  proof (rule policy_scan)
    fix k worst
    assume k: "k < length stored" and inv: "?I k worst"
    then show "?I (Suc k) (RemovalPolicy_step stored cand rcv worst (k, stored ! k))"
      by (auto simp: policy_inv_def RemovalPolicy_step_def less_Suc_eq better split: option.splits if_splits)
  qed (simp add: policy_inv_def)
  with w have I: "w < length stored" "?k cand < ?k (stored ! w)"
    "\<forall>i < length stored. ?k cand < ?k (stored ! i) \<longrightarrow> ?k (stored ! i) \<le> ?k (stored ! w)"
    by (auto simp: policy_inv_def better)
  obtain i where "i < length stored" "x = stored ! i" using x by (auto simp: in_set_conv_nth)
  with I show ?thesis by (cases "?k cand < ?k x") auto
qed

subsection \<open>The store implements the record interface\<close>

definition wf_heapless :: "nat \<Rightarrow> 'v heapless_vec \<Rightarrow> 'v HeaplessForeignClockRecords \<Rightarrow> bool" where
  "wf_heapless n hv s \<longleftrightarrow> length (HeaplessForeignClockRecords_iter hv s) \<le> n \<and>
     distinct (map source_port_identity (HeaplessForeignClockRecords_iter hv s))"

locale heapless_store =
  fixes hv :: "'v heapless_vec" and n :: nat
  assumes documented: "documented_heapless n hv"
begin

lemma slice_new [simp]: "hv_slice hv (hv_new hv) = []"
  using documented by (simp add: documented_heapless_def)

lemma slice_write: "i < length (hv_slice hv v) \<Longrightarrow> hv_slice hv (hv_write hv v i r) = (hv_slice hv v)[i := r]"
  using documented by (simp add: documented_heapless_def)

lemma slice_retain [simp]: "hv_slice hv (hv_retain hv v p) = filter p (hv_slice hv v)"
  using documented by (simp add: documented_heapless_def)

lemma push_full: "n \<le> length (hv_slice hv v) \<Longrightarrow> hv_push hv v r = (False, v)"
  using documented by (auto simp: documented_heapless_def not_less)

lemma push_ok:
  assumes "length (hv_slice hv v) < n"
  obtains v' where "hv_push hv v r = (True, v')" "hv_slice hv v' = hv_slice hv v @ [r]"
proof -
  have "fst (hv_push hv v r) \<and> hv_slice hv (snd (hv_push hv v r)) = hv_slice hv v @ [r]"
    using documented assms by (auto simp: documented_heapless_def)
  then show ?thesis using that[of "snd (hv_push hv v r)"] by (cases "hv_push hv v r") auto
qed

lemma remove_ok:
  assumes "i < length (hv_slice hv v)"
  obtains v' where "hv_remove hv v i = Some v'" "hv_slice hv v' = take i (hv_slice hv v) @ drop (Suc i) (hv_slice hv v)"
proof -
  have "\<exists>v'. hv_remove hv v i = Some v' \<and> hv_slice hv v' = take i (hv_slice hv v) @ drop (Suc i) (hv_slice hv v)"
    using documented assms unfolding documented_heapless_def by meson
  with that show ?thesis by blast
qed

text \<open>What \<open>remember\<close> leaves in the store; in particular it does not panic.\<close>

definition remembered :: "PortIdentity \<Rightarrow> ForeignClockRecord \<Rightarrow> ForeignClockRecord list \<Rightarrow> ForeignClockRecord list" where
  "remembered rcv r rs =
     (case find_index (\<lambda>x. source_port_identity x = source_port_identity r) rs of
        Some i \<Rightarrow> rs[i := snd (ForeignClockRecord_update_from (rs ! i) r)]
      | None \<Rightarrow>
          if length rs < n then rs @ [r]
          else (case RemovalPolicy_candidate_index rs r rcv of
                  Some w \<Rightarrow> take w rs @ drop (Suc w) rs @ [r] | None \<Rightarrow> rs))"

lemma remember_iter:
  assumes "wf_heapless n hv s"
  obtains s' where "HeaplessForeignClockRecords_remember hv s r = Some s'" "hf_receiver s' = hf_receiver s"
    "HeaplessForeignClockRecords_iter hv s' = remembered (hf_receiver s) r (HeaplessForeignClockRecords_iter hv s)"
proof -
  let ?v = "hf_records s"
  let ?rs = "hv_slice hv ?v"
  note defs = HeaplessForeignClockRecords_remember_def ForeignClockRecord_same_source_as_def Let_def
    HeaplessForeignClockRecords_iter_def remembered_def
  have "\<exists>s'. HeaplessForeignClockRecords_remember hv s r = Some s' \<and> hf_receiver s' = hf_receiver s \<and>
    HeaplessForeignClockRecords_iter hv s' = remembered (hf_receiver s) r (HeaplessForeignClockRecords_iter hv s)"
  proof (cases "find_index (\<lambda>x. source_port_identity x = source_port_identity r) ?rs")
    case (Some i)
    with find_index_Some[OF this] show ?thesis by (simp add: defs slice_write)
  next
    case None
    show ?thesis
    proof (cases "length ?rs < n")
      case True
      obtain v' where "hv_push hv ?v r = (True, v')" "hv_slice hv v' = ?rs @ [r]" by (rule push_ok[OF True])
      with None True show ?thesis by (simp add: defs)
    next
      case False
      note full = push_full[of ?v r]
      show ?thesis
      proof (cases "RemovalPolicy_candidate_index ?rs r (hf_receiver s)")
        case None': None
        with None False full show ?thesis by (simp add: defs)
      next
        case (Some w)
        have w: "w < length ?rs" using candidate_index_inv[of ?rs r "hf_receiver s"] Some by (simp add: policy_inv_def)
        obtain v1 where v1: "hv_remove hv ?v w = Some v1" "hv_slice hv v1 = take w ?rs @ drop (Suc w) ?rs"
          by (rule remove_ok[OF w])
        have "length (hv_slice hv v1) < n"
          using v1(2) w assms by (auto simp: wf_heapless_def HeaplessForeignClockRecords_iter_def)
        then obtain v2 where "hv_push hv v1 r = (True, v2)" "hv_slice hv v2 = hv_slice hv v1 @ [r]"
          by (rule push_ok)
        with None Some False full v1 show ?thesis by (simp add: defs)
      qed
    qed
  qed
  with that show ?thesis by blast
qed

lemma distinct_drop_one:
  assumes "distinct (map f rs)" "w < length rs"
  shows "distinct (map f (take w rs @ drop (Suc w) rs))" "set (take w rs @ drop (Suc w) rs) = set rs - {rs ! w}"
proof -
  have rs: "take w rs @ rs ! w # drop (Suc w) rs = rs" using assms(2) by (rule id_take_nth_drop[symmetric])
  from assms(1) have d: "distinct (map f (take w rs @ rs ! w # drop (Suc w) rs))" by (simp only: rs)
  then show "distinct (map f (take w rs @ drop (Suc w) rs))" by auto
  have "set (take w rs @ rs ! w # drop (Suc w) rs) = set rs" by (simp only: rs)
  moreover have "rs ! w \<notin> set (take w rs @ drop (Suc w) rs)" using d by (auto simp: image_iff)
  ultimately show "set (take w rs @ drop (Suc w) rs) = set rs - {rs ! w}" by auto
qed

lemma remembered_wf:
  assumes "distinct (map source_port_identity rs)" "length rs \<le> n"
  shows "distinct (map source_port_identity (remembered rcv r rs))" "length (remembered rcv r rs) \<le> n"
proof -
  note none = find_index_None[of "\<lambda>x. source_port_identity x = source_port_identity r" rs]
  have w: "w < length rs" if "RemovalPolicy_candidate_index rs r rcv = Some w" for w
    using candidate_index_inv[of rs r rcv] that by (simp add: policy_inv_def)
  show "length (remembered rcv r rs) \<le> n"
    using assms(2) w by (auto simp: remembered_def split: option.splits)
  show "distinct (map source_port_identity (remembered rcv r rs))"
  proof (cases "find_index (\<lambda>x. source_port_identity x = source_port_identity r) rs")
    case (Some i)
    with find_index_Some[OF this] assms(1) show ?thesis
      by (simp add: remembered_def map_update distinct_list_update)
  next
    case None
    with none have new: "source_port_identity r \<notin> set (map source_port_identity rs)" by force
    show ?thesis
    proof (cases "length rs < n \<or> RemovalPolicy_candidate_index rs r rcv = None")
      case True
      with None new assms(1) show ?thesis by (auto simp: remembered_def)
    next
      case False
      then obtain i where i: "RemovalPolicy_candidate_index rs r rcv = Some i" by auto
      have "set (take i rs @ drop (Suc i) rs) \<subseteq> set rs" using distinct_drop_one(2)[OF assms(1) w[OF i]] by simp
      then have "source_port_identity r \<notin> source_port_identity ` set (take i rs @ drop (Suc i) rs)"
        using new by auto
      with distinct_drop_one(1)[OF assms(1) w[OF i]] i None False show ?thesis by (auto simp: remembered_def)
    qed
  qed
qed

lemma remember_wf:
  assumes "wf_heapless n hv s"
  shows "wf_heapless n hv (the (HeaplessForeignClockRecords_remember hv s r))"
  by (rule remember_iter[OF assms, of r]) (use assms remembered_wf in \<open>simp add: wf_heapless_def\<close>)

lemma iter_prune_stale:
  "HeaplessForeignClockRecords_iter hv (snd (HeaplessForeignClockRecords_prune_stale hv s now))
     = filter (\<lambda>r. \<not> ForeignClockRecord_is_stale r now) (HeaplessForeignClockRecords_iter hv s)"
  by (simp add: HeaplessForeignClockRecords_iter_def HeaplessForeignClockRecords_prune_stale_def Let_def)

lemma prune_wf:
  assumes "wf_heapless n hv s"
  shows "wf_heapless n hv (snd (HeaplessForeignClockRecords_prune_stale hv s now))"
  using assms le_trans[OF length_filter_le]
  by (auto simp: wf_heapless_def iter_prune_stale distinct_map_filter)

lemma set_remembered_known:
  assumes "distinct (map source_port_identity rs)" "e \<in> set rs" "source_port_identity e = source_port_identity r"
  shows "set (remembered rcv r rs) = insert (snd (ForeignClockRecord_update_from e r)) (set rs - {e})"
proof -
  obtain i where i: "find_index (\<lambda>x. source_port_identity x = source_port_identity r) rs = Some i"
    using find_index_None[of "\<lambda>x. source_port_identity x = source_port_identity r" rs] assms(2,3) by fastforce
  note at = find_index_Some[OF i]
  then have "rs ! i = e" using assms by (metis distinct_map inj_onD nth_mem)
  moreover have "distinct rs" using assms(1) by (simp add: distinct_map)
  ultimately show ?thesis using i at by (auto simp: remembered_def set_update_distinct)
qed

lemma set_remembered_unknown:
  assumes "\<forall>e \<in> set rs. source_port_identity e \<noteq> source_port_identity r"
  shows "set (remembered rcv r rs) \<subseteq> insert r (set rs)"
proof -
  have "find_index (\<lambda>x. source_port_identity x = source_port_identity r) rs = None"
    using assms by (simp add: find_index_None)
  then show ?thesis by (auto simp: remembered_def dest: in_set_takeD in_set_dropD split: option.splits)
qed

end

sublocale heapless_store \<subseteq> store: clock_records
  "\<lambda>s r. the (HeaplessForeignClockRecords_remember hv s r)" "HeaplessForeignClockRecords_iter hv"
  "HeaplessForeignClockRecords_prune_stale hv" "wf_heapless n hv"
proof (unfold_locales, goal_cases)
  case (1 s)
  then show ?case by (simp add: wf_heapless_def)
next
  case (2 s r)
  then show ?case by (rule remember_wf)
next
  case (3 s now)
  then show ?case by (rule prune_wf)
next
  case (4 s now)
  then show ?case by (simp add: iter_prune_stale)
next
  case (5 s e r)
  obtain s' where "HeaplessForeignClockRecords_remember hv s r = Some s'"
    "HeaplessForeignClockRecords_iter hv s' = remembered (hf_receiver s) r (HeaplessForeignClockRecords_iter hv s)"
    using remember_iter[OF 5(1)] by metis
  with set_remembered_known 5 show ?case by (simp add: wf_heapless_def)
next
  case (6 s r)
  obtain s' where "HeaplessForeignClockRecords_remember hv s r = Some s'"
    "HeaplessForeignClockRecords_iter hv s' = remembered (hf_receiver s) r (HeaplessForeignClockRecords_iter hv s)"
    using remember_iter[OF 6(1)] by metis
  with set_remembered_unknown 6(2) show ?case by simp
qed

text \<open>The vector as a list of bounded length, an instance of what the crate documents.\<close>

definition bounded_list :: "nat \<Rightarrow> ForeignClockRecord list heapless_vec" where
  "bounded_list n =
     \<lparr>hv_new = [], hv_slice = (\<lambda>v. v), hv_write = (\<lambda>v i r. v[i := r]),
      hv_push = (\<lambda>v r. if length v < n then (True, v @ [r]) else (False, v)),
      hv_remove = (\<lambda>v i. if i < length v then Some (take i v @ drop (Suc i) v) else None),
      hv_retain = (\<lambda>v p. filter p v)\<rparr>"

lemma bounded_list_documented: "documented_heapless n (bounded_list n)"
  by (simp add: documented_heapless_def bounded_list_def)

interpretation bounded_store: heapless_store "bounded_list n" n for n
  by unfold_locales (rule bounded_list_documented)

subsection \<open>Properties\<close>

context heapless_store
begin

text \<open>A full store.\<close>

lemma remembered_full:
  assumes d: "distinct (map source_port_identity rs)" and full: "\<not> length rs < n"
    and new: "\<forall>e \<in> set rs. source_port_identity e \<noteq> source_port_identity r"
    and cmp: "comparable rcv (insert r (set rs))"
  shows "if \<exists>x \<in> set rs. ForeignClockRecord_is_better_than r x rcv
    then \<exists>x \<in> set rs. set (remembered rcv r rs) = insert r (set rs - {x}) \<and>
      ForeignClockRecord_is_better_than r x rcv \<and> (\<forall>y \<in> set rs. \<not> ForeignClockRecord_is_better_than x y rcv)
    else remembered rcv r rs = rs"
proof (cases "RemovalPolicy_candidate_index rs r rcv")
  case None
  then have "\<not> ForeignClockRecord_is_better_than r x rcv" if "x \<in> set rs" for x
    using candidate_index_inv[of rs r rcv] that by (auto simp: policy_inv_def in_set_conv_nth)
  moreover have "remembered rcv r rs = rs"
    using None full new find_index_None[of "\<lambda>x. source_port_identity x = source_port_identity r" rs]
    by (simp add: remembered_def)
  ultimately show ?thesis by simp
next
  case (Some w)
  then have w: "w < length rs" "ForeignClockRecord_is_better_than r (rs ! w) rcv"
    using candidate_index_inv[of rs r rcv] by (simp_all add: policy_inv_def)
  have "remembered rcv r rs = take w rs @ drop (Suc w) rs @ [r]"
    using Some full new find_index_None[of "\<lambda>x. source_port_identity x = source_port_identity r" rs]
    by (simp add: remembered_def)
  then have "set (remembered rcv r rs) = insert r (set (take w rs @ drop (Suc w) rs))" by auto
  then have "set (remembered rcv r rs) = insert r (set rs - {rs ! w})"
    by (simp only: distinct_drop_one(2)[OF d w(1)])
  moreover have "\<not> ForeignClockRecord_is_better_than (rs ! w) y rcv" if y: "y \<in> set rs" for y
    using candidate_index_worst[OF cmp Some y] comparable_better[OF cmp, of "rs ! w" y] w(1) y by (simp add: not_less)
  ultimately show ?thesis using w nth_mem by auto
qed

lemma set_remembered_sources:
  "source_port_identity ` set (remembered rcv r rs) \<subseteq> insert (source_port_identity r) (source_port_identity ` set rs)"
proof (cases "find_index (\<lambda>x. source_port_identity x = source_port_identity r) rs")
  case None
  then show ?thesis using set_remembered_unknown[of rs r rcv] by (auto simp: find_index_None)
next
  case (Some i)
  with find_index_Some[OF this] show ?thesis
    by (auto simp: remembered_def dest: set_update_subset_insert[THEN subsetD])
qed

lemma remembered_known_sources:
  assumes "\<exists>e \<in> set rs. source_port_identity e = source_port_identity r"
  shows "map source_port_identity (remembered rcv r rs) = map source_port_identity rs"
proof -
  obtain i where i: "find_index (\<lambda>x. source_port_identity x = source_port_identity r) rs = Some i"
    using find_index_None[of "\<lambda>x. source_port_identity x = source_port_identity r" rs] assms by auto
  with find_index_Some[OF this] show ?thesis
    by (simp add: remembered_def map_update) (metis list_update_id nth_map)
qed

lemma remembered_new:
  assumes "\<forall>e \<in> set rs. source_port_identity e \<noteq> source_port_identity r" "length rs < n"
  shows "remembered rcv r rs = rs @ [r]"
  using assms find_index_None[of "\<lambda>x. source_port_identity x = source_port_identity r" rs]
  by (simp add: remembered_def)

text \<open>A store with room behaves as the \<open>Vec\<close> store.\<close>

lemma remembered_room:
  assumes "length rs < n \<or> (\<exists>e \<in> set rs. source_port_identity e = source_port_identity r)"
  shows "remembered rcv r rs = records (ForeignClockRecordsVec_remember \<lparr>records = rs\<rparr> r)"
  using assms find_index_None[of "\<lambda>x. source_port_identity x = source_port_identity r" rs]
  by (auto simp: remembered_def Vec_remember_records update_first_find_index split: option.splits)

end

text \<open>\<open>BestForeignRecord::consider\<close> on the two stores, for a sequence of announces.\<close>

fun heapless_consider_all ::
    "'v heapless_vec \<Rightarrow> observation list \<Rightarrow> 'v HeaplessForeignClockRecords \<Rightarrow> 'v HeaplessForeignClockRecords option" where
  "heapless_consider_all hv [] s = Some s"
| "heapless_consider_all hv (a # as) s =
     (case HeaplessForeignClockRecords_remember hv (snd (HeaplessForeignClockRecords_prune_stale hv s (obs_time a)))
             (ForeignClockRecord_new (obs_source a) (obs_ds a) (obs_interval a) (obs_time a)) of
        None \<Rightarrow> None
      | Some s \<Rightarrow> heapless_consider_all hv as s)"

lemma heapless_consider_all_vec:
  assumes "documented_heapless n hv" "wf_heapless n hv s"
    and "HeaplessForeignClockRecords_iter hv s = records (foreign_clock_records b)"
    and "source_port_identity ` set (records (foreign_clock_records b)) \<subseteq> S" "finite S"
    and "card (S \<union> obs_source ` set as) \<le> n"
  shows "\<exists>s'. heapless_consider_all hv as s = Some s' \<and> wf_heapless n hv s' \<and>
    HeaplessForeignClockRecords_iter hv s' = records (foreign_clock_records (foldl observe b as))"
  using assms(2-)
proof (induction as arbitrary: s b S)
  case Nil
  then show ?case by simp
next
  case (Cons a as)
  have hs: "heapless_store hv n" by (rule heapless_store.intro[OF assms(1)])
  note wf = heapless_store.prune_wf[OF hs Cons.prems(1), of "obs_time a"]
  let ?p = "snd (HeaplessForeignClockRecords_prune_stale hv s (obs_time a))"
  let ?rs = "HeaplessForeignClockRecords_iter hv ?p"
  let ?r = "ForeignClockRecord_new (obs_source a) (obs_ds a) (obs_interval a) (obs_time a)"
  have src: "source_port_identity ?r = obs_source a" by (simp add: ForeignClockRecord_new_def)
  have rs: "\<lparr>records = ?rs\<rparr> = snd (ForeignClockRecordsVec_prune_stale (foreign_clock_records b) (obs_time a))"
    using Cons.prems(2) by (simp add: heapless_store.iter_prune_stale[OF hs] ForeignClockRecordsVec_prune_stale_def Let_def)
  have sub: "source_port_identity ` set ?rs \<subseteq> S"
    using Cons.prems(2,3) by (auto simp: heapless_store.iter_prune_stale[OF hs])
  have room: "length ?rs < n \<or> (\<exists>e \<in> set ?rs. source_port_identity e = source_port_identity ?r)"
  proof (cases "\<exists>e \<in> set ?rs. source_port_identity e = obs_source a")
    case False
    have "length ?rs = card (source_port_identity ` set ?rs)"
      using wf distinct_card[of "map source_port_identity ?rs"] by (simp add: wf_heapless_def)
    also have "\<dots> < card (S \<union> obs_source ` set (a # as))"
    proof (rule psubset_card_mono)
      have "obs_source a \<notin> source_port_identity ` set ?rs" using False by auto
      with sub show "source_port_identity ` set ?rs \<subset> S \<union> obs_source ` set (a # as)" by auto
    qed (use Cons.prems(4) in simp)
    finally show ?thesis using Cons.prems(5) by simp
  qed (simp add: src)
  obtain s' where s': "HeaplessForeignClockRecords_remember hv ?p ?r = Some s'"
    "HeaplessForeignClockRecords_iter hv s' = heapless_store.remembered n (hf_receiver ?p) ?r ?rs"
    by (rule heapless_store.remember_iter[OF hs wf])
  have iter': "HeaplessForeignClockRecords_iter hv s' = records (foreign_clock_records (observe b a))"
    using s'(2) heapless_store.remembered_room[OF hs room] by (simp add: rs)
  have wf': "wf_heapless n hv s'" using heapless_store.remember_wf[OF hs wf, of ?r] s'(1) by simp
  have "source_port_identity ` set (records (foreign_clock_records (observe b a))) \<subseteq> insert (obs_source a) S"
    using heapless_store.set_remembered_sources[OF hs, of "hf_receiver ?p" ?r ?rs] s'(2) iter' sub src by auto
  from Cons.IH[OF wf' iter' this] Cons.prems(4,5) s'(1) show ?case by simp
qed

text \<open>Remembering a record in the fixed-capacity store never panics, never stores more than the
  capacity and keeps one record per source. A known source is updated in place; a new one is
  appended while there is room; in a full store it replaces a record that it beats and that
  no stored record is worse than, and it is dropped when it beats none.\<close>

theorem heapless_remember_bounded:
  assumes "documented_heapless n hv" and "wf_heapless n hv s"
    and "comparable (hf_receiver s) (insert r (set (HeaplessForeignClockRecords_iter hv s)))"
  shows "\<exists>s'. HeaplessForeignClockRecords_remember hv s r = Some s' \<and> wf_heapless n hv s' \<and>
    (let old = HeaplessForeignClockRecords_iter hv s; new = HeaplessForeignClockRecords_iter hv s';
         better = (\<lambda>x y. ForeignClockRecord_is_better_than x y (hf_receiver s)) in
     if \<exists>e \<in> set old. source_port_identity e = source_port_identity r
     then map source_port_identity new = map source_port_identity old
     else if length old < n then new = old @ [r]
     else if \<exists>x \<in> set old. better r x
     then \<exists>x \<in> set old. set new = insert r (set old - {x}) \<and> better r x \<and> (\<forall>y \<in> set old. \<not> better x y)
     else new = old)"
proof -
  have hs: "heapless_store hv n" by (rule heapless_store.intro[OF assms(1)])
  let ?old = "HeaplessForeignClockRecords_iter hv s"
  obtain s' where s': "HeaplessForeignClockRecords_remember hv s r = Some s'"
    "HeaplessForeignClockRecords_iter hv s' = heapless_store.remembered n (hf_receiver s) r ?old"
    by (rule heapless_store.remember_iter[OF hs assms(2)])
  have "wf_heapless n hv s'" using heapless_store.remember_wf[OF hs assms(2), of r] s'(1) by simp
  moreover have "map source_port_identity (heapless_store.remembered n (hf_receiver s) r ?old) = map source_port_identity ?old"
    if "\<exists>e \<in> set ?old. source_port_identity e = source_port_identity r"
    by (rule heapless_store.remembered_known_sources[OF hs that])
  moreover have "heapless_store.remembered n (hf_receiver s) r ?old = ?old @ [r]"
    if "\<not> (\<exists>e \<in> set ?old. source_port_identity e = source_port_identity r)" "length ?old < n"
    using heapless_store.remembered_new[OF hs _ that(2)] that(1) by blast
  ultimately show ?thesis
    using s' heapless_store.remembered_full[OF hs _ _ _ assms(3)] assms(2)
    by (simp add: Let_def wf_heapless_def)
qed

definition demo_rival :: ForeignClockRecord where
  "demo_rival = ForeignClockRecord_new demo_self demo_local_ds (LogInterval 0) (Instant_from_secs 1)"

definition demo_better :: ForeignClockRecord where
  "demo_better = ForeignClockRecord_new demo_master demo_master_ds (LogInterval 0) (Instant_from_secs 1)"

theorem heapless_remember_bounded_witness:
  "\<exists>s'. HeaplessForeignClockRecords_remember (bounded_list 1)
      \<lparr>hf_records = [demo_rival], hf_receiver = PortIdentity (demo_id 9) (PortNumber 1)\<rparr> demo_better = Some s' \<and>
    set (HeaplessForeignClockRecords_iter (bounded_list 1) s') = {demo_better}"
proof -
  let ?rcv = "PortIdentity (demo_id 9) (PortNumber 1)"
  let ?s = "\<lparr>hf_records = [demo_rival], hf_receiver = ?rcv\<rparr>"
  have it: "HeaplessForeignClockRecords_iter (bounded_list 1) ?s = [demo_rival]"
    by (simp add: HeaplessForeignClockRecords_iter_def bounded_list_def)
  have src: "source_port_identity demo_rival \<noteq> source_port_identity demo_better"
    by (simp add: demo_rival_def demo_better_def ForeignClockRecord_new_def demo_self_def demo_master_def demo_id_def)
  have cmp: "comparable ?rcv (insert demo_better (set (HeaplessForeignClockRecords_iter (bounded_list 1) ?s)))"
    unfolding it by (simp add: comparable_def consistent_ds_def demo_rival_def demo_better_def ForeignClockRecord_new_def
        demo_self_def demo_master_def demo_id_def demo_local_ds_def demo_master_ds_def)
  have b: "ForeignClockRecord_is_better_than demo_better demo_rival ?rcv"
    unfolding comparable_better[OF cmp[unfolded it], of demo_better demo_rival, simplified]
    by (simp add: rank_def ds_key_def demo_rival_def demo_better_def ForeignClockRecord_new_def
        demo_local_ds_def demo_master_ds_def)
  have "wf_heapless 1 (bounded_list 1) ?s" unfolding wf_heapless_def it by simp
  from heapless_remember_bounded[OF bounded_list_documented this, of demo_better, unfolded it] cmp[unfolded it] src b
  show ?thesis by (auto simp: Let_def)
qed

text \<open>C34: The fixed-capacity store is a refinement of the \<open>Vec\<close> store as long as no more than \<open>N\<close> sources
  are heard: after any such sequence of announces, considered as the port does, the two
  stores hold the same records in the same order.\<close>

theorem heapless_refines_vec:
  assumes "documented_heapless n hv" and "card (obs_source ` set as) \<le> n"
  shows "\<exists>s. heapless_consider_all hv as (HeaplessForeignClockRecords_new hv rcv) = Some s \<and>
    HeaplessForeignClockRecords_iter hv s
      = records (foreign_clock_records (foldl observe
          \<lparr>bfr_receiver = rcv, foreign_clock_records = ForeignClockRecordsVec_new\<rparr> as))"
proof -
  have "HeaplessForeignClockRecords_iter hv (HeaplessForeignClockRecords_new hv rcv) = []"
    using heapless_store.slice_new[OF heapless_store.intro[OF assms(1)]]
    by (simp add: HeaplessForeignClockRecords_iter_def HeaplessForeignClockRecords_new_def)
  with heapless_consider_all_vec[OF assms(1), of "HeaplessForeignClockRecords_new hv rcv"
      "\<lparr>bfr_receiver = rcv, foreign_clock_records = ForeignClockRecordsVec_new\<rparr>" "{}" as] assms(2)
  show ?thesis by (auto simp: wf_heapless_def ForeignClockRecordsVec_new_def)
qed

theorem heapless_refines_vec_witness:
  "\<exists>s. heapless_consider_all (bounded_list 1) [demo_announce 1, demo_announce 2]
      (HeaplessForeignClockRecords_new (bounded_list 1) demo_self) = Some s \<and>
    HeaplessForeignClockRecords_iter (bounded_list 1) s
      = records (foreign_clock_records (observe (observe
          \<lparr>bfr_receiver = demo_self, foreign_clock_records = ForeignClockRecordsVec_new\<rparr>
          (demo_announce 1)) (demo_announce 2)))"
  using heapless_refines_vec[OF bounded_list_documented, of "[demo_announce 1, demo_announce 2]" 1 demo_self]
  by (simp add: demo_announce_def del: observe_simps)

end
