(* ===== verification/Ptp_Virtual.thy ===== *)
theory Ptp_Virtual
  imports Ptp_Servo
begin

section \<open>Clocks of a host, and the daemon's virtual clock (virtualclock.rs)\<close>

text \<open>
  \<open>steady_clock\<close> is the contract of a clock that a host gives to the library: its readings, taken at
  times of the hardware, never go back, also across changes of the rate. The lemma proved in it
  is about any sequence of calls. Below it, \<^verbatim>\<open>crates/rptp-daemon/src/virtualclock.rs\<close> is modelled and shown
  to keep the contract; the cycle clock of the embedded demo is the other instance.

  A \<open>std::time::Instant\<close> is the number of nanoseconds of the monotonic clock of the operating system; every
  call takes the instants it reads as arguments. The locks of the fields are held for single
  assignments in one thread and are not modelled.
\<close>

subsection \<open>The contract\<close>

definition good_rate :: "f64 \<Rightarrow> bool" where
  "good_rate r \<longleftrightarrow> f64_le (Fin 0) r \<and> f64_le r (Fin 2)"

lemma good_rate_cases: "good_rate r \<Longrightarrow> (\<And>x. r = Fin x \<Longrightarrow> 0 \<le> x \<Longrightarrow> x \<le> 2 \<Longrightarrow> P) \<Longrightarrow> P"
  by (cases r) (auto simp: good_rate_def)

datatype clock_call = Read nat | Adjust f64 nat nat

fun clock_calls ::
    "('s \<Rightarrow> nat \<Rightarrow> (TimeStamp \<times> 's) option) \<Rightarrow> ('s \<Rightarrow> f64 \<Rightarrow> nat \<Rightarrow> nat \<Rightarrow> 's option) \<Rightarrow> 's \<Rightarrow> clock_call list \<Rightarrow>
     (TimeStamp list \<times> 's) option" where
  "clock_calls rd adj s [] = Some ([], s)"
| "clock_calls rd adj s (Read t # cs) =
     (case rd s t of
        None \<Rightarrow> None
      | Some (u, s) \<Rightarrow> map_option (apfst ((#) u)) (clock_calls rd adj s cs))"
| "clock_calls rd adj s (Adjust r t t' # cs) =
     (case adj s r t t' of None \<Rightarrow> None | Some s \<Rightarrow> clock_calls rd adj s cs)"

text \<open>The calls happen at non-decreasing times of the hardware, the first not before \<open>t\<close> and none after \<open>limit\<close>,
  no more than \<open>gap\<close> after the last reading at \<open>r\<close>, and the rates are good.\<close>

fun calls_from :: "nat \<Rightarrow> nat \<Rightarrow> nat \<Rightarrow> nat \<Rightarrow> clock_call list \<Rightarrow> bool" where
  "calls_from gap limit r t [] \<longleftrightarrow> True"
| "calls_from gap limit r t (Read t1 # cs) \<longleftrightarrow>
     t \<le> t1 \<and> t1 \<le> limit \<and> t1 \<le> r + gap \<and> calls_from gap limit t1 t1 cs"
| "calls_from gap limit r t (Adjust rate t1 t2 # cs) \<longleftrightarrow>
     t \<le> t1 \<and> t1 \<le> t2 \<and> t2 \<le> limit \<and> t2 \<le> r + gap \<and> good_rate rate \<and> calls_from gap limit r t2 cs"

locale steady_clock =
  fixes rd :: "'s \<Rightarrow> nat \<Rightarrow> (TimeStamp \<times> 's) option"
    and adj :: "'s \<Rightarrow> f64 \<Rightarrow> nat \<Rightarrow> nat \<Rightarrow> 's option"
    and shown :: "'s \<Rightarrow> nat \<Rightarrow> int"
    and invar :: "nat \<Rightarrow> 's \<Rightarrow> nat \<Rightarrow> bool"
    and gap limit :: nat
  assumes shown_mono: "invar r s t \<Longrightarrow> t \<le> t' \<Longrightarrow> t' \<le> limit \<Longrightarrow> t' \<le> r + gap \<Longrightarrow> shown s t \<le> shown s t'"
    and read_ok: "invar r s t \<Longrightarrow> t \<le> t' \<Longrightarrow> t' \<le> limit \<Longrightarrow> t' \<le> r + gap \<Longrightarrow>
      \<exists>u s'. rd s t' = Some (u, s') \<and> ts_total u = shown s t' \<and> invar t' s' t' \<and> shown s' t' = shown s t'"
    and adjust_ok: "invar r s t \<Longrightarrow> t \<le> t1 \<Longrightarrow> t1 \<le> t2 \<Longrightarrow> t2 \<le> limit \<Longrightarrow> t2 \<le> r + gap \<Longrightarrow> good_rate rate \<Longrightarrow>
      \<exists>s'. adj s rate t1 t2 = Some s' \<and> invar r s' t2 \<and> shown s t1 \<le> shown s' t2"
begin

lemma calls_steady:
  "invar r s t \<Longrightarrow> calls_from gap limit r t cs \<Longrightarrow>
    \<exists>us s'. clock_calls rd adj s cs = Some (us, s') \<and> sorted (map ts_total us) \<and>
      (\<forall>u \<in> set us. shown s t \<le> ts_total u)"
proof (induction cs arbitrary: r s t)
  case (Cons c cs)
  show ?case
  proof (cases c)
    case (Read t1)
    then have t: "t \<le> t1" "t1 \<le> limit" "t1 \<le> r + gap" "calls_from gap limit t1 t1 cs" using Cons.prems(2) by simp_all
    obtain u s' where u: "rd s t1 = Some (u, s')" "ts_total u = shown s t1" "invar t1 s' t1" "shown s' t1 = shown s t1"
      using read_ok[OF Cons.prems(1) t(1-3)] by blast
    obtain us s'' where us: "clock_calls rd adj s' cs = Some (us, s'')" "sorted (map ts_total us)"
        "\<forall>v \<in> set us. shown s' t1 \<le> ts_total v"
      using Cons.IH[OF u(3) t(4)] by blast
    have "shown s t \<le> shown s t1" by (rule shown_mono[OF Cons.prems(1) t(1-3)])
    with u us show ?thesis by (auto simp: Read)
  next
    case (Adjust rate t1 t2)
    then have t: "t \<le> t1" "t1 \<le> t2" "t2 \<le> limit" "t2 \<le> r + gap" "good_rate rate" "calls_from gap limit r t2 cs"
      using Cons.prems(2) by simp_all
    obtain s' where s': "adj s rate t1 t2 = Some s'" "invar r s' t2" "shown s t1 \<le> shown s' t2"
      using adjust_ok[OF Cons.prems(1) t(1-5)] by blast
    obtain us s'' where us: "clock_calls rd adj s' cs = Some (us, s'')" "sorted (map ts_total us)"
        "\<forall>v \<in> set us. shown s' t2 \<le> ts_total v"
      using Cons.IH[OF s'(2) t(6)] by blast
    have "t1 \<le> limit" "t1 \<le> r + gap" using t(2-4) by simp_all
    from shown_mono[OF Cons.prems(1) t(1) this] s'(3) have "shown s t \<le> shown s' t2" by linarith
    with s'(1) us show ?thesis by (force simp: Adjust)
  qed
qed simp

end

subsection \<open>The virtual clock\<close>

record VirtualClock =
  vc_start :: nat
  vc_ts :: TimeStamp
  vc_rate :: f64
  vc_time_scale :: TimeScale

definition VirtualClock_new :: "TimeStamp \<Rightarrow> f64 \<Rightarrow> TimeScale \<Rightarrow> nat \<Rightarrow> VirtualClock" where
  "VirtualClock_new start_ts rate time_scale instant =
     \<lparr>vc_start = instant, vc_ts = start_ts, vc_rate = rate, vc_time_scale = time_scale\<rparr>"

text \<open>\<open>start.elapsed()\<close> is zero when the instant is not after \<open>start\<close>. \<open>None\<close> is the panic of \<open>TimeInterval::new\<close>,
  which only a hugely negative rate could cause.\<close>

definition VirtualClock_now :: "VirtualClock \<Rightarrow> nat \<Rightarrow> TimeStamp option" where
  "VirtualClock_now c instant =
     (let rate = vc_rate c;
          base = vc_ts c;
          dt = instant - vc_start c;
          dt_nanos = f64_mul (f64_of_int (int dt)) rate;
          dt_secs = f64_as_i64 (f64_div dt_nanos (Fin 1000000000));
          dt_rem_nanos = f64_as_u32 (f64_rem dt_nanos (Fin 1000000000))
      in case TimeInterval_new dt_secs dt_rem_nanos of
           None \<Rightarrow> None
         | Some interval \<Rightarrow>
             Some (case TimeStamp_checked_add base interval of Some t \<Rightarrow> t | None \<Rightarrow> base))"

definition VirtualClock_time_scale :: "VirtualClock \<Rightarrow> TimeScale" where
  "VirtualClock_time_scale c = vc_time_scale c"

definition VirtualClock_step :: "VirtualClock \<Rightarrow> TimeStamp \<Rightarrow> nat \<Rightarrow> VirtualClock" where
  "VirtualClock_step c to instant = c\<lparr>vc_start := instant, vc_ts := to\<rparr>"

text \<open>\<open>adjust\<close> reads the monotonic clock twice, in \<open>now\<close> and for the new start.\<close>

definition VirtualClock_adjust :: "VirtualClock \<Rightarrow> f64 \<Rightarrow> nat \<Rightarrow> nat \<Rightarrow> VirtualClock option" where
  "VirtualClock_adjust c rate instant instant' =
     (case VirtualClock_now c instant of
        None \<Rightarrow> None
      | Some current \<Rightarrow> Some (c\<lparr>vc_start := instant', vc_ts := current, vc_rate := rate\<rparr>))"

text \<open>\<open>now\<close> as a call that leaves the clock alone.\<close>

definition VirtualClock_read :: "VirtualClock \<Rightarrow> nat \<Rightarrow> (TimeStamp \<times> VirtualClock) option" where
  "VirtualClock_read c t = map_option (\<lambda>u. (u, c)) (VirtualClock_now c t)"

subsection \<open>Lemmas: the scaled elapsed time\<close>

text \<open>The product of a count of at most \<open>2\<^sup>6\<^sup>0\<close> and a factor of at most 2.\<close>

definition scaled :: "rat \<Rightarrow> nat \<Rightarrow> rat" where
  "scaled r d = (if d = 0 \<or> r = 0 then 0 else f64_value (f64_value (of_nat d) * r))"

lemma f64_value_nat_pos: "0 < d \<Longrightarrow> 0 < f64_value (of_nat d)"
  using f64_value_ge_pow2[of 0 "of_nat d"] by simp

lemma f64_value_nat_le:
  assumes "0 < d" "d \<le> 2 ^ 60"
  shows "f64_value (of_nat d) \<le> 2 ^ 60"
proof -
  have "(of_nat d :: rat) \<le> of_nat (2 ^ 60)" using assms(2) by (simp only: of_nat_le_iff)
  then show ?thesis using f64_value_le_pow2[of "of_nat d" 60] assms(1) by simp
qed

lemma scaled_product:
  assumes "0 \<le> r" "r \<le> 2" "d \<le> 2 ^ 60"
  shows "f64_mul (f64_of_int (int d)) (Fin r) = Fin (scaled r d)" "0 \<le> scaled r d" "scaled r d \<le> 2 ^ 61"
proof -
  have "f64_mul (f64_of_int (int d)) (Fin r) = Fin (scaled r d) \<and> 0 \<le> scaled r d \<and> scaled r d \<le> 2 ^ 61"
  proof (cases "d = 0 \<or> r = 0")
    case True
    have "(of_int (int d) :: rat) < of_nat (2 ^ 61)" if "0 < d"
      using assms(3) by (simp only: of_int_of_nat_eq of_nat_less_iff) simp
    then have "f64_of_int (int d) = Fin (f64_value (of_nat d))" if "0 < d"
      using f64_round_bounded[of "of_nat d" 61] that by (simp add: f64_of_int_def less_imp_le)
    with True show ?thesis by (cases "d = 0") (simp_all add: scaled_def f64_of_int_def)
  next
    case False
    let ?v = "f64_value (of_nat d)"
    have d: "0 < d" and r: "0 < r" using False assms(1) by auto
    have v: "0 < ?v" "?v \<le> 2 ^ 60" using f64_value_nat_pos[OF d] f64_value_nat_le[OF d assms(3)] by simp_all
    have "(of_nat d :: rat) \<le> of_nat (2 ^ 60)" using assms(3) by (simp only: of_nat_le_iff)
    then have 1: "f64_of_int (int d) = Fin ?v"
      using f64_round_bounded[of "of_nat d" 60] d by (simp add: f64_of_int_def)
    have "?v * r \<le> 2 ^ 60 * 2" using v assms by (intro mult_mono) simp_all
    then have "f64_round (?v * r) = Fin (f64_value (?v * r)) \<and> 0 \<le> f64_value (?v * r) \<and> f64_value (?v * r) \<le> 2 powi 61"
      using v r by (intro f64_round_bounded) simp_all
    with 1 False show ?thesis by (simp add: scaled_def)
  qed
  then show "f64_mul (f64_of_int (int d)) (Fin r) = Fin (scaled r d)" "0 \<le> scaled r d" "scaled r d \<le> 2 ^ 61"
    by blast+
qed

lemma scaled_mono:
  assumes "0 \<le> r" "d \<le> d'"
  shows "scaled r d \<le> scaled r d'"
proof (cases "d = 0 \<or> r = 0")
  case True
  have "0 \<le> f64_value (f64_value (of_nat d') * r)" if "0 < d'" "r \<noteq> 0"
    using that assms(1) f64_value_nat_pos[of d'] by (intro f64_value_nonneg) simp
  with True show ?thesis by (auto simp: scaled_def)
next
  case False
  then have d: "0 < d" "0 < d'" "0 < r" using assms by auto
  have "f64_value (of_nat d) \<le> f64_value (of_nat d')" using d assms(2) by (intro f64_value_mono) simp_all
  then have "f64_value (of_nat d) * r \<le> f64_value (of_nat d') * r" using d by simp
  then show ?thesis
    using d f64_value_nat_pos[of d] by (auto simp: scaled_def intro!: f64_value_mono)
qed


lemma scaled_error:
  assumes "0 \<le> r"
  shows "\<bar>scaled r d - of_nat d * r\<bar> \<le> of_nat d * r * 2 powi (- 51) + 2 powi (- 1022)"
proof (cases "d = 0 \<or> r = 0")
  case True
  then show ?thesis by (auto simp: scaled_def)
next
  case False
  let ?v = "f64_value (of_nat d)" and ?e = "2 powi (- 53) :: rat" and ?p = "of_nat d * r"
  have d: "0 < d" "1 \<le> (of_nat d :: rat)" and r: "0 < r" using False assms by auto
  have small: "(2 :: rat) powi (- 1022) \<le> 1" using power_int_increasing[of "- 1022" 0 "2 :: rat"] by simp
  have "\<bar>?v - of_nat d\<bar> \<le> of_nat d * ?e" using small d by (intro f64_value_rel_error) linarith
  then have "\<bar>?v - of_nat d\<bar> * r \<le> of_nat d * ?e * r" using r by (intro mult_right_mono) simp_all
  moreover have "\<bar>?v * r - ?p\<bar> = \<bar>?v - of_nat d\<bar> * r"
    unfolding left_diff_distrib[symmetric] abs_mult using r by simp
  moreover have "of_nat d * ?e * r = ?p * ?e" by (simp only: ac_simps)
  ultimately have 1: "\<bar>?v * r - ?p\<bar> \<le> ?p * ?e" by linarith
  have p: "0 < ?p" and vr: "0 < ?v * r" using d r f64_value_nat_pos[OF d(1)] by simp_all
  have 2: "\<bar>f64_value (?v * r) - ?v * r\<bar> \<le> ?v * r * ?e + 2 powi (- 1022)"
  proof (cases "2 powi (- 1022) \<le> ?v * r")
    case True
    have "(0 :: rat) \<le> 2 powi (- 1022)" by simp
    with f64_value_rel_error[OF True] show ?thesis by linarith
  next
    case False
    then have "f64_value (?v * r) \<le> 2 powi (- 1022)" using vr by (intro f64_value_le_pow2) simp_all
    moreover have "0 \<le> ?v * r * ?e" using vr by simp
    ultimately show ?thesis using f64_value_nonneg[OF vr] False vr by linarith
  qed
  have "?v * r \<le> 2 * ?p"
  proof -
    have "?p * ?e \<le> ?p * 1" using p by (intro mult_left_mono) (simp_all add: power_int_minus)
    then show ?thesis using 1 by linarith
  qed
  then have "?v * r * ?e \<le> 2 * ?p * ?e" by (rule mult_right_mono) simp
  moreover have "4 * ?e = 2 powi (- 51)" by (simp add: power_int_minus)
  then have "?p * 2 powi (- 51) = 4 * (?p * ?e)" by (metis mult.left_commute)
  moreover have "0 \<le> ?p * ?e" using p by simp
  moreover have "scaled r d = f64_value (?v * r)" using False by (simp add: scaled_def)
  ultimately show ?thesis using 1 2 by linarith
qed

lemma scaled_le_triple:
  assumes "0 \<le> r" "r \<le> 2"
  shows "scaled r d \<le> 3 * of_nat d"
proof (cases "d = 0")
  case False
  then have d: "1 \<le> (of_nat d :: rat)" by simp
  have p: "of_nat d * r \<le> of_nat d * 2" using assms by (intro mult_left_mono) simp_all
  then have "of_nat d * r * 2 powi (- 51) \<le> of_nat d * 2 * 2 powi (- 51)" by (rule mult_right_mono) simp
  also have "\<dots> \<le> of_nat d * (1 / 2)" using d by (simp add: power_int_minus)
  finally have "of_nat d * r * 2 powi (- 51) \<le> of_nat d * (1 / 2)" .
  moreover have "(2 :: rat) powi (- 1022) \<le> 2 powi (- 1)" by (intro power_int_increasing) simp_all
  then have "(2 :: rat) powi (- 1022) \<le> 1 / 2" by (simp add: power_int_minus)
  ultimately show ?thesis using scaled_error[OF assms(1), of d] p d by linarith
qed (simp add: scaled_def)

lemma scaled_one: "d < 2 ^ 53 \<Longrightarrow> scaled 1 d = of_nat d"
  using f64_value_of_int[of "int d"] by (simp add: scaled_def)

text \<open>The nanoseconds that the clock adds to its base after \<open>d\<close> nanoseconds.\<close>

fun virtual_nanos :: "f64 \<Rightarrow> nat \<Rightarrow> int" where
  "virtual_nanos (Fin r) d = \<lfloor>scaled r d\<rfloor>"
| "virtual_nanos _ d = 0"

lemma virtual_nanos_mono: "good_rate r \<Longrightarrow> d \<le> d' \<Longrightarrow> virtual_nanos r d \<le> virtual_nanos r d'"
  by (erule good_rate_cases) (auto intro!: floor_mono scaled_mono)

lemma virtual_nanos_0 [simp]: "virtual_nanos r 0 = 0"
  by (cases r) (simp_all add: scaled_def)

lemma virtual_nanos_nonneg: "good_rate r \<Longrightarrow> 0 \<le> virtual_nanos r d"
  using virtual_nanos_mono[of r 0 d] by simp

lemma virtual_nanos_le: "good_rate r \<Longrightarrow> virtual_nanos r d \<le> 3 * int d"
proof (erule good_rate_cases)
  fix x assume x: "r = Fin x" "0 \<le> x" "x \<le> 2"
  have "scaled x d \<le> of_int (3 * int d)" using scaled_le_triple[OF x(2,3)] by simp
  then show ?thesis unfolding x(1) virtual_nanos.simps by linarith
qed

lemma VirtualClock_now_value:
  assumes "good_rate (vc_rate c)" "wf_ts (vc_ts c)" "t - vc_start c \<le> 2 ^ 60"
  shows "\<exists>u. VirtualClock_now c t = Some u \<and> wf_ts u \<and>
    ts_total u = ts_total (vc_ts c)
      + (if ts_total (vc_ts c) + virtual_nanos (vc_rate c) (t - vc_start c) < ts_limit
         then virtual_nanos (vc_rate c) (t - vc_start c) else 0)"
  using assms(1)
proof (rule good_rate_cases)
  fix r assume r: "vc_rate c = Fin r" "0 \<le> r" "r \<le> 2"
  let ?d = "t - vc_start c"
  let ?x = "scaled r ?d"
  note p = scaled_product[OF r(2,3) assms(3)]
  have rep: "?x = 0 \<or> (\<exists>y>0. ?x = f64_value y)"
  proof (cases "?d = 0 \<or> r = 0")
    case False
    then have "0 < f64_value (of_nat ?d) * r" using f64_value_nat_pos[of ?d] r(2) by simp
    with False show ?thesis by (auto simp: scaled_def)
  qed (simp add: scaled_def)
  have "?x < 2 ^ 62" using p(3) by (rule order_le_less_trans) simp
  note s = f64_split_nanos[OF rep p(2) this]
  define i where "i = TimeInterval (f64_as_i64 (f64_div (Fin ?x) (Fin 1000000000)))
    (f64_as_u32 (f64_rem (Fin ?x) (Fin 1000000000)))"
  have i: "wf_ti i" "ti_total i = \<lfloor>?x\<rfloor>"
    using s by (simp_all add: i_def wf_ti_def TimeInterval_total_nanos_def in_i64_def i64_MIN_def i64_MAX_def)
  have "f64_as_i64 (f64_div (Fin ?x) (Fin 1000000000)) \<noteq> i64_MIN" using s(1) by (auto simp: i64_MIN_def)
  then have new: "TimeInterval_new (f64_as_i64 (f64_div (Fin ?x) (Fin 1000000000)))
    (f64_as_u32 (f64_rem (Fin ?x) (Fin 1000000000))) = Some i"
    using s(3) by (simp add: TimeInterval_new_Some i_def)
  have now: "VirtualClock_now c t = Some (case TimeStamp_checked_add (vc_ts c) i of Some u \<Rightarrow> u | None \<Rightarrow> vc_ts c)"
    unfolding VirtualClock_now_def Let_def r(1) p(1) new by simp
  have x0: "0 \<le> \<lfloor>?x\<rfloor>" using p(2) by simp
  show ?thesis
  proof (cases "TimeStamp_checked_add (vc_ts c) i")
    case None
    have "\<not> ts_total (vc_ts c) + \<lfloor>?x\<rfloor> < ts_limit"
      using None TimeStamp_checked_add_iff[OF assms(2) i(1)] wf_ts_D[OF assms(2)] i(2) x0
        ts_of_total[of "ts_total (vc_ts c) + \<lfloor>?x\<rfloor>"] by force
    with None now r(1) assms(2) show ?thesis by simp
  next
    case (Some u)
    then have "wf_ts u" "ts_total u = ts_total (vc_ts c) + \<lfloor>?x\<rfloor>"
      using TimeStamp_checked_add_iff[OF assms(2) i(1)] i(2) by simp_all
    with Some now r(1) wf_ts_D[of u] show ?thesis by simp
  qed
qed

lemma virtual_nanos_error:
  assumes "0 \<le> r"
  shows "\<bar>of_int (virtual_nanos (Fin r) d) - of_nat d * r\<bar> \<le> 2 + of_nat d * r / 2 ^ 51"
proof -
  have "(2 :: rat) powi (- 1022) \<le> 1" using power_int_increasing[of "- 1022" 0 "2 :: rat"] by simp
  moreover have "of_nat d * r * 2 powi (- 51) = of_nat d * r / 2 ^ 51" by (simp add: power_int_minus field_simps)
  moreover have "of_int \<lfloor>scaled r d\<rfloor> \<le> scaled r d" "scaled r d < of_int \<lfloor>scaled r d\<rfloor> + 1" by linarith+
  ultimately show ?thesis unfolding virtual_nanos.simps using scaled_error[OF assms, of d] by linarith
qed

subsection \<open>The virtual clock keeps the contract\<close>

definition virtual_shown :: "VirtualClock \<Rightarrow> nat \<Rightarrow> int" where
  "virtual_shown c t = ts_total (vc_ts c) + virtual_nanos (vc_rate c) (t - vc_start c)"

definition virtual_invar :: "nat \<Rightarrow> VirtualClock \<Rightarrow> nat \<Rightarrow> bool" where
  "virtual_invar limit c t \<longleftrightarrow> good_rate (vc_rate c) \<and> wf_ts (vc_ts c) \<and> vc_start c \<le> t \<and>
     limit - vc_start c \<le> 2 ^ 60 \<and> ts_total (vc_ts c) + 3 * int (limit - vc_start c) < ts_limit"

lemma virtual_now_in_range:
  assumes "virtual_invar limit c t" "t \<le> t'" "t' \<le> limit"
  shows "\<exists>u. VirtualClock_now c t' = Some u \<and> wf_ts u \<and> ts_total u = virtual_shown c t' \<and>
    ts_total u + 3 * int (limit - t') < ts_limit"
proof -
  let ?d = "t' - vc_start c"
  have d: "?d \<le> 2 ^ 60" "limit - vc_start c = ?d + (limit - t')" using assms by (auto simp: virtual_invar_def)
  have "virtual_nanos (vc_rate c) ?d \<le> 3 * int ?d" using assms(1) by (intro virtual_nanos_le) (simp add: virtual_invar_def)
  then have "ts_total (vc_ts c) + virtual_nanos (vc_rate c) ?d + 3 * int (limit - t') < ts_limit"
    using assms(1) d(2) by (simp add: virtual_invar_def algebra_simps)
  with VirtualClock_now_value[of c t'] assms(1) d(1) show ?thesis
    by (auto simp: virtual_invar_def virtual_shown_def)
qed

interpretation virtual: steady_clock VirtualClock_read VirtualClock_adjust virtual_shown
  "\<lambda>_. virtual_invar limit" limit limit for limit
proof (unfold_locales, goal_cases)
  case (1 r s t t')
  then show ?case by (auto simp: virtual_shown_def virtual_invar_def intro!: virtual_nanos_mono)
next
  case (2 r s t t')
  from virtual_now_in_range[OF 2(1-3)] 2 show ?case by (auto simp: VirtualClock_read_def virtual_invar_def)
next
  case (3 r s t t1 t2 rate)
  then have "t1 \<le> limit" by simp
  from virtual_now_in_range[OF 3(1,2) this] 3 show ?case
    by (auto simp: VirtualClock_adjust_def virtual_invar_def virtual_shown_def)
qed

subsection \<open>Properties\<close>

text \<open>C32: The virtual clock runs at its rate, as long as the rate is between 0 and 2: up to \<open>2\<^sup>6\<^sup>0\<close> nanoseconds (36 years) after the clock was set
  and before the end of the range of time stamps, a reading taken \<open>d\<close> nanoseconds after the clock was set lies within
  two nanoseconds and a relative error of \<open>2\<^sup>-\<^sup>5\<^sup>1\<close> of the exact product, although the elapsed time, the
  product, the quotient and the remainder are all computed in doubles and put together again from
  seconds and nanoseconds. At the nominal rate the readings of the first 104 days are exact.
  (The code does not bound the rate; outside of 0 to 2 nothing is claimed here.)\<close>

theorem virtual_clock_tracks:
  assumes "vc_rate c = Fin r" and "0 \<le> r" and "r \<le> 2" and "wf_ts (vc_ts c)"
    and "d \<le> 2 ^ 60" and "ts_total (vc_ts c) + 3 * int d < ts_limit"
  shows "\<exists>u. VirtualClock_now c (vc_start c + d) = Some u \<and> wf_ts u \<and>
    \<bar>of_int (ts_total u - ts_total (vc_ts c)) - of_nat d * r\<bar> \<le> 2 + of_nat d * r / 2 ^ 51 \<and>
    (r = 1 \<and> d < 2 ^ 53 \<longrightarrow> ts_total u = ts_total (vc_ts c) + int d)"
proof -
  have r: "good_rate (vc_rate c)" using assms(1-3) by (auto simp: good_rate_def)
  then have "virtual_nanos (vc_rate c) d \<le> 3 * int d" by (rule virtual_nanos_le)
  with VirtualClock_now_value[OF r assms(4), of "vc_start c + d"] assms(5,6)
  obtain u where "VirtualClock_now c (vc_start c + d) = Some u" "wf_ts u" "ts_total u = ts_total (vc_ts c) + virtual_nanos (vc_rate c) d"
    by auto
  with virtual_nanos_error[OF assms(2), of d] scaled_one[of d] show ?thesis by (auto simp: assms(1))
qed

theorem virtual_clock_tracks_witness:
  "\<exists>u. VirtualClock_now (VirtualClock_new (TimeStamp 5 0) (Fin 1) Ptp 100) (100 + 2500000000) = Some u \<and>
     ts_total u = 7500000000"
proof -
  have "wf_ts (TimeStamp 5 0)" "ts_total (TimeStamp 5 0) = 5000000000" by (simp_all add: wf_ts_def ts_total_def)
  then show ?thesis
    using virtual_clock_tracks[of "VirtualClock_new (TimeStamp 5 0) (Fin 1) Ptp 100" 1 2500000000]
    by (auto simp: VirtualClock_new_def ts_limit_def)
qed

text \<open>C21: A virtual clock that has been created or stepped never goes back until it is stepped again: whatever
  readings and rate adjustments follow at non-decreasing instants of the monotonic clock, within \<open>2\<^sup>6\<^sup>0\<close>
  nanoseconds (36 years) and before the end of the range of time stamps, with rates between 0 and 2, no call
  panics, the readings are in order and none is before the time the clock was set to.\<close>

theorem virtual_clock_steady:
  assumes "wf_ts start" and "good_rate rate" and "limit \<le> t + 2 ^ 60" and "ts_total start + 3 * int (limit - t) < ts_limit"
    and "calls_from limit limit t t cs" and "c = VirtualClock_new start rate scale t \<or> c = VirtualClock_step c0 start t \<and> vc_rate c0 = rate"
  shows "\<exists>us c'. clock_calls VirtualClock_read VirtualClock_adjust c cs = Some (us, c') \<and>
    sorted (map ts_total us) \<and> (\<forall>u \<in> set us. ts_total start \<le> ts_total u)"
proof -
  have c: "vc_start c = t" "vc_ts c = start" "vc_rate c = rate"
    using assms(6) by (auto simp: VirtualClock_new_def VirtualClock_step_def)
  then have "virtual_invar limit c t" using assms(1-4) by (simp add: virtual_invar_def)
  from virtual.calls_steady[OF this assms(5)] show ?thesis by (simp add: virtual_shown_def c)
qed

theorem virtual_clock_steady_witness:
  "\<exists>us c. clock_calls VirtualClock_read VirtualClock_adjust (VirtualClock_new (TimeStamp 1 0) (Fin 1) Arb 0)
     [Read 10, Adjust (Fin (1 / 2)) 20 25, Read 1000000000] = Some (us, c) \<and> sorted (map ts_total us)"
proof -
  have "wf_ts (TimeStamp 1 0)" "ts_total (TimeStamp 1 0) = 1000000000" by (simp_all add: wf_ts_def ts_total_def)
  then show ?thesis
    using virtual_clock_steady[of "TimeStamp 1 0" "Fin 1" 1000000000 0
        "[Read 10, Adjust (Fin (1 / 2)) 20 25, Read 1000000000]" "VirtualClock_new (TimeStamp 1 0) (Fin 1) Arb 0" Arb]
    by (auto simp: good_rate_def ts_limit_def)
qed

end
