(* ===== verification/Ptp_Board.thy ===== *)
theory Ptp_Board
  imports Ptp_Virtual
begin

section \<open>Counters and clocks of the embedded demo (rptp-embedded-demo/src/main.rs)\<close>

text \<open>
  Models the time keeping of \<^verbatim>\<open>crates/rptp-embedded-demo/src/main.rs\<close>: the system tick (\<^verbatim>\<open>Ticks\<close>, \<^verbatim>\<open>SystemTick\<close>,
  \<^verbatim>\<open>InstantClock\<close>), which gives the main loop its monotonic instants; the cycle counter (\<^verbatim>\<open>Cycles\<close>, \<^verbatim>\<open>CycleClock\<close>), which
  gives the PTP clock its time stamps; and the seed of the clock from the host (\<^verbatim>\<open>SemiHostingTime\<close>). A reading
  takes the value of the counter as an argument, a \<open>u32\<close>; the three system calls of the host are arguments
  too, as the \<open>usize\<close> of the target, 32 bits wide. The unchecked multiplication of \<open>as_smol_instant\<close> wraps, as in a
  release build.

  In the lemmas a counter runs on as a natural number of which the program sees the lower 32 bits. The instants
  are exact across wrap-arounds, the cycle clock satisfies the contract of a steady clock and lags
  behind the cycles by less than a nanosecond per reading.
\<close>

subsection \<open>Ticks and instants\<close>

definition NANOS_PER_TICK :: u32 where "NANOS_PER_TICK = 10000000"

definition Ticks_elapsed_since :: "u32 \<Rightarrow> u32 \<Rightarrow> u32" where
  "Ticks_elapsed_since ticks since = ticks - since"

definition Ticks_as_duration :: "u32 \<Rightarrow> Duration" where
  "Ticks_as_duration ticks = Duration_from_nanos (ucast ticks * ucast NANOS_PER_TICK)"

definition Ticks_as_smol_instant :: "u32 \<Rightarrow> int" where
  "Ticks_as_smol_instant ticks = uint (ticks * 10000)"

definition SystemTick_tick :: "u32 \<Rightarrow> u32" where
  "SystemTick_tick ticks = ticks + 1"

record InstantClock =
  ic_last_ticks :: u32
  ic_instant :: Instant

definition InstantClock_new :: "u32 \<Rightarrow> InstantClock" where
  "InstantClock_new now = \<lparr>ic_last_ticks = now, ic_instant = Instant_from_nanos 0\<rparr>"

definition InstantClock_now :: "InstantClock \<Rightarrow> u32 \<Rightarrow> Instant \<times> InstantClock" where
  "InstantClock_now c now_ticks =
     (let ticks_elapsed = Ticks_elapsed_since now_ticks (ic_last_ticks c);
          updated = Instant_saturating_add (ic_instant c) (Ticks_as_duration ticks_elapsed)
      in (updated, \<lparr>ic_last_ticks = now_ticks, ic_instant = updated\<rparr>))"

subsection \<open>The time of the host\<close>

definition TAI_OFFSET_SECONDS :: u64 where "TAI_OFFSET_SECONDS = 37"

definition SemiHostingTime_now :: "u32 \<Rightarrow> u32 \<Rightarrow> u32 \<Rightarrow> TimeStamp option option" where
  "SemiHostingTime_now time clock tickfreq =
     (let secs = uint time;
          clock_ticks = uint clock;
          tickfreq = uint tickfreq
      in if secs < 0 then Some None
         else if clock_ticks < 0 \<or> tickfreq \<le> 0 then Some None
         else
           let total_nanos = trunc_div (max i64_MIN (min i64_MAX (clock_ticks * 1000000000))) tickfreq;
               extra_secs = total_nanos div 1000000000;
               nanos = word_of_int (total_nanos mod 1000000000);
               secs = word_of_int (secs + extra_secs + uint TAI_OFFSET_SECONDS)
           in map_option Some (TimeStamp_new secs nanos))"

subsection \<open>Cycles and time stamps\<close>

definition CPU_HZ :: u32 where "CPU_HZ = 12000000"

definition Cycles_elapsed_since :: "u32 \<Rightarrow> u32 \<Rightarrow> TimeInterval option" where
  "Cycles_elapsed_since cycles since =
     (let delta_cycles = ucast (cycles - since) :: u64;
          nanos = saturating_mul delta_cycles 1000000000 div ucast CPU_HZ
      in TimeInterval_from_u64_nanos nanos)"

record CycleClock =
  cc_time :: TimeStamp
  cc_last_cycles :: u32

definition CycleClock_new :: "TimeStamp \<Rightarrow> u32 \<Rightarrow> CycleClock" where
  "CycleClock_new time now = \<lparr>cc_time = time, cc_last_cycles = now\<rparr>"

definition CycleClock_now :: "CycleClock \<Rightarrow> u32 \<Rightarrow> (TimeStamp \<times> CycleClock) option" where
  "CycleClock_now c cur_cycles =
     (case Cycles_elapsed_since cur_cycles (cc_last_cycles c) of
        None \<Rightarrow> None
      | Some delta \<Rightarrow>
          (let time = (case TimeStamp_checked_add (cc_time c) delta of Some t \<Rightarrow> t | None \<Rightarrow> cc_time c)
           in Some (time, \<lparr>cc_time = time, cc_last_cycles = cur_cycles\<rparr>)))"

definition CycleClock_time_scale :: TimeScale where "CycleClock_time_scale = Ptp"

definition CycleClock_step :: "CycleClock \<Rightarrow> TimeStamp \<Rightarrow> CycleClock" where
  "CycleClock_step c to = c"

definition CycleClock_adjust :: "CycleClock \<Rightarrow> f64 \<Rightarrow> CycleClock" where
  "CycleClock_adjust c rate = c"

subsection \<open>Lemmas\<close>

text \<open>The difference of two readings of a 32 bit counter is the true difference when it is below \<open>2\<^sup>3\<^sup>2\<close>.\<close>

lemma counter_difference:
  assumes "r \<le> t" "t - r < 2 ^ 32"
  shows "unat (of_nat t - of_nat r :: u32) = t - r"
proof -
  have "(of_nat t - of_nat r :: u32) = of_nat (t - r)" using assms(1) by (simp add: of_nat_diff)
  then show ?thesis using assms(2) by (simp add: unat_of_nat take_bit_nat_eq_self)
qed

lemma ticks_counted: "(SystemTick_tick ^^ n) 0 = of_nat n"
  by (induction n) (simp_all add: SystemTick_tick_def)

lemma Ticks_duration_nanos: "unat (duration_nanos (Ticks_as_duration d)) = unat d * 10000000"
proof -
  have "unat d * 10000000 < 2 ^ 64" using unsigned_less[of d, where ?'a = nat] by simp
  then show ?thesis
    by (simp add: Ticks_as_duration_def Duration_from_nanos_def NANOS_PER_TICK_def unat_word_ariths
        unsigned_ucast_eq take_bit_nat_eq_self)
qed

definition cycle_nanos :: "nat \<Rightarrow> int" where
  "cycle_nanos d = int (d * 1000000000 div 12000000)"

lemma Cycles_elapsed_interval:
  "\<exists>i. Cycles_elapsed_since cur since = Some i \<and> wf_ti i \<and> ti_total i = cycle_nanos (unat (cur - since))"
proof -
  let ?d = "cur - since"
  let ?n = "saturating_mul (ucast ?d) 1000000000 div ucast CPU_HZ :: u64"
  have "unat ?d < 2 ^ 32" using unsigned_less[of ?d, where ?'a = nat] by simp
  then have "unat ?n = unat ?d * 1000000000 div 12000000"
    by (simp add: unat_div unat_saturating_mul unsigned_ucast_eq take_bit_nat_eq_self CPU_HZ_def)
  then have n: "uint ?n = cycle_nanos (unat ?d)" by (simp add: cycle_nanos_def uint_nat)
  have small: "cycle_nanos (unat ?d) < 2 ^ 39" using \<open>unat ?d < 2 ^ 32\<close> by (simp add: cycle_nanos_def)
  have q: "uint (?n div 1000000000) = uint ?n div 1000000000" "uint (?n mod 1000000000) = uint ?n mod 1000000000"
    by (simp_all add: uint_div uint_mod)
  have "sint (?n div 1000000000) = uint ?n div 1000000000"
    using small n by (subst sint_eq_uint_small) (simp_all add: q)
  moreover have "uint (ucast (?n mod 1000000000) :: u32) = uint ?n mod 1000000000"
    by (simp add: q unsigned_ucast_eq take_bit_int_eq_self)
  moreover have "uint ?n div 1000000000 * 1000000000 + uint ?n mod 1000000000 = uint ?n" by simp
  moreover have "0 \<le> uint ?n div 1000000000" by (simp add: pos_imp_zdiv_nonneg_iff)
  ultimately show ?thesis
    using small n
    by (auto simp: Cycles_elapsed_since_def Let_def TimeInterval_from_u64_nanos_def TimeInterval_new_Some wf_ti_def
        in_i64_def i64_MIN_def i64_MAX_def TimeInterval_total_nanos_def)
qed

lemma cycle_nanos_mono: "d \<le> d' \<Longrightarrow> cycle_nanos d \<le> cycle_nanos d'"
  unfolding cycle_nanos_def by (intro of_nat_mono div_le_mono) simp

lemma cycle_nanos_bounds:
  "3 * cycle_nanos d \<le> 250 * int d" "250 * int d < 3 * cycle_nanos d + 3"
proof -
  have "d * 1000000000 div 12000000 = 250 * d div 3"
    using div_mult_mult1[of 4000000 "250 * d" 3] by simp
  then show "3 * cycle_nanos d \<le> 250 * int d" "250 * int d < 3 * cycle_nanos d + 3"
    by (simp_all add: cycle_nanos_def)
qed

lemma CycleClock_now_value:
  assumes "wf_ts (cc_time c)"
  shows "\<exists>u. CycleClock_now c cur = Some (u, \<lparr>cc_time = u, cc_last_cycles = cur\<rparr>) \<and> wf_ts u \<and>
    ts_total u = ts_total (cc_time c)
      + (if ts_total (cc_time c) + cycle_nanos (unat (cur - cc_last_cycles c)) < ts_limit
         then cycle_nanos (unat (cur - cc_last_cycles c)) else 0)"
proof -
  let ?n = "cycle_nanos (unat (cur - cc_last_cycles c))"
  obtain i where i: "Cycles_elapsed_since cur (cc_last_cycles c) = Some i" "wf_ti i" "ti_total i = ?n"
    using Cycles_elapsed_interval by blast
  have n0: "0 \<le> ?n" by (simp add: cycle_nanos_def)
  show ?thesis
  proof (cases "TimeStamp_checked_add (cc_time c) i")
    case None
    then have "\<not> ts_total (cc_time c) + ?n < ts_limit"
      using TimeStamp_checked_add_iff[OF assms i(2)] wf_ts_D[OF assms] i(3) n0
        ts_of_total[of "ts_total (cc_time c) + ?n"] by force
    with None i(1) assms show ?thesis by (simp add: CycleClock_now_def Let_def)
  next
    case (Some u)
    then have "wf_ts u" "ts_total u = ts_total (cc_time c) + ?n"
      using TimeStamp_checked_add_iff[OF assms i(2)] i(3) by simp_all
    with Some i(1) wf_ts_D[of u] show ?thesis by (simp add: CycleClock_now_def Let_def)
  qed
qed

definition cycle_read :: "CycleClock \<Rightarrow> nat \<Rightarrow> (TimeStamp \<times> CycleClock) option" where
  "cycle_read c t = CycleClock_now c (of_nat t)"

definition cycle_adjust :: "CycleClock \<Rightarrow> f64 \<Rightarrow> nat \<Rightarrow> nat \<Rightarrow> CycleClock option" where
  "cycle_adjust c rate t1 t2 = Some (CycleClock_adjust c rate)"

definition cycle_shown :: "CycleClock \<Rightarrow> nat \<Rightarrow> int" where
  "cycle_shown c t = ts_total (cc_time c) + cycle_nanos (unat (of_nat t - cc_last_cycles c))"

definition cycle_invar :: "nat \<Rightarrow> nat \<Rightarrow> CycleClock \<Rightarrow> nat \<Rightarrow> bool" where
  "cycle_invar limit r c t \<longleftrightarrow> wf_ts (cc_time c) \<and> cc_last_cycles c = of_nat r \<and> r \<le> t \<and>
     ts_total (cc_time c) + 84 * int (limit - r) < ts_limit"

lemma cycle_shown_at:
  "cycle_invar limit r c t \<Longrightarrow> t \<le> t' \<Longrightarrow> t' < r + 2 ^ 32 \<Longrightarrow> cycle_shown c t' = ts_total (cc_time c) + cycle_nanos (t' - r)"
  using counter_difference[of r t'] by (auto simp: cycle_shown_def cycle_invar_def)

lemma cycle_now_in_range:
  assumes "cycle_invar limit r c t" "t \<le> t'" "t' \<le> limit" "t' < r + 2 ^ 32"
  shows "\<exists>u. cycle_read c t' = Some (u, \<lparr>cc_time = u, cc_last_cycles = of_nat t'\<rparr>) \<and> wf_ts u \<and>
    ts_total u = ts_total (cc_time c) + cycle_nanos (t' - r) \<and>
    cycle_invar limit t' \<lparr>cc_time = u, cc_last_cycles = of_nat t'\<rparr> t'"
proof -
  have d: "unat (of_nat t' - cc_last_cycles c) = t' - r"
    using counter_difference[of r t'] assms by (auto simp: cycle_invar_def)
  have "limit - r = (t' - r) + (limit - t')" using assms by (auto simp: cycle_invar_def)
  moreover have "cycle_nanos (t' - r) \<le> 84 * int (t' - r)" using cycle_nanos_bounds(1)[of "t' - r"] by linarith
  ultimately have "ts_total (cc_time c) + cycle_nanos (t' - r) + 84 * int (limit - t') < ts_limit"
    using assms(1) by (simp add: cycle_invar_def)
  with CycleClock_now_value[of c "of_nat t'"] assms(1) show ?thesis
    by (auto simp: cycle_read_def cycle_invar_def d)
qed

interpretation cycle: steady_clock cycle_read cycle_adjust cycle_shown "cycle_invar limit" "2 ^ 32 - 1" limit for limit
proof (unfold_locales, goal_cases)
  case (1 r s t t')
  then show ?case using cycle_shown_at[OF 1(1), of t] cycle_shown_at[OF 1(1), of t']
    by (auto intro!: cycle_nanos_mono)
next
  case (2 r s t t')
  then have "t' < r + 2 ^ 32" by simp
  note R = cycle_now_in_range[OF 2(1-3) this] and S = cycle_shown_at[OF 2(1,2) this]
  from R obtain u where u: "cycle_read s t' = Some (u, \<lparr>cc_time = u, cc_last_cycles = of_nat t'\<rparr>)"
    "ts_total u = ts_total (cc_time s) + cycle_nanos (t' - r)"
    "cycle_invar limit t' \<lparr>cc_time = u, cc_last_cycles = of_nat t'\<rparr> t'" by blast
  with S cycle_shown_at[OF u(3), of t'] show ?case by (auto simp: cycle_nanos_def)
next
  case (3 r s t t1 t2 rate)
  then have "cycle_shown s t1 \<le> cycle_shown s t2"
    using cycle_shown_at[OF 3(1), of t1] cycle_shown_at[OF 3(1), of t2] by (auto intro!: cycle_nanos_mono)
  with 3 show ?case by (auto simp: cycle_adjust_def CycleClock_adjust_def cycle_invar_def)
qed


subsection \<open>Readings\<close>

fun instant_readings :: "InstantClock \<Rightarrow> nat list \<Rightarrow> Instant list \<times> InstantClock" where
  "instant_readings c [] = ([], c)"
| "instant_readings c (t # ts) =
     (let (i, c) = InstantClock_now c (of_nat t); (is, c) = instant_readings c ts in (i # is, c))"

text \<open>The counts at which a counter is read: none before the one before it, and none \<open>2\<^sup>3\<^sup>2\<close> or more after it.\<close>

fun counts_from :: "nat \<Rightarrow> nat list \<Rightarrow> bool" where
  "counts_from r [] \<longleftrightarrow> True"
| "counts_from r (t # ts) \<longleftrightarrow> r \<le> t \<and> t < r + 2 ^ 32 \<and> counts_from t ts"

lemma counts_from_last: "counts_from r ts \<Longrightarrow> r \<le> last (r # ts)"
  by (induction r ts rule: counts_from.induct) auto

lemma InstantClock_now_exact:
  assumes "ic_last_ticks c = of_nat r" "r \<le> t" "t < r + 2 ^ 32" "unat (instant_nanos (ic_instant c)) = (r - t0) * 10000000"
    "t0 \<le> r" "(t - t0) * 10000000 < 2 ^ 64"
  shows "\<exists>i. InstantClock_now c (of_nat t) = (i, \<lparr>ic_last_ticks = of_nat t, ic_instant = i\<rparr>) \<and>
    unat (instant_nanos i) = (t - t0) * 10000000"
proof -
  have "unat (of_nat t - of_nat r :: u32) = t - r" using counter_difference[of r t] assms(2,3) by simp
  moreover have "(r - t0) * 10000000 + (t - r) * 10000000 = (t - t0) * 10000000"
    using assms(2,5) by (simp flip: add_mult_distrib)
  ultimately show ?thesis
    using assms(1,4,6)
    by (simp add: InstantClock_now_def Let_def Ticks_elapsed_since_def Instant_saturating_add_def
        unat_saturating_add Ticks_duration_nanos min_def)
qed

lemma instant_readings_exact:
  assumes "counts_from r ts" "ic_last_ticks c = of_nat r" "unat (instant_nanos (ic_instant c)) = (r - t0) * 10000000" "t0 \<le> r"
    "(last (r # ts) - t0) * 10000000 < 2 ^ 64"
  shows "map (unat \<circ> instant_nanos) (fst (instant_readings c ts)) = map (\<lambda>t. (t - t0) * 10000000) ts"
  using assms
proof (induction ts arbitrary: r c)
  case (Cons t ts)
  have t: "r \<le> t" "t < r + 2 ^ 32" "counts_from t ts" using Cons.prems(1) by simp_all
  have "t \<le> last (t # ts)" by (rule counts_from_last[OF t(3)])
  then have "(t - t0) * 10000000 \<le> (last (t # ts) - t0) * 10000000" by simp
  then have lim: "(t - t0) * 10000000 < 2 ^ 64" using Cons.prems(5) by (simp split: if_splits)
  obtain i where i: "InstantClock_now c (of_nat t) = (i, \<lparr>ic_last_ticks = of_nat t, ic_instant = i\<rparr>)"
    "unat (instant_nanos i) = (t - t0) * 10000000"
    using InstantClock_now_exact[OF Cons.prems(2) t(1,2) Cons.prems(3,4) lim] by blast
  have "t0 \<le> t" using t(1) Cons.prems(4) by simp
  from Cons.IH[OF t(3) _ _ this, of "\<lparr>ic_last_ticks = of_nat t, ic_instant = i\<rparr>"] i Cons.prems(5)
  show ?case by (simp add: split_beta)
qed simp

fun cycle_readings :: "CycleClock \<Rightarrow> nat list \<Rightarrow> (TimeStamp list \<times> CycleClock) option" where
  "cycle_readings c [] = Some ([], c)"
| "cycle_readings c (t # ts) =
     (case CycleClock_now c (of_nat t) of
        None \<Rightarrow> None
      | Some (u, c) \<Rightarrow> map_option (apfst ((#) u)) (cycle_readings c ts))"

text \<open>Twelve cycles are a microsecond, so three are 250 nanoseconds.\<close>

lemma cycle_readings_lag:
  assumes "counts_from r ts" "cycle_invar (last (r # ts)) r c r" "3 * ts_total (cc_time c) + k = 3 * T + 250 * int (r - t0)" "t0 \<le> r"
    "0 \<le> k" "k \<le> 2 * int n"
  shows "\<exists>us c'. cycle_readings c ts = Some (us, c') \<and> length us = length ts \<and>
    (\<forall>i < length ts. 3 * (ts_total (us ! i) - T) \<le> 250 * int (ts ! i - t0) \<and>
       250 * int (ts ! i - t0) \<le> 3 * (ts_total (us ! i) - T) + 2 * int (n + Suc i))"
  using assms
proof (induction ts arbitrary: r c k n)
  case (Cons t ts)
  have t: "r \<le> t" "t < r + 2 ^ 32" "counts_from t ts" using Cons.prems(1) by simp_all
  have l: "t \<le> last (t # ts)" by (rule counts_from_last[OF t(3)])
  then have l': "t \<le> last (r # t # ts)" by simp
  obtain u where u: "CycleClock_now c (of_nat t) = Some (u, \<lparr>cc_time = u, cc_last_cycles = of_nat t\<rparr>)"
    "ts_total u = ts_total (cc_time c) + cycle_nanos (t - r)"
    "cycle_invar (last (t # ts)) t \<lparr>cc_time = u, cc_last_cycles = of_nat t\<rparr> t"
    using cycle_now_in_range[OF Cons.prems(2) t(1) l' t(2)] by (auto simp: cycle_read_def)
  define k' where "k' = k + (250 * int (t - r) - 3 * cycle_nanos (t - r))"
  have k': "k \<le> k'" "k' \<le> k + 2" using cycle_nanos_bounds[of "t - r"] by (simp_all add: k'_def)
  have "int (t - t0) = int (r - t0) + int (t - r)" using t(1) Cons.prems(4) by simp
  then have e: "3 * ts_total u + k' = 3 * T + 250 * int (t - t0)"
    using Cons.prems(3) u(2) by (simp add: k'_def)
  have "t0 \<le> t" "0 \<le> k'" "k' \<le> 2 * int (Suc n)" using t(1) Cons.prems(4-6) k' by simp_all
  from Cons.IH[OF t(3) u(3) _ this] e
  obtain us c' where us: "cycle_readings \<lparr>cc_time = u, cc_last_cycles = of_nat t\<rparr> ts = Some (us, c')" "length us = length ts"
    "\<forall>i < length ts. 3 * (ts_total (us ! i) - T) \<le> 250 * int (ts ! i - t0) \<and>
       250 * int (ts ! i - t0) \<le> 3 * (ts_total (us ! i) - T) + 2 * int (Suc n + Suc i)" by auto
  have "3 * (ts_total u - T) \<le> 250 * int (t - t0) \<and> 250 * int (t - t0) \<le> 3 * (ts_total u - T) + 2 * int (n + Suc 0)"
    using e \<open>0 \<le> k'\<close> \<open>k' \<le> 2 * int (Suc n)\<close> by (simp add: algebra_simps)
  with us u(1) show ?case by (auto simp: less_Suc_eq_0_disj)
qed simp

subsection \<open>The seed\<close>

lemma SemiHostingTime_value:
  "\<exists>r. SemiHostingTime_now time clock tickfreq = Some r \<and> (r = None \<longleftrightarrow> tickfreq = 0) \<and>
     (\<forall>t. r = Some t \<longrightarrow> wf_ts t \<and> ts_total t = (uint time + 37) * 1000000000 + uint clock * 1000000000 div uint tickfreq)"
proof (cases "tickfreq = 0")
  case True
  then show ?thesis by (simp add: SemiHostingTime_now_def Let_def)
next
  case False
  have f: "0 < uint tickfreq" using False uint_ge_0[of tickfreq] by (simp add: order_less_le uint_0_iff)
  define n where "n = uint clock * 1000000000 div uint tickfreq"
  have c: "0 \<le> uint clock" "uint clock < 2 ^ 32" "0 \<le> uint time" "uint time < 2 ^ 32"
    using uint_lt2p[of clock] uint_lt2p[of time] by simp_all
  have n: "0 \<le> n" "n \<le> uint clock * 1000000000"
    unfolding n_def using f c(1) zdiv_mono2[of "uint clock * 1000000000" 1 "uint tickfreq"]
    by (simp_all add: pos_imp_zdiv_nonneg_iff)
  have t: "trunc_div (max i64_MIN (min i64_MAX (uint clock * 1000000000))) (uint tickfreq) = n"
  proof -
    have "max i64_MIN (min i64_MAX (uint clock * 1000000000)) = uint clock * 1000000000"
      using c(1,2) by (auto simp: i64_MIN_def i64_MAX_def max_def min_def) (use uint_ge_0[of clock] in linarith)
    then show ?thesis using c f by (simp add: trunc_div_def n_def sgn_if)
  qed
  define k where "k = uint time + n div 1000000000 + 37"
  have s: "0 \<le> k" "k < 2 ^ 34" using n c by (auto simp: k_def pos_imp_zdiv_nonneg_iff)
  have u: "uint (word_of_int k :: u64) = k" "uint (word_of_int (n mod 1000000000) :: u32) = n mod 1000000000"
    using s by (simp_all add: uint_word_of_int)
  have kw: "ucast time + word_of_int (n div 1000000000) + 37 = (word_of_int k :: u64)" by (simp add: k_def)
  have "SemiHostingTime_now time clock tickfreq = Some (Some (TimeStamp (word_of_int k) (word_of_int (n mod 1000000000))))"
    using f c s u
    by (simp add: SemiHostingTime_now_def Let_def t kw TAI_OFFSET_SECONDS_def TimeStamp_new_def MAX_SECONDS_EXCL_def nanos_less_iff)
  moreover have "ts_total (TimeStamp (word_of_int k) (word_of_int (n mod 1000000000))) = (uint time + 37) * 1000000000 + n"
    by (simp add: ts_total_def u) (simp add: k_def algebra_simps)
  moreover have "wf_ts (TimeStamp (word_of_int k) (word_of_int (n mod 1000000000)))"
    using s by (simp add: wf_ts_def u)
  ultimately show ?thesis using False by (simp add: n_def)
qed

subsection \<open>Properties\<close>

text \<open>The instants of the main loop are exact: whenever the tick counter is read, at least once in every
  \<open>2\<^sup>3\<^sup>2\<close> ticks, the instant is the number of the ticks since the clock was created times ten milliseconds,
  across all the wrap-arounds of the counter and until the 64 bit nanoseconds are used up.\<close>

theorem instant_clock_exact:
  assumes "counts_from t0 ts" and "(last (t0 # ts) - t0) * 10000000 < 2 ^ 64"
  shows "map (unat \<circ> instant_nanos) (fst (instant_readings (InstantClock_new (of_nat t0)) ts)) = map (\<lambda>t. (t - t0) * 10000000) ts"
  using instant_readings_exact[OF assms(1) _ _ order_refl assms(2)] by (simp add: InstantClock_new_def Instant_from_nanos_def)

theorem instant_clock_exact_witness:
  "map (unat \<circ> instant_nanos) (fst (instant_readings (InstantClock_new (of_nat 4294967290)) [4294967295, 4294967300, 8589934590]))
     = [50000000, 100000000, 42949673000000000]"
  using instant_clock_exact[of 4294967290 "[4294967295, 4294967300, 8589934590]"] by simp

text \<open>The cycle clock never runs ahead of the cycle counter and loses at most two thirds of a nanosecond per
  reading, the remainder of the division that each reading drops: after \<open>i + 1\<close> readings the time gained is at most
  the time of the cycles and less by at most \<open>2 (i + 1) / 3\<close> nanoseconds (three cycles are 250 nanoseconds), across
  all the wrap-arounds of the counter and up to the end of the range of time stamps.\<close>

theorem cycle_clock_lag:
  assumes "counts_from t0 ts" and "wf_ts seed" and "ts_total seed + 84 * int (last (t0 # ts) - t0) < ts_limit"
  shows "\<exists>us c'. cycle_readings (CycleClock_new seed (of_nat t0)) ts = Some (us, c') \<and> length us = length ts \<and>
    (\<forall>i < length ts. 3 * (ts_total (us ! i) - ts_total seed) \<le> 250 * int (ts ! i - t0) \<and>
       250 * int (ts ! i - t0) \<le> 3 * (ts_total (us ! i) - ts_total seed) + 2 * int (Suc i))"
proof -
  have "cycle_invar (last (t0 # ts)) t0 (CycleClock_new seed (of_nat t0)) t0"
    using assms(2,3) by (simp add: cycle_invar_def CycleClock_new_def)
  from cycle_readings_lag[OF assms(1) this, of 0 "ts_total seed" t0 0] show ?thesis by (simp add: CycleClock_new_def)
qed

theorem cycle_clock_lag_witness:
  "\<exists>us c'. cycle_readings (CycleClock_new (TimeStamp 1 0) (of_nat 4294967290)) [4294967300, 4294967301] = Some (us, c') \<and> length us = 2 \<and>
     250 * 10 \<le> 3 * (ts_total (us ! 0) - 1000000000) + 2"
  using cycle_clock_lag[of 4294967290 "[4294967300, 4294967301]" "TimeStamp 1 0"]
  by (fastforce simp: wf_ts_def ts_total_def ts_limit_def)

text \<open>The time that the network stack is polled with is the time since the start, ten milliseconds per tick,
  exactly for the first 429497 ticks, that is for 71 minutes: the product is computed in 32 bits and wraps then.\<close>

theorem smol_instant_exact:
  "Ticks_as_smol_instant ticks = 10000 * uint ticks \<longleftrightarrow> uint ticks < 429497"
proof -
  have c: "uint (10000 :: u32) = 10000" by simp
  have "Ticks_as_smol_instant ticks = uint ticks * 10000 mod 2 ^ LENGTH(32)"
    using uint_word_ariths(3)[of ticks 10000] unfolding Ticks_as_smol_instant_def c .
  moreover have "(m * 10000 mod 4294967296 = m * 10000) = (m < 429497)" if "0 \<le> m" for m :: int
    using that pos_mod_bound[of 4294967296 "m * 10000"] by auto
  ultimately show ?thesis using uint_ge_0[of ticks] by (simp add: mult.commute)
qed

text \<open>The time the demo starts with: for every answer of the host the seed is the host's seconds, the seconds
  of its clock and the TAI offset, with no overflow, and the answer is given up only when the tick frequency is 0. The tests
  for negative answers never succeed: \<open>usize\<close> values of 32 bits are never negative as \<open>i64\<close>, so a TIME
  or CLOCK call that fails with \<open>-1\<close> is taken for a time in the year 2106 or a clock that has run for that long.\<close>

theorem host_time_epoch:
  "map_option (map_option ts_total) (SemiHostingTime_now time clock tickfreq) =
     Some (if tickfreq = 0 then None
       else Some ((uint time + 37) * 1000000000 + uint clock * 1000000000 div uint tickfreq))"
proof -
  obtain r where r: "SemiHostingTime_now time clock tickfreq = Some r" "r = None \<longleftrightarrow> tickfreq = 0"
    "\<forall>t. r = Some t \<longrightarrow> wf_ts t \<and> ts_total t = (uint time + 37) * 1000000000 + uint clock * 1000000000 div uint tickfreq"
    using SemiHostingTime_value[of time clock tickfreq] by blast
  then show ?thesis by (cases r) auto
qed

end
