(* ===== verification/Ptp_Lm3s.thy ===== *)
theory Ptp_Lm3s
  imports Ptp_Prelude
begin

section \<open>The network of the embedded demo (rptp-embedded-demo/src/net.rs)\<close>

text \<open>
  Models \<^verbatim>\<open>crates/rptp-embedded-demo/src/net.rs\<close>: the driver of the LM3S Ethernet controller, which moves frames
  through its data register word by word, and the queues between the UDP sockets and the main
  loop. What is written to the registers of the controller is the list of the writes; what is read from the
  data register is a function \<open>data\<close>, the \<open>k\<close>-th word that is read. The closures that \<open>smoltcp\<close> passes to the
  tokens, its sockets, its \<open>Interface::poll\<close> and its \<open>send_slice\<close> are parameters.

  The lemmas show that a frame is taken out of the FIFO without its length and checksum and with
  the right number of reads, that a frame to send reaches the register byte for byte with its length
  in front, and which datagrams a poll hands over, keeps and loses.
\<close>

unbundle bit_operations_syntax

definition MAX_FRAME_SIZE :: nat where "MAX_FRAME_SIZE = 1500"

definition MAX_RX_PACKETS :: nat where "MAX_RX_PACKETS = 4"

datatype enet_register = REG_RIS | REG_RCTL | REG_TCTL | REG_DATA | REG_IA0 | REG_IA1 | REG_THR | REG_NP | REG_TR

fun enet_offset :: "enet_register \<Rightarrow> nat" where
  "enet_offset REG_RIS = 0x00"
| "enet_offset REG_RCTL = 0x08"
| "enet_offset REG_TCTL = 0x0c"
| "enet_offset REG_DATA = 0x10"
| "enet_offset REG_IA0 = 0x14"
| "enet_offset REG_IA1 = 0x18"
| "enet_offset REG_THR = 0x1c"
| "enet_offset REG_NP = 0x34"
| "enet_offset REG_TR = 0x38"

type_synonym reg_writes = "(enet_register \<times> u32) list"

definition u32_to_le_bytes :: "u32 \<Rightarrow> bytes" where
  "u32_to_le_bytes w = [ucast w, ucast (drop_bit 8 w), ucast (drop_bit 16 w), ucast (drop_bit 24 w)]"

subsection \<open>The controller\<close>

definition SE_RCTL_RXEN :: u32 where "SE_RCTL_RXEN = 0x01"

definition SE_RCTL_AMUL :: u32 where "SE_RCTL_AMUL = 0x02"

definition SE_RCTL_PRMS :: u32 where "SE_RCTL_PRMS = 0x04"

definition SE_RCTL_RSTFIFO :: u32 where "SE_RCTL_RSTFIFO = 0x10"

definition SE_TCTL_TXEN :: u32 where "SE_TCTL_TXEN = 0x01"

definition SE_TCTL_PADEN :: u32 where "SE_TCTL_PADEN = 0x02"

definition SE_TCTL_CRC :: u32 where "SE_TCTL_CRC = 0x04"

definition SE_TCTL_DUPLEX :: u32 where "SE_TCTL_DUPLEX = 0x08"

definition Lm3sEth_init :: "u8 \<times> u8 \<times> u8 \<times> u8 \<times> u8 \<times> u8 \<Rightarrow> reg_writes" where
  "Lm3sEth_init mac =
     (case mac of (m0, m1, m2, m3, m4, m5) \<Rightarrow>
        let ia0 = ucast m0 OR push_bit 8 (ucast m1) OR push_bit 16 (ucast m2) OR push_bit 24 (ucast m3);
            ia1 = ucast m4 OR push_bit 8 (ucast m5)
        in [(REG_IA0, ia0), (REG_IA1, ia1), (REG_RCTL, SE_RCTL_RXEN OR SE_RCTL_AMUL OR SE_RCTL_PRMS OR SE_RCTL_RSTFIFO),
            (REG_TCTL, SE_TCTL_TXEN OR SE_TCTL_PADEN OR SE_TCTL_CRC OR SE_TCTL_DUPLEX), (REG_THR, 0x3f), (REG_RIS, 0xff)])"

text \<open>A receive token is available when the controller counts a packet, a transmit token always.\<close>

definition Lm3sEth_receive :: "u32 \<Rightarrow> bool" where
  "Lm3sEth_receive np \<longleftrightarrow> np \<noteq> 0"

subsection \<open>Receiving a frame\<close>

text \<open>The buffer, the index of the next byte of the frame in it, and the number of bytes taken from the FIFO.
  The bytes of the first word and those of the further words are handled by two loops.\<close>

record rx_state =
  rx_buf :: bytes
  rx_frame_idx :: nat
  rx_consumed :: nat

definition rx_store :: "nat \<Rightarrow> u8 \<Rightarrow> rx_state \<Rightarrow> rx_state" where
  "rx_store frame_len b s =
     (if rx_frame_idx s < frame_len \<and> rx_frame_idx s < MAX_FRAME_SIZE
      then s\<lparr>rx_buf := (rx_buf s)[rx_frame_idx s := b], rx_frame_idx := rx_frame_idx s + 1\<rparr> else s)"

definition rx_first_byte :: "nat \<Rightarrow> u8 \<Rightarrow> rx_state \<Rightarrow> rx_state" where
  "rx_first_byte frame_len b s =
     (let s = s\<lparr>rx_consumed := rx_consumed s + 1\<rparr>
      in if rx_consumed s \<le> 2 then s else rx_store frame_len b s)"

definition rx_byte :: "nat \<Rightarrow> nat \<Rightarrow> u8 \<Rightarrow> rx_state \<Rightarrow> rx_state" where
  "rx_byte total_len frame_len b s =
     (let s = s\<lparr>rx_consumed := rx_consumed s + 1\<rparr>
      in if rx_consumed s \<le> 2 then s
         else if total_len - 4 < rx_consumed s \<and> 4 \<le> total_len then s
         else rx_store frame_len b s)"

lemma rx_consumed_bytes [simp]:
  "rx_consumed (fold (rx_byte total_len frame_len) bs s) = rx_consumed s + length bs"
  by (induction bs arbitrary: s) (simp_all add: rx_byte_def rx_store_def Let_def)

lemma length_le_bytes [simp]: "length (u32_to_le_bytes w) = 4"
  by (simp add: u32_to_le_bytes_def)

text \<open>The loop over the further words; the result has the number of words read.\<close>

function rx_words :: "(nat \<Rightarrow> u32) \<Rightarrow> nat \<Rightarrow> nat \<Rightarrow> nat \<Rightarrow> rx_state \<Rightarrow> nat \<times> rx_state" where
  "rx_words data total_len frame_len k s =
     (if rx_consumed s < total_len
      then let word = data k
           in rx_words data total_len frame_len (k + 1) (fold (rx_byte total_len frame_len) (u32_to_le_bytes word) s)
      else (k, s))"
  by auto
termination
  by (relation "measure (\<lambda>(_, total_len, _, _, s). total_len - rx_consumed s)") auto

declare rx_words.simps [simp del]

text \<open>The slice that is handed to the closure, with the number of words read. A frame that carries the node's own
  address as its source is replaced by an empty one.\<close>

definition Lm3sRxToken_consume :: "bytes \<Rightarrow> (nat \<Rightarrow> u32) \<Rightarrow> nat \<times> bytes" where
  "Lm3sRxToken_consume mac data =
     (let first = data 0;
          total_len = unat (ucast first :: u16);
          frame_len = total_len - 6;
          s = \<lparr>rx_buf = replicate MAX_FRAME_SIZE 0, rx_frame_idx = 0, rx_consumed = 0\<rparr>;
          s = fold (rx_first_byte frame_len) (u32_to_le_bytes first) s;
          (k, s) = rx_words data total_len frame_len 1 s
      in (k, if 12 \<le> rx_frame_idx s \<and> take 6 (drop 6 (rx_buf s)) = mac then [] else take (rx_frame_idx s) (rx_buf s)))"

subsection \<open>Sending a frame\<close>

record Frame =
  fr_len :: nat
  fr_data :: bytes

definition Frame_new_with_len :: "nat \<Rightarrow> Frame" where
  "Frame_new_with_len n = \<lparr>fr_len = n, fr_data = replicate MAX_FRAME_SIZE 0\<rparr>"

text \<open>\<open>data.get(i)\<close>, 0 beyond the array.\<close>

definition frame_get :: "Frame \<Rightarrow> nat \<Rightarrow> u8" where
  "frame_get f i = (if i < length (fr_data f) then fr_data f ! i else 0)"

definition tx_word :: "Frame \<Rightarrow> nat \<Rightarrow> u32" where
  "tx_word f idx = fold (\<lambda>i word. word OR push_bit (8 * i) (ucast (frame_get f (idx + i)))) [0..<4] 0"

function tx_words :: "Frame \<Rightarrow> nat \<Rightarrow> u32 list" where
  "tx_words f idx = (if idx < fr_len f then tx_word f idx # tx_words f (idx + 4) else [])"
  by auto
termination
  by (relation "measure (\<lambda>(f, idx). fr_len f - idx)") auto

declare tx_words.simps [simp del]

text \<open>The closure \<open>f\<close> fills the slice of the frame.\<close>

definition Lm3sTxToken_consume :: "nat \<Rightarrow> (bytes \<Rightarrow> bytes) \<Rightarrow> reg_writes" where
  "Lm3sTxToken_consume n f =
     (let frame = Frame_new_with_len (min n MAX_FRAME_SIZE);
          frame = frame\<lparr>fr_data := f (take (fr_len frame) (fr_data frame)) @ drop (fr_len frame) (fr_data frame)\<rparr>;
          data_len = of_nat (fr_len frame - 14);
          b0 = ucast (frame_get frame 0);
          b1 = ucast (frame_get frame 1);
          first_word = data_len OR push_bit 16 b0 OR push_bit 24 b1
      in (REG_DATA, first_word) # map (\<lambda>word. (REG_DATA, word)) (tx_words frame 2) @ [(REG_TR, 1)])"

subsection \<open>The sockets\<close>

datatype NetRxKind = NetEvent | NetGeneral

record RxPacket =
  rxp_len :: nat
  rxp_data :: bytes
  rxp_kind :: NetRxKind

definition RxPacket_of :: "NetRxKind \<Rightarrow> bytes \<Rightarrow> RxPacket" where
  "RxPacket_of kind bytes =
     (let n = min (length bytes) MAX_FRAME_SIZE
      in \<lparr>rxp_len = n, rxp_data = copy_at 0 (take n bytes) (replicate MAX_FRAME_SIZE 0), rxp_kind = kind\<rparr>)"

text \<open>
  The sockets of \<^verbatim>\<open>smoltcp\<close> are a parameter on a state \<open>'s\<close>, the \<open>SocketSet\<close>; the two handles of \<^verbatim>\<open>PtpSockets\<close> name the
  sockets in it. \<open>documented_smoltcp\<close> is what the crate documents of \<open>udp::Socket::recv\<close>: the datagrams of a socket are dequeued in
  the order they arrived, and \<open>recv\<close> fails (\<open>None\<close>) when there are none; the other socket is not touched.
\<close>

datatype socket_handle = EventHandle | GeneralHandle

record 's smoltcp =
  sm_recv :: "socket_handle \<Rightarrow> 's \<Rightarrow> (bytes \<times> 's) option"
  sm_waiting :: "socket_handle \<Rightarrow> 's \<Rightarrow> bytes list"

definition documented_smoltcp :: "'s smoltcp \<Rightarrow> bool" where
  "documented_smoltcp sm \<longleftrightarrow>
     (\<forall>h s. case sm_waiting sm h s of
        [] \<Rightarrow> sm_recv sm h s = None
      | b # q \<Rightarrow> (\<exists>s'. sm_recv sm h s = Some (b, s') \<and> (\<lambda>h'. sm_waiting sm h' s') = (\<lambda>h'. sm_waiting sm h' s)(h := q)))"

text \<open>\<open>recv\<close> takes a datagram out of the socket before the loop looks whether there is room for it.\<close>

function PtpNetwork_drain_socket ::
    "'s smoltcp \<Rightarrow> socket_handle \<Rightarrow> NetRxKind \<Rightarrow> 's \<Rightarrow> RxPacket list \<Rightarrow> 's \<times> RxPacket list" where
  "PtpNetwork_drain_socket sm socket kind s rx_out =
     (case sm_recv sm socket s of
        None \<Rightarrow> (s, rx_out)
      | Some (bytes, s) \<Rightarrow>
          (if MAX_RX_PACKETS \<le> length rx_out then (s, rx_out)
           else PtpNetwork_drain_socket sm socket kind s (rx_out @ [RxPacket_of kind bytes])))"
  by pat_completeness auto

termination PtpNetwork_drain_socket
  by (relation "measure (\<lambda>(sm, socket, kind, s, rx_out). MAX_RX_PACKETS - length rx_out)") auto

declare PtpNetwork_drain_socket.simps [simp del]

text \<open>\<open>iface_poll\<close> is the effect of \<open>Interface::poll\<close> on the sockets.\<close>

definition PtpNetwork_poll ::
    "'s smoltcp \<Rightarrow> ('s \<Rightarrow> 's) \<Rightarrow> 's \<Rightarrow> RxPacket list \<Rightarrow> 's \<times> RxPacket list" where
  "PtpNetwork_poll sm iface_poll sockets rx_out =
     (let sockets = iface_poll sockets;
          (sockets, rx_out) = PtpNetwork_drain_socket sm EventHandle NetEvent sockets rx_out;
          (sockets, rx_out) = PtpNetwork_drain_socket sm GeneralHandle NetGeneral sockets rx_out
      in (sockets, rx_out))"

type_synonym endpoint = "(u8 \<times> u8 \<times> u8 \<times> u8) \<times> u16"

definition SmoltcpPhysicalPort_send :: "(socket_handle \<Rightarrow> bytes \<Rightarrow> endpoint \<Rightarrow> bool) \<Rightarrow> bytes \<Rightarrow> u16 \<Rightarrow> bool" where
  "SmoltcpPhysicalPort_send send_slice buf port =
     (let socket = (if port = 319 then EventHandle else GeneralHandle);
          dest = ((224, 0, 1, 129), port)
      in send_slice socket buf dest)"

definition SmoltcpPhysicalPort_send_event :: "(socket_handle \<Rightarrow> bytes \<Rightarrow> endpoint \<Rightarrow> bool) \<Rightarrow> bytes \<Rightarrow> bool" where
  "SmoltcpPhysicalPort_send_event send_slice buf = SmoltcpPhysicalPort_send send_slice buf 319"

definition SmoltcpPhysicalPort_send_general :: "(socket_handle \<Rightarrow> bytes \<Rightarrow> endpoint \<Rightarrow> bool) \<Rightarrow> bytes \<Rightarrow> bool" where
  "SmoltcpPhysicalPort_send_general send_slice buf = SmoltcpPhysicalPort_send send_slice buf 320"

subsection \<open>Lemmas: receiving\<close>

text \<open>The bytes of the first \<open>k\<close> words of the FIFO.\<close>

definition fifo_bytes :: "(nat \<Rightarrow> u32) \<Rightarrow> nat \<Rightarrow> bytes" where
  "fifo_bytes data k = concat (map (u32_to_le_bytes \<circ> data) [0..<k])"

lemma length_fifo_bytes [simp]: "length (fifo_bytes data k) = 4 * k"
  by (induction k) (simp_all add: fifo_bytes_def)

lemma fifo_bytes_Suc [simp]: "fifo_bytes data (Suc k) = fifo_bytes data k @ u32_to_le_bytes (data k)"
  by (simp add: fifo_bytes_def)

text \<open>After the bytes \<open>bs\<close> the buffer starts with what they hold of the frame.\<close>

definition rx_inv :: "nat \<Rightarrow> bytes \<Rightarrow> rx_state \<Rightarrow> bool" where
  "rx_inv frame_len bs s \<longleftrightarrow> length (rx_buf s) = MAX_FRAME_SIZE \<and> rx_consumed s = length bs \<and>
     rx_frame_idx s = min (length bs - 2) (min frame_len MAX_FRAME_SIZE) \<and>
     take (rx_frame_idx s) (rx_buf s) = take (rx_frame_idx s) (drop 2 bs)"

lemma rx_store_inv:
  assumes inv: "rx_inv frame_len bs s" and len: "2 \<le> length bs"
  shows "rx_inv frame_len (bs @ [b]) (rx_store frame_len b (s\<lparr>rx_consumed := rx_consumed s + 1\<rparr>))"
proof (cases "rx_frame_idx s < frame_len \<and> rx_frame_idx s < MAX_FRAME_SIZE")
  case True
  have "rx_frame_idx s = min (length bs - 2) (min frame_len MAX_FRAME_SIZE)" using inv by (simp add: rx_inv_def)
  with True have "rx_frame_idx s = length bs - 2" by linarith
  with True inv len show ?thesis
    by (auto simp: rx_inv_def rx_store_def take_Suc_conv_app_nth)
next
  case False
  with inv len show ?thesis by (auto simp: rx_inv_def rx_store_def)
qed

lemma rx_byte_inv:
  assumes "rx_inv (total_len - 6) bs s"
  shows "rx_inv (total_len - 6) (bs @ [b]) (rx_byte total_len (total_len - 6) b s)"
    "rx_inv (total_len - 6) (bs @ [b]) (rx_first_byte (total_len - 6) b s)"
proof -
  have c: "rx_consumed s = length bs" using assms by (simp add: rx_inv_def)
  have skip: "rx_inv (total_len - 6) (bs @ [b]) (s\<lparr>rx_consumed := rx_consumed s + 1\<rparr>)"
    if "length bs < 2 \<or> total_len - 4 \<le> length bs"
    using assms that by (auto simp: rx_inv_def)
  show "rx_inv (total_len - 6) (bs @ [b]) (rx_byte total_len (total_len - 6) b s)"
    "rx_inv (total_len - 6) (bs @ [b]) (rx_first_byte (total_len - 6) b s)"
    using rx_store_inv[OF assms, of b] skip c
    by (auto simp: rx_byte_def rx_first_byte_def Let_def not_le)
qed

lemma rx_bytes_inv:
  assumes "\<And>bs b s. rx_inv n bs s \<Longrightarrow> rx_inv n (bs @ [b]) (f b s)" "rx_inv n bs s"
  shows "rx_inv n (bs @ cs) (fold f cs s)"
  using assms(2)
proof (induction cs arbitrary: bs s)
  case (Cons c cs)
  from Cons.IH[OF assms(1)[OF Cons.prems]] show ?case by simp
qed simp

lemma rx_words_inv:
  assumes "rx_inv (total_len - 6) (fifo_bytes data k) s"
  shows "\<exists>s'. rx_words data total_len (total_len - 6) k s = (max k ((total_len + 3) div 4), s') \<and>
    rx_inv (total_len - 6) (fifo_bytes data (max k ((total_len + 3) div 4))) s'"
  using assms
proof (induction data total_len "total_len - 6" k s rule: rx_words.induct)
  case (1 data total_len k s)
  have c: "rx_consumed s = 4 * k" using 1(2) by (simp add: rx_inv_def)
  show ?case
  proof (cases "rx_consumed s < total_len")
    case True
    have "rx_inv (total_len - 6) (fifo_bytes data (k + 1)) (fold (rx_byte total_len (total_len - 6)) (u32_to_le_bytes (data k)) s)"
      using rx_bytes_inv[OF rx_byte_inv(1) 1(2)] by simp
    from 1(1)[OF True refl this] True c show ?thesis
      by (subst rx_words.simps) (auto simp: max_def)
  next
    case False
    then have "(total_len + 3) div 4 \<le> k" using c div_le_mono[of "total_len + 3" "4 * k + 3" 4] by simp
    with False 1(2) show ?thesis by (subst rx_words.simps) (simp add: max_def)
  qed
qed

subsection \<open>Lemmas: sending\<close>

lemma le_bytes_of_bytes:
  fixes a b c d :: u8
  shows "u32_to_le_bytes (ucast a OR push_bit 8 (ucast b) OR push_bit 16 (ucast c) OR push_bit 24 (ucast d)) = [a, b, c, d]"
  unfolding u32_to_le_bytes_def
  by (intro list.inject[THEN iffD2] conjI refl; rule bit_word_eqI; auto simp: bit_simps dest: bit_imp_le_length)

lemma le_bytes_of_half:
  fixes a b :: u8
  assumes "\<And>j. bit (x :: u32) j \<Longrightarrow> j < 16"
  shows "u32_to_le_bytes (x OR push_bit 16 (ucast a) OR push_bit 24 (ucast b)) = take 2 (u32_to_le_bytes x) @ [a, b]"
proof -
  have "\<not> bit x (16 + j)" "\<not> bit x (24 + j)" "\<not> bit a (8 + j)" for j
    using assms[of "16 + j"] assms[of "24 + j"] bit_imp_le_length[of a "8 + j"] by auto
  then show ?thesis
    unfolding u32_to_le_bytes_def by (auto simp: bit_simps intro!: bit_word_eqI)
qed

lemma tx_word_bytes:
  "u32_to_le_bytes (tx_word f idx) = map (frame_get f) [idx..<idx + 4]"
proof -
  have "tx_word f idx = ucast (frame_get f idx) OR push_bit 8 (ucast (frame_get f (idx + 1)))
      OR push_bit 16 (ucast (frame_get f (idx + 2))) OR push_bit 24 (ucast (frame_get f (idx + 3)))"
    by (simp add: tx_word_def upt_rec ac_simps eval_nat_numeral)
  moreover have "[idx..<idx + 4] = [idx, idx + 1, idx + 2, idx + 3]" by (simp add: upt_rec)
  ultimately show ?thesis by (simp only: le_bytes_of_bytes list.map)
qed

lemma tx_words_bytes:
  "concat (map u32_to_le_bytes (tx_words f idx)) = map (frame_get f) [idx..<idx + 4 * ((fr_len f - idx + 3) div 4)]"
proof (induction f idx rule: tx_words.induct)
  case (1 f idx)
  show ?case
  proof (cases "idx < fr_len f")
    case True
    then have k: "4 * ((fr_len f - idx + 3) div 4) = 4 + 4 * ((fr_len f - (idx + 4) + 3) div 4)"
      by (cases "fr_len f - idx < 4") (auto simp: div_if)
    have "[idx..<idx + (4 + n)] = [idx..<idx + 4] @ [idx + 4..<idx + 4 + n]" for n
      by (metis add.assoc le_add1 upt_add_eq_append)
    then show ?thesis
      unfolding k using 1[OF True] True by (subst tx_words.simps) (simp only: if_True list.map concat.simps tx_word_bytes map_append)
  next
    case False
    then show ?thesis by (subst tx_words.simps) simp
  qed
qed

subsection \<open>Lemmas: the sockets\<close>

lemma RxPacket_payload: "take (rxp_len (RxPacket_of kind b)) (rxp_data (RxPacket_of kind b)) = take MAX_FRAME_SIZE b"
  by (simp add: RxPacket_of_def Let_def copy_at_def min_def)

lemma drain_socket_all:
  assumes "\<And>bytes. P (RxPacket_of kind bytes)"
  shows "list_all P rx_out \<Longrightarrow> list_all P (snd (PtpNetwork_drain_socket sm socket kind s rx_out))"
proof (induction "MAX_RX_PACKETS - length rx_out" arbitrary: s rx_out)
  case 0
  then show ?case by (subst PtpNetwork_drain_socket.simps) (auto split: option.splits)
next
  case (Suc n)
  have "n = MAX_RX_PACKETS - length (rx_out @ [RxPacket_of kind bytes])" for bytes using Suc.hyps(2) by simp
  from Suc.hyps(1)[OF this] Suc.prems assms show ?case
    by (subst PtpNetwork_drain_socket.simps) (auto split: option.splits)
qed

text \<open>No packet that a poll hands over claims more bytes than it has.\<close>

lemma poll_packets:
  assumes "PtpNetwork_poll sm iface_poll sockets [] = (sockets', packets)"
  shows "list_all (\<lambda>packet. rxp_len packet \<le> length (rxp_data packet)) packets"
proof -
  let ?P = "\<lambda>packet. rxp_len packet \<le> length (rxp_data packet)"
  have "?P (RxPacket_of kind bytes)" for kind bytes by (simp add: RxPacket_of_def Let_def copy_at_def)
  note all = drain_socket_all[where P = ?P, OF this]
  obtain s1 events where e: "PtpNetwork_drain_socket sm EventHandle NetEvent (iface_poll sockets) [] = (s1, events)" by fastforce
  with assms have "PtpNetwork_drain_socket sm GeneralHandle NetGeneral s1 events = (sockets', packets)"
    by (auto simp: PtpNetwork_poll_def Let_def split: prod.splits)
  with all[of events sm GeneralHandle NetGeneral s1] all[of "[]" sm EventHandle NetEvent "iface_poll sockets"] e show ?thesis by simp
qed

subsection \<open>The sockets as an interface\<close>

locale smoltcp_sockets =
  fixes sm :: "'s smoltcp"
  assumes documented: "documented_smoltcp sm"
begin

lemma recv_socket:
  obtains (empty) "sm_waiting sm h s = []" "sm_recv sm h s = None"
  | (datagram) b s' q where "sm_waiting sm h s = b # q" "sm_recv sm h s = Some (b, s')"
      "\<And>h'. sm_waiting sm h' s' = (if h' = h then q else sm_waiting sm h' s)"
proof -
  have "case sm_waiting sm h s of [] \<Rightarrow> sm_recv sm h s = None
    | b # q \<Rightarrow> (\<exists>s'. sm_recv sm h s = Some (b, s') \<and> (\<lambda>h'. sm_waiting sm h' s') = (\<lambda>h'. sm_waiting sm h' s)(h := q))"
    using documented unfolding documented_smoltcp_def by blast
  with empty datagram show ?thesis by (cases "sm_waiting sm h s") (auto simp: fun_eq_iff)
qed

lemma drain_socket_eq:
  "length rx_out \<le> MAX_RX_PACKETS \<Longrightarrow> \<exists>s'. PtpNetwork_drain_socket sm h kind s rx_out =
     (s', rx_out @ map (RxPacket_of kind) (take (MAX_RX_PACKETS - length rx_out) (sm_waiting sm h s))) \<and>
     (\<forall>h'. sm_waiting sm h' s' = (if h' = h then drop (Suc (MAX_RX_PACKETS - length rx_out)) (sm_waiting sm h s) else sm_waiting sm h' s))"
proof (induction "MAX_RX_PACKETS - length rx_out" arbitrary: s rx_out)
  case (0 rx_out s)
  then have full: "length rx_out = MAX_RX_PACKETS" by simp
  show ?case
    by (cases rule: recv_socket[of h s, case_names empty datagram])
      (auto simp: full PtpNetwork_drain_socket.simps[of sm h kind s])
next
  case (Suc n)
  then have room: "\<not> MAX_RX_PACKETS \<le> length rx_out" "MAX_RX_PACKETS - length rx_out = Suc n" by auto
  show ?case
  proof (cases rule: recv_socket[of h s, case_names empty datagram])
    case empty
    then show ?thesis by (auto simp: PtpNetwork_drain_socket.simps[of sm h kind s])
  next
    case (datagram b s1 q)
    have n: "MAX_RX_PACKETS - length (rx_out @ [RxPacket_of kind b]) = n" "length (rx_out @ [RxPacket_of kind b]) \<le> MAX_RX_PACKETS"
      using room by auto
    obtain s' where "PtpNetwork_drain_socket sm h kind s1 (rx_out @ [RxPacket_of kind b])
        = (s', rx_out @ RxPacket_of kind b # map (RxPacket_of kind) (take n q))"
      "\<forall>h'. sm_waiting sm h' s' = (if h' = h then drop (Suc n) q else sm_waiting sm h' s)"
      using Suc.hyps(1)[OF n(1)[symmetric] n(2), of s1] unfolding n(1) by (auto simp: datagram(3))
    with datagram room show ?thesis by (simp add: PtpNetwork_drain_socket.simps[of sm h kind s])
  qed
qed

lemma poll_eq:
  "\<exists>s'. PtpNetwork_poll sm iface_poll sockets [] =
     (let s = iface_poll sockets; events = sm_waiting sm EventHandle s; generals = sm_waiting sm GeneralHandle s
      in (s', map (RxPacket_of NetEvent) (take MAX_RX_PACKETS events) @
           map (RxPacket_of NetGeneral) (take (MAX_RX_PACKETS - length events) generals))) \<and>
     sm_waiting sm EventHandle s' = drop (Suc MAX_RX_PACKETS) (sm_waiting sm EventHandle (iface_poll sockets)) \<and>
     sm_waiting sm GeneralHandle s' =
       drop (Suc (MAX_RX_PACKETS - length (sm_waiting sm EventHandle (iface_poll sockets)))) (sm_waiting sm GeneralHandle (iface_poll sockets))"
proof -
  let ?s = "iface_poll sockets"
  let ?events = "map (RxPacket_of NetEvent) (take MAX_RX_PACKETS (sm_waiting sm EventHandle ?s))"
  obtain s1 where 1: "PtpNetwork_drain_socket sm EventHandle NetEvent ?s [] = (s1, ?events)"
    "\<forall>h. sm_waiting sm h s1 = (if h = EventHandle then drop (Suc MAX_RX_PACKETS) (sm_waiting sm EventHandle ?s) else sm_waiting sm h ?s)"
    using drain_socket_eq[of "[]" EventHandle NetEvent ?s] by auto
  have l: "length ?events \<le> MAX_RX_PACKETS" "MAX_RX_PACKETS - length ?events = MAX_RX_PACKETS - length (sm_waiting sm EventHandle ?s)"
    by (auto simp: min_def)
  show ?thesis
    using drain_socket_eq[OF l(1), of GeneralHandle NetGeneral s1] 1 unfolding l(2) by (auto simp: PtpNetwork_poll_def Let_def)
qed

end

text \<open>Two queues: an instance of what the crate documents.\<close>

definition queue_sockets :: "(socket_handle \<Rightarrow> bytes list) smoltcp" where
  "queue_sockets =
     \<lparr>sm_recv = (\<lambda>h s. case s h of [] \<Rightarrow> None | b # q \<Rightarrow> Some (b, s(h := q))), sm_waiting = (\<lambda>h s. s h)\<rparr>"

lemma queue_sockets_documented: "documented_smoltcp queue_sockets"
  by (auto simp: documented_smoltcp_def queue_sockets_def split: list.splits)

interpretation queues: smoltcp_sockets queue_sockets
  by unfold_locales (rule queue_sockets_documented)

subsection \<open>Properties\<close>

text \<open>A frame is taken out of the controller's FIFO as it was put in: the length \<open>n\<close> in the first two bytes
  counts itself and the checksum, exactly the words that hold \<open>n\<close> bytes are read (so the next frame starts at
  the next read), and the closure gets the \<open>n - 6\<close> bytes in between, cut at the size of the buffer, or nothing
  when they carry the node's own address as their source.\<close>

theorem rx_frame_taken_out:
  "Lm3sRxToken_consume mac data =
     (let n = unat (ucast (data 0) :: u16);
          k = max 1 ((n + 3) div 4);
          frame = take MAX_FRAME_SIZE (take (n - 6) (drop 2 (fifo_bytes data k)))
      in (k, if 12 \<le> length frame \<and> take 6 (drop 6 frame) = mac then [] else frame))"
proof -
  define n where "n = unat (ucast (data 0) :: u16)"
  define k where "k = max 1 ((n + 3) div 4)"
  define frame where "frame = take MAX_FRAME_SIZE (take (n - 6) (drop 2 (fifo_bytes data k)))"
  let ?s = "\<lparr>rx_buf = replicate MAX_FRAME_SIZE 0, rx_frame_idx = 0, rx_consumed = 0\<rparr>"
  have "rx_inv (n - 6) [] ?s" by (simp add: rx_inv_def)
  from rx_bytes_inv[OF rx_byte_inv(2) this, where cs = "u32_to_le_bytes (data 0)"]
  have "rx_inv (n - 6) (fifo_bytes data 1) (fold (rx_first_byte (n - 6)) (u32_to_le_bytes (data 0)) ?s)"
    by (simp add: fifo_bytes_def)
  from rx_words_inv[OF this] obtain s' where s':
    "rx_words data n (n - 6) 1 (fold (rx_first_byte (n - 6)) (u32_to_le_bytes (data 0)) ?s) = (k, s')"
    "rx_inv (n - 6) (fifo_bytes data k) s'" by (auto simp: k_def)
  have "n \<le> 4 * k" by (auto simp: k_def)
  then have f: "rx_frame_idx s' = length frame" "take (rx_frame_idx s') (rx_buf s') = frame"
    using s'(2) by (auto simp: rx_inv_def frame_def min_def)
  have "take 6 (drop 6 (rx_buf s')) = take 6 (drop 6 frame)" if "12 \<le> length frame"
  proof -
    have "take 12 (rx_buf s') = take 12 frame" using f that by (metis min.absorb1 take_take)
    then have "drop 6 (take 12 (rx_buf s')) = drop 6 (take 12 frame)" by (rule arg_cong)
    then show ?thesis by (simp add: take_drop)
  qed
  with f s'(1) show ?thesis
    unfolding Lm3sRxToken_consume_def Let_def n_def[symmetric] k_def[symmetric] frame_def[symmetric] by auto
qed

text \<open>A frame of \<open>n\<close> bytes that the stack fills in is written to the data register with the length of its payload in
  the first two bytes, then byte for byte, then with less than a word of zeros; after the last word the
  transmission is started. The bytes are those of the words as the controller takes them, the lowest first.\<close>

theorem tx_frame_written:
  fixes n :: nat
  assumes "2 \<le> n" "n \<le> MAX_FRAME_SIZE" "length (f (replicate n 0)) = n"
  shows "\<exists>ws pad. Lm3sTxToken_consume n f = map (\<lambda>w. (REG_DATA, w)) ws @ [(REG_TR, 1)] \<and> pad < 4 \<and>
    concat (map u32_to_le_bytes ws) = take 2 (u32_to_le_bytes (of_nat (n - 14))) @ f (replicate n 0) @ replicate pad 0"
proof -
  let ?d = "f (replicate n 0) @ replicate (MAX_FRAME_SIZE - n) 0"
  let ?F = "\<lparr>fr_len = n, fr_data = ?d\<rparr>"
  let ?first = "of_nat (n - 14) OR push_bit 16 (ucast (frame_get ?F 0)) OR push_bit 24 (ucast (frame_get ?F 1)) :: u32"
  let ?k = "4 * ((n - 2 + 3) div 4)"
  have get: "frame_get ?F i = (if i < n then f (replicate n 0) ! i else 0)" for i
    using assms by (auto simp: frame_get_def nth_append)
  have k: "n - 2 \<le> ?k" "?k < n - 2 + 4" by linarith+
  have small: "bit (of_nat (n - 14) :: u32) j \<Longrightarrow> j < 16" for j
  proof -
    assume b: "bit (of_nat (n - 14) :: u32) j"
    have "n - 14 < 2 ^ 16" using assms(2) by (simp add: MAX_FRAME_SIZE_def)
    then have "take_bit 16 (n - 14) = n - 14" by (simp add: take_bit_nat_eq_self)
    with b show ?thesis by (metis bit_of_nat_iff bit_take_bit_iff)
  qed
  have first: "u32_to_le_bytes ?first = take 2 (u32_to_le_bytes (of_nat (n - 14))) @ [frame_get ?F 0, frame_get ?F 1]"
    by (rule le_bytes_of_half) (rule small)
  have regs: "Lm3sTxToken_consume n f = map (\<lambda>w. (REG_DATA, w)) (?first # tx_words ?F 2) @ [(REG_TR, 1)]"
    using assms(2) by (simp add: Lm3sTxToken_consume_def Frame_new_with_len_def Let_def min_def)
  have bytes: "concat (map u32_to_le_bytes (?first # tx_words ?F 2))
      = take 2 (u32_to_le_bytes (of_nat (n - 14))) @ map (frame_get ?F) [0..<2 + ?k]"
  proof -
    have c: "[0..<2 + ?k] = 0 # 1 # [2..<2 + ?k]" by (simp add: upt_rec[of 0] upt_rec[of "Suc 0"] numeral_2_eq_2)
    show ?thesis unfolding list.map concat.simps first tx_words_bytes Frame.select_convs c by simp
  qed
  have pad: "map (frame_get ?F) [0..<m] = f (replicate n 0) @ replicate (m - n) 0" if "n \<le> m" for m
    using that assms(3) by (auto simp: list_eq_iff_nth_eq nth_append get)
  have "n \<le> 2 + ?k" using k(1) by linarith
  then have "map (frame_get ?F) [0..<2 + ?k] = f (replicate n 0) @ replicate (2 + ?k - n) 0" by (rule pad)
  moreover have "2 + ?k - n < 4" using k assms(1) by linarith
  ultimately show ?thesis using regs bytes by metis
qed

theorem tx_frame_written_witness:
  "\<exists>ws pad. Lm3sTxToken_consume 60 (map (\<lambda>_. 7)) = map (\<lambda>w. (REG_DATA, w)) ws @ [(REG_TR, 1)] \<and> pad < 4 \<and>
     concat (map u32_to_le_bytes ws) = take 2 (u32_to_le_bytes (of_nat (60 - 14))) @ map (\<lambda>_. 7) (replicate 60 (0 :: u8)) @ replicate pad 0"
  by (rule tx_frame_written[where f = "map (\<lambda>_. 7)"]) (simp_all add: MAX_FRAME_SIZE_def)

text \<open>C33: What a poll does with the datagrams: at most four are handed over, event messages first, each in the order
  of arrival; the datagram after the last that fits is taken out of its socket and lost, and the rest stay
  in the socket. So with four or more event messages waiting the first general message is lost.\<close>

theorem poll_hands_over:
  assumes "documented_smoltcp sm"
  shows "\<exists>s'. PtpNetwork_poll sm iface_poll sockets [] =
     (let s = iface_poll sockets; events = sm_waiting sm EventHandle s; generals = sm_waiting sm GeneralHandle s
      in (s', map (RxPacket_of NetEvent) (take MAX_RX_PACKETS events) @
           map (RxPacket_of NetGeneral) (take (MAX_RX_PACKETS - length events) generals))) \<and>
     sm_waiting sm EventHandle s' = drop (Suc MAX_RX_PACKETS) (sm_waiting sm EventHandle (iface_poll sockets)) \<and>
     sm_waiting sm GeneralHandle s' =
       drop (Suc (MAX_RX_PACKETS - length (sm_waiting sm EventHandle (iface_poll sockets)))) (sm_waiting sm GeneralHandle (iface_poll sockets))"
  by (rule smoltcp_sockets.poll_eq) (unfold_locales, rule assms)

theorem poll_hands_over_witness:
  "\<exists>s'. PtpNetwork_poll queue_sockets id (case_socket_handle [[1], [2], [3], [4]] [[5], [6]]) [] =
      (s', map (RxPacket_of NetEvent) [[1], [2], [3], [4]]) \<and>
    sm_waiting queue_sockets GeneralHandle s' = [[6]]"
proof -
  let ?s = "case_socket_handle [[1], [2], [3], [4]] [[5], [6]] :: socket_handle \<Rightarrow> bytes list"
  have "sm_waiting queue_sockets h ?s = ?s h" for h by (simp add: queue_sockets_def)
  with poll_hands_over[OF queue_sockets_documented, of id ?s] show ?thesis by (simp add: MAX_RX_PACKETS_def) blast
qed

end
