(* ===== verification/Ptp_Embedded.thy ===== *)
theory Ptp_Embedded
  imports Ptp_Examples Ptp_Node Ptp_Heapless Ptp_Board Ptp_Lm3s
begin

section \<open>The embedded demo (rptp-embedded-demo/src/main.rs)\<close>

text \<open>
  Models the rest of \<^verbatim>\<open>crates/rptp-embedded-demo/src/main.rs\<close>: the static table of timer slots (\<^verbatim>\<open>TimerSlot\<close>,
  \<^verbatim>\<open>DemoTimeout\<close>, \<^verbatim>\<open>DemoTimerHost\<close>), the queue of transmit timestamps, the start of \<open>main\<close>, and one iteration of its loop: poll the
  network, hand the datagrams to the port, deliver the transmit timestamps, fire the timers whose deadline
  has passed. \<open>board\<close> is everything that \<open>main\<close> and its statics hold besides the port; \<open>hardware\<close> gives the \<open>n\<close>-th value that is read from
  the tick counter and from the cycle counter; the sockets of \<open>smoltcp\<close> and what they deliver are parameters. A panic is \<open>None\<close>; \<open>deliver_timestamps\<close>, a loop that
  ends only when its queue is empty, is a partial function, so that not returning is an outer \<open>None\<close>.

  The loop is written for any \<open>port_map\<close>. The calls that a handler makes to its host (timers, transmit
  timestamping, the clock) are its effects, and \<open>demo_perform\<close> is what the board does for each of them, in their order. The locale
  \<open>hosted_ports\<close> states what the board needs of the ports; the port of an ordinary clock satisfies it. Its record store is the
  one of the model's port, a growing list; the four slots of \<^verbatim>\<open>HeaplessForeignClockRecords\<close> agree with it as long
  as at most four masters are heard.

  The lemmas show that an iteration always ends, by returning or by the panic of a handler it calls; that timer number \<open>k\<close> lives in
  slot \<open>k\<close> and no slot is ever given back; exactly when a handler that the loop calls panics; and that a dropped timer, which is not stopped, can bring that about.
\<close>

subsection \<open>Timers\<close>

record TimerSlot =
  allocated :: bool
  active :: bool
  deadline :: Instant
  slot_msg :: SystemMessage

definition MAX_TIMERS :: nat where "MAX_TIMERS = 16"

definition TIMER_SLOTS :: "TimerSlot list" where
  "TIMER_SLOTS =
     replicate MAX_TIMERS \<lparr>allocated = False, active = False, deadline = Instant_zero, slot_msg = Initialized\<rparr>"

record DemoTimeout =
  dt_slot :: nat

definition TimerSlot_alloc :: "SystemMessage \<Rightarrow> TimerSlot list \<Rightarrow> (DemoTimeout \<times> TimerSlot list) option" where
  "TimerSlot_alloc msg slots =
     (case find_index (\<lambda>slot. \<not> allocated slot) slots of
        None \<Rightarrow> None
      | Some idx \<Rightarrow>
          Some (\<lparr>dt_slot = idx\<rparr>,
            slots[idx := \<lparr>allocated = True, active = False, deadline = Instant_zero, slot_msg = msg\<rparr>]))"

definition TimerSlot_restart :: "TimerSlot \<Rightarrow> Instant \<Rightarrow> Duration \<Rightarrow> TimerSlot" where
  "TimerSlot_restart slot now delay = slot\<lparr>deadline := Instant_saturating_add now delay, active := True\<rparr>"

subsection \<open>The board\<close>

record hardware =
  hw_ticks :: "nat \<Rightarrow> u32"
  hw_cycles :: "nat \<Rightarrow> u32"

record 's board =
  tick_reads :: nat
  cycle_reads :: nat
  instant_clock :: InstantClock
  demo_clock :: CycleClock
  timer_slots :: "TimerSlot list"
  timer_handles :: "nat \<rightharpoonup> DemoTimeout"
  timestamp_queue :: "SystemMessage list"
  sockets :: 's

definition SystemTick_now :: "hardware \<Rightarrow> 's board \<Rightarrow> u32 \<times> 's board" where
  "SystemTick_now hw b = (hw_ticks hw (tick_reads b), b\<lparr>tick_reads := tick_reads b + 1\<rparr>)"

definition instant_now :: "hardware \<Rightarrow> 's board \<Rightarrow> Instant \<times> 's board" where
  "instant_now hw b =
     (let (ticks, b) = SystemTick_now hw b;
          (i, c) = InstantClock_now (instant_clock b) ticks
      in (i, b\<lparr>instant_clock := c\<rparr>))"

definition clock_now :: "hardware \<Rightarrow> 's board \<Rightarrow> (TimeStamp \<times> 's board) option" where
  "clock_now hw b =
     (case CycleClock_now (demo_clock b) (hw_cycles hw (cycle_reads b)) of
        None \<Rightarrow> None
      | Some (u, c) \<Rightarrow> Some (u, b\<lparr>cycle_reads := cycle_reads b + 1, demo_clock := c\<rparr>))"

definition TimestampQueue_push :: "SystemMessage list \<Rightarrow> SystemMessage \<Rightarrow> SystemMessage list option" where
  "TimestampQueue_push q msg = (if length q < 8 then Some (q @ [msg]) else None)"

fun TimestampQueue_pop :: "SystemMessage list \<Rightarrow> SystemMessage option \<times> SystemMessage list" where
  "TimestampQueue_pop [] = (None, [])"
| "TimestampQueue_pop (m # q) = (Some m, q)"

definition DemoTimerHost_timeout :: "SystemMessage \<Rightarrow> 's board \<Rightarrow> (DemoTimeout \<times> 's board) option" where
  "DemoTimerHost_timeout msg b =
     map_option (\<lambda>(t, slots). (t, b\<lparr>timer_slots := slots\<rparr>)) (TimerSlot_alloc msg (timer_slots b))"

definition DemoTimeout_restart :: "hardware \<Rightarrow> DemoTimeout \<Rightarrow> Duration \<Rightarrow> 's board \<Rightarrow> 's board" where
  "DemoTimeout_restart hw t timeout b =
     (if dt_slot t < length (timer_slots b)
      then let (now, b) = instant_now hw b
           in b\<lparr>timer_slots := (timer_slots b)[dt_slot t := TimerSlot_restart (timer_slots b ! dt_slot t) now timeout]\<rparr>
      else b)"

definition DemoTimeout_restart_with_message :: "hardware \<Rightarrow> DemoTimeout \<Rightarrow> SystemMessage \<Rightarrow> Duration \<Rightarrow> 's board \<Rightarrow> 's board" where
  "DemoTimeout_restart_with_message hw t msg timeout b =
     (if dt_slot t < length (timer_slots b)
      then let slot = (timer_slots b ! dt_slot t)\<lparr>slot_msg := msg\<rparr>;
               (now, b) = instant_now hw b
           in if Duration_as_u64_nanos timeout = 0
              then b\<lparr>timer_slots := (timer_slots b)[dt_slot t := slot\<lparr>deadline := now, active := True\<rparr>]\<rparr>
              else b\<lparr>timer_slots := (timer_slots b)[dt_slot t := TimerSlot_restart slot now timeout]\<rparr>
      else b)"

definition DemoTimeout_drop :: "DemoTimeout \<Rightarrow> 's board \<Rightarrow> 's board" where
  "DemoTimeout_drop t b = b"

definition DemoTimestamping_stamp_egress :: "hardware \<Rightarrow> EventMessage \<Rightarrow> 's board \<Rightarrow> 's board option" where
  "DemoTimestamping_stamp_egress hw msg b =
     (case clock_now hw b of
        None \<Rightarrow> None
      | Some (ts, b) \<Rightarrow>
          map_option (\<lambda>q. b\<lparr>timestamp_queue := q\<rparr>)
            (TimestampQueue_push (timestamp_queue b) (Timestamp \<lparr>event_msg = msg, egress_timestamp = ts\<rparr>)))"

text \<open>What the demo does for a call.\<close>

fun demo_perform :: "hardware \<Rightarrow> effect \<Rightarrow> 's board \<Rightarrow> 's board option" where
  "demo_perform hw (TimerCreated k msg) b =
     map_option (\<lambda>(t, b). b\<lparr>timer_handles := (timer_handles b)(k \<mapsto> t)\<rparr>) (DemoTimerHost_timeout msg b)"
| "demo_perform hw (TimerRestarted k delay) b =
     Some (case timer_handles b k of None \<Rightarrow> b | Some t \<Rightarrow> DemoTimeout_restart hw t delay b)"
| "demo_perform hw (TimerRestartedWith k msg delay) b =
     Some (case timer_handles b k of None \<Rightarrow> b | Some t \<Rightarrow> DemoTimeout_restart_with_message hw t msg delay b)"
| "demo_perform hw (TimerDropped k) b =
     Some (case timer_handles b k of
        None \<Rightarrow> b | Some t \<Rightarrow> (DemoTimeout_drop t b)\<lparr>timer_handles := (timer_handles b)(k := None)\<rparr>)"
| "demo_perform hw (StampEgress msg) b = DemoTimestamping_stamp_egress hw msg b"
| "demo_perform hw (ClockStepped to) b = Some (b\<lparr>demo_clock := CycleClock_step (demo_clock b) to\<rparr>)"
| "demo_perform hw (ClockAdjusted rate) b = Some (b\<lparr>demo_clock := CycleClock_adjust (demo_clock b) rate\<rparr>)"
| "demo_perform hw _ b = Some b"

fun demo_perform_all :: "hardware \<Rightarrow> effect list \<Rightarrow> 's board \<Rightarrow> 's board option" where
  "demo_perform_all hw [] b = Some b"
| "demo_perform_all hw (e # es) b = (case demo_perform hw e b of None \<Rightarrow> None | Some b \<Rightarrow> demo_perform_all hw es b)"

subsection \<open>The main loop\<close>

record 'p port_map =
  pm_receive_event :: "'p \<Rightarrow> bytes \<Rightarrow> TimeStamp \<Rightarrow> (unit result \<times> effect list \<times> 'p) option"
  pm_receive_general :: "'p \<Rightarrow> bytes \<Rightarrow> Instant \<Rightarrow> (unit result \<times> effect list \<times> 'p) option"
  pm_process_system :: "'p \<Rightarrow> DomainNumber \<Rightarrow> SystemMessage \<Rightarrow> (effect list \<times> 'p) option"

definition process_packet ::
    "hardware \<Rightarrow> 'p port_map \<Rightarrow> RxPacket \<Rightarrow> Instant \<Rightarrow> TimeStamp \<Rightarrow> 'p \<times> 's board \<Rightarrow> ('p \<times> 's board) option" where
  "process_packet hw pm packet now ingress_timestamp = (\<lambda>(p, b).
     if rxp_len packet \<le> length (rxp_data packet) then
       (let bytes = take (rxp_len packet) (rxp_data packet) in
        case (case rxp_kind packet of
                NetEvent \<Rightarrow> pm_receive_event pm p bytes ingress_timestamp
              | NetGeneral \<Rightarrow> pm_receive_general pm p bytes now) of
          None \<Rightarrow> None
        | Some (result, es, p) \<Rightarrow> map_option (Pair p) (demo_perform_all hw es b))
     else None)"

definition process_system_message ::
    "hardware \<Rightarrow> 'p port_map \<Rightarrow> SystemMessage \<Rightarrow> 'p \<times> 's board \<Rightarrow> ('p \<times> 's board) option" where
  "process_system_message hw pm msg = (\<lambda>(p, b).
     case pm_process_system pm p (DomainNumber 0) msg of
       None \<Rightarrow> None
     | Some (es, p) \<Rightarrow> map_option (Pair p) (demo_perform_all hw es b))"

fun process_packets ::
    "hardware \<Rightarrow> 'p port_map \<Rightarrow> Instant \<Rightarrow> RxPacket list \<Rightarrow> 'p \<times> 's board \<Rightarrow> ('p \<times> 's board) option" where
  "process_packets hw pm now [] x = Some x"
| "process_packets hw pm now (packet # packets) (p, b) =
     (case clock_now hw b of
        None \<Rightarrow> None
      | Some (ts, b) \<Rightarrow>
          (case process_packet hw pm packet now ts (p, b) of
             None \<Rightarrow> None
           | Some x \<Rightarrow> process_packets hw pm now packets x))"

partial_function (option) deliver_timestamps ::
    "hardware \<Rightarrow> 'p port_map \<Rightarrow> 'p \<times> 's board \<Rightarrow> ('p \<times> 's board) option option" where
  "deliver_timestamps hw pm x =
     (case TimestampQueue_pop (timestamp_queue (snd x)) of
        (None, q) \<Rightarrow> Some (Some x)
      | (Some msg, q) \<Rightarrow>
          (case process_system_message hw pm msg (fst x, (snd x)\<lparr>timestamp_queue := q\<rparr>) of
             None \<Rightarrow> Some None
           | Some x \<Rightarrow> deliver_timestamps hw pm x))"

definition fire_timer ::
    "hardware \<Rightarrow> 'p port_map \<Rightarrow> Instant \<Rightarrow> nat \<Rightarrow> 'p \<times> 's board \<Rightarrow> ('p \<times> 's board) option" where
  "fire_timer hw pm now i = (\<lambda>(p, b).
     let slot = timer_slots b ! i in
     if active slot \<and> instant_nanos (deadline slot) \<le> instant_nanos now
     then process_system_message hw pm (slot_msg slot) (p, b\<lparr>timer_slots := (timer_slots b)[i := slot\<lparr>active := False\<rparr>]\<rparr>)
     else Some (p, b))"

fun fire_timers ::
    "hardware \<Rightarrow> 'p port_map \<Rightarrow> Instant \<Rightarrow> nat list \<Rightarrow> 'p \<times> 's board \<Rightarrow> ('p \<times> 's board) option" where
  "fire_timers hw pm now [] x = Some x"
| "fire_timers hw pm now (i # js) x =
     (case fire_timer hw pm now i x of None \<Rightarrow> None | Some x \<Rightarrow> fire_timers hw pm now js x)"

definition main_poll ::
    "hardware \<Rightarrow> 's smoltcp \<Rightarrow> (int \<Rightarrow> 's \<Rightarrow> 's) \<Rightarrow> 's board \<Rightarrow> Instant \<times> RxPacket list \<times> 's board" where
  "main_poll hw sm iface_poll b =
     (let (now, b) = instant_now hw b;
          (ticks, b) = SystemTick_now hw b;
          smoltcp_now = Ticks_as_smol_instant ticks;
          (sk, rx_packets) = PtpNetwork_poll sm (iface_poll smoltcp_now) (sockets b) []
      in (now, rx_packets, b\<lparr>sockets := sk\<rparr>))"

definition main_iteration ::
    "hardware \<Rightarrow> 'p port_map \<Rightarrow> 's smoltcp \<Rightarrow> (int \<Rightarrow> 's \<Rightarrow> 's) \<Rightarrow> 'p \<times> 's board \<Rightarrow> ('p \<times> 's board) option option" where
  "main_iteration hw pm sm iface_poll = (\<lambda>(p, b).
     let (now, rx_packets, b) = main_poll hw sm iface_poll b
     in case process_packets hw pm now rx_packets (p, b) of
          None \<Rightarrow> Some None
        | Some x \<Rightarrow>
            (case deliver_timestamps hw pm x of
               None \<Rightarrow> None
             | Some None \<Rightarrow> Some None
             | Some (Some x) \<Rightarrow> Some (fire_timers hw pm now [0..<MAX_TIMERS] x)))"

subsection \<open>The calls of an iteration\<close>

text \<open>
  The same iteration as a sequence of calls of the port's handlers: \<open>iteration_at y now ph z\<close> says that the iteration that
  starts in \<open>y\<close> at the instant \<open>now\<close> gets to the state \<open>z\<close> in the phase \<open>ph\<close>, which names what it has still to do, and \<open>next_call\<close> is the
  call that it makes there, with the phase and the state it is made in. \<open>handler_effects\<close> is what the handler of the port answers.
\<close>

datatype handler_call = PacketCall RxPacket Instant TimeStamp | SystemCall SystemMessage

datatype phase = Packets "RxPacket list" | Stamps | Timers "nat list"

fun call_handler :: "hardware \<Rightarrow> 'p port_map \<Rightarrow> handler_call \<Rightarrow> 'p \<times> 's board \<Rightarrow> ('p \<times> 's board) option" where
  "call_handler hw pm (PacketCall packet now ts) x = process_packet hw pm packet now ts x"
| "call_handler hw pm (SystemCall msg) x = process_system_message hw pm msg x"

fun handler_effects :: "'p port_map \<Rightarrow> handler_call \<Rightarrow> 'p \<Rightarrow> (effect list \<times> 'p) option" where
  "handler_effects pm (PacketCall packet now ts) p =
     map_option snd (case rxp_kind packet of
        NetEvent \<Rightarrow> pm_receive_event pm p (take (rxp_len packet) (rxp_data packet)) ts
      | NetGeneral \<Rightarrow> pm_receive_general pm p (take (rxp_len packet) (rxp_data packet)) now)"
| "handler_effects pm (SystemCall msg) p = pm_process_system pm p (DomainNumber 0) msg"

fun next_call :: "hardware \<Rightarrow> Instant \<Rightarrow> phase \<Rightarrow> 'p \<times> 's board \<Rightarrow> (handler_call \<times> phase \<times> 'p \<times> 's board) option" where
  "next_call hw now (Packets (packet # packets)) (p, b) =
     map_option (\<lambda>(ts, b). (PacketCall packet now ts, Packets packets, p, b)) (clock_now hw b)"
| "next_call hw now Stamps (p, b) =
     (case TimestampQueue_pop (timestamp_queue b) of
        (None, q) \<Rightarrow> None
      | (Some msg, q) \<Rightarrow> Some (SystemCall msg, Stamps, p, b\<lparr>timestamp_queue := q\<rparr>))"
| "next_call hw now (Timers (i # js)) (p, b) =
     (let slot = timer_slots b ! i in
      if active slot \<and> instant_nanos (deadline slot) \<le> instant_nanos now
      then Some (SystemCall (slot_msg slot), Timers js, p, b\<lparr>timer_slots := (timer_slots b)[i := slot\<lparr>active := False\<rparr>]\<rparr>)
      else None)"
| "next_call hw now _ x = None"

inductive iteration_at ::
    "hardware \<Rightarrow> 'p port_map \<Rightarrow> 's smoltcp \<Rightarrow> (int \<Rightarrow> 's \<Rightarrow> 's) \<Rightarrow> 'p \<times> 's board \<Rightarrow> Instant \<Rightarrow> phase \<Rightarrow> 'p \<times> 's board \<Rightarrow> bool"
  for hw pm sm iface_poll y where
  polled: "main_poll hw sm iface_poll (snd y) = (now, packets, b) \<Longrightarrow>
     iteration_at hw pm sm iface_poll y now (Packets packets) (fst y, b)"
| called: "iteration_at hw pm sm iface_poll y now ph z \<Longrightarrow> next_call hw now ph z = Some (c, ph', u) \<Longrightarrow>
     call_handler hw pm c u = Some z' \<Longrightarrow> iteration_at hw pm sm iface_poll y now ph' z'"
| packets_done: "iteration_at hw pm sm iface_poll y now (Packets []) z \<Longrightarrow> iteration_at hw pm sm iface_poll y now Stamps z"
| stamps_done: "iteration_at hw pm sm iface_poll y now Stamps z \<Longrightarrow> next_call hw now Stamps z = None \<Longrightarrow>
     iteration_at hw pm sm iface_poll y now (Timers [0..<MAX_TIMERS]) z"
| timer_idle: "iteration_at hw pm sm iface_poll y now (Timers (i # js)) z \<Longrightarrow> next_call hw now (Timers (i # js)) z = None \<Longrightarrow>
     iteration_at hw pm sm iface_poll y now (Timers js) z"

text \<open>What an iteration does from a phase on.\<close>

fun iteration_rest :: "hardware \<Rightarrow> 'p port_map \<Rightarrow> Instant \<Rightarrow> phase \<Rightarrow> 'p \<times> 's board \<Rightarrow> ('p \<times> 's board) option option" where
  "iteration_rest hw pm now (Timers js) x = Some (fire_timers hw pm now js x)"
| "iteration_rest hw pm now Stamps x =
     (case deliver_timestamps hw pm x of
        None \<Rightarrow> None
      | Some None \<Rightarrow> Some None
      | Some (Some x) \<Rightarrow> Some (fire_timers hw pm now [0..<MAX_TIMERS] x))"
| "iteration_rest hw pm now (Packets packets) x =
     (case process_packets hw pm now packets x of
        None \<Rightarrow> Some None
      | Some x \<Rightarrow>
          (case deliver_timestamps hw pm x of
             None \<Rightarrow> None
           | Some None \<Rightarrow> Some None
           | Some (Some x) \<Rightarrow> Some (fire_timers hw pm now [0..<MAX_TIMERS] x)))"

lemma next_call_cases:
  "next_call hw now (Packets (packet # packets)) (p, b) = Some (c, ph, u) \<longleftrightarrow>
     (\<exists>ts b'. clock_now hw b = Some (ts, b') \<and> c = PacketCall packet now ts \<and> ph = Packets packets \<and> u = (p, b'))"
  "next_call hw now Stamps (p, b) = Some (c, ph, u) \<longleftrightarrow>
     (\<exists>msg q. timestamp_queue b = msg # q \<and> c = SystemCall msg \<and> ph = Stamps \<and> u = (p, b\<lparr>timestamp_queue := q\<rparr>))"
  "next_call hw now Stamps (p, b) = None \<longleftrightarrow> timestamp_queue b = []"
  by (cases "timestamp_queue b"; auto)+

lemma fire_timer_call:
  "fire_timer hw pm now i x = (case next_call hw now (Timers (i # js)) x of None \<Rightarrow> Some x | Some (c, ph, u) \<Rightarrow> call_handler hw pm c u)"
  by (cases x) (simp add: fire_timer_def Let_def)

lemma next_call_rest:
  assumes "next_call hw now ph z = Some (c, ph', u)"
  shows "iteration_rest hw pm now ph z =
    (case call_handler hw pm c u of None \<Rightarrow> Some None | Some z' \<Rightarrow> iteration_rest hw pm now ph' z')"
proof -
  obtain p b where z: "z = (p, b)" by (cases z)
  show ?thesis
  proof (cases ph)
    case (Packets packets)
    with assms show ?thesis by (cases packets) (auto simp: z split: option.splits)
  next
    case Stamps
    with assms obtain msg q where "timestamp_queue b = msg # q" "c = SystemCall msg" "ph' = Stamps" "u = (p, b\<lparr>timestamp_queue := q\<rparr>)"
      by (auto simp: z next_call_cases simp del: next_call.simps)
    with Stamps show ?thesis by (simp add: z deliver_timestamps.simps[of hw pm "(p, b)"] split: option.splits)
  next
    case (Timers js)
    then obtain i js' where js: "js = i # js'" "ph' = Timers js'" using assms by (cases js) (auto simp: z Let_def split: if_splits)
    with Timers assms show ?thesis
      by (simp add: fire_timer_call[where js = js'] split: option.splits)
  qed
qed

lemma deliver_no_timestamps: "timestamp_queue (snd x) = [] \<Longrightarrow> deliver_timestamps hw pm x = Some (Some x)"
  by (subst deliver_timestamps.simps) simp

lemma iteration_at_rest:
  "iteration_at hw pm sm iface_poll y now ph z \<Longrightarrow> iteration_rest hw pm now ph z = main_iteration hw pm sm iface_poll y"
proof (induction rule: iteration_at.induct)
  case (polled now packets b)
  then show ?case by (cases y) (simp add: main_iteration_def)
next
  case (called now ph z c ph' u z')
  with next_call_rest[OF called.hyps(2), of pm] show ?case by simp
next
  case (stamps_done now z)
  then have "deliver_timestamps hw pm z = Some (Some z)"
    by (cases z) (simp add: next_call_cases deliver_no_timestamps del: next_call.simps)
  with stamps_done show ?case by simp
next
  case (timer_idle now i js z)
  then show ?case by (simp add: fire_timer_call[where js = js])
qed simp

text \<open>An iteration that returns has got through its timers; one that panics has made a call that does.\<close>

definition iteration_ends ::
    "hardware \<Rightarrow> 'p port_map \<Rightarrow> 's smoltcp \<Rightarrow> (int \<Rightarrow> 's \<Rightarrow> 's) \<Rightarrow> 'p \<times> 's board \<Rightarrow> ('p \<times> 's board) option \<Rightarrow> bool" where
  "iteration_ends hw pm sm iface_poll y r \<longleftrightarrow>
     (case r of
        Some x \<Rightarrow> \<exists>now. iteration_at hw pm sm iface_poll y now (Timers []) x
      | None \<Rightarrow> \<exists>now ph z c ph' u. iteration_at hw pm sm iface_poll y now ph z \<and>
          next_call hw now ph z = Some (c, ph', u) \<and> call_handler hw pm c u = None)"

lemma panicking_call_ends:
  "iteration_at hw pm sm iface_poll y now ph z \<Longrightarrow> next_call hw now ph z = Some (c, ph', u) \<Longrightarrow> call_handler hw pm c u = None \<Longrightarrow>
    iteration_ends hw pm sm iface_poll y None"
  unfolding iteration_ends_def option.case by blast

lemma iteration_ends_iff:
  assumes "main_iteration hw pm sm iface_poll y = Some r" "iteration_ends hw pm sm iface_poll y r"
  shows "\<forall>y'. r = Some y' \<longleftrightarrow> (\<exists>now. iteration_at hw pm sm iface_poll y now (Timers []) y')"
    and "r = None \<longleftrightarrow> (\<exists>now ph z c ph' u. iteration_at hw pm sm iface_poll y now ph z \<and>
      next_call hw now ph z = Some (c, ph', u) \<and> call_handler hw pm c u = None)"
proof -
  have ret: "r = Some y'" if "iteration_at hw pm sm iface_poll y now (Timers []) y'" for now y'
    using iteration_at_rest[OF that] assms(1) by simp
  have panic: "r = None" if "iteration_at hw pm sm iface_poll y now ph z" "next_call hw now ph z = Some (c, ph', u)" "call_handler hw pm c u = None"
    for now ph z c ph' u
    using iteration_at_rest[OF that(1)] next_call_rest[OF that(2), of pm] that(3) assms(1) by simp
  show "\<forall>y'. r = Some y' \<longleftrightarrow> (\<exists>now. iteration_at hw pm sm iface_poll y now (Timers []) y')"
    using assms(2) ret unfolding iteration_ends_def by (cases r) auto
  show "r = None \<longleftrightarrow> (\<exists>now ph z c ph' u. iteration_at hw pm sm iface_poll y now ph z \<and>
      next_call hw now ph z = Some (c, ph', u) \<and> call_handler hw pm c u = None)"
    using assms(2) panic unfolding iteration_ends_def by (cases r) (simp_all only: option.case, blast+)
qed

lemma timers_end:
  "iteration_at hw pm sm iface_poll y now (Timers js) z \<Longrightarrow> iteration_ends hw pm sm iface_poll y (fire_timers hw pm now js z)"
proof (induction js arbitrary: z)
  case Nil
  then show ?case by (auto simp: iteration_ends_def)
next
  case (Cons i js)
  show ?case
  proof (cases "next_call hw now (Timers (i # js)) z")
    case None
    with iteration_at.timer_idle[OF Cons.prems] Cons.IH show ?thesis by (simp add: fire_timer_call[where js = js])
  next
    case (Some r)
    obtain c ph' u where r: "r = (c, ph', u)" by (cases r)
    then have ph': "ph' = Timers js" using Some by (cases z) (auto simp: Let_def split: if_splits)
    show ?thesis
    proof (cases "call_handler hw pm c u")
      case None
      with Some r panicking_call_ends[OF Cons.prems] show ?thesis by (simp add: fire_timer_call[where js = js] del: next_call.simps)
    next
      case (Some z')
      with \<open>next_call hw now (Timers (i # js)) z = Some r\<close> r ph' iteration_at.called[OF Cons.prems] Cons.IH show ?thesis
        by (simp add: fire_timer_call[where js = js] del: next_call.simps)
    qed
  qed
qed

lemma stamps_end:
  assumes ret: "deliver_timestamps hw pm z = Some r" and "iteration_at hw pm sm iface_poll y now Stamps z"
  shows "case r of
      None \<Rightarrow> iteration_ends hw pm sm iface_poll y None
    | Some x \<Rightarrow> iteration_at hw pm sm iface_poll y now (Timers [0..<MAX_TIMERS]) x"
proof -
  let ?P = "\<lambda>hw pm z r. iteration_at hw pm sm iface_poll y now Stamps z \<longrightarrow>
    (case r of
       None \<Rightarrow> iteration_ends hw pm sm iface_poll y None
     | Some x \<Rightarrow> iteration_at hw pm sm iface_poll y now (Timers [0..<MAX_TIMERS]) x)"
  have "?P hw pm z r"
  proof (rule deliver_timestamps.raw_induct[where P = ?P and xa = "((hw, pm), z)", unfolded prod.case, OF _ ret], rule impI)
    fix deliver hw pm x r
    assume IH: "\<And>hw pm x r. deliver hw pm x = Some r \<Longrightarrow> ?P hw pm x r"
      and eq: "(case TimestampQueue_pop (timestamp_queue (snd x)) of
        (None, q) \<Rightarrow> Some (Some x)
      | (Some msg, q) \<Rightarrow>
          (case process_system_message hw pm msg (fst x, (snd x)\<lparr>timestamp_queue := q\<rparr>) of
             None \<Rightarrow> Some None
           | Some x \<Rightarrow> deliver hw pm x)) = Some r"
      and at: "iteration_at hw pm sm iface_poll y now Stamps x"
    obtain p b where x: "x = (p, b)" by (cases x)
    show "case r of
        None \<Rightarrow> iteration_ends hw pm sm iface_poll y None
      | Some x \<Rightarrow> iteration_at hw pm sm iface_poll y now (Timers [0..<MAX_TIMERS]) x"
    proof (cases "next_call hw now Stamps x")
      case None
      with eq iteration_at.stamps_done[OF at None] show ?thesis by (auto simp: x next_call_cases simp del: next_call.simps)
    next
      case (Some a)
      then obtain msg q where q: "timestamp_queue b = msg # q" by (cases "timestamp_queue b") (simp_all add: x)
      let ?u = "(p, b\<lparr>timestamp_queue := q\<rparr>)"
      have n: "next_call hw now Stamps x = Some (SystemCall msg, Stamps, ?u)" using q by (simp add: x)
      show ?thesis
      proof (cases "process_system_message hw pm msg ?u")
        case None
        then have "call_handler hw pm (SystemCall msg) ?u = None" "r = None" using eq q by (auto simp: x)
        with panicking_call_ends[OF at n] show ?thesis by simp
      next
        case (Some x')
        then have "deliver hw pm x' = Some r" using eq q by (simp add: x)
        with IH iteration_at.called[OF at n] Some show ?thesis by simp
      qed
    qed
  qed
  with assms(2) show ?thesis by simp
qed

subsection \<open>Lemmas: the calls on the board\<close>

fun call_ok :: "effect \<Rightarrow> bool" where
  "call_ok (TimerCreated k msg) \<longleftrightarrow> wf_system msg"
| "call_ok (TimerRestartedWith k msg d) \<longleftrightarrow> wf_system msg"
| "call_ok _ \<longleftrightarrow> True"

text \<open>The board after \<open>n\<close> timers have been created: timer \<open>k\<close> lives in slot \<open>k\<close>, and a slot that was allocated stays so.\<close>

definition slots_inv :: "nat \<Rightarrow> TimerSlot list \<Rightarrow> bool" where
  "slots_inv n slots \<longleftrightarrow> length slots = MAX_TIMERS \<and> n \<le> MAX_TIMERS \<and>
     (\<forall>i < MAX_TIMERS. allocated (slots ! i) \<longleftrightarrow> i < n) \<and> (\<forall>i < MAX_TIMERS. wf_system (slot_msg (slots ! i)))"

definition board_inv :: "nat \<Rightarrow> 's board \<Rightarrow> bool" where
  "board_inv n b \<longleftrightarrow> slots_inv n (timer_slots b) \<and>
     (\<forall>k t. timer_handles b k = Some t \<longrightarrow> dt_slot t = k \<and> k < n) \<and> wf_ts (cc_time (demo_clock b)) \<and>
     length (timestamp_queue b) \<le> 8 \<and> (\<forall>m \<in> set (timestamp_queue b). \<exists>x. m = Timestamp x \<and> wf_ts (egress_timestamp x))"

lemma slots_inv_update:
  assumes "slots_inv n slots" "allocated slot \<longleftrightarrow> i < n" "wf_system (slot_msg slot)"
  shows "slots_inv n (slots[i := slot])"
  using assms by (cases "i < length slots") (auto simp: slots_inv_def nth_list_update)

lemma slots_inv_alloc:
  assumes "slots_inv n slots" "wf_system msg"
  shows "TimerSlot_alloc msg slots =
    (if n < MAX_TIMERS
     then Some (\<lparr>dt_slot = n\<rparr>, slots[n := \<lparr>allocated = True, active = False, deadline = Instant_zero, slot_msg = msg\<rparr>])
     else None)"
proof (cases "n < MAX_TIMERS")
  case True
  obtain i where i: "find_index (\<lambda>slot. \<not> allocated slot) slots = Some i"
    using True assms(1) find_index_None[of "\<lambda>slot. \<not> allocated slot" slots]
    by (cases "find_index (\<lambda>slot. \<not> allocated slot) slots") (auto simp: slots_inv_def all_set_conv_all_nth)
  note f = find_index_Some[OF this]
  have "\<not> i < n" using f assms(1) by (auto simp: slots_inv_def)
  moreover have "\<not> n < i" using f assms(1) True by (auto simp: slots_inv_def)
  ultimately have "i = n" by simp
  with i True show ?thesis by (simp add: TimerSlot_alloc_def)
next
  case False
  then have "find_index (\<lambda>slot. \<not> allocated slot) slots = None"
    using assms(1) by (auto simp: find_index_None slots_inv_def all_set_conv_all_nth)
  with False show ?thesis by (simp add: TimerSlot_alloc_def)
qed

lemma instant_now_board:
  obtains i c where "instant_now hw b = (i, b\<lparr>tick_reads := tick_reads b + 1, instant_clock := c\<rparr>)"
  by (cases "InstantClock_now (instant_clock b) (hw_ticks hw (tick_reads b))")
    (simp add: instant_now_def SystemTick_now_def Let_def)

lemma clock_now_board:
  assumes "board_inv n b"
  obtains u b' where "clock_now hw b = Some (u, b')" "board_inv n b'" "wf_ts u" "timestamp_queue b' = timestamp_queue b"
proof -
  have wf: "wf_ts (cc_time (demo_clock b))" using assms by (simp add: board_inv_def)
  from CycleClock_now_value[OF wf, of "hw_cycles hw (cycle_reads b)"] obtain u where
    "CycleClock_now (demo_clock b) (hw_cycles hw (cycle_reads b)) = Some (u, \<lparr>cc_time = u, cc_last_cycles = hw_cycles hw (cycle_reads b)\<rparr>)"
    "wf_ts u" by blast
  with assms that show ?thesis by (simp add: clock_now_def board_inv_def)
qed

lemma restart_board:
  assumes "board_inv n b" "timer_handles b k = Some t" "wf_system msg"
  shows "board_inv n (DemoTimeout_restart hw t d b)" "board_inv n (DemoTimeout_restart_with_message hw t msg d b)"
    "timestamp_queue (DemoTimeout_restart hw t d b) = timestamp_queue b"
    "timestamp_queue (DemoTimeout_restart_with_message hw t msg d b) = timestamp_queue b"
proof -
  obtain i c where i: "instant_now hw b = (i, b\<lparr>tick_reads := tick_reads b + 1, instant_clock := c\<rparr>)"
    by (rule instant_now_board)
  have t: "dt_slot t < n" and s: "slots_inv n (timer_slots b)" using assms(1,2) by (auto simp: board_inv_def)
  then have a: "allocated (timer_slots b ! dt_slot t)" "wf_system (slot_msg (timer_slots b ! dt_slot t))"
    by (auto simp: slots_inv_def)
  show "board_inv n (DemoTimeout_restart hw t d b)" "board_inv n (DemoTimeout_restart_with_message hw t msg d b)"
    "timestamp_queue (DemoTimeout_restart hw t d b) = timestamp_queue b"
    "timestamp_queue (DemoTimeout_restart_with_message hw t msg d b) = timestamp_queue b"
    using assms(1,3) t a
    by (auto simp: DemoTimeout_restart_def DemoTimeout_restart_with_message_def i Let_def board_inv_def TimerSlot_restart_def
        intro!: slots_inv_update)
qed

lemma disarm_board:
  assumes "board_inv n b" "i < MAX_TIMERS"
  shows "board_inv n (b\<lparr>timer_slots := (timer_slots b)[i := (timer_slots b ! i)\<lparr>active := False\<rparr>]\<rparr>)"
proof -
  have s: "slots_inv n (timer_slots b)" using assms(1) by (simp add: board_inv_def)
  then have "allocated (timer_slots b ! i) \<longleftrightarrow> i < n" "wf_system (slot_msg (timer_slots b ! i))"
    using assms(2) by (simp_all add: slots_inv_def)
  with slots_inv_update[OF s, of "(timer_slots b ! i)\<lparr>active := False\<rparr>" i] assms(1) show ?thesis
    by (simp add: board_inv_def)
qed

lemma perform_board:
  assumes inv: "board_inv n b" and ok: "call_ok e" and num: "numbered n [e] = Some n'"
  shows "if n' \<le> MAX_TIMERS \<and> length (timestamp_queue b) + stamps [e] \<le> 8
    then \<exists>b'. demo_perform hw e b = Some b' \<and> board_inv n' b' \<and>
      length (timestamp_queue b') = length (timestamp_queue b) + stamps [e]
    else demo_perform hw e b = None"
proof (cases e)
  case (TimerCreated k msg)
  have k: "k = n" "n' = Suc n" using num by (auto simp: TimerCreated split: if_splits)
  have s: "slots_inv n (timer_slots b)" using inv by (simp add: board_inv_def)
  let ?slots = "(timer_slots b)[n := \<lparr>allocated = True, active = False, deadline = Instant_zero, slot_msg = msg\<rparr>]"
  have "slots_inv (Suc n) ?slots" if "n < MAX_TIMERS"
    using s that ok by (auto simp: slots_inv_def nth_list_update TimerCreated)
  with inv ok k slots_inv_alloc[OF s, of msg] show ?thesis
    by (auto simp: TimerCreated DemoTimerHost_timeout_def board_inv_def less_SucI)
next
  case (TimerRestarted k d)
  with inv num restart_board(1,3)[OF inv, of k _ Initialized hw d] show ?thesis
    by (auto simp: board_inv_def slots_inv_def split: option.splits)
next
  case (TimerRestartedWith k msg d)
  with inv ok num restart_board(2,4)[OF inv, of k _ msg hw d] show ?thesis
    by (auto simp: board_inv_def slots_inv_def split: option.splits)
next
  case (TimerDropped k)
  with inv num show ?thesis
    by (auto simp: board_inv_def slots_inv_def DemoTimeout_drop_def split: option.splits)
next
  case (StampEgress msg)
  obtain u b' where c: "clock_now hw b = Some (u, b')" "board_inv n b'" "wf_ts u" "timestamp_queue b' = timestamp_queue b"
    by (rule clock_now_board[OF inv])
  with num show ?thesis
    by (auto simp: StampEgress DemoTimestamping_stamp_egress_def TimestampQueue_push_def board_inv_def slots_inv_def)
qed (use inv num in \<open>auto simp: board_inv_def slots_inv_def CycleClock_step_def CycleClock_adjust_def\<close>)

lemma numbered_mono: "numbered n es = Some n' \<Longrightarrow> n \<le> n'"
  by (induction n es rule: numbered.induct) (auto split: if_splits)

lemma perform_all_board:
  assumes "board_inv n b" "list_all call_ok es" "numbered n es = Some n'"
  shows "if n' \<le> MAX_TIMERS \<and> length (timestamp_queue b) + stamps es \<le> 8
    then \<exists>b'. demo_perform_all hw es b = Some b' \<and> board_inv n' b' \<and>
      length (timestamp_queue b') = length (timestamp_queue b) + stamps es
    else demo_perform_all hw es b = None"
  using assms
proof (induction es arbitrary: n b)
  case Nil
  then show ?case by (auto simp: board_inv_def slots_inv_def)
next
  case (Cons e es)
  obtain n1 where n1: "numbered n [e] = Some n1" "numbered n1 es = Some n'"
    using Cons.prems(3) numbered_append[of n "[e]" es] by (cases "numbered n [e]") simp_all
  have ok: "call_ok e" "list_all call_ok es" using Cons.prems(2) by simp_all
  note P = perform_board[OF Cons.prems(1) ok(1) n1(1), of hw]
  show ?case
  proof (cases "n1 \<le> MAX_TIMERS \<and> length (timestamp_queue b) + stamps [e] \<le> 8")
    case True
    then obtain b1 where b1: "demo_perform hw e b = Some b1" "board_inv n1 b1"
      "length (timestamp_queue b1) = length (timestamp_queue b) + stamps [e]" using P by auto
    have q: "length (timestamp_queue b1) + stamps es = length (timestamp_queue b) + stamps (e # es)" using b1(3) by simp
    have r: "demo_perform_all hw (e # es) b = demo_perform_all hw es b1" using b1(1) by simp
    show ?thesis using Cons.IH[OF b1(2) ok(2) n1(2)] unfolding q r .
  next
    case False
    moreover from this have "demo_perform hw e b = None" using P by (simp split: if_splits)
    ultimately show ?thesis using numbered_mono[OF n1(2)] by auto
  qed
qed

subsection \<open>The ports as an interface\<close>

locale hosted_ports =
  fixes pm :: "'p port_map" and inv :: "'p \<Rightarrow> bool" and created :: "'p \<Rightarrow> nat" and stale :: "'p \<Rightarrow> SystemMessage \<Rightarrow> bool"
  assumes event_law: "inv p \<Longrightarrow> wf_ts ts \<Longrightarrow> \<exists>r es p'. pm_receive_event pm p bs ts = Some (r, es, p') \<and> inv p' \<and>
      list_all call_ok es \<and> numbered (created p) es = Some (created p')"
    and general_law: "inv p \<Longrightarrow> \<exists>r es p'. pm_receive_general pm p bs now = Some (r, es, p') \<and> inv p' \<and>
      list_all call_ok es \<and> numbered (created p) es = Some (created p')"
    and system_law: "inv p \<Longrightarrow> wf_system m \<Longrightarrow>
      if stale p m then pm_process_system pm p (DomainNumber 0) m = None
      else \<exists>es p'. pm_process_system pm p (DomainNumber 0) m = Some (es, p') \<and> inv p' \<and>
        list_all call_ok es \<and> numbered (created p) es = Some (created p')"
    and timestamp_law: "inv p \<Longrightarrow> pm_process_system pm p (DomainNumber 0) (Timestamp x) = Some (es, p') \<Longrightarrow> stamps es = 0"
begin

definition node_inv :: "'p \<times> 's board \<Rightarrow> bool" where
  "node_inv x \<longleftrightarrow> inv (fst x) \<and> board_inv (created (fst x)) (snd x)"

lemma performed_inv:
  assumes "node_inv (p, b)" "inv p'" "list_all call_ok es" "numbered (created p) es = Some (created p')"
  shows "demo_perform_all hw es b = None \<longleftrightarrow> MAX_TIMERS < created p' \<or> 8 < length (timestamp_queue b) + stamps es"
    and "demo_perform_all hw es b = Some b' \<Longrightarrow> node_inv (p', b') \<and>
      length (timestamp_queue b') = length (timestamp_queue b) + stamps es"
  using perform_all_board[OF _ assms(3,4), of b hw] assms(1,2)
  by (auto simp: node_inv_def split: if_splits)

lemma system_message_inv:
  assumes "node_inv (p, b)" "wf_system m"
  shows "process_system_message hw pm m (p, b) = None \<longleftrightarrow>
      stale p m \<or> (\<exists>es p'. pm_process_system pm p (DomainNumber 0) m = Some (es, p') \<and>
        (MAX_TIMERS < created p' \<or> 8 < length (timestamp_queue b) + stamps es))"
    and "process_system_message hw pm m (p, b) = Some (p', b') \<Longrightarrow> node_inv (p', b') \<and>
      (\<exists>es. pm_process_system pm p (DomainNumber 0) m = Some (es, p') \<and>
        length (timestamp_queue b') = length (timestamp_queue b) + stamps es)"
proof -
  have p: "inv p" using assms(1) by (simp add: node_inv_def)
  note S = system_law[OF p assms(2)]
  show "process_system_message hw pm m (p, b) = None \<longleftrightarrow>
      stale p m \<or> (\<exists>es p'. pm_process_system pm p (DomainNumber 0) m = Some (es, p') \<and>
        (MAX_TIMERS < created p' \<or> 8 < length (timestamp_queue b) + stamps es))"
    using S performed_inv(1)[OF assms(1)] by (auto simp: process_system_message_def split: if_splits)
  show "node_inv (p', b') \<and> (\<exists>es. pm_process_system pm p (DomainNumber 0) m = Some (es, p') \<and>
        length (timestamp_queue b') = length (timestamp_queue b) + stamps es)"
    if "process_system_message hw pm m (p, b) = Some (p', b')"
    using that S performed_inv(2)[OF assms(1), where b' = b']
    by (auto simp: process_system_message_def split: if_splits)
qed

fun wf_call :: "handler_call \<Rightarrow> bool" where
  "wf_call (PacketCall packet now ts) \<longleftrightarrow> rxp_len packet \<le> length (rxp_data packet) \<and> wf_ts ts"
| "wf_call (SystemCall msg) \<longleftrightarrow> wf_system msg"

fun stale_call :: "'p \<Rightarrow> handler_call \<Rightarrow> bool" where
  "stale_call p (PacketCall packet now ts) \<longleftrightarrow> False"
| "stale_call p (SystemCall msg) \<longleftrightarrow> stale p msg"

fun wf_phase :: "phase \<Rightarrow> bool" where
  "wf_phase (Packets packets) \<longleftrightarrow> list_all (\<lambda>packet. rxp_len packet \<le> length (rxp_data packet)) packets"
| "wf_phase Stamps \<longleftrightarrow> True"
| "wf_phase (Timers js) \<longleftrightarrow> (\<forall>i \<in> set js. i < MAX_TIMERS)"

lemma call_inv:
  assumes "node_inv (p, b)" "wf_call c"
  shows "call_handler hw pm c (p, b) = None \<longleftrightarrow>
      stale_call p c \<or> (\<exists>es p'. handler_effects pm c p = Some (es, p') \<and>
        (MAX_TIMERS < created p' \<or> 8 < length (timestamp_queue b) + stamps es))"
    and "call_handler hw pm c (p, b) = Some x' \<Longrightarrow> node_inv x'"
proof (atomize (full), cases c, goal_cases)
  case (1 packet now ts)
  let ?bs = "take (rxp_len packet) (rxp_data packet)"
  have p: "inv p" using assms(1) by (simp add: node_inv_def)
  have len: "rxp_len packet \<le> length (rxp_data packet)" and ts: "wf_ts ts" using assms(2) 1 by simp_all
  show ?case
    using event_law[OF p ts, of ?bs] general_law[OF p, of ?bs now] performed_inv[OF assms(1)] len
    by (cases "rxp_kind packet") (fastforce simp: 1 process_packet_def Let_def)+
next
  case (2 msg)
  with system_message_inv[OF assms(1), of msg hw] assms(2) show ?case by (cases x') simp
qed

lemma next_call_inv:
  assumes "node_inv z" "wf_phase ph" "next_call hw now ph z = Some (c, ph', u)"
  shows "node_inv u \<and> wf_call c \<and> wf_phase ph'"
proof -
  obtain p b where z: "z = (p, b)" by (cases z)
  have b: "board_inv (created p) b" using assms(1) by (simp add: node_inv_def z)
  show ?thesis
  proof (cases ph)
    case (Packets packets)
    obtain ts b' where "clock_now hw b = Some (ts, b')" "board_inv (created p) b'" "wf_ts ts" by (rule clock_now_board[OF b])
    with Packets assms show ?thesis by (cases packets) (auto simp: z node_inv_def)
  next
    case Stamps
    with assms show ?thesis
      by (cases "timestamp_queue b") (auto simp: z node_inv_def board_inv_def)
  next
    case (Timers js)
    then obtain i js' where js: "js = i # js'" using assms(3) by (cases js) (auto simp: z)
    then have i: "i < MAX_TIMERS" using assms(2) Timers by simp
    then have "wf_system (slot_msg (timer_slots b ! i))" using b by (simp add: board_inv_def slots_inv_def)
    with Timers js assms disarm_board[OF b i] show ?thesis by (auto simp: z node_inv_def Let_def split: if_splits)
  qed
qed

lemma poll_inv:
  assumes "node_inv (p, b)" "main_poll hw sm iface_poll b = (now, packets, b')"
  shows "node_inv (p, b') \<and> wf_phase (Packets packets)"
proof -
  obtain i c where i: "instant_now hw b = (i, b\<lparr>tick_reads := tick_reads b + 1, instant_clock := c\<rparr>)" by (rule instant_now_board)
  obtain sk ps where poll: "PtpNetwork_poll sm (iface_poll (Ticks_as_smol_instant (hw_ticks hw (Suc (tick_reads b))))) (sockets b) [] = (sk, ps)"
    by fastforce
  with poll_packets[OF this] assms show ?thesis
    by (auto simp: main_poll_def i SystemTick_now_def Let_def node_inv_def board_inv_def)
qed

lemma at_inv:
  "iteration_at hw pm sm iface_poll y now ph z \<Longrightarrow> node_inv y \<Longrightarrow> node_inv z \<and> wf_phase ph"
proof (induction rule: iteration_at.induct)
  case (polled now packets b)
  then show ?case using poll_inv[of "fst y" "snd y"] by simp
next
  case (called now ph z c ph' u z')
  then have "node_inv u \<and> wf_call c \<and> wf_phase ph'" using next_call_inv by blast
  with called.hyps(3) call_inv(2)[of "fst u" "snd u" c hw z'] show ?case by simp
qed auto

lemma timestamps_delivered:
  "node_inv x \<Longrightarrow> \<exists>r. deliver_timestamps hw pm x = Some r \<and> (\<forall>x'. r = Some x' \<longrightarrow> node_inv x' \<and> timestamp_queue (snd x') = [])"
proof (induction "length (timestamp_queue (snd x))" arbitrary: x)
  case 0
  then show ?case by (subst deliver_timestamps.simps) auto
next
  case (Suc n)
  obtain p b where x: "x = (p, b)" by (cases x)
  obtain m q where q: "timestamp_queue b = m # q" "length q = n" using Suc.hyps(2) by (cases "timestamp_queue b") (auto simp: x)
  let ?b = "b\<lparr>timestamp_queue := q\<rparr>"
  obtain y where m: "m = Timestamp y" "wf_system m" using Suc.prems q(1) by (auto simp: node_inv_def board_inv_def x)
  have inv: "node_inv (p, ?b)" using Suc.prems q(1) by (simp add: node_inv_def board_inv_def x)
  show ?case
  proof (cases "process_system_message hw pm m (p, ?b)")
    case None
    with q(1) show ?thesis by (subst deliver_timestamps.simps) (simp add: x)
  next
    case (Some x')
    obtain p' b' where x': "x' = (p', b')" by (cases x')
    obtain es where es: "node_inv (p', b')" "pm_process_system pm p (DomainNumber 0) m = Some (es, p')"
      "length (timestamp_queue b') = length q + stamps es"
      using system_message_inv(2)[OF inv m(2) Some[unfolded x']] by auto
    have "stamps es = 0" using timestamp_law[of p y es p'] inv es(2) m(1) by (simp add: node_inv_def)
    with es q(2) Suc.hyps(1)[of "(p', b')"] q(1) Some x' show ?thesis
      by (subst deliver_timestamps.simps) (simp add: x)
  qed
qed

lemma fire_inv:
  assumes "node_inv x" "fire_timer hw pm now i x = Some x'" "i < MAX_TIMERS"
  shows "node_inv x'"
proof -
  obtain p b where x: "x = (p, b)" by (cases x)
  let ?slot = "timer_slots b ! i"
  let ?b = "b\<lparr>timer_slots := (timer_slots b)[i := ?slot\<lparr>active := False\<rparr>]\<rparr>"
  have "wf_system (slot_msg ?slot)" using assms(1,3) by (simp add: node_inv_def board_inv_def slots_inv_def x)
  moreover have "node_inv (p, ?b)" using assms(1) disarm_board[of "created p" b, OF _ assms(3)] by (simp add: node_inv_def x)
  ultimately show ?thesis
    using system_message_inv(2)[of p ?b "slot_msg ?slot" hw] assms(1,2)
    by (cases x') (auto simp: fire_timer_def x Let_def split: if_splits)
qed

lemma packets_end:
  "iteration_at hw pm sm iface_poll y now (Packets packets) z \<Longrightarrow> node_inv y \<Longrightarrow>
    (case process_packets hw pm now packets z of
       None \<Rightarrow> iteration_ends hw pm sm iface_poll y None
     | Some x \<Rightarrow> iteration_at hw pm sm iface_poll y now Stamps x)"
proof (induction packets arbitrary: z)
  case Nil
  then show ?case by (simp add: iteration_at.packets_done)
next
  case (Cons packet packets)
  obtain p b where z: "z = (p, b)" by (cases z)
  have "board_inv (created p) b" using at_inv[OF Cons.prems] by (simp add: z node_inv_def)
  then obtain ts b' where ts: "clock_now hw b = Some (ts, b')" by (rule clock_now_board)
  then have n: "next_call hw now (Packets (packet # packets)) z = Some (PacketCall packet now ts, Packets packets, p, b')" by (simp add: z)
  show ?case
  proof (cases "process_packet hw pm packet now ts (p, b')")
    case None
    with panicking_call_ends[OF Cons.prems(1) n] ts show ?thesis by (simp add: z)
  next
    case (Some z')
    with Cons.IH[of z'] Cons.prems iteration_at.called[OF Cons.prems(1) n] ts show ?thesis by (simp add: z)
  qed
qed

lemma iteration_inv:
  assumes "node_inv y"
  shows "\<exists>r. main_iteration hw pm sm iface_poll y = Some r \<and> iteration_ends hw pm sm iface_poll y r \<and>
    (\<forall>x'. r = Some x' \<longrightarrow> node_inv x')"
proof -
  have "\<exists>r. main_iteration hw pm sm iface_poll y = Some r \<and> iteration_ends hw pm sm iface_poll y r"
  proof -
    obtain now packets b where poll: "main_poll hw sm iface_poll (snd y) = (now, packets, b)" by (rule prod_cases3)
    have at: "iteration_at hw pm sm iface_poll y now (Packets packets) (fst y, b)" by (rule iteration_at.polled[OF poll])
    show ?thesis
    proof (cases "process_packets hw pm now packets (fst y, b)")
      case None
      with packets_end[OF at assms] iteration_at_rest[OF at, symmetric] show ?thesis by simp
    next
      case (Some x)
      with packets_end[OF at assms] have x: "iteration_at hw pm sm iface_poll y now Stamps x" by simp
      then obtain r where r: "deliver_timestamps hw pm x = Some r" using timestamps_delivered at_inv[OF x assms] by blast
      show ?thesis
      proof (cases r)
        case None
        with stamps_end[OF r x] iteration_at_rest[OF x, symmetric] r show ?thesis by simp
      next
        case (Some x')
        with stamps_end[OF r x] have x': "iteration_at hw pm sm iface_poll y now (Timers [0..<MAX_TIMERS]) x'" by simp
        from timers_end[OF x'] iteration_at_rest[OF x', symmetric] show ?thesis by simp
      qed
    qed
  qed
  with at_inv[OF _ assms] show ?thesis by (fastforce simp: iteration_ends_def)
qed

end

subsection \<open>Runs\<close>

inductive demo_runs :: "hardware \<Rightarrow> 'p port_map \<Rightarrow> 's smoltcp \<Rightarrow> 'p \<times> 's board \<Rightarrow> 'p \<times> 's board \<Rightarrow> bool" for hw pm sm x where
  demo_here: "demo_runs hw pm sm x x"
| demo_iteration: "demo_runs hw pm sm x y \<Longrightarrow> main_iteration hw pm sm iface_poll y = Some (Some z) \<Longrightarrow> demo_runs hw pm sm x z"

context hosted_ports
begin

lemma runs_inv: "demo_runs hw pm sm x y \<Longrightarrow> node_inv x \<Longrightarrow> node_inv y"
proof (induction rule: demo_runs.induct)
  case (demo_iteration y iface_poll z)
  then show ?case using iteration_inv[of y hw sm iface_poll] by (cases z) auto
qed

end

subsection \<open>The port of an ordinary clock on the board\<close>

record ordinary_node =
  on_ports :: SingleDomainPortMap
  on_clock :: OrdinaryClock
  on_world :: world

text \<open>After a handler the clock runs the state decisions that it has triggered.\<close>

definition ordinary_handled_by :: "ordinary_node \<Rightarrow> SingleDomainPortMap \<Rightarrow> world \<Rightarrow> (effect list \<times> ordinary_node) option" where
  "ordinary_handled_by p ports w =
     (let seen = length (trace (on_world p)) in
      case OrdinaryClock_run_triggers (drop seen (trace w)) (on_clock p) w of
        None \<Rightarrow> None
      | Some (c, w') \<Rightarrow> Some (drop seen (trace w'), \<lparr>on_ports = ports, on_clock = c, on_world = w'\<rparr>))"

definition ordinary_ports :: "bitflags \<Rightarrow> ordinary_node port_map" where
  "ordinary_ports bf =
     \<lparr>pm_receive_event = (\<lambda>p bs ts.
        case MessageIngress_receive_event bf (on_ports p) bs ts (on_world p) of
          None \<Rightarrow> None | Some (r, ports, w) \<Rightarrow> map_option (Pair r) (ordinary_handled_by p ports w)),
      pm_receive_general = (\<lambda>p bs now.
        case MessageIngress_receive_general bf (on_ports p) bs now (on_world p) of
          None \<Rightarrow> None | Some (r, ports, w) \<Rightarrow> map_option (Pair r) (ordinary_handled_by p ports w)),
      pm_process_system = (\<lambda>p dn msg.
        case SingleDomainPortMap_port_by_domain (on_ports p) dn of
          Inl _ \<Rightarrow> Some ([], p)
        | Inr port \<Rightarrow>
            (case PortFsm_process_system_message port msg (on_world p) of
               None \<Rightarrow> None
             | Some (port, w) \<Rightarrow> ordinary_handled_by p ((on_ports p)\<lparr>port_fsm := port\<rparr>) w))\<rparr>"

definition ordinary_node_inv :: "ordinary_node \<Rightarrow> bool" where
  "ordinary_node_inv p \<longleftrightarrow>
     (\<exists>st. on_ports p = \<lparr>map_domain_number = DomainNumber 0, port_fsm = \<lparr>fsm_state = Some st\<rparr>\<rparr> \<and>
        ordinary_host.agrees (on_clock p) [st] (on_world p)) \<and>
     oc_port_notification (on_clock p) = \<lparr>spn_timeout = Some (Timeout 0)\<rparr>"

definition master_timeout :: "ordinary_node \<Rightarrow> SystemMessage \<Rightarrow> bool" where
  "master_timeout p m \<longleftrightarrow> (\<exists>s. fsm_state (port_fsm (on_ports p)) = Some (Master s)) \<and> m = AnnounceReceiptTimeout"

lemma frame_call_ok: "list_all (frame_ok d) es \<Longrightarrow> list_all call_ok es"
proof (induction es)
  case (Cons e es)
  then show ?case by (cases e) simp_all
qed simp

lemma handled_by_inv:
  assumes st: "on_ports p = \<lparr>map_domain_number = DomainNumber 0, port_fsm = \<lparr>fsm_state = Some st\<rparr>\<rparr>"
    and ag: "ordinary_host.agrees (on_clock p) [st] (on_world p)"
    and n: "oc_port_notification (on_clock p) = \<lparr>spn_timeout = Some (Timeout 0)\<rparr>" and i: "wf_input i"
    and f: "PortFsm_input \<lparr>fsm_state = Some st\<rparr> i (on_world p) = Some (f', w')"
  shows "\<exists>es p'. ordinary_handled_by p ((on_ports p)\<lparr>port_fsm := f'\<rparr>) w' = Some (es, p') \<and> ordinary_node_inv p' \<and>
    list_all call_ok es \<and> numbered (next_timer (on_world p)) es = Some (next_timer (on_world p')) \<and>
    trace (on_world p') = trace (on_world p) @ es"
proof -
  let ?w = "on_world p"
  obtain c2 w2 es st2 where r: "OrdinaryClock_run_triggers (drop (length (trace ?w)) (trace w')) (on_clock p) w' = Some (c2, w2)"
    "f' = \<lparr>fsm_state = Some st2\<rparr>" "ordinary_host.agrees c2 [st2] w2" "trace w2 = trace ?w @ es"
    "list_all (frame_ok (state_port st)) es" "numbered (next_timer ?w) es = Some (next_timer w2)"
    by (rule ordinary_handled[OF ag i f])
  then show ?thesis using st n frame_call_ok[OF r(5)] run_triggers_notification[OF r(1)] by (simp add: ordinary_handled_by_def ordinary_node_inv_def)
qed

lemma nothing_handled:
  "ordinary_handled_by p (on_ports p) (on_world p) = Some ([], p)"
  by (simp add: ordinary_handled_by_def)

interpretation embedded: hosted_ports "ordinary_ports bf" ordinary_node_inv "\<lambda>p. next_timer (on_world p)" master_timeout for bf
proof (unfold_locales, goal_cases)
  case (1 p ts bs)
  then obtain st where st: "on_ports p = \<lparr>map_domain_number = DomainNumber 0, port_fsm = \<lparr>fsm_state = Some st\<rparr>\<rparr>"
    "ordinary_host.agrees (on_clock p) [st] (on_world p)" "oc_port_notification (on_clock p) = \<lparr>spn_timeout = Some (Timeout 0)\<rparr>"
    by (auto simp: ordinary_node_inv_def)
  have wf: "wf_state st" using st(2) by (simp add: ordinary_host.agrees_def)
  from st(1) have "port_fsm (on_ports p) = \<lparr>fsm_state = Some st\<rparr>" by simp
  from ingress_cases(1)[OF this wf 1(2), of bf bs "on_world p"] handled_by_inv[OF st] 1(1) show ?case
    by (fastforce simp: ordinary_ports_def nothing_handled)
next
  case (2 p bs now)
  then obtain st where st: "on_ports p = \<lparr>map_domain_number = DomainNumber 0, port_fsm = \<lparr>fsm_state = Some st\<rparr>\<rparr>"
    "ordinary_host.agrees (on_clock p) [st] (on_world p)" "oc_port_notification (on_clock p) = \<lparr>spn_timeout = Some (Timeout 0)\<rparr>"
    by (auto simp: ordinary_node_inv_def)
  have wf: "wf_state st" using st(2) by (simp add: ordinary_host.agrees_def)
  have ts: "wf_ts (TimeStamp 0 0)" by (simp add: wf_ts_def)
  from st(1) have "port_fsm (on_ports p) = \<lparr>fsm_state = Some st\<rparr>" by simp
  from ingress_cases(2)[OF this wf ts, of bf bs now "on_world p"] handled_by_inv[OF st] 2 show ?case
    by (fastforce simp: ordinary_ports_def nothing_handled)
next
  case (3 p m)
  then obtain st where st: "on_ports p = \<lparr>map_domain_number = DomainNumber 0, port_fsm = \<lparr>fsm_state = Some st\<rparr>\<rparr>"
    "ordinary_host.agrees (on_clock p) [st] (on_world p)" "oc_port_notification (on_clock p) = \<lparr>spn_timeout = Some (Timeout 0)\<rparr>"
    by (auto simp: ordinary_node_inv_def)
  have wf: "wf_state st" using st(2) by (simp add: ordinary_host.agrees_def)
  have iff: "PortFsm_process_system_message \<lparr>fsm_state = Some st\<rparr> m (on_world p) = None \<longleftrightarrow> master_timeout p m"
    using input_panics_iff[of "\<lparr>fsm_state = Some st\<rparr>" st "SystemIn m" "on_world p"] wf 3(2) st(1)
    by (auto simp: master_timeout_def stale_announce_timeout_def)
  have l: "SingleDomainPortMap_port_by_domain (on_ports p) (DomainNumber 0) = Inr \<lparr>fsm_state = Some st\<rparr>"
    by (simp add: lookup_Inr st(1))
  show ?case
  proof (cases "PortFsm_process_system_message \<lparr>fsm_state = Some st\<rparr> m (on_world p)")
    case None
    then show ?thesis using iff l by (simp add: ordinary_ports_def)
  next
    case (Some r)
    obtain f' w' where r: "r = (f', w')" by (cases r)
    from handled_by_inv[OF st, of "SystemIn m" f' w'] Some r iff l 3(2) show ?thesis
      by (auto simp: ordinary_ports_def)
  qed
next
  case (4 p x es p')
  then obtain st where st: "on_ports p = \<lparr>map_domain_number = DomainNumber 0, port_fsm = \<lparr>fsm_state = Some st\<rparr>\<rparr>"
    by (auto simp: ordinary_node_inv_def)
  then obtain f' w' c w2 where r: "PortFsm_input \<lparr>fsm_state = Some st\<rparr> (SystemIn (Timestamp x)) (on_world p) = Some (f', w')"
    "OrdinaryClock_run_triggers (drop (length (trace (on_world p))) (trace w')) (on_clock p) w' = Some (c, w2)"
    "es = drop (length (trace (on_world p))) (trace w2)"
    using 4(2)
    by (auto simp: ordinary_ports_def ordinary_handled_by_def SingleDomainPortMap_port_by_domain_def Let_def
        split: option.splits prod.splits)
  have "quiet (on_world p) w2" by (rule quiet_trans[OF timestamp_input_quiet[OF r(1)] run_triggers_quiet[OF r(2)]])
  with r(3) show ?case by (auto simp: quiet_def)
qed

subsection \<open>The start of main\<close>

definition demo_default_ds :: ClockDS where
  "demo_default_ds =
     \<lparr>identity = ClockIdentity 0x00 0x1B 0x19 0xFF 0xFE 0x00 0x00 0x01, priority1 = Priority1 100, priority2 = Priority2 127,
      quality = \<lparr>clock_class = ClassDefault, clock_accuracy = Within10ms, offset_scaled_log_variance = 0xFFFF\<rparr>,
      steps_removed = StepsRemoved 0\<rparr>"

definition DemoPhysicalPort_send_event :: "(socket_handle \<Rightarrow> bytes \<Rightarrow> endpoint \<Rightarrow> bool) \<Rightarrow> bytes \<Rightarrow> bool" where
  "DemoPhysicalPort_send_event send_slice buf = SmoltcpPhysicalPort_send_event send_slice buf"

definition DemoPhysicalPort_send_general :: "(socket_handle \<Rightarrow> bytes \<Rightarrow> endpoint \<Rightarrow> bool) \<Rightarrow> bytes \<Rightarrow> bool" where
  "DemoPhysicalPort_send_general send_slice buf = SmoltcpPhysicalPort_send_general send_slice buf"

text \<open>\<open>send_slice es\<close> is whether the sockets take a datagram after the calls \<open>es\<close>.\<close>

definition main_port ::
    "(effect list \<Rightarrow> socket_handle \<Rightarrow> bytes \<Rightarrow> endpoint \<Rightarrow> bool) \<Rightarrow> (PortState option \<times> OrdinaryClock \<times> world) option" where
  "main_port send_slice =
     OrdinaryClock_port
       (OrdinaryClock_new demo_default_ds (DomainNumber 0) (PortProfile_with_servo_config PortProfile_default SteppingConfig))
       \<lparr>infra_send_event = (\<lambda>es. DemoPhysicalPort_send_event (send_slice es)),
        infra_send_general = (\<lambda>es. DemoPhysicalPort_send_general (send_slice es)),
        infra_time_scale = (\<lambda>_. CycleClock_time_scale), infra_records = ForeignClockRecordsVec_new\<rparr>
       \<lparr>trace = [], next_timer = 0\<rparr>"

definition demo_board :: "hardware \<Rightarrow> TimeStamp \<Rightarrow> 's \<Rightarrow> 's board" where
  "demo_board hw seed_ts sk =
     \<lparr>tick_reads = 2, cycle_reads = 1, instant_clock = InstantClock_new (hw_ticks hw 0),
      demo_clock = CycleClock_new seed_ts (hw_cycles hw 0), timer_slots = TIMER_SLOTS, timer_handles = Map.empty,
      timestamp_queue = [], sockets = sk\<rparr>"

text \<open>\<open>host\<close> is what the host answers to the three system calls.\<close>

definition main_start ::
    "hardware \<Rightarrow> u32 \<times> u32 \<times> u32 \<Rightarrow> (effect list \<Rightarrow> socket_handle \<Rightarrow> bytes \<Rightarrow> endpoint \<Rightarrow> bool) \<Rightarrow>
      bitflags \<Rightarrow> 's \<Rightarrow> (ordinary_node \<times> 's board) option" where
  "main_start hw host send_slice bf sk =
     (case host of (time, clock, tickfreq) \<Rightarrow>
        case SemiHostingTime_now time clock tickfreq of
          None \<Rightarrow> None
        | Some seed \<Rightarrow>
            (let seed_ts = (case seed of None \<Rightarrow> TimeStamp 0 0 | Some t \<Rightarrow> t) in
             case main_port send_slice of
               Some (Some port, c, w) \<Rightarrow>
                 (case demo_perform_all hw (trace w) (demo_board hw seed_ts sk) of
                    None \<Rightarrow> None
                  | Some b \<Rightarrow>
                      process_system_message hw (ordinary_ports bf) Initialized
                        (\<lparr>on_ports = SingleDomainPortMap_new (DomainNumber 0) port, on_clock = c, on_world = w\<rparr>, b))
             | _ \<Rightarrow> None))"

subsection \<open>Lemmas: the start\<close>

lemma demo_default_ds_wf: "wf_ds demo_default_ds"
  by (simp add: wf_ds_def canonical_quality_def demo_default_ds_def ClockClass_new_def ClockAccuracy_new_def)

lemma demo_default_worse [simp]:
  "\<not> local_better demo_default_ds demo_master_ds demo_master demo_self"
  "\<not> ClockDS_is_authoritative demo_default_ds"
  by (simp_all add: TopologyDS_local_def TopologyDS_foreign_def better_or_better_by_topology_iff
      demo_default_ds_def demo_master_ds_def demo_id_def ds_key_def ClockDS_is_authoritative_def
      ClockQuality_is_authoritative_def ClockClass_is_authoritative_def)

lemma demo_port_identity [simp]: "PortIdentity (identity demo_default_ds) (PortNumber 1) = demo_self"
  by (simp add: demo_self_def demo_default_ds_def demo_id_def)

lemma main_port_built:
  obtains port c w where "main_port send_slice = Some (Some port, c, w)" "ordinary_host.agrees c [port] w" "next_timer w = 1"
    "trace w = [TimerCreated 0 (StateDecisionEvent \<lparr>d_0 = demo_default_ds, e_best = Empty\<rparr>),
      LogPortEvent demo_self (Static ''Become InitializingPort'')]"
    "\<exists>s. port = Initializing s" "oc_port_notification c = \<lparr>spn_timeout = Some (Timeout 0)\<rparr>"
proof -
  have "\<exists>port c w. main_port send_slice = Some (Some port, c, w) \<and> next_timer w = 1 \<and>
      trace w = [TimerCreated 0 (StateDecisionEvent \<lparr>d_0 = demo_default_ds, e_best = Empty\<rparr>),
        LogPortEvent demo_self (Static ''Become InitializingPort'')] \<and> (\<exists>s. port = Initializing s) \<and>
      oc_port_notification c = \<lparr>spn_timeout = Some (Timeout 0)\<rparr>"
    by (simp add: main_port_def OrdinaryClock_port_def OrdinaryClock_new_def PortEnumeration_single_def demo_build_defs
        profile_defs world_defs Let_def SinglePortNotification_add_port_def SinglePortNotification_new_def)
  then obtain port c w where p: "main_port send_slice = Some (Some port, c, w)" "next_timer w = 1"
    "trace w = [TimerCreated 0 (StateDecisionEvent \<lparr>d_0 = demo_default_ds, e_best = Empty\<rparr>),
        LogPortEvent demo_self (Static ''Become InitializingPort'')]" "\<exists>s. port = Initializing s"
    "oc_port_notification c = \<lparr>spn_timeout = Some (Timeout 0)\<rparr>" by blast
  have "wf_profile (PortProfile_with_servo_config PortProfile_default SteppingConfig)"
    using wf_profile_default by (simp add: wf_profile_def PortProfile_with_servo_config_def)
  from ordinary_built_agrees[OF demo_default_ds_wf this _ _ p(1)[unfolded main_port_def]] p that show ?thesis by simp
qed

lemma demo_board_inv: "wf_ts seed \<Longrightarrow> board_inv 0 (demo_board hw seed sk)"
  by (simp add: board_inv_def demo_board_def slots_inv_def TIMER_SLOTS_def CycleClock_new_def)

lemma main_starts: "\<exists>x. main_start hw host send_slice bf sk = Some x \<and> embedded.node_inv x"
proof -
  obtain time clock tickfreq where h: "host = (time, clock, tickfreq)" by (cases host)
  obtain seed where s: "SemiHostingTime_now time clock tickfreq = Some seed" "\<forall>t. seed = Some t \<longrightarrow> wf_ts t"
    using SemiHostingTime_value[of time clock tickfreq] by blast
  let ?seed = "case seed of None \<Rightarrow> TimeStamp 0 0 | Some t \<Rightarrow> t"
  have wf: "wf_ts ?seed" using s(2) by (auto simp: wf_ts_def split: option.splits)
  obtain port c w where p: "main_port send_slice = Some (Some port, c, w)" "ordinary_host.agrees c [port] w" "next_timer w = 1"
    "trace w = [TimerCreated 0 (StateDecisionEvent \<lparr>d_0 = demo_default_ds, e_best = Empty\<rparr>),
      LogPortEvent demo_self (Static ''Become InitializingPort'')]" "\<exists>s. port = Initializing s"
    "oc_port_notification c = \<lparr>spn_timeout = Some (Timeout 0)\<rparr>" by (rule main_port_built)
  let ?p = "\<lparr>on_ports = SingleDomainPortMap_new (DomainNumber 0) port, on_clock = c, on_world = w\<rparr>"
  have "list_all call_ok (trace w)" "numbered 0 (trace w) = Some 1" "stamps (trace w) = 0"
    using p(4) demo_default_ds_wf by (simp_all add: stamps_def)
  from perform_all_board[OF demo_board_inv[OF wf] this(1,2), of hw sk] this(3)
  obtain b where b: "demo_perform_all hw (trace w) (demo_board hw ?seed sk) = Some b" "board_inv 1 b"
    "timestamp_queue b = []" by (auto simp: demo_board_def MAX_TIMERS_def)
  have inv: "embedded.node_inv (?p, b)"
    using b(2) p(2,3,6)
    by (auto simp: embedded.node_inv_def ordinary_node_inv_def SingleDomainPortMap_new_def PortFsm_new_def)
  have "\<exists>es p'. pm_process_system (ordinary_ports bf) ?p (DomainNumber 0) Initialized = Some (es, p') \<and>
      next_timer (on_world p') = 2 \<and> stamps es = 0"
    using p(3-5)
    by (auto simp: ordinary_ports_def ordinary_handled_by_def SingleDomainPortMap_port_by_domain_def SingleDomainPortMap_new_def
        PortFsm_new_def decision_event_defs transition_defs profile_defs world_defs Let_def stamps_def)
  moreover have "\<not> master_timeout ?p Initialized" by (simp add: master_timeout_def)
  ultimately have "process_system_message hw (ordinary_ports bf) Initialized (?p, b) \<noteq> None"
    using embedded.system_message_inv(1)[OF inv, of Initialized hw bf] b(3) by (auto simp: MAX_TIMERS_def)
  then obtain x where x: "process_system_message hw (ordinary_ports bf) Initialized (?p, b) = Some x" by blast
  have "embedded.node_inv x"
    using embedded.system_message_inv(2)[OF inv, of Initialized hw bf "fst x" "snd x"] x by simp
  with x s(1) p(1) b(1) h show ?thesis by (simp add: main_start_def)
qed

lemma started_inv:
  "main_start hw host send_slice bf sk = Some x \<Longrightarrow> demo_runs hw (ordinary_ports bf) sm x y \<Longrightarrow> embedded.node_inv y"
  using main_starts[of hw host send_slice bf sk] embedded.runs_inv[of hw bf sm x y] by auto

text \<open>The calls of an iteration in a run.\<close>

lemma call_in_run:
  assumes "main_start hw host send_slice bf sk = Some x" "demo_runs hw (ordinary_ports bf) sm x y"
    "iteration_at hw (ordinary_ports bf) sm iface_poll y now ph z" "next_call hw now ph z = Some (c, ph', p, b)"
  shows "embedded.node_inv (p, b)" "embedded.wf_call c"
  using embedded.at_inv[OF assms(3) started_inv[OF assms(1,2)]] embedded.next_call_inv[OF _ _ assms(4)] by blast+

lemma ordinary_stale_call:
  "embedded.stale_call p c \<longleftrightarrow>
     (\<exists>s. fsm_state (port_fsm (on_ports p)) = Some (Master s)) \<and> c = SystemCall AnnounceReceiptTimeout"
  by (cases c) (simp_all add: master_timeout_def)


subsection \<open>Lemmas: two timeouts\<close>

fun restarts :: "nat \<Rightarrow> effect \<Rightarrow> bool" where
  "restarts j (TimerRestarted k d) \<longleftrightarrow> k = j"
| "restarts j (TimerRestartedWith k m d) \<longleftrightarrow> k = j"
| "restarts j _ \<longleftrightarrow> False"

definition due_slot :: "Instant \<Rightarrow> TimerSlot \<Rightarrow> bool" where
  "due_slot now slot \<longleftrightarrow> active slot \<and> instant_nanos (deadline slot) \<le> instant_nanos now"

definition armed_slot :: "Instant \<Rightarrow> TimerSlot \<Rightarrow> bool" where
  "armed_slot now slot \<longleftrightarrow> due_slot now slot \<and> slot_msg slot = AnnounceReceiptTimeout"

lemma ordinary_ports_simps:
  "pm_receive_general (ordinary_ports bf) p bs now =
     (case MessageIngress_receive_general bf (on_ports p) bs now (on_world p) of
        None \<Rightarrow> None | Some (r, ports, w) \<Rightarrow> map_option (Pair r) (ordinary_handled_by p ports w))"
  "pm_process_system (ordinary_ports bf) p dn msg =
     (case SingleDomainPortMap_port_by_domain (on_ports p) dn of
        Inl _ \<Rightarrow> Some ([], p)
      | Inr port \<Rightarrow>
          (case PortFsm_process_system_message port msg (on_world p) of
             None \<Rightarrow> None
           | Some (port, w) \<Rightarrow> ordinary_handled_by p ((on_ports p)\<lparr>port_fsm := port\<rparr>) w))"
  by (simp_all add: ordinary_ports_def)

lemma port_times_out:
  assumes "on_ports p = \<lparr>map_domain_number = DomainNumber 0, port_fsm = \<lparr>fsm_state = Some st\<rparr>\<rparr>" "times_out st"
    "oc_port_notification (on_clock p) = \<lparr>spn_timeout = Some (Timeout k)\<rparr>"
    "pm_process_system (ordinary_ports bf) p (DomainNumber 0) AnnounceReceiptTimeout = Some (es, p')"
    "j < next_timer (on_world p)" "j \<noteq> k"
  shows "(\<exists>m. fsm_state (port_fsm (on_ports p')) = Some (Master m)) \<and> \<not> list_ex (restarts j) es \<and>
    next_timer (on_world p') \<le> next_timer (on_world p) + 4 \<and> stamps es = 0"
proof -
  obtain t n' where w: "on_world p = \<lparr>trace = t, next_timer = n'\<rparr>" by (cases "on_world p")
  show ?thesis using assms
    by (cases st)
      (auto simp: w ordinary_ports_simps ordinary_handled_by_def SingleDomainPortMap_port_by_domain_def
        OrdinaryClock_trigger_def Cell_remember_def Cell_best_def SinglePortNotification_notify_all_def demo_deliver_defs world_defs Let_def stamps_def split: if_splits)
qed

lemma perform_slot:
  assumes inv: "board_inv n b" and j: "j < n" "\<not> restarts j e" and ok: "call_ok e" and "numbered n [e] = Some n'"
    and b': "demo_perform hw e b = Some b'"
  shows "timer_slots b' ! j = timer_slots b ! j"
proof (cases e)
  case (TimerCreated k msg)
  have "slots_inv n (timer_slots b)" "wf_system msg" using inv ok by (simp_all add: board_inv_def TimerCreated)
  from slots_inv_alloc[OF this] b' j show ?thesis
    by (auto simp: TimerCreated DemoTimerHost_timeout_def split: if_splits)
next
  case (TimerRestarted k d)
  obtain i c where "instant_now hw b = (i, b\<lparr>tick_reads := tick_reads b + 1, instant_clock := c\<rparr>)" by (rule instant_now_board)
  with inv b' j TimerRestarted show ?thesis
    by (auto simp: board_inv_def DemoTimeout_restart_def Let_def split: option.splits)
next
  case (TimerRestartedWith k msg d)
  obtain i c where "instant_now hw b = (i, b\<lparr>tick_reads := tick_reads b + 1, instant_clock := c\<rparr>)" by (rule instant_now_board)
  with inv b' j TimerRestartedWith show ?thesis
    by (auto simp: board_inv_def DemoTimeout_restart_with_message_def Let_def split: option.splits)
next
  case (TimerDropped k)
  with b' show ?thesis by (auto simp: DemoTimeout_drop_def split: option.splits)
next
  case (StampEgress msg)
  with b' show ?thesis
    by (auto simp: DemoTimestamping_stamp_egress_def clock_now_def split: option.splits)
qed (use b' in auto)

lemma perform_keeps_slot:
  assumes "board_inv n b" "list_all call_ok es" "numbered n es = Some n'" "j < n" "\<not> list_ex (restarts j) es"
    "demo_perform_all hw es b = Some b'"
  shows "timer_slots b' ! j = timer_slots b ! j"
  using assms
proof (induction es arbitrary: n b)
  case (Cons e es)
  obtain n1 where n1: "numbered n [e] = Some n1" "numbered n1 es = Some n'"
    using Cons.prems(3) numbered_append[of n "[e]" es] by (cases "numbered n [e]") simp_all
  obtain b1 where b1: "demo_perform hw e b = Some b1" "demo_perform_all hw es b1 = Some b'"
    using Cons.prems(6) by (auto split: option.splits)
  have "board_inv n1 b1"
    using perform_board[OF Cons.prems(1) _ n1(1), of hw] Cons.prems(2) b1(1) by (simp split: if_splits)
  moreover have "timer_slots b1 ! j = timer_slots b ! j"
    using perform_slot[OF Cons.prems(1,4) _ _ n1(1) b1(1)] Cons.prems(2,5) by simp
  ultimately show ?case
    using Cons.IH[of n1 b1] n1 b1(2) Cons.prems(2,4,5) numbered_mono[OF n1(1)] by simp
qed simp

text \<open>The slot that an announce receipt timeout does not belong to keeps its own one, and the port is master afterwards.\<close>

lemma timeout_keeps_slot:
  assumes "fsm_state (port_fsm (on_ports p)) = Some st" "times_out st" "embedded.node_inv (p, b)"
    "process_system_message hw (ordinary_ports bf) AnnounceReceiptTimeout (p, b) = Some (p', b')"
    "0 < j" "j < next_timer (on_world p)"
  shows "timer_slots b' ! j = timer_slots b ! j \<and> master_timeout p' AnnounceReceiptTimeout"
proof -
  obtain es where es: "pm_process_system (ordinary_ports bf) p (DomainNumber 0) AnnounceReceiptTimeout = Some (es, p')"
    "demo_perform_all hw es b = Some b'"
    using assms(4) by (auto simp: process_system_message_def split: option.splits)
  have p: "ordinary_node_inv p" and b: "board_inv (next_timer (on_world p)) b" using assms(3) by (simp_all add: embedded.node_inv_def)
  have "on_ports p = \<lparr>map_domain_number = DomainNumber 0, port_fsm = \<lparr>fsm_state = Some st\<rparr>\<rparr>"
    "oc_port_notification (on_clock p) = \<lparr>spn_timeout = Some (Timeout 0)\<rparr>" using p assms(1) by (auto simp: ordinary_node_inv_def)
  note T = port_times_out[OF this(1) assms(2) this(2) es(1) assms(6)]
  have calls: "list_all call_ok es" "numbered (next_timer (on_world p)) es = Some (next_timer (on_world p'))"
    using embedded.system_law[OF p, of AnnounceReceiptTimeout bf] es(1) by (auto split: if_splits)
  show ?thesis
    using perform_keeps_slot[OF b calls assms(6) _ es(2)] T assms(5) by (auto simp: master_timeout_def)
qed



subsection \<open>A run of the demo\<close>

definition demo_hw :: hardware where
  "demo_hw = \<lparr>hw_ticks = (\<lambda>n. if n < 3 then 0 else if n < 6 then 100 else if n < 11 then 200 else if n < 12 then 201 else 700), hw_cycles = (\<lambda>_. 0)\<rparr>"

definition no_datagrams :: "socket_handle \<Rightarrow> bytes list" where
  "no_datagrams = (\<lambda>_. [])"

definition demo_embedded :: "(ordinary_node \<times> (socket_handle \<Rightarrow> bytes list) board) option" where
  "demo_embedded = main_start demo_hw (0, 0, 100) (\<lambda>_ _ _ _. True) demo_bitflags no_datagrams"


fun demo_iterations ::
    "hardware \<Rightarrow> 'p port_map \<Rightarrow> 's smoltcp \<Rightarrow> 's list \<Rightarrow> 'p \<times> 's board \<Rightarrow> ('p \<times> 's board) option option" where
  "demo_iterations hw pm sm [] x = Some (Some x)"
| "demo_iterations hw pm sm (s # ss) x =
     (case main_iteration hw pm sm (\<lambda>_ _. s) x of
        Some (Some y) \<Rightarrow> demo_iterations hw pm sm ss y
      | r \<Rightarrow> r)"

definition announce_arrives :: "socket_handle \<Rightarrow> bytes list" where
  "announce_arrives = case_socket_handle [] [demo_frame]"

lemma demo_polls:
  "PtpNetwork_poll queue_sockets (\<lambda>_. announce_arrives) s [] = (no_datagrams, [RxPacket_of NetGeneral demo_frame])"
  "PtpNetwork_poll queue_sockets (\<lambda>_. no_datagrams) s [] = (no_datagrams, [])"
proof -
  have "announce_arrives(GeneralHandle := []) = no_datagrams"
    by (rule ext) (auto simp: announce_arrives_def no_datagrams_def split: socket_handle.splits)
  then show "PtpNetwork_poll queue_sockets (\<lambda>_. announce_arrives) s [] = (no_datagrams, [RxPacket_of NetGeneral demo_frame])"
    by (simp add: PtpNetwork_poll_def PtpNetwork_drain_socket.simps queue_sockets_def announce_arrives_def no_datagrams_def MAX_RX_PACKETS_def)
  show "PtpNetwork_poll queue_sockets (\<lambda>_. no_datagrams) s [] = (no_datagrams, [])"
    by (simp add: PtpNetwork_poll_def PtpNetwork_drain_socket.simps queue_sockets_def no_datagrams_def)
qed

definition free_slot :: TimerSlot where
  "free_slot = \<lparr>allocated = False, active = False, deadline = Instant_zero, slot_msg = Initialized\<rparr>"

lemma free_slot_simps [simp]: "\<not> allocated free_slot" "\<not> active free_slot"
  by (simp_all add: free_slot_def)

lemma timer_slots_list: "TIMER_SLOTS = free_slot # free_slot # free_slot # free_slot # free_slot # free_slot # replicate 10 free_slot"
  by (simp add: TIMER_SLOTS_def MAX_TIMERS_def numeral_eq_Suc free_slot_def)

lemma timer_indices: "[0..<MAX_TIMERS] = [0, 1, 2, 3, 4, 5, 6, 7, 8, 9, 10, 11, 12, 13, 14, 15]"
  by (simp add: MAX_TIMERS_def upt_rec)

lemma timer_indices_split: "[0..<MAX_TIMERS] = 0 # 1 # 2 # [3..<MAX_TIMERS]"
  unfolding timer_indices by (simp add: MAX_TIMERS_def upt_rec)

lemma demo_seed: "SemiHostingTime_now 0 0 100 = Some (Some (TimeStamp 37 0))"
  by (simp add: SemiHostingTime_now_def Let_def trunc_div_def i64_MIN_def i64_MAX_def TimeStamp_new_def MAX_SECONDS_EXCL_def TAI_OFFSET_SECONDS_def)

lemma demo_hw_simps: "hw_ticks demo_hw n = (if n < 3 then 0 else if n < 6 then 100 else if n < 11 then 200 else if n < 12 then 201 else 700)"
    "hw_cycles demo_hw n = 0"
  by (simp_all add: demo_hw_def)

definition instant_clock_at :: "u32 \<Rightarrow> InstantClock" where
  "instant_clock_at s = \<lparr>ic_last_ticks = 100 * s, ic_instant = Instant_from_secs s\<rparr>"

definition demo_late :: Instant where "demo_late = Instant_from_nanos 2010000000"

lemma demo_readings:
  "InstantClock_new 0 = instant_clock_at 0"
  "InstantClock_now (instant_clock_at 0) 0 = (Instant_from_secs 0, instant_clock_at 0)"
  "InstantClock_now (instant_clock_at 0) 100 = (Instant_from_secs 1, instant_clock_at 1)"
  "InstantClock_now (instant_clock_at 1) 100 = (Instant_from_secs 1, instant_clock_at 1)"
  "InstantClock_now (instant_clock_at 1) 200 = (Instant_from_secs 2, instant_clock_at 2)"
  "InstantClock_now (instant_clock_at 2) 200 = (Instant_from_secs 2, instant_clock_at 2)"
  "InstantClock_now (instant_clock_at 2) 201 = (demo_late, \<lparr>ic_last_ticks = 201, ic_instant = demo_late\<rparr>)"
  "InstantClock_now \<lparr>ic_last_ticks = 201, ic_instant = demo_late\<rparr> 700 = (Instant_from_secs 7, instant_clock_at 7)"
  "InstantClock_now (instant_clock_at 7) 700 = (Instant_from_secs 7, instant_clock_at 7)"
  by (simp_all add: demo_late_def InstantClock_new_def InstantClock_now_def instant_clock_at_def Let_def Ticks_elapsed_since_def Ticks_as_duration_def
      NANOS_PER_TICK_def Instant_saturating_add_def saturating_add_def Duration_from_nanos_def Instant_from_nanos_def Instant_from_secs_def)

lemma demo_deadlines:
  "instant_nanos (Instant_saturating_add (Instant_from_secs 0) (Duration_from_secs 5)) = 5000000000"
  "instant_nanos (Instant_saturating_add (Instant_from_secs 1) (Duration_from_secs 5)) = 6000000000"
  "instant_nanos (Instant_saturating_add (Instant_from_secs 2) (Duration_from_secs 5)) = 7000000000"
  "instant_nanos (Instant_from_secs 1) = 1000000000"
  "instant_nanos (Instant_from_secs 2) = 2000000000"
  "instant_nanos (Instant_from_secs 7) = 7000000000"
  "instant_nanos (Instant_saturating_add demo_late (Duration_from_secs 0)) = 2010000000"
  by (simp_all add: demo_late_def Instant_from_nanos_def Instant_saturating_add_def saturating_add_def Duration_from_secs_def Instant_from_secs_def)

lemmas demo_embedded_defs = main_port_def CycleClock_time_scale_def PortProfile_with_servo_config_def
  OrdinaryClock_port_def OrdinaryClock_new_def PortEnumeration_single_def demo_build_defs
  SinglePortNotification_add_port_def SinglePortNotification_new_def SinglePortNotification_notify_all_def
  SingleDomainPortMap_port_by_domain_def SingleDomainPortMap_new_def OrdinaryClock_trigger_def Cell_remember_def Cell_best_def
  demo_hw_simps ordinary_ports_simps ordinary_handled_by_def process_system_message_def main_start_def demo_board_def demo_seed
  DemoTimerHost_timeout_def TimerSlot_alloc_def timer_slots_list
  CycleClock_new_def DemoTimeout_restart_def DemoTimeout_restart_with_message_def instant_now_def
  SystemTick_now_def demo_readings demo_deadlines
  TimerSlot_restart_def DemoTimeout_drop_def


lemma RxPacket_general:
  assumes "length bs \<le> MAX_FRAME_SIZE"
  shows "process_packet hw pm (RxPacket_of NetGeneral bs) now ts (p, b) =
    (case pm_receive_general pm p bs now of
       None \<Rightarrow> None | Some (result, es, p) \<Rightarrow> map_option (Pair p) (demo_perform_all hw es b))"
  using assms by (simp add: process_packet_def RxPacket_of_def Let_def copy_at_def)

lemma demo_frame_length: "length demo_frame = 64"
  by (simp add: demo_frame_def AnnounceMessage_to_wire_def PayloadBuffer_finalize_def Let_def buffer_defs PTP_PAYLOAD_OFFSET_def)

lemmas demo_packet = RxPacket_general[of demo_frame, simplified demo_frame_length MAX_FRAME_SIZE_def, simplified]

lemmas demo_iteration_defs = main_iteration_def main_poll_def demo_polls demo_packet
  clock_now_def timer_indices fire_timer_def deliver_no_timestamps MessageIngress_receive_general_def demo_frame_parses


lemma demo_clock_stays [simp]:
  "CycleClock_now \<lparr>cc_time = TimeStamp 37 0, cc_last_cycles = 0\<rparr> 0 = Some (TimeStamp 37 0, \<lparr>cc_time = TimeStamp 37 0, cc_last_cycles = 0\<rparr>)"
  by (simp add: CycleClock_now_def Cycles_elapsed_since_def saturating_mul_def Let_def TimeInterval_from_u64_nanos_def TimeInterval_new_def
      TimeStamp_checked_add_def i64_MIN_def i64_checked_add_def i64_checked_def NANOS_PER_SECOND_def TimeStamp_try_new_i64_def in_i64_def i64_MAX_def MAX_SECONDS_EXCL_def TimeStamp_new_def)

lemma demo_default_outcome:
  "bmca_outcome (PortNumber 1) demo_default_ds (Qualified demo_master_ds demo_master demo_self) r
     = DecideSlave (ParentPortIdentity demo_master)"
  using decision_Slave_iff[of "\<lparr>bmca_d_0 = demo_default_ds, bmca_port_number = PortNumber 1\<rparr>" demo_default_ds
      "Qualified demo_master_ds demo_master demo_self" r "ParentPortIdentity demo_master"]
  by (simp add: decision_outcome) (simp add: demo_self_def)

lemma demo_self_port [simp]: "pi_port_number demo_self = PortNumber 1"
  by (simp add: demo_self_def)

lemma demo_zero [simp]: "Duration_as_u64_nanos (Duration_from_secs 0) = 0" "Duration_as_u64_nanos (Duration_from_secs 5) = 5000000000"
  by (simp_all add: Duration_as_u64_nanos_def Duration_from_secs_def)

lemma demo_starts:
  "\<exists>p b s. demo_embedded = Some (p, b) \<and> timestamp_queue b = [] \<and> next_timer (on_world p) = 2 \<and>
     on_ports p = \<lparr>map_domain_number = DomainNumber 0, port_fsm = \<lparr>fsm_state = Some (Listening s)\<rparr>\<rparr>"
  unfolding demo_embedded_def
  by (simp add: main_start_def demo_embedded_defs demo_deliver_defs world_defs Let_def)

lemma demo_follows:
  "\<exists>x p b. demo_embedded = Some x \<and>
     demo_iterations demo_hw (ordinary_ports demo_bitflags) queue_sockets [announce_arrives, announce_arrives] x = Some (Some (p, b)) \<and>
     (\<exists>s. on_ports p = \<lparr>map_domain_number = DomainNumber 0, port_fsm = \<lparr>fsm_state = Some (Uncalibrated s)\<rparr>\<rparr>) \<and>
     oc_port_notification (on_clock p) = \<lparr>spn_timeout = Some (Timeout 0)\<rparr> \<and> next_timer (on_world p) = 4 \<and>
     tick_reads b = 12 \<and> instant_clock b = \<lparr>ic_last_ticks = 201, ic_instant = demo_late\<rparr> \<and> timestamp_queue b = [] \<and>
     timer_handles b 1 = None \<and>
     (\<exists>s0 s1 s2 s3. timer_slots b = s0 # s1 # s2 # s3 # free_slot # free_slot # replicate 10 free_slot \<and>
       list_all allocated [s0, s1, s2, s3] \<and> \<not> active s0 \<and>
       armed_slot (Instant_from_secs 7) s1 \<and> armed_slot (Instant_from_secs 7) s2)"
  unfolding demo_embedded_def
  by (simp add: main_start_def demo_embedded_defs demo_deliver_defs world_defs Let_def,
      simp add: demo_embedded_defs demo_deliver_defs world_defs Let_def demo_iteration_defs demo_default_outcome armed_slot_def due_slot_def)

lemma iterations_run:
  "demo_iterations hw pm sm ss x = Some (Some y) \<Longrightarrow> demo_runs hw pm sm z x \<Longrightarrow> demo_runs hw pm sm z y"
proof (induction ss arbitrary: x)
  case (Cons s ss)
  then obtain x1 where "main_iteration hw pm sm (\<lambda>_ _. s) x = Some (Some x1)" "demo_iterations hw pm sm ss x1 = Some (Some y)"
    by (auto split: option.splits)
  with Cons demo_runs.demo_iteration show ?case by blast
qed simp

text \<open>The third iteration of the run: nothing arrives, and the timers of slots 1 and 2 have expired. The first makes
  the port master, the second is a call that panics.\<close>

lemma demo_third_poll:
  assumes "tick_reads b = 12" "instant_clock b = \<lparr>ic_last_ticks = 201, ic_instant = demo_late\<rparr>"
  shows "main_poll demo_hw queue_sockets (\<lambda>_ _. no_datagrams) b =
    (Instant_from_secs 7, [], b\<lparr>instant_clock := instant_clock_at 7, tick_reads := 14, sockets := no_datagrams\<rparr>)"
  using assms by (simp add: main_poll_def instant_now_def SystemTick_now_def demo_hw_simps demo_readings demo_polls Let_def)


lemma nothing_polled:
  assumes "main_poll hw sm iface_poll (snd y) = (now, [], b)" "timestamp_queue b = []"
  shows "iteration_at hw pm sm iface_poll y now (Timers [0..<MAX_TIMERS]) (fst y, b)"
  by (rule iteration_at.stamps_done[OF iteration_at.packets_done[OF iteration_at.polled[OF assms(1)]]]) (simp add: assms(2))

lemma timeout_succeeds:
  assumes "fsm_state (port_fsm (on_ports p)) = Some st" "times_out st" "embedded.node_inv (p, b)"
    "1 < next_timer (on_world p)" "next_timer (on_world p) \<le> 12"
  shows "process_system_message hw (ordinary_ports bf) AnnounceReceiptTimeout (p, b) \<noteq> None"
proof
  have p: "ordinary_node_inv p" and b: "board_inv (next_timer (on_world p)) b" using assms(3) by (simp_all add: embedded.node_inv_def)
  assume "process_system_message hw (ordinary_ports bf) AnnounceReceiptTimeout (p, b) = None"
  then obtain es p' where es: "pm_process_system (ordinary_ports bf) p (DomainNumber 0) AnnounceReceiptTimeout = Some (es, p')"
    "MAX_TIMERS < next_timer (on_world p') \<or> 8 < length (timestamp_queue b) + stamps es"
    using embedded.system_message_inv(1)[OF assms(3), of AnnounceReceiptTimeout hw bf] assms(1,2)
    by (cases st) (auto simp: master_timeout_def)
  have "on_ports p = \<lparr>map_domain_number = DomainNumber 0, port_fsm = \<lparr>fsm_state = Some st\<rparr>\<rparr>"
    "oc_port_notification (on_clock p) = \<lparr>spn_timeout = Some (Timeout 0)\<rparr>" using p assms(1) by (auto simp: ordinary_node_inv_def)
  from port_times_out[OF this(1) assms(2) this(2) es(1) assms(4)] es(2) assms(5) b show False
    by (auto simp: MAX_TIMERS_def board_inv_def)
qed

lemma demo_panicking_call:
  "\<exists>x y ph z ph' p b. demo_embedded = Some x \<and> demo_runs demo_hw (ordinary_ports demo_bitflags) queue_sockets x y \<and>
     iteration_at demo_hw (ordinary_ports demo_bitflags) queue_sockets (\<lambda>_ _. no_datagrams) y (Instant_from_secs 7) ph z \<and>
     next_call demo_hw (Instant_from_secs 7) ph z = Some (SystemCall AnnounceReceiptTimeout, ph', p, b) \<and>
     (\<exists>m. fsm_state (port_fsm (on_ports p)) = Some (Master m))"
proof -
  let ?pm = "ordinary_ports demo_bitflags"
  let ?now = "Instant_from_secs 7"
  let ?at = "iteration_at demo_hw ?pm queue_sockets (\<lambda>_ _. no_datagrams)"
  obtain x p b s s0 s1 s2 s3 where x: "demo_embedded = Some x"
    "demo_iterations demo_hw ?pm queue_sockets [announce_arrives, announce_arrives] x = Some (Some (p, b))"
    and p: "on_ports p = \<lparr>map_domain_number = DomainNumber 0, port_fsm = \<lparr>fsm_state = Some (Uncalibrated s)\<rparr>\<rparr>"
    "next_timer (on_world p) = 4"
    and b: "tick_reads b = 12" "instant_clock b = \<lparr>ic_last_ticks = 201, ic_instant = demo_late\<rparr>" "timestamp_queue b = []"
    "timer_slots b = s0 # s1 # s2 # s3 # free_slot # free_slot # replicate 10 free_slot" "\<not> active s0"
    "armed_slot ?now s1" "armed_slot ?now s2"
    using demo_follows by blast
  note run = iterations_run[OF x(2) demo_here]
  let ?b = "b\<lparr>instant_clock := instant_clock_at 7, tick_reads := 14, sockets := no_datagrams\<rparr>"
  have "?at (p, b) ?now (Timers [0..<MAX_TIMERS]) (p, ?b)"
    using nothing_polled[of demo_hw queue_sockets _ "(p, b)"] demo_third_poll[OF b(1,2)] b(3) by simp
  then have at0: "?at (p, b) ?now (Timers (0 # 1 # 2 # [3..<MAX_TIMERS])) (p, ?b)" by (simp only: timer_indices_split)
  have at1: "?at (p, b) ?now (Timers (1 # 2 # [3..<MAX_TIMERS])) (p, ?b)"
    by (rule iteration_at.timer_idle[OF at0]) (use b(4,5) in simp)
  let ?b1 = "?b\<lparr>timer_slots := (timer_slots ?b)[1 := (timer_slots ?b ! 1)\<lparr>active := False\<rparr>]\<rparr>"
  have n1: "next_call demo_hw ?now (Timers (1 # 2 # [3..<MAX_TIMERS])) (p, ?b) =
      Some (SystemCall AnnounceReceiptTimeout, Timers (2 # [3..<MAX_TIMERS]), p, ?b1)"
    using b(4,6) by (simp add: armed_slot_def due_slot_def)
  have inv: "embedded.node_inv (p, ?b)"
    using started_inv[OF x(1)[unfolded demo_embedded_def] run] by (simp add: embedded.node_inv_def board_inv_def)
  have inv1: "embedded.node_inv (p, ?b1)"
    using inv disarm_board[of "next_timer (on_world p)" ?b 1] by (simp add: embedded.node_inv_def MAX_TIMERS_def)
  obtain p' b' where c: "process_system_message demo_hw ?pm AnnounceReceiptTimeout (p, ?b1) = Some (p', b')"
    using timeout_succeeds[OF _ _ inv1, of "Uncalibrated s" demo_hw demo_bitflags] p by fastforce
  have at2: "?at (p, b) ?now (Timers (2 # [3..<MAX_TIMERS])) (p', b')"
    using iteration_at.called[OF at1 n1] c by simp
  have "timer_slots b' ! 2 = s2" and m: "master_timeout p' AnnounceReceiptTimeout"
    using timeout_keeps_slot[OF _ _ inv1 c, of "Uncalibrated s" 2] p b(4) by simp_all
  then have "next_call demo_hw ?now (Timers (2 # [3..<MAX_TIMERS])) (p', b') =
      Some (SystemCall AnnounceReceiptTimeout, Timers [3..<MAX_TIMERS], p', b'\<lparr>timer_slots := (timer_slots b')[2 := s2\<lparr>active := False\<rparr>]\<rparr>)"
    using b(7) by (simp add: armed_slot_def due_slot_def)
  with x(1) run at2 m show ?thesis unfolding master_timeout_def by blast
qed

subsection \<open>Properties\<close>

text \<open>C20: The embedded demo starts whatever the host and the hardware answer, and from then on every iteration
  of its loop ends, whatever the sockets deliver. It ends in one of two ways: it gets through the timer table and returns the
  state it has reached there, or it panics, and it panics exactly when a handler of the port that it calls does.
  In particular the loop that delivers the transmit timestamps ends, because the handler of a
  timestamp never sends an event message and so never adds to the queue that the loop empties.\<close>

theorem demo_iterations_end:
  "\<exists>x. main_start hw host send_slice bf sk = Some x \<and>
     (\<forall>y iface_poll. demo_runs hw (ordinary_ports bf) sm x y \<longrightarrow>
       (\<exists>r. main_iteration hw (ordinary_ports bf) sm iface_poll y = Some r \<and>
         (\<forall>y'. r = Some y' \<longleftrightarrow> (\<exists>now. iteration_at hw (ordinary_ports bf) sm iface_poll y now (Timers []) y')) \<and>
         (r = None \<longleftrightarrow> (\<exists>now ph z c ph' u. iteration_at hw (ordinary_ports bf) sm iface_poll y now ph z \<and>
            next_call hw now ph z = Some (c, ph', u) \<and> call_handler hw (ordinary_ports bf) c u = None))))"
proof -
  obtain x where x: "main_start hw host send_slice bf sk = Some x" using main_starts[of hw host send_slice bf sk] by blast
  have "\<exists>r. main_iteration hw (ordinary_ports bf) sm iface_poll y = Some r \<and>
         (\<forall>y'. r = Some y' \<longleftrightarrow> (\<exists>now. iteration_at hw (ordinary_ports bf) sm iface_poll y now (Timers []) y')) \<and>
         (r = None \<longleftrightarrow> (\<exists>now ph z c ph' u. iteration_at hw (ordinary_ports bf) sm iface_poll y now ph z \<and>
            next_call hw now ph z = Some (c, ph', u) \<and> call_handler hw (ordinary_ports bf) c u = None))"
    if run: "demo_runs hw (ordinary_ports bf) sm x y" for y iface_poll
  proof -
    obtain r where r: "main_iteration hw (ordinary_ports bf) sm iface_poll y = Some r" "iteration_ends hw (ordinary_ports bf) sm iface_poll y r"
      using embedded.iteration_inv[OF started_inv[OF x run], of hw bf sm iface_poll] by blast
    show ?thesis by (intro exI[of _ r] conjI r(1) iteration_ends_iff[OF r])
  qed
  with x show ?thesis by blast
qed

theorem demo_iterations_end_witness:
  "\<exists>x y. demo_embedded = Some x \<and> demo_runs demo_hw (ordinary_ports demo_bitflags) queue_sockets x y \<and>
     main_iteration demo_hw (ordinary_ports demo_bitflags) queue_sockets (\<lambda>_ _. no_datagrams) y = Some None"
proof -
  obtain x y ph z ph' p b where x: "demo_embedded = Some x" "demo_runs demo_hw (ordinary_ports demo_bitflags) queue_sockets x y"
    "iteration_at demo_hw (ordinary_ports demo_bitflags) queue_sockets (\<lambda>_ _. no_datagrams) y (Instant_from_secs 7) ph z"
    "next_call demo_hw (Instant_from_secs 7) ph z = Some (SystemCall AnnounceReceiptTimeout, ph', p, b)"
    "\<exists>m. fsm_state (port_fsm (on_ports p)) = Some (Master m)"
    using demo_panicking_call by blast
  have "call_handler demo_hw (ordinary_ports demo_bitflags) (SystemCall AnnounceReceiptTimeout) (p, b) = None"
    using embedded.call_inv(1)[OF call_in_run[OF x(1)[unfolded demo_embedded_def] x(2-4)], of demo_hw] x(5)
    by (simp add: ordinary_stale_call del: call_handler.simps)
  with x demo_iterations_end[of demo_hw "(0, 0, 100)" "\<lambda>_ _ _ _. True" demo_bitflags no_datagrams queue_sockets] show ?thesis
    unfolding demo_embedded_def by (metis option.inject)
qed

text \<open>C18: The table of timer slots in a run of the demo: the timer that the port created as number \<open>k\<close> lives in slot \<open>k\<close>,
  its handle points there as long as the port holds it, and slot \<open>k\<close> stays allocated for good, also after
  the timer has been dropped. So a run creates at most 16 timers.\<close>

theorem demo_timers_in_slots:
  assumes "main_start hw host send_slice bf sk = Some x" and "demo_runs hw (ordinary_ports bf) sm x (p, b)"
  shows "next_timer (on_world p) \<le> MAX_TIMERS \<and> length (timer_slots b) = MAX_TIMERS \<and>
    (\<forall>k < MAX_TIMERS. allocated (timer_slots b ! k) \<longleftrightarrow> k < next_timer (on_world p)) \<and>
    (\<forall>k t. timer_handles b k = Some t \<longrightarrow> dt_slot t = k \<and> k < next_timer (on_world p))"
  using started_inv[OF assms] by (auto simp: embedded.node_inv_def board_inv_def slots_inv_def)

theorem demo_timers_in_slots_witness:
  "\<exists>x p b. demo_embedded = Some x \<and> demo_runs demo_hw (ordinary_ports demo_bitflags) queue_sockets x (p, b) \<and>
     timer_handles b 1 = None \<and> allocated (timer_slots b ! 1) \<and> \<not> allocated (timer_slots b ! 4)"
proof -
  obtain x p b where x: "demo_embedded = Some x" "next_timer (on_world p) = 4" "timer_handles b 1 = None"
    "demo_iterations demo_hw (ordinary_ports demo_bitflags) queue_sockets [announce_arrives, announce_arrives] x = Some (Some (p, b))"
    using demo_follows by blast
  note r = iterations_run[OF x(4) demo_here]
  from demo_timers_in_slots[OF x(1)[unfolded demo_embedded_def] r] x(2)
  have "allocated (timer_slots b ! 1)" "\<not> allocated (timer_slots b ! 4)" by (simp_all add: MAX_TIMERS_def)
  with x(1,3) r show ?thesis by blast
qed

text \<open>C19: When a call of the port's handlers brings the embedded demo down: for every call that the loop makes in any iteration of any
  run, whether it hands over a datagram, a transmit timestamp or the message of an expired timer, and in the
  state in which it makes it, the call panics exactly when it hands an announce receipt timeout to a
  master, or when its handler creates the 17th timer of the run or stamps more event messages than
  the queue of eight has room for.\<close>

theorem demo_call_panics_iff:
  assumes "main_start hw host send_slice bf sk = Some x" and "demo_runs hw (ordinary_ports bf) sm x y"
    and "iteration_at hw (ordinary_ports bf) sm iface_poll y now ph z" and "next_call hw now ph z = Some (c, ph', p, b)"
  shows "call_handler hw (ordinary_ports bf) c (p, b) = None \<longleftrightarrow>
    (\<exists>s. fsm_state (port_fsm (on_ports p)) = Some (Master s)) \<and> c = SystemCall AnnounceReceiptTimeout \<or>
    (\<exists>es p'. handler_effects (ordinary_ports bf) c p = Some (es, p') \<and>
       (16 < next_timer (on_world p') \<or> 8 < length (timestamp_queue b) + stamps es))"
  using embedded.call_inv(1)[OF call_in_run[OF assms], of hw] by (simp add: ordinary_stale_call MAX_TIMERS_def)

theorem demo_call_panics_iff_witness:
  "\<exists>x y ph z ph' p b. demo_embedded = Some x \<and> demo_runs demo_hw (ordinary_ports demo_bitflags) queue_sockets x y \<and>
     iteration_at demo_hw (ordinary_ports demo_bitflags) queue_sockets (\<lambda>_ _. no_datagrams) y (Instant_from_secs 7) ph z \<and>
     next_call demo_hw (Instant_from_secs 7) ph z = Some (SystemCall AnnounceReceiptTimeout, ph', p, b) \<and>
     call_handler demo_hw (ordinary_ports demo_bitflags) (SystemCall AnnounceReceiptTimeout) (p, b) = None"
proof -
  obtain x y ph z ph' p b where x: "demo_embedded = Some x" "demo_runs demo_hw (ordinary_ports demo_bitflags) queue_sockets x y"
    "iteration_at demo_hw (ordinary_ports demo_bitflags) queue_sockets (\<lambda>_ _. no_datagrams) y (Instant_from_secs 7) ph z"
    "next_call demo_hw (Instant_from_secs 7) ph z = Some (SystemCall AnnounceReceiptTimeout, ph', p, b)"
    "\<exists>m. fsm_state (port_fsm (on_ports p)) = Some (Master m)"
    using demo_panicking_call by blast
  with demo_call_panics_iff[OF x(1)[unfolded demo_embedded_def] x(2-4)] show ?thesis by blast
qed



end
