(* ===== verification/Ptp_Daemon.thy ===== *)
theory Ptp_Daemon
  imports Ptp_Examples Ptp_Node "HOL-Library.Sublist"
begin

section \<open>The daemon's runtime (rptp-daemon)\<close>

text \<open>
  Models \<^verbatim>\<open>crates/rptp-daemon/src/node.rs\<close>, \<^verbatim>\<open>timestamping.rs\<close> and \<^verbatim>\<open>ordinary.rs\<close>: timeouts that are Tokio
  tasks, the channel of system messages, the physical port over two sockets, the transmit
  timestamps, and the loop that feeds datagrams and system messages into the port of an
  ordinary clock.

  Tokio is not part of the sources. Its executor and channel are a parameter \<open>tk\<close> of the
  definitions, on a state \<open>'x\<close>; \<open>documented_tokio\<close> is what Tokio documents of the calls that are used:

  \<^item> \<open>tokio::spawn\<close> of a task that sleeps and then sends one item gives a new join handle;
  \<^item> \<open>abort\<close> cancels the task of a handle, if it is still sleeping, and does nothing otherwise;
  \<^item> the channel is unbounded, \<open>send\<close> appends an item and \<open>recv\<close> takes them in the order they were sent;
  \<^item> a sleeping task wakes at some time and then sends its item (\<open>tk_wake\<close>, a step of the executor).

  \<open>tk_sleeping\<close>, \<open>tk_queue\<close> and \<open>tk_used\<close> observe the state: the items of the sleeping tasks by handle, the
  items in the channel, and the handles given out so far.
\<close>

type_synonym item = "DomainNumber \<times> SystemMessage"

record 'x tokio =
  tk_spawn :: "'x \<Rightarrow> u64 \<Rightarrow> item \<Rightarrow> nat \<times> 'x"
  tk_abort :: "'x \<Rightarrow> nat \<Rightarrow> 'x"
  tk_send :: "'x \<Rightarrow> item \<Rightarrow> 'x"
  tk_recv :: "'x \<Rightarrow> (item \<times> 'x) option"
  tk_wake :: "'x \<Rightarrow> nat \<Rightarrow> 'x"
  tk_sleeping :: "'x \<Rightarrow> nat \<rightharpoonup> item"
  tk_queue :: "'x \<Rightarrow> item list"
  tk_used :: "'x \<Rightarrow> nat set"

definition documented_tokio :: "'x tokio \<Rightarrow> bool" where
  "documented_tokio tk \<longleftrightarrow>
     (\<forall>x. dom (tk_sleeping tk x) \<subseteq> tk_used tk x) \<and>
     (\<forall>x d i. case tk_spawn tk x d i of (h, x') \<Rightarrow>
        h \<notin> tk_used tk x \<and> tk_used tk x' = insert h (tk_used tk x) \<and>
        tk_sleeping tk x' = (tk_sleeping tk x)(h \<mapsto> i) \<and> tk_queue tk x' = tk_queue tk x) \<and>
     (\<forall>x h. tk_used tk (tk_abort tk x h) = tk_used tk x \<and>
        tk_sleeping tk (tk_abort tk x h) = (tk_sleeping tk x)(h := None) \<and>
        tk_queue tk (tk_abort tk x h) = tk_queue tk x) \<and>
     (\<forall>x i. tk_used tk (tk_send tk x i) = tk_used tk x \<and>
        tk_sleeping tk (tk_send tk x i) = tk_sleeping tk x \<and> tk_queue tk (tk_send tk x i) = tk_queue tk x @ [i]) \<and>
     (\<forall>x. case tk_queue tk x of
        [] \<Rightarrow> tk_recv tk x = None
      | i # q \<Rightarrow> (\<exists>x'. tk_recv tk x = Some (i, x') \<and> tk_queue tk x' = q \<and>
          tk_used tk x' = tk_used tk x \<and> tk_sleeping tk x' = tk_sleeping tk x)) \<and>
     (\<forall>x h i. tk_sleeping tk x h = Some i \<longrightarrow> tk_used tk (tk_wake tk x h) = tk_used tk x \<and>
        tk_sleeping tk (tk_wake tk x h) = (tk_sleeping tk x)(h := None) \<and>
        tk_queue tk (tk_wake tk x h) = tk_queue tk x @ [i])"

subsection \<open>Timeouts\<close>

record TokioTimeout =
  tt_domain_number :: DomainNumber
  tt_msg :: SystemMessage
  tt_handle :: "nat option"

definition TokioTimeout_new :: "DomainNumber \<Rightarrow> SystemMessage \<Rightarrow> TokioTimeout" where
  "TokioTimeout_new dn msg = \<lparr>tt_domain_number = dn, tt_msg = msg, tt_handle = None\<rparr>"

definition TokioTimeout_spawn ::
    "'x tokio \<Rightarrow> TokioTimeout \<Rightarrow> SystemMessage \<Rightarrow> Duration \<Rightarrow> 'x \<Rightarrow> nat \<times> 'x" where
  "TokioTimeout_spawn tk inner msg delay x =
     (let delay = Duration_as_u64_nanos delay in tk_spawn tk x delay (tt_domain_number inner, msg))"

text \<open>\<open>cancel\<close>, and the same steps at the start of \<open>reset\<close>: take the handle and abort its task.\<close>

definition TokioTimeout_cancel :: "'x tokio \<Rightarrow> TokioTimeout \<Rightarrow> 'x \<Rightarrow> TokioTimeout \<times> 'x" where
  "TokioTimeout_cancel tk t x =
     (case tt_handle t of
        Some handle \<Rightarrow> (t\<lparr>tt_handle := None\<rparr>, tk_abort tk x handle)
      | None \<Rightarrow> (t, x))"

definition TokioTimeout_reset :: "'x tokio \<Rightarrow> TokioTimeout \<Rightarrow> Duration \<Rightarrow> 'x \<Rightarrow> TokioTimeout \<times> 'x" where
  "TokioTimeout_reset tk t delay x =
     (let msg = tt_msg t;
          (t, x) = (case tt_handle t of
                      Some handle \<Rightarrow> (t\<lparr>tt_handle := None\<rparr>, tk_abort tk x handle)
                    | None \<Rightarrow> (t, x));
          (handle, x) = TokioTimeout_spawn tk t msg delay x
      in (t\<lparr>tt_handle := Some handle\<rparr>, x))"

definition TokioTimeout_restart :: "'x tokio \<Rightarrow> TokioTimeout \<Rightarrow> Duration \<Rightarrow> 'x \<Rightarrow> TokioTimeout \<times> 'x" where
  "TokioTimeout_restart tk t delay x = TokioTimeout_reset tk t delay x"

definition TokioTimeout_restart_with_message ::
    "'x tokio \<Rightarrow> TokioTimeout \<Rightarrow> SystemMessage \<Rightarrow> Duration \<Rightarrow> 'x \<Rightarrow> TokioTimeout \<times> 'x" where
  "TokioTimeout_restart_with_message tk t msg delay x =
     (let t = t\<lparr>tt_msg := msg\<rparr> in
      if Duration_as_u64_nanos delay = 0
      then (t, tk_send tk x (tt_domain_number t, tt_msg t))
      else TokioTimeout_reset tk t delay x)"

definition TokioTimeout_drop :: "'x tokio \<Rightarrow> TokioTimeout \<Rightarrow> 'x \<Rightarrow> 'x" where
  "TokioTimeout_drop tk t x = snd (TokioTimeout_cancel tk t x)"

record TokioTimerHost =
  th_domain_number :: DomainNumber

definition TokioTimerHost_timeout :: "TokioTimerHost \<Rightarrow> SystemMessage \<Rightarrow> TokioTimeout" where
  "TokioTimerHost_timeout th msg = TokioTimeout_new (th_domain_number th) msg"

subsection \<open>Transmit timestamps and the physical port\<close>

text \<open>The timestamp of a sent event message is the time of the clock when it was sent, sent to the loop's channel.\<close>

definition ClockTxTimestamping_stamp_egress ::
    "'x tokio \<Rightarrow> DomainNumber \<Rightarrow> EventMessage \<Rightarrow> TimeStamp \<Rightarrow> 'x \<Rightarrow> 'x" where
  "ClockTxTimestamping_stamp_egress tk dn msg now x =
     (let system_msg = Timestamp \<lparr>event_msg = msg, egress_timestamp = now\<rparr> in tk_send tk x (dn, system_msg))"

text \<open>The sockets answer \<open>try_send\<close>; the answer may depend on everything that has happened.\<close>

record TokioPhysicalPort =
  event_try_send :: "effect list \<Rightarrow> bytes \<Rightarrow> bool"
  general_try_send :: "effect list \<Rightarrow> bytes \<Rightarrow> bool"

definition TokioPhysicalPort_send_event :: "TokioPhysicalPort \<Rightarrow> effect list \<Rightarrow> bytes \<Rightarrow> bool" where
  "TokioPhysicalPort_send_event p es buf = (if event_try_send p es buf then True else False)"

definition TokioPhysicalPort_send_general :: "TokioPhysicalPort \<Rightarrow> effect list \<Rightarrow> bytes \<Rightarrow> bool" where
  "TokioPhysicalPort_send_general p es buf = (if general_try_send p es buf then True else False)"

definition OrdinaryTokioClock_new :: "ClockDS \<Rightarrow> DomainNumber \<Rightarrow> PortProfile \<Rightarrow> OrdinaryClock" where
  "OrdinaryTokioClock_new default_ds dn profile = OrdinaryClock_new default_ds dn profile"

definition OrdinaryTokioClock_port ::
    "OrdinaryClock \<Rightarrow> TokioPhysicalPort \<Rightarrow> (effect list \<Rightarrow> TimeScale) \<Rightarrow> world \<Rightarrow>
     (PortState option \<times> OrdinaryClock \<times> world) option" where
  "OrdinaryTokioClock_port c physical_port time_scale w =
     OrdinaryClock_port c
       \<lparr>infra_send_event = TokioPhysicalPort_send_event physical_port,
        infra_send_general = TokioPhysicalPort_send_general physical_port,
        infra_time_scale = time_scale, infra_records = ForeignClockRecordsVec_new\<rparr> w"

definition BoundaryTokioClock_new :: "ClockDS \<Rightarrow> DomainNumber \<Rightarrow> u16 \<Rightarrow> BoundaryClock option" where
  "BoundaryTokioClock_new default_ds dn num_ports =
     BoundaryClock_new default_ds dn num_ports MultiPortForeignCandidates_new MultiPortNotification_new"

definition BoundaryTokioClock_port ::
    "BoundaryClock \<Rightarrow> TokioPhysicalPort \<Rightarrow> (effect list \<Rightarrow> TimeScale) \<Rightarrow> world \<Rightarrow>
     (PortState option \<times> BoundaryClock \<times> world) option" where
  "BoundaryTokioClock_port c physical_port time_scale w =
     BoundaryClock_port c
       \<lparr>infra_send_event = TokioPhysicalPort_send_event physical_port,
        infra_send_general = TokioPhysicalPort_send_general physical_port,
        infra_time_scale = time_scale, infra_records = ForeignClockRecordsVec_new\<rparr> w"

text \<open>The clocks that the wrapper assembles are the boundary clocks whose runs are studied in \<^verbatim>\<open>Ptp_Host\<close>.\<close>

lemma boundary_tokio_built:
  "wf_ds ds \<Longrightarrow> wf_world w \<Longrightarrow> BoundaryTokioClock_new ds dn n = Some c \<Longrightarrow> boundary_built c [] w"
  by (auto simp: BoundaryTokioClock_new_def intro: boundary_empty)

lemma boundary_tokio_port_built:
  assumes "boundary_built c sts w" "BoundaryTokioClock_port c p time_scale w = Some (Some st, c', w')"
  shows "boundary_built c' (sts @ [st]) w'"
  by (rule boundary_port[OF assms(1) _ assms(2)[unfolded BoundaryTokioClock_port_def]]) simp

subsection \<open>The host of a port\<close>

text \<open>
  The timeouts of a port by the number under which the port's trace knows them, and the state of
  the executor. The calls of a handler are in its trace; \<open>perform\<close> is what the daemon's
  implementation of the trait does for each of them. \<open>clk\<close> is the time of the clock after the given effects.
\<close>

record 'x host =
  timeouts :: "nat \<rightharpoonup> TokioTimeout"
  runtime :: 'x

definition with_timeout ::
    "nat \<Rightarrow> (TokioTimeout \<Rightarrow> 'x \<Rightarrow> TokioTimeout \<times> 'x) \<Rightarrow> 'x host \<Rightarrow> 'x host" where
  "with_timeout k f h =
     (case timeouts h k of
        None \<Rightarrow> h
      | Some t \<Rightarrow> (let (t, x) = f t (runtime h) in h\<lparr>timeouts := (timeouts h)(k \<mapsto> t), runtime := x\<rparr>))"

fun perform :: "'x tokio \<Rightarrow> TokioTimerHost \<Rightarrow> TimeStamp \<Rightarrow> effect \<Rightarrow> 'x host \<Rightarrow> 'x host" where
  "perform tk th now (TimerCreated k msg) h = h\<lparr>timeouts := (timeouts h)(k \<mapsto> TokioTimerHost_timeout th msg)\<rparr>"
| "perform tk th now (TimerRestarted k delay) h = with_timeout k (\<lambda>t. TokioTimeout_restart tk t delay) h"
| "perform tk th now (TimerRestartedWith k msg delay) h =
     with_timeout k (\<lambda>t. TokioTimeout_restart_with_message tk t msg delay) h"
| "perform tk th now (TimerDropped k) h =
     (case timeouts h k of
        None \<Rightarrow> h
      | Some t \<Rightarrow> h\<lparr>timeouts := (timeouts h)(k := None), runtime := TokioTimeout_drop tk t (runtime h)\<rparr>)"
| "perform tk th now (StampEgress msg) h =
     h\<lparr>runtime := ClockTxTimestamping_stamp_egress tk (th_domain_number th) msg now (runtime h)\<rparr>"
| "perform tk th now _ h = h"

fun perform_all ::
    "'x tokio \<Rightarrow> TokioTimerHost \<Rightarrow> (effect list \<Rightarrow> TimeStamp) \<Rightarrow> effect list \<Rightarrow> effect list \<Rightarrow> 'x host \<Rightarrow> 'x host" where
  "perform_all tk th clk pre [] h = h"
| "perform_all tk th clk pre (e # es) h =
     perform_all tk th clk (pre @ [e]) es (perform tk th (clk (pre @ [e])) e h)"

subsection \<open>The loop\<close>

datatype log_level = TraceLevel | DebugLevel | WarnLevel

record 'x TokioPortsLoop =
  portmap :: SingleDomainPortMap
  pl_clock :: OrdinaryClock
  pl_world :: world
  pl_host :: "'x host"
  pl_log :: "(log_level \<times> string) list"

datatype RxKind = Event | General

text \<open>The log record of a rejected datagram.\<close>

definition TokioPortsLoop_log_rx_error :: "string \<Rightarrow> Error \<Rightarrow> log_level \<times> string" where
  "TokioPortsLoop_log_rx_error label e =
     (case e of
        Protocol (DomainNotFound _) \<Rightarrow> (TraceLevel, ''dropping '' @ label @ '' message for unknown domain'')
      | Protocol (UnsupportedPtpVersion _) \<Rightarrow>
          (TraceLevel, ''dropping '' @ label @ '' message with unsupported PTP version'')
      | Protocol (UnknownMessageType _) \<Rightarrow> (TraceLevel, ''dropping '' @ label @ '' message with unknown type'')
      | Parse _ \<Rightarrow> (TraceLevel, ''dropping '' @ label @ '' message with parse error'')
      | _ \<Rightarrow> (DebugLevel, label @ '' message domain/protocol error''))"

text \<open>After a handler: the clock runs the calls of \<open>trigger\<close>, and the host has performed every call.\<close>

definition TokioPortsLoop_handled ::
    "'x tokio \<Rightarrow> TokioTimerHost \<Rightarrow> (effect list \<Rightarrow> TimeStamp) \<Rightarrow> 'x TokioPortsLoop \<Rightarrow>
     SingleDomainPortMap \<Rightarrow> world \<Rightarrow> 'x TokioPortsLoop option" where
  "TokioPortsLoop_handled tk th clk l ports w =
     (let before = trace (pl_world l) in
      case OrdinaryClock_run_triggers (drop (length before) (trace w)) (pl_clock l) w of
        None \<Rightarrow> None
      | Some (c, w') \<Rightarrow>
          Some \<lparr>portmap = ports, pl_clock = c, pl_world = w',
            pl_host = perform_all tk th clk before (drop (length before) (trace w')) (pl_host l),
            pl_log = pl_log l\<rparr>)"

text \<open>\<open>&buf[..size]\<close> panics when \<open>size\<close> exceeds the buffer; a datagram that is not accepted is only logged.\<close>

definition TokioPortsLoop_process_datagram ::
    "'x tokio \<Rightarrow> TokioTimerHost \<Rightarrow> (effect list \<Rightarrow> TimeStamp) \<Rightarrow> bitflags \<Rightarrow> 'x TokioPortsLoop \<Rightarrow>
     RxKind \<Rightarrow> bytes \<Rightarrow> nat \<Rightarrow> Instant \<Rightarrow> 'x TokioPortsLoop option" where
  "TokioPortsLoop_process_datagram tk th clk bf l kind buf sz now =
     (if sz \<le> length buf then
        (let res =
           (case kind of
              Event \<Rightarrow> MessageIngress_receive_event bf (portmap l) (take sz buf) (clk (trace (pl_world l))) (pl_world l)
            | General \<Rightarrow> MessageIngress_receive_general bf (portmap l) (take sz buf) now (pl_world l))
         in case res of
              None \<Rightarrow> None
            | Some (r, ports, w) \<Rightarrow>
                map_option
                  (\<lambda>l. case r of
                         Inl e \<Rightarrow> l\<lparr>pl_log := pl_log l @ [TokioPortsLoop_log_rx_error
                           (case kind of Event \<Rightarrow> ''event'' | General \<Rightarrow> ''general'') e]\<rparr>
                       | Inr _ \<Rightarrow> l)
                  (TokioPortsLoop_handled tk th clk l ports w))
      else None)"

text \<open>A branch of \<open>tokio::select!\<close>, or a step of the executor.\<close>

datatype arrival =
    Datagram RxKind bytes nat Instant
  | ReceiveError RxKind
  | SystemReady
  | Wakes nat

definition TokioPortsLoop_process_system ::
    "'x tokio \<Rightarrow> TokioTimerHost \<Rightarrow> (effect list \<Rightarrow> TimeStamp) \<Rightarrow> 'x TokioPortsLoop \<Rightarrow>
     DomainNumber \<Rightarrow> SystemMessage \<Rightarrow> 'x TokioPortsLoop option" where
  "TokioPortsLoop_process_system tk th clk l dn msg =
     (case SingleDomainPortMap_port_by_domain (portmap l) dn of
        Inl _ \<Rightarrow> Some l
      | Inr port \<Rightarrow>
          (case PortFsm_process_system_message port msg (pl_world l) of
             None \<Rightarrow> None
           | Some (port, w) \<Rightarrow> TokioPortsLoop_handled tk th clk l ((portmap l)\<lparr>port_fsm := port\<rparr>) w))"

definition TokioPortsLoop_step ::
    "'x tokio \<Rightarrow> TokioTimerHost \<Rightarrow> (effect list \<Rightarrow> TimeStamp) \<Rightarrow> bitflags \<Rightarrow> 'x TokioPortsLoop \<Rightarrow> arrival \<Rightarrow>
     'x TokioPortsLoop option" where
  "TokioPortsLoop_step tk th clk bf l a =
     (case a of
        Datagram kind buf sz now \<Rightarrow> TokioPortsLoop_process_datagram tk th clk bf l kind buf sz now
      | ReceiveError kind \<Rightarrow>
          Some (l\<lparr>pl_log := pl_log l @ [(WarnLevel,
            case kind of Event \<Rightarrow> ''event socket receive error'' | General \<Rightarrow> ''general socket receive error'')]\<rparr>)
      | SystemReady \<Rightarrow>
          (case tk_recv tk (runtime (pl_host l)) of
             None \<Rightarrow> Some l
           | Some ((dn, msg), x) \<Rightarrow>
               TokioPortsLoop_process_system tk th clk (l\<lparr>pl_host := (pl_host l)\<lparr>runtime := x\<rparr>\<rparr>) dn msg)
      | Wakes h \<Rightarrow>
          (if tk_sleeping tk (runtime (pl_host l)) h = None then Some l
           else Some (l\<lparr>pl_host := (pl_host l)\<lparr>runtime := tk_wake tk (runtime (pl_host l)) h\<rparr>\<rparr>)))"

text \<open>The start of \<open>run_until\<close>: \<open>Inl\<close> is the I/O error for a missing domain 0.\<close>

definition TokioPortsLoop_start ::
    "'x tokio \<Rightarrow> TokioTimerHost \<Rightarrow> (effect list \<Rightarrow> TimeStamp) \<Rightarrow> 'x TokioPortsLoop \<Rightarrow>
     (string + 'x TokioPortsLoop) option" where
  "TokioPortsLoop_start tk th clk l =
     (case SingleDomainPortMap_port_by_domain (portmap l) (DomainNumber 0) of
        Inl _ \<Rightarrow> Some (Inl ''no port for domain 0'')
      | Inr _ \<Rightarrow> map_option Inr (TokioPortsLoop_process_system tk th clk l (DomainNumber 0) Initialized))"


subsection \<open>The executor as an interface\<close>

locale tokio_runtime =
  fixes tk :: "'x tokio"
  assumes documented: "documented_tokio tk"
begin

lemmas laws = documented[unfolded documented_tokio_def]
lemmas used_law = laws[THEN conjunct1]
lemmas spawn_law = laws[THEN conjunct2, THEN conjunct1]
lemmas abort_law = laws[THEN conjunct2, THEN conjunct2, THEN conjunct1]
lemmas send_law = laws[THEN conjunct2, THEN conjunct2, THEN conjunct2, THEN conjunct1]
lemmas recv_law = laws[THEN conjunct2, THEN conjunct2, THEN conjunct2, THEN conjunct2, THEN conjunct1]
lemmas wake_law = laws[THEN conjunct2, THEN conjunct2, THEN conjunct2, THEN conjunct2, THEN conjunct2]

lemma sleeping_used: "tk_sleeping tk x h = Some i \<Longrightarrow> h \<in> tk_used tk x"
  using used_law by blast

lemma spawn_new:
  assumes "tk_spawn tk x d i = (h, x')"
  shows "h \<notin> tk_used tk x" "tk_used tk x' = insert h (tk_used tk x)"
    "tk_sleeping tk x' = (tk_sleeping tk x)(h \<mapsto> i)" "tk_queue tk x' = tk_queue tk x"
  using spawn_law[rule_format, where x = x and d = d and i = i] by (simp_all add: assms)

lemma abort_simps [simp]:
  "tk_used tk (tk_abort tk x h) = tk_used tk x"
  "tk_sleeping tk (tk_abort tk x h) = (tk_sleeping tk x)(h := None)"
  "tk_queue tk (tk_abort tk x h) = tk_queue tk x"
  using abort_law by simp_all

lemma send_simps [simp]:
  "tk_used tk (tk_send tk x i) = tk_used tk x" "tk_sleeping tk (tk_send tk x i) = tk_sleeping tk x"
  "tk_queue tk (tk_send tk x i) = tk_queue tk x @ [i]"
  using send_law[THEN spec, THEN spec, of x i] by blast+

lemma recv_cases:
  obtains (empty) "tk_queue tk x = []" "tk_recv tk x = None"
  | (item) i x' where "tk_recv tk x = Some (i, x')" "tk_queue tk x = i # tk_queue tk x'"
      "tk_used tk x' = tk_used tk x" "tk_sleeping tk x' = tk_sleeping tk x"
  using empty item recv_law[rule_format, of x] by (cases "tk_queue tk x") auto

lemma wake_simps:
  assumes "tk_sleeping tk x h = Some i"
  shows "tk_used tk (tk_wake tk x h) = tk_used tk x" "tk_sleeping tk (tk_wake tk x h) = (tk_sleeping tk x)(h := None)"
    "tk_queue tk (tk_wake tk x h) = tk_queue tk x @ [i]"
  using wake_law[rule_format, OF assms] by simp_all

text \<open>
  The host of a port in step with the port's trace: it has exactly the timeouts that are alive
  there, each with its message; a sleeping task is that of a timeout that is alive; and the
  channel and the tasks hold well-formed messages of the host's domain only.
\<close>

definition good_item :: "DomainNumber \<Rightarrow> item \<Rightarrow> bool" where
  "good_item dn i \<longleftrightarrow> fst i = dn \<and> wf_system (snd i)"

definition host_inv :: "DomainNumber \<Rightarrow> effect list \<Rightarrow> 'x host \<Rightarrow> bool" where
  "host_inv dn tr h \<longleftrightarrow>
     (\<forall>k. timers tr k = map_option tt_msg (timeouts h k)) \<and>
     (\<forall>k t. timeouts h k = Some t \<longrightarrow> good_item dn (tt_domain_number t, tt_msg t)) \<and>
     (\<forall>k t x. timeouts h k = Some t \<longrightarrow> tt_handle t = Some x \<longrightarrow> x \<in> tk_used tk (runtime h)) \<and>
     (\<forall>k k' t t' x. timeouts h k = Some t \<longrightarrow> timeouts h k' = Some t' \<longrightarrow> tt_handle t = Some x \<longrightarrow>
        tt_handle t' = Some x \<longrightarrow> k = k') \<and>
     (\<forall>x i. tk_sleeping tk (runtime h) x = Some i \<longrightarrow>
        good_item dn i \<and> (\<exists>k t. timeouts h k = Some t \<and> tt_handle t = Some x)) \<and>
     (\<forall>i \<in> set (tk_queue tk (runtime h)). good_item dn i)"

lemma host_invI:
  assumes "\<And>k. timers tr k = map_option tt_msg (timeouts h k)"
    and "\<And>k t. timeouts h k = Some t \<Longrightarrow> good_item dn (tt_domain_number t, tt_msg t)"
    and "\<And>k t x. timeouts h k = Some t \<Longrightarrow> tt_handle t = Some x \<Longrightarrow> x \<in> tk_used tk (runtime h)"
    and "\<And>k k' t t' x. timeouts h k = Some t \<Longrightarrow> timeouts h k' = Some t' \<Longrightarrow> tt_handle t = Some x \<Longrightarrow>
        tt_handle t' = Some x \<Longrightarrow> k = k'"
    and "\<And>x i. tk_sleeping tk (runtime h) x = Some i \<Longrightarrow>
        good_item dn i \<and> (\<exists>k t. timeouts h k = Some t \<and> tt_handle t = Some x)"
    and "\<And>i. i \<in> set (tk_queue tk (runtime h)) \<Longrightarrow> good_item dn i"
  shows "host_inv dn tr h"
  unfolding host_inv_def using assms by blast

lemma host_inv_sleeping:
  assumes "host_inv dn tr h" "tk_sleeping tk (runtime h) z = Some i"
  obtains k t where "good_item dn i" "timeouts h k = Some t" "tt_handle t = Some z"
  using assms unfolding host_inv_def by blast

lemma reset_inv:
  assumes inv: "host_inv dn tr h" and k: "timeouts h k = Some t0" "tt_handle t = tt_handle t0"
    and good: "good_item dn (tt_domain_number t, tt_msg t)"
    and tr': "timers tr' = (timers tr)(k \<mapsto> tt_msg t)"
  shows "host_inv dn tr' (let (t, x) = TokioTimeout_reset tk t d (runtime h)
    in h\<lparr>timeouts := (timeouts h)(k \<mapsto> t), runtime := x\<rparr>)"
proof -
  let ?x = "runtime h"
  define x1 where "x1 = (case tt_handle t of Some y \<Rightarrow> tk_abort tk ?x y | None \<Rightarrow> ?x)"
  have x1: "tk_used tk x1 = tk_used tk ?x" "tk_queue tk x1 = tk_queue tk ?x"
    "tk_sleeping tk x1 = (case tt_handle t of Some y \<Rightarrow> (tk_sleeping tk ?x)(y := None) | None \<Rightarrow> tk_sleeping tk ?x)"
    by (simp_all add: x1_def split: option.splits)
  obtain y x2 where s: "tk_spawn tk x1 (Duration_as_u64_nanos d) (tt_domain_number t, tt_msg t) = (y, x2)"
    by fastforce
  note sp = spawn_new[OF s]
  have r: "TokioTimeout_reset tk t d ?x = (t\<lparr>tt_handle := Some y\<rparr>, x2)"
    using s by (cases "tt_handle t") (simp_all add: TokioTimeout_reset_def TokioTimeout_spawn_def x1_def Let_def)
  note I = inv[unfolded host_inv_def]
  show ?thesis
    unfolding r Let_def prod.case
  proof (rule host_invI, goal_cases)
    case (1 k')
    then show ?case using I by (simp add: tr')
  next
    case (2 k' t')
    then show ?case using I good by (auto split: if_splits)
  next
    case (3 k' t' z)
    then show ?case using I by (auto simp: sp x1 split: if_splits)
  next
    case (4 k1 k2 t1 t2 z)
    then show ?case using I sp(1) by (auto simp: x1 split: if_splits)
  next
    case (5 z i)
    show ?case
    proof (cases "z = y")
      case True
      then show ?thesis using 5 good sp(3) by (auto intro: exI[of _ k])
    next
      case False
      with 5 have z: "tk_sleeping tk ?x z = Some i" "tt_handle t \<noteq> Some z"
        by (auto simp: sp(3) x1(3) split: option.splits if_splits)
      then obtain k' t' where "good_item dn i" "timeouts h k' = Some t'" "tt_handle t' = Some z" using I by blast
      moreover from this have "k' \<noteq> k" using k z(2) by auto
      ultimately show ?thesis by auto
    qed
  next
    case (6 i)
    then show ?case using I by (simp add: sp x1)
  qed
qed

lemma cancel_inv:
  assumes inv: "host_inv dn tr h" and k: "timeouts h k = Some t" and tr': "timers tr' = (timers tr)(k := None)"
  shows "host_inv dn tr' (h\<lparr>timeouts := (timeouts h)(k := None), runtime := TokioTimeout_drop tk t (runtime h)\<rparr>)"
proof -
  note I = inv[unfolded host_inv_def]
  let ?x = "TokioTimeout_drop tk t (runtime h)"
  have x: "tk_used tk ?x = tk_used tk (runtime h)" "tk_queue tk ?x = tk_queue tk (runtime h)"
    "tk_sleeping tk ?x = (case tt_handle t of Some y \<Rightarrow> (tk_sleeping tk (runtime h))(y := None)
       | None \<Rightarrow> tk_sleeping tk (runtime h))"
    by (simp_all add: TokioTimeout_drop_def TokioTimeout_cancel_def split: option.splits)
  show ?thesis
  proof (rule host_invI, goal_cases)
    case (1 k')
    then show ?case using I by (simp add: tr')
  next
    case (2 k' t')
    then show ?case using I by (auto split: if_splits)
  next
    case (3 k' t' z)
    then show ?case using I by (auto simp: x split: if_splits)
  next
    case (4 k1 k2 t1 t2 z)
    then show ?case using I by (auto split: if_splits)
  next
    case (5 z i)
    then have z: "tk_sleeping tk (runtime h) z = Some i" "tt_handle t \<noteq> Some z"
      by (auto simp: x(3) split: option.splits if_splits)
    then obtain k' t' where "good_item dn i" "timeouts h k' = Some t'" "tt_handle t' = Some z" using I by blast
    moreover from this have "k' \<noteq> k" using k z(2) by auto
    ultimately show ?case by auto
  next
    case (6 i)
    then show ?case using I by (simp add: x)
  qed
qed

text \<open>Sending to the channel, perhaps with a new message stored in a timeout.\<close>

lemma send_inv:
  assumes inv: "host_inv dn tr h" and good: "good_item dn i"
  shows "host_inv dn tr (h\<lparr>runtime := tk_send tk (runtime h) i\<rparr>)"
  using inv good by (auto simp: host_inv_def)

lemma message_inv:
  assumes inv: "host_inv dn tr h" and k: "timeouts h k = Some t0" and good: "good_item dn (tt_domain_number t0, m)"
    and tr': "timers tr' = (timers tr)(k \<mapsto> m)"
  shows "host_inv dn tr' (h\<lparr>timeouts := (timeouts h)(k \<mapsto> t0\<lparr>tt_msg := m\<rparr>)\<rparr>)"
proof -
  note I = inv[unfolded host_inv_def]
  show ?thesis
  proof (rule host_invI, goal_cases)
    case (5 z i)
    then have "tk_sleeping tk (runtime h) z = Some i" by simp
    then obtain k' t' where "good_item dn i" "timeouts h k' = Some t'" "tt_handle t' = Some z"
      by (rule host_inv_sleeping[OF inv])
    then show ?case using k by (cases "k' = k") auto
  qed (use I k good in \<open>auto simp: tr' split: if_splits\<close>)
qed

lemma perform_inv:
  assumes inv: "host_inv (th_domain_number th) tr h" and ok: "frame_ok p e" and now: "wf_ts now"
    and fresh: "\<And>k m. e = TimerCreated k m \<Longrightarrow> k \<notin> dom (timers tr)"
  shows "host_inv (th_domain_number th) (tr @ [e]) (perform tk th now e h)"
proof -
  note I = inv[unfolded host_inv_def]
  have dom: "timeouts h k = None \<longleftrightarrow> k \<notin> dom (timers tr)" for k using I by (simp add: domIff)
  show ?thesis
  proof (cases e)
    case (TimerCreated k m)
    then have k: "timeouts h k = None" using fresh dom by blast
    show ?thesis
      unfolding TimerCreated perform.simps
    proof (rule host_invI, goal_cases)
      case (5 z i)
      then have "tk_sleeping tk (runtime h) z = Some i" by simp
      then obtain k' t' where "good_item (th_domain_number th) i" "timeouts h k' = Some t'" "tt_handle t' = Some z"
        by (rule host_inv_sleeping[OF inv])
      then show ?case using k by (cases "k' = k") auto
    qed (use I ok TimerCreated in \<open>auto simp: TokioTimerHost_timeout_def TokioTimeout_new_def good_item_def split: if_splits\<close>)
  next
    case (TimerRestarted k d)
    show ?thesis
    proof (cases "timeouts h k")
      case None
      then show ?thesis using inv by (simp add: TimerRestarted with_timeout_def host_inv_def)
    next
      case (Some t)
      have "timers (tr @ [e]) = (timers tr)(k \<mapsto> tt_msg t)" using I Some by (auto simp: TimerRestarted)
      from reset_inv[OF inv Some refl _ this] I Some show ?thesis
        by (simp add: TimerRestarted with_timeout_def TokioTimeout_restart_def)
    qed
  next
    case (TimerRestartedWith k m d)
    show ?thesis
    proof (cases "timeouts h k")
      case None
      then show ?thesis using inv dom[of k] by (simp add: TimerRestartedWith with_timeout_def host_inv_def domIff)
    next
      case (Some t)
      have tr': "timers (tr @ [e]) = (timers tr)(k \<mapsto> m)" using I Some by (simp add: TimerRestartedWith)
      have good: "good_item (th_domain_number th) (tt_domain_number t, m)"
        using I Some ok by (auto simp: TimerRestartedWith good_item_def)
      show ?thesis
      proof (cases "Duration_as_u64_nanos d = 0")
        case True
        from send_inv[OF message_inv[OF inv Some good tr'] good] True Some show ?thesis
          by (simp add: TimerRestartedWith with_timeout_def TokioTimeout_restart_with_message_def)
      next
        case False
        from reset_inv[OF inv Some, of "t\<lparr>tt_msg := m\<rparr>" "tr @ [e]"] tr' good False Some show ?thesis
          by (simp add: TimerRestartedWith with_timeout_def TokioTimeout_restart_with_message_def)
      qed
    qed
  next
    case (TimerDropped k)
    show ?thesis
    proof (cases "timeouts h k")
      case None
      then show ?thesis using inv dom[of k] by (simp add: TimerDropped host_inv_def domIff fun_upd_idem)
    next
      case (Some t)
      from cancel_inv[OF inv Some, of "tr @ [e]"] Some show ?thesis by (simp add: TimerDropped)
    qed
  next
    case (StampEgress msg)
    have "host_inv (th_domain_number th) (tr @ [e]) h" using inv by (simp add: StampEgress host_inv_def)
    from send_inv[OF this] now show ?thesis
      by (simp add: StampEgress ClockTxTimestamping_stamp_egress_def good_item_def)
  qed (use inv in \<open>simp_all add: host_inv_def\<close>)
qed

lemma timers_below:
  assumes "\<forall>i \<in> dom (timers tr). i < n" "numbered n [e] = Some n'"
  shows "\<forall>i \<in> dom (timers (tr @ [e])). i < n'"
proof -
  have "i < n" if "timers tr i = Some m" for i m using assms(1) that by blast
  with assms(2) show ?thesis by (cases e) (auto intro: less_SucI split: if_splits)
qed

lemma perform_all_inv:
  assumes "host_inv (th_domain_number th) tr h" "\<forall>i \<in> dom (timers tr). i < n" "list_all (frame_ok p) es"
    "numbered n es = Some n'" "\<forall>es. wf_ts (clk es)"
  shows "host_inv (th_domain_number th) (tr @ es) (perform_all tk th clk tr es h)"
  using assms(1-4)
proof (induction es arbitrary: tr h n)
  case Nil
  then show ?case by simp
next
  case (Cons e es)
  obtain n1 where n1: "numbered n [e] = Some n1" "numbered n1 es = Some n'"
    using Cons.prems(4) numbered_append[of n "[e]" es] by (cases "numbered n [e]") simp_all
  have "host_inv (th_domain_number th) (tr @ [e]) (perform tk th (clk (tr @ [e])) e h)"
  proof (rule perform_inv[OF Cons.prems(1)])
    fix k m assume "e = TimerCreated k m"
    then show "k \<notin> dom (timers tr)" using Cons.prems(2) n1(1) by (auto split: if_splits)
  qed (use Cons.prems(3) assms(5) in auto)
  from Cons.IH[OF this timers_below[OF Cons.prems(2) n1(1)] _ n1(2)] Cons.prems(3) show ?case by simp
qed

end

subsection \<open>Runs of the loop\<close>

text \<open>
  A node as \<^verbatim>\<open>main.rs\<close> assembles it, on an executor with no tasks and an empty channel, and everything
  that can happen to it afterwards: \<open>clk\<close> is the local clock, \<open>try_send\<close> the sockets.
\<close>

inductive daemon_runs ::
    "'x tokio \<Rightarrow> TokioTimerHost \<Rightarrow> (effect list \<Rightarrow> TimeStamp) \<Rightarrow> bitflags \<Rightarrow> 'x TokioPortsLoop \<Rightarrow> bool"
  for tk th clk bf where
  daemon_starts: "wf_ds ds \<Longrightarrow> wf_profile profile \<Longrightarrow>
    OrdinaryTokioClock_port (OrdinaryTokioClock_new ds (th_domain_number th) profile) sockets time_scale
      \<lparr>trace = [], next_timer = 0\<rparr> = Some (Some st, c, w) \<Longrightarrow>
    tk_sleeping tk x = Map.empty \<Longrightarrow> tk_queue tk x = [] \<Longrightarrow>
    TokioPortsLoop_start tk th clk
      \<lparr>portmap = SingleDomainPortMap_new (th_domain_number th) st, pl_clock = c, pl_world = w,
       pl_host = perform_all tk th clk [] (trace w) \<lparr>timeouts = Map.empty, runtime = x\<rparr>, pl_log = []\<rparr> = Some (Inr l) \<Longrightarrow>
    daemon_runs tk th clk bf l"
| daemon_step: "daemon_runs tk th clk bf l \<Longrightarrow> TokioPortsLoop_step tk th clk bf l a = Some l' \<Longrightarrow>
    daemon_runs tk th clk bf l'"

definition loop_port :: "'x TokioPortsLoop \<Rightarrow> DomainPort" where
  "loop_port l = state_port (the (fsm_state (port_fsm (portmap l))))"

context tokio_runtime
begin

definition loop_inv :: "TokioTimerHost \<Rightarrow> 'x TokioPortsLoop \<Rightarrow> bool" where
  "loop_inv th l \<longleftrightarrow>
     (\<exists>st. portmap l = \<lparr>map_domain_number = th_domain_number th, port_fsm = \<lparr>fsm_state = Some st\<rparr>\<rparr> \<and>
        ordinary_host.agrees (pl_clock l) [st] (pl_world l) \<and> domain_number (state_port st) = th_domain_number th \<and>
        list_all (frame_ok (state_port st)) (trace (pl_world l))) \<and>
     host_inv (th_domain_number th) (trace (pl_world l)) (pl_host l)"

lemma loop_inv_log [simp]: "loop_inv th (l\<lparr>pl_log := x\<rparr>) = loop_inv th l"
  by (simp add: loop_inv_def)

text \<open>A step of the loop keeps the invariant and the port, and only adds to the trace.\<close>

definition continues :: "TokioTimerHost \<Rightarrow> 'x TokioPortsLoop \<Rightarrow> 'x TokioPortsLoop \<Rightarrow> bool" where
  "continues th l l' \<longleftrightarrow> loop_inv th l' \<and> loop_port l' = loop_port l \<and> (\<exists>es. trace (pl_world l') = trace (pl_world l) @ es)"

lemma continues_simps [simp]:
  "continues th l l \<longleftrightarrow> loop_inv th l" "continues th l (l'\<lparr>pl_log := x\<rparr>) \<longleftrightarrow> continues th l l'"
  "continues th (pl_host_update h l) l' \<longleftrightarrow> continues th l l'" "continues th l l' \<Longrightarrow> loop_inv th l'"
  by (simp_all add: continues_def loop_port_def)

lemma handled_inv:
  assumes l: "loop_inv th l" and st: "port_fsm (portmap l) = \<lparr>fsm_state = Some st\<rparr>" and i: "wf_input i"
    and f: "PortFsm_input (port_fsm (portmap l)) i (pl_world l) = Some (f', w')" and clk: "\<forall>es. wf_ts (clk es)"
  shows "\<exists>l'. TokioPortsLoop_handled tk th clk l ((portmap l)\<lparr>port_fsm := f'\<rparr>) w' = Some l' \<and> continues th l l'"
proof -
  let ?w = "pl_world l"
  have ag: "ordinary_host.agrees (pl_clock l) [st] ?w" and h: "host_inv (th_domain_number th) (trace ?w) (pl_host l)"
    and m: "portmap l = \<lparr>map_domain_number = th_domain_number th, port_fsm = \<lparr>fsm_state = Some st\<rparr>\<rparr>"
    and p: "domain_number (state_port st) = th_domain_number th" "list_all (frame_ok (state_port st)) (trace ?w)"
    using l st by (auto simp: loop_inv_def)
  obtain c2 w2 es st2 where r: "OrdinaryClock_run_triggers (drop (length (trace ?w)) (trace w')) (pl_clock l) w' = Some (c2, w2)"
    "f' = \<lparr>fsm_state = Some st2\<rparr>" "ordinary_host.agrees c2 [st2] w2" "trace w2 = trace ?w @ es"
    "list_all (frame_ok (state_port st)) es" "numbered (next_timer ?w) es = Some (next_timer w2)"
    by (rule ordinary_handled[OF ag i f[unfolded st]])
  have "wf_world ?w" and wf: "wf_state st" using ag by (simp_all add: ordinary_host.agrees_def timers_shared_def)
  then have "host_inv (th_domain_number th) (trace w2) (perform_all tk th clk (trace ?w) es (pl_host l))"
    unfolding r(4) by (intro perform_all_inv[OF h _ r(5,6) clk]) (simp add: wf_world_def)
  moreover have "state_port st2 = state_port st" using input_emits[OF _ wf i f[unfolded st]] r(2) by simp
  ultimately show ?thesis using r(1-5) m p by (simp add: TokioPortsLoop_handled_def Let_def loop_inv_def continues_def loop_port_def)
qed

lemma handled_nothing:
  "loop_inv th l \<Longrightarrow> TokioPortsLoop_handled tk th clk l (portmap l) (pl_world l) = Some l"
  by (simp add: TokioPortsLoop_handled_def Let_def)

text \<open>A system message for the port of the loop.\<close>

lemma process_system_inv:
  assumes l: "loop_inv th l" and st: "port_fsm (portmap l) = \<lparr>fsm_state = Some st\<rparr>" and m: "wf_system m"
    and clk: "\<forall>es. wf_ts (clk es)"
  shows "if stale_announce_timeout st (SystemIn m)
    then TokioPortsLoop_process_system tk th clk l (th_domain_number th) m = None
    else \<exists>l'. TokioPortsLoop_process_system tk th clk l (th_domain_number th) m = Some l' \<and> continues th l l'"
proof -
  have p: "SingleDomainPortMap_port_by_domain (portmap l) (th_domain_number th) = Inr (port_fsm (portmap l))"
    using l by (auto simp: loop_inv_def SingleDomainPortMap_port_by_domain_def)
  have wf: "wf_state st" using l st by (auto simp: loop_inv_def ordinary_host.agrees_def)
  have iff: "PortFsm_process_system_message \<lparr>fsm_state = Some st\<rparr> m (pl_world l) = None \<longleftrightarrow> stale_announce_timeout st (SystemIn m)"
    using input_panics_iff[of "\<lparr>fsm_state = Some st\<rparr>" st "SystemIn m" "pl_world l"] wf m by simp
  show ?thesis
  proof (cases "PortFsm_process_system_message \<lparr>fsm_state = Some st\<rparr> m (pl_world l)")
    case None
    then show ?thesis using iff p st by (simp add: TokioPortsLoop_process_system_def)
  next
    case (Some r)
    obtain f' w' where r: "r = (f', w')" by (cases r)
    from handled_inv[OF l st, of "SystemIn m" f' w'] Some r m clk st iff p show ?thesis
      by (simp add: TokioPortsLoop_process_system_def)
  qed
qed

lemma process_datagram_inv:
  assumes l: "loop_inv th l" and clk: "\<forall>es. wf_ts (clk es)" and sz: "sz \<le> length buf"
  shows "\<exists>l'. TokioPortsLoop_process_datagram tk th clk bf l kind buf sz now = Some l' \<and> continues th l l'"
proof -
  let ?w = "pl_world l" and ?b = "take sz buf" and ?ts = "clk (trace (pl_world l))"
  obtain st where st: "port_fsm (portmap l) = \<lparr>fsm_state = Some st\<rparr>" and wf: "wf_state st"
    using l by (auto simp: loop_inv_def ordinary_host.agrees_def)
  have no: "\<exists>l'. TokioPortsLoop_handled tk th clk l (portmap l) ?w = Some l' \<and> continues th l l'"
    using handled_nothing[OF l] l by simp
  have go: "\<exists>l'. TokioPortsLoop_handled tk th clk l ((portmap l)\<lparr>port_fsm := f'\<rparr>) w' = Some l' \<and> continues th l l'"
    if "wf_input i" "PortFsm_input \<lparr>fsm_state = Some st\<rparr> i ?w = Some (f', w')" for i f' w'
    using handled_inv[OF l st that(1) _ clk] that(2) st by simp
  have ts: "wf_ts ?ts" using clk by simp
  show ?thesis
  proof (cases kind)
    case Event
    from ingress_cases(1)[OF st wf ts, of bf ?b ?w] no go sz show ?thesis
      by (fastforce simp: Event TokioPortsLoop_process_datagram_def)
  next
    case General
    from ingress_cases(2)[OF st wf ts, of bf ?b now ?w] no go sz show ?thesis
      by (fastforce simp: General TokioPortsLoop_process_datagram_def)
  qed
qed

lemma built_inv:
  assumes ds: "wf_ds ds" "wf_profile profile" and clk: "\<forall>es. wf_ts (clk es)"
    and port: "OrdinaryTokioClock_port (OrdinaryTokioClock_new ds (th_domain_number th) profile) sockets time_scale
      \<lparr>trace = [], next_timer = 0\<rparr> = Some (Some st, c, w)"
    and idle: "tk_sleeping tk x = Map.empty" "tk_queue tk x = []"
  shows "loop_inv th \<lparr>portmap = SingleDomainPortMap_new (th_domain_number th) st, pl_clock = c, pl_world = w,
       pl_host = perform_all tk th clk [] (trace w) \<lparr>timeouts = Map.empty, runtime = x\<rparr>, pl_log = []\<rparr>"
proof -
  have ag: "ordinary_host.agrees c [st] w"
    by (rule ordinary_built_agrees[OF ds _ _ port[unfolded OrdinaryTokioClock_port_def OrdinaryTokioClock_new_def]]) simp_all
  have "\<exists>e. trace w = [TimerCreated 0 (StateDecisionEvent \<lparr>d_0 = ds, e_best = Empty\<rparr>), LogPortEvent e (Static ''Become InitializingPort'')]"
    and dn: "domain_number (state_port st) = th_domain_number th"
    using port
    by (auto simp: OrdinaryTokioClock_port_def OrdinaryTokioClock_new_def OrdinaryClock_port_def OrdinaryClock_new_def PortEnumeration_single_def
        PortEnumeration_sequential_def PortEnumeration_next_def Let_def profile_defs world_defs DomainPort_new_def
        SinglePortNotification_add_port_def SinglePortNotification_new_def)
  then obtain e where tr: "trace w = [TimerCreated 0 (StateDecisionEvent \<lparr>d_0 = ds, e_best = Empty\<rparr>),
      LogPortEvent e (Static ''Become InitializingPort'')]" by blast
  have "host_inv (th_domain_number th) [] \<lparr>timeouts = Map.empty, runtime = x\<rparr>"
    by (rule host_invI) (simp_all add: idle)
  then have "host_inv (th_domain_number th) ([] @ trace w) (perform_all tk th clk [] (trace w) \<lparr>timeouts = Map.empty, runtime = x\<rparr>)"
    by (rule perform_all_inv[where n = 0 and p = undefined, OF _ _ _ _ clk]) (simp_all add: tr ds(1))
  with ag dn show ?thesis by (simp add: loop_inv_def SingleDomainPortMap_new_def PortFsm_new_def tr ds(1))
qed

lemma start_inv:
  assumes "loop_inv th l" "TokioPortsLoop_start tk th clk l = Some (Inr l')" "\<forall>es. wf_ts (clk es)"
  shows "continues th l l'"
proof -
  obtain st where st: "port_fsm (portmap l) = \<lparr>fsm_state = Some st\<rparr>" "map_domain_number (portmap l) = th_domain_number th"
    using assms(1) by (auto simp: loop_inv_def)
  have "th_domain_number th = DomainNumber 0" "TokioPortsLoop_process_system tk th clk l (DomainNumber 0) Initialized = Some l'"
    using assms(2) st(2)
    by (auto simp: TokioPortsLoop_start_def SingleDomainPortMap_port_by_domain_def split: if_splits)
  with process_system_inv[OF assms(1) st(1) _ assms(3), of Initialized] show ?thesis
    by (auto split: if_splits)
qed

lemma recv_inv:
  assumes "loop_inv th l" "tk_recv tk (runtime (pl_host l)) = Some (i, x)"
  shows "loop_inv th (l\<lparr>pl_host := (pl_host l)\<lparr>runtime := x\<rparr>\<rparr>) \<and> good_item (th_domain_number th) i"
proof -
  have x: "tk_queue tk (runtime (pl_host l)) = i # tk_queue tk x" "tk_used tk x = tk_used tk (runtime (pl_host l))"
    "tk_sleeping tk x = tk_sleeping tk (runtime (pl_host l))"
    using recv_cases[of "runtime (pl_host l)"] assms(2) by (metis option.distinct(1) option.inject prod.inject)+
  have "host_inv (th_domain_number th) (trace (pl_world l)) (pl_host l)" using assms(1) by (simp add: loop_inv_def)
  with x have "host_inv (th_domain_number th) (trace (pl_world l)) ((pl_host l)\<lparr>runtime := x\<rparr>) \<and> good_item (th_domain_number th) i"
    by (simp add: host_inv_def)
  with assms(1) show ?thesis by (simp add: loop_inv_def)
qed

lemma wake_inv:
  assumes "loop_inv th l" "tk_sleeping tk (runtime (pl_host l)) z = Some i"
  shows "loop_inv th (l\<lparr>pl_host := (pl_host l)\<lparr>runtime := tk_wake tk (runtime (pl_host l)) z\<rparr>\<rparr>)"
proof -
  have h: "host_inv (th_domain_number th) (trace (pl_world l)) (pl_host l)" using assms(1) by (simp add: loop_inv_def)
  obtain k t where "good_item (th_domain_number th) i" by (rule host_inv_sleeping[OF h assms(2)])
  with h have "host_inv (th_domain_number th) (trace (pl_world l))
      ((pl_host l)\<lparr>runtime := tk_wake tk (runtime (pl_host l)) z\<rparr>)"
    by (auto simp: host_inv_def wake_simps[OF assms(2)] split: if_splits)
  with assms(1) show ?thesis by (simp add: loop_inv_def)
qed

definition loop_panics :: "TokioTimerHost \<Rightarrow> 'x TokioPortsLoop \<Rightarrow> arrival \<Rightarrow> bool" where
  "loop_panics th l a \<longleftrightarrow>
     (case a of
        SystemReady \<Rightarrow> (\<exists>s q. fsm_state (port_fsm (portmap l)) = Some (Master s) \<and>
          tk_queue tk (runtime (pl_host l)) = (th_domain_number th, AnnounceReceiptTimeout) # q)
      | Datagram kind buf sz now \<Rightarrow> length buf < sz
      | _ \<Rightarrow> False)"

lemma step_inv:
  assumes l: "loop_inv th l" and clk: "\<forall>es. wf_ts (clk es)"
  shows "if loop_panics th l a then TokioPortsLoop_step tk th clk bf l a = None
    else \<exists>l'. TokioPortsLoop_step tk th clk bf l a = Some l' \<and> continues th l l'"
proof (cases a)
  case (Datagram kind buf sz now)
  show ?thesis
  proof (cases "sz \<le> length buf")
    case True
    then show ?thesis using process_datagram_inv[OF l clk True] by (simp add: Datagram TokioPortsLoop_step_def loop_panics_def)
  next
    case False
    then show ?thesis by (simp add: Datagram TokioPortsLoop_step_def loop_panics_def TokioPortsLoop_process_datagram_def)
  qed
next
  case SystemReady
  obtain st where st: "port_fsm (portmap l) = \<lparr>fsm_state = Some st\<rparr>" using l by (auto simp: loop_inv_def)
  show ?thesis
  proof (cases rule: recv_cases[of "runtime (pl_host l)", case_names empty item])
    case empty
    then show ?thesis using l by (simp add: SystemReady TokioPortsLoop_step_def loop_panics_def)
  next
    case (item i x')
    obtain dn m where i: "i = (dn, m)" by (cases i)
    let ?l = "l\<lparr>pl_host := (pl_host l)\<lparr>runtime := x'\<rparr>\<rparr>"
    have l': "loop_inv th ?l" "dn = th_domain_number th" "wf_system m"
      using recv_inv[OF l item(1)] i by (simp_all add: good_item_def)
    have "loop_panics th l a \<longleftrightarrow> stale_announce_timeout st (SystemIn m)"
      using item(2) i l'(2) st by (auto simp: loop_panics_def SystemReady stale_announce_timeout_def)
    with process_system_inv[OF l'(1) _ l'(3) clk, of st] item(1) i l'(2) st show ?thesis
      by (simp add: SystemReady TokioPortsLoop_step_def split: if_splits)
  qed
next
  case (Wakes z)
  then show ?thesis using l wake_inv[OF l]
    by (cases "tk_sleeping tk (runtime (pl_host l)) z") (auto simp: TokioPortsLoop_step_def loop_panics_def continues_def loop_port_def)
next
  case (ReceiveError kind)
  then show ?thesis using l by (simp add: TokioPortsLoop_step_def loop_panics_def)
qed

lemma runs_inv:
  assumes "daemon_runs tk th clk bf l" "\<forall>es. wf_ts (clk es)"
  shows "loop_inv th l"
  using assms
proof (induction rule: daemon_runs.induct)
  case (daemon_starts ds profile sockets time_scale st c w x l)
  from start_inv[OF built_inv[OF daemon_starts(1,2) _ daemon_starts(3-5)] daemon_starts(6)] daemon_starts(7)
  show ?case by simp
next
  case (daemon_step l a l')
  then show ?case using step_inv[where th = th and l = l and clk = clk and bf = bf and a = a] by (auto split: if_splits)
qed

text \<open>The calls of a handler only add to the channel: what waits there is not taken back when a timer is restarted or dropped.\<close>

lemma reset_queue: "tk_queue tk (snd (TokioTimeout_reset tk t d x)) = tk_queue tk x"
proof -
  have q: "tk_queue tk (snd (TokioTimeout_spawn tk u m d y)) = tk_queue tk y" for u m y
    using spawn_new(4)[OF surjective_pairing] by (simp add: TokioTimeout_spawn_def)
  show ?thesis using q by (simp add: TokioTimeout_reset_def Let_def split_def split: option.splits)
qed

lemma perform_appends: "prefix (tk_queue tk (runtime h)) (tk_queue tk (runtime (perform tk th now e h)))"
  using reset_queue
  by (cases e)
    (auto simp: with_timeout_def TokioTimeout_restart_def TokioTimeout_restart_with_message_def TokioTimeout_drop_def TokioTimeout_cancel_def
      ClockTxTimestamping_stamp_egress_def Let_def split_def split: option.splits)

lemma perform_all_appends: "prefix (tk_queue tk (runtime h)) (tk_queue tk (runtime (perform_all tk th clk pre es h)))"
proof (induction es arbitrary: pre h)
  case (Cons e es)
  show ?case using prefix_order.trans[OF perform_appends Cons.IH] by simp
qed simp

text \<open>A port that times out is master afterwards, and what waited in the channel still waits.\<close>

lemma timeout_step:
  assumes l: "loop_inv th l" and clk: "\<forall>es. wf_ts (clk es)" and st: "fsm_state (port_fsm (portmap l)) = Some st" "times_out st"
    and q: "tk_queue tk (runtime (pl_host l)) = (th_domain_number th, AnnounceReceiptTimeout) # q"
  shows "\<exists>l' m. TokioPortsLoop_step tk th clk bf l SystemReady = Some l' \<and> loop_inv th l' \<and>
    fsm_state (port_fsm (portmap l')) = Some (Master m) \<and> prefix q (tk_queue tk (runtime (pl_host l')))"
proof -
  have "\<not> loop_panics th l SystemReady" using st by (cases st) (auto simp: loop_panics_def)
  then obtain l' where l': "TokioPortsLoop_step tk th clk bf l SystemReady = Some l'" "loop_inv th l'"
    using step_inv[OF l clk, of SystemReady bf] by auto
  obtain x where x: "tk_recv tk (runtime (pl_host l)) = Some ((th_domain_number th, AnnounceReceiptTimeout), x)" "tk_queue tk x = q"
    using q by (cases rule: recv_cases[of "runtime (pl_host l)", case_names empty item]) auto
  let ?l = "l\<lparr>pl_host := (pl_host l)\<lparr>runtime := x\<rparr>\<rparr>"
  have m: "portmap l = \<lparr>map_domain_number = th_domain_number th, port_fsm = \<lparr>fsm_state = Some st\<rparr>\<rparr>" using l st(1) by (auto simp: loop_inv_def)
  then obtain f' w' where f: "PortFsm_process_system_message \<lparr>fsm_state = Some st\<rparr> AnnounceReceiptTimeout (pl_world l) = Some (f', w')"
    "TokioPortsLoop_handled tk th clk ?l ((portmap l)\<lparr>port_fsm := f'\<rparr>) w' = Some l'"
    using l'(1) x(1)
    by (auto simp: TokioPortsLoop_step_def TokioPortsLoop_process_system_def SingleDomainPortMap_port_by_domain_def split: option.splits)
  obtain s where s: "f' = \<lparr>fsm_state = Some (Master s)\<rparr>" using timeout_makes_master[OF st(2) f(1)] by blast
  have "portmap l' = (portmap l)\<lparr>port_fsm := f'\<rparr> \<and> prefix (tk_queue tk (runtime (pl_host ?l))) (tk_queue tk (runtime (pl_host l')))"
    using f(2) perform_all_appends[of "pl_host ?l" th clk] by (auto simp: TokioPortsLoop_handled_def Let_def split: option.splits)
  with l' s x(2) show ?thesis by auto
qed

end

subsection \<open>An executor\<close>

text \<open>The sleeping tasks by handle, the channel, and the next handle: an instance of what Tokio documents.\<close>

type_synonym executor = "(nat \<rightharpoonup> item) \<times> item list \<times> nat"

definition demo_tokio :: "executor tokio" where
  "demo_tokio =
     \<lparr>tk_spawn = (\<lambda>(s, q, n) d i. (n, (s(n \<mapsto> i), q, Suc n))), tk_abort = (\<lambda>(s, q, n) h. (s(h := None), q, n)),
      tk_send = (\<lambda>(s, q, n) i. (s, q @ [i], n)),
      tk_recv = (\<lambda>(s, q, n). case q of [] \<Rightarrow> None | i # q \<Rightarrow> Some (i, (s, q, n))),
      tk_wake = (\<lambda>(s, q, n) h. case s h of None \<Rightarrow> (s, q, n) | Some i \<Rightarrow> (s(h := None), q @ [i], n)),
      tk_sleeping = (\<lambda>(s, q, n). s |` {..<n}), tk_queue = (\<lambda>(s, q, n). q), tk_used = (\<lambda>(s, q, n). {..<n})\<rparr>"

lemma demo_tokio_documented: "documented_tokio demo_tokio"
  unfolding documented_tokio_def demo_tokio_def
  by (auto simp: lessThan_Suc restrict_map_insert fun_eq_iff restrict_map_def split: list.splits if_splits option.splits)

lemma demo_tokio_simps [simp]:
  "tk_spawn demo_tokio (s, q, n) d i = (n, (s(n \<mapsto> i), q, Suc n))"
  "tk_abort demo_tokio (s, q, n) h = (s(h := None), q, n)"
  "tk_send demo_tokio (s, q, n) i = (s, q @ [i], n)"
  "tk_recv demo_tokio (s, [], n) = None" "tk_recv demo_tokio (s, i # q, n) = Some (i, (s, q, n))"
  "tk_wake demo_tokio (s, q, n) h = (case s h of None \<Rightarrow> (s, q, n) | Some i \<Rightarrow> (s(h := None), q @ [i], n))"
  "tk_sleeping demo_tokio (s, q, n) h = (if h < n then s h else None)" "tk_queue demo_tokio (s, q, n) = q"
  by (simp_all add: demo_tokio_def restrict_map_def)

interpretation demo_runtime: tokio_runtime demo_tokio
  by unfold_locales (rule demo_tokio_documented)

fun daemon_run ::
    "'x tokio \<Rightarrow> TokioTimerHost \<Rightarrow> (effect list \<Rightarrow> TimeStamp) \<Rightarrow> bitflags \<Rightarrow> arrival list \<Rightarrow> 'x TokioPortsLoop \<Rightarrow>
     'x TokioPortsLoop option" where
  "daemon_run tk th clk bf [] l = Some l"
| "daemon_run tk th clk bf (a # as) l =
     (case TokioPortsLoop_step tk th clk bf l a of None \<Rightarrow> None | Some l \<Rightarrow> daemon_run tk th clk bf as l)"

lemma daemon_run_runs: "daemon_runs tk th clk bf l \<Longrightarrow> daemon_run tk th clk bf as l = Some l' \<Longrightarrow> daemon_runs tk th clk bf l'"
  by (induction as arbitrary: l) (auto split: option.splits intro: daemon_step)

definition demo_th :: TokioTimerHost where "demo_th = \<lparr>th_domain_number = DomainNumber 0\<rparr>"

definition demo_clk :: "effect list \<Rightarrow> TimeStamp" where "demo_clk es = TimeStamp 0 0"

definition demo_sockets :: TokioPhysicalPort where
  "demo_sockets = \<lparr>event_try_send = (\<lambda>_ _. True), general_try_send = (\<lambda>_ _. True)\<rparr>"

definition demo_node :: "executor TokioPortsLoop option" where
  "demo_node =
     (case OrdinaryTokioClock_port (OrdinaryTokioClock_new demo_local_ds (DomainNumber 0) PortProfile_default) demo_sockets
             (\<lambda>_. Ptp) \<lparr>trace = [], next_timer = 0\<rparr> of
        Some (Some st, c, w) \<Rightarrow>
          (case TokioPortsLoop_start demo_tokio demo_th demo_clk
                  \<lparr>portmap = SingleDomainPortMap_new (DomainNumber 0) st, pl_clock = c, pl_world = w,
                   pl_host = perform_all demo_tokio demo_th demo_clk [] (trace w)
                     \<lparr>timeouts = Map.empty, runtime = (Map.empty, [], 0)\<rparr>, pl_log = []\<rparr> of
             Some (Inr l) \<Rightarrow> Some l
           | _ \<Rightarrow> None)
      | _ \<Rightarrow> None)"

lemma demo_node_runs: "demo_node = Some l \<Longrightarrow> daemon_runs demo_tokio demo_th demo_clk bf l"
  unfolding demo_node_def
  by (auto split: option.splits prod.splits sum.splits simp: demo_th_def demo_tokio_def
      intro!: daemon_starts[OF demo_wf_ds(1) wf_profile_default])

lemmas demo_node_defs =
  OrdinaryTokioClock_port_def OrdinaryTokioClock_new_def OrdinaryClock_port_def OrdinaryClock_new_def PortEnumeration_single_def demo_build_defs
  SinglePortNotification_add_port_def SinglePortNotification_new_def SinglePortNotification_notify_all_def
  TokioPortsLoop_start_def TokioPortsLoop_process_system_def SingleDomainPortMap_port_by_domain_def
  SingleDomainPortMap_new_def TokioPortsLoop_handled_def demo_th_def with_timeout_def
  TokioTimerHost_timeout_def TokioTimeout_new_def TokioTimeout_restart_def TokioTimeout_reset_def TokioTimeout_spawn_def
  TokioTimeout_drop_def TokioTimeout_cancel_def TokioTimeout_restart_with_message_def OrdinaryClock_trigger_def Cell_remember_def Cell_best_def

lemma demo_node_listens:
  "\<exists>c w s h. demo_node = Some \<lparr>portmap = \<lparr>map_domain_number = DomainNumber 0, port_fsm = \<lparr>fsm_state = Some (Listening s)\<rparr>\<rparr>,
     pl_clock = c, pl_world = w, pl_host = h, pl_log = []\<rparr> \<and>
     runtime h = (Map.empty(0 \<mapsto> (DomainNumber 0, AnnounceReceiptTimeout)), [], 1) \<and>
     timeouts h (timer_id (art_timeout (li_announce_receipt_timeout s)))
       = Some \<lparr>tt_domain_number = DomainNumber 0, tt_msg = AnnounceReceiptTimeout, tt_handle = Some 0\<rparr>"
  unfolding demo_node_def
  by (simp add: demo_node_defs demo_deliver_defs world_defs Let_def)


definition demo_arrivals :: "arrival list" where
  "demo_arrivals = [Wakes 0, Datagram General demo_frame (length demo_frame) (Instant_from_secs 1), Wakes 1]"

lemma demo_node_timeouts:
  "\<exists>l l' s. demo_node = Some l \<and> daemon_run demo_tokio demo_th demo_clk demo_bitflags demo_arrivals l = Some l' \<and>
     fsm_state (port_fsm (portmap l')) = Some (Listening s) \<and>
     tk_queue demo_tokio (runtime (pl_host l')) = [(DomainNumber 0, AnnounceReceiptTimeout), (DomainNumber 0, AnnounceReceiptTimeout)]"
  unfolding demo_node_def demo_arrivals_def
  by (simp add: demo_node_defs demo_deliver_defs world_defs Let_def TokioPortsLoop_step_def
      TokioPortsLoop_process_datagram_def MessageIngress_receive_general_def demo_frame_parses)

subsection \<open>Properties\<close>

text \<open>C3: The daemon's node as a whole: whatever datagrams arrive at its sockets, whenever its timers fire
  and in whatever order the loop serves them, a step of the loop panics exactly when the
  message it takes from the channel is an announce receipt timeout and its port is master, or
  when a socket reports more bytes than its buffer holds. Nothing is assumed of the network.\<close>

theorem daemon_panics_iff:
  assumes "documented_tokio tk" and "\<forall>es. wf_ts (clk es)" and "daemon_runs tk th clk bf l"
  shows "TokioPortsLoop_step tk th clk bf l a = None \<longleftrightarrow>
    (case a of
       SystemReady \<Rightarrow> (\<exists>s q. fsm_state (port_fsm (portmap l)) = Some (Master s) \<and>
         tk_queue tk (runtime (pl_host l)) = (th_domain_number th, AnnounceReceiptTimeout) # q)
     | Datagram kind buf sz now \<Rightarrow> length buf < sz
     | _ \<Rightarrow> False)"
proof -
  have rt: "tokio_runtime tk" by (rule tokio_runtime.intro[OF assms(1)])
  from tokio_runtime.step_inv[OF rt tokio_runtime.runs_inv[OF rt assms(3,2)] assms(2), of a bf]
  show ?thesis by (auto simp: tokio_runtime.loop_panics_def[OF rt] split: if_splits arrival.splits)
qed

theorem daemon_panics_iff_witness:
  "\<exists>l. demo_node = Some l \<and> TokioPortsLoop_step demo_tokio demo_th demo_clk demo_bitflags l
     (Datagram General (replicate 2048 0) 60 (Instant_from_secs 1)) \<noteq> None"
proof -
  obtain l where l: "demo_node = Some l" using demo_node_listens by blast
  have "\<forall>es. wf_ts (demo_clk es)" by (simp add: demo_clk_def wf_ts_def)
  from daemon_panics_iff[OF demo_tokio_documented this demo_node_runs[OF l],
      of demo_bitflags "Datagram General (replicate 2048 0) 60 (Instant_from_secs 1)"] l
  show ?thesis by (intro exI[of _ l]) simp
qed

text \<open>C17: The Tokio timeouts implement the timers of the port: at any time of a run the host has exactly the
  timers that are alive in the port's trace, each with the message it is armed with; a task
  that sleeps is the task of a timer that is alive, so a timer that the port has dropped or
  restarted does not fire from its old task; and the channel holds messages of the node's own
  domain only.\<close>

theorem daemon_timers_refine:
  assumes "documented_tokio tk" and "\<forall>es. wf_ts (clk es)" and "daemon_runs tk th clk bf l"
  shows "(\<forall>k. timers (trace (pl_world l)) k = map_option tt_msg (timeouts (pl_host l) k)) \<and>
    (\<forall>z i. tk_sleeping tk (runtime (pl_host l)) z = Some i \<longrightarrow>
       (\<exists>!k. \<exists>t. timeouts (pl_host l) k = Some t \<and> tt_handle t = Some z)) \<and>
    (\<forall>i \<in> set (tk_queue tk (runtime (pl_host l))). fst i = th_domain_number th \<and> wf_system (snd i))"
proof -
  have rt: "tokio_runtime tk" by (rule tokio_runtime.intro[OF assms(1)])
  have "tokio_runtime.host_inv tk (th_domain_number th) (trace (pl_world l)) (pl_host l)"
    using tokio_runtime.runs_inv[OF rt assms(3,2)] by (simp add: tokio_runtime.loop_inv_def[OF rt])
  note I = this[unfolded tokio_runtime.host_inv_def[OF rt]]
  have "\<exists>!k. \<exists>t. timeouts (pl_host l) k = Some t \<and> tt_handle t = Some z"
    if "tk_sleeping tk (runtime (pl_host l)) z = Some i" for z i
    using I that by (elim conjE) (metis (no_types))
  with I show ?thesis by (simp add: tokio_runtime.good_item_def[OF rt])
qed

theorem daemon_timers_refine_witness:
  "\<exists>l. demo_node = Some l \<and> tk_sleeping demo_tokio (runtime (pl_host l)) 0 \<noteq> None \<and>
     (\<exists>!k. \<exists>t. timeouts (pl_host l) k = Some t \<and> tt_handle t = Some 0)"
proof -
  obtain l where l: "demo_node = Some l" "runtime (pl_host l) = (Map.empty(0 \<mapsto> (DomainNumber 0, AnnounceReceiptTimeout)), [], 1)"
    using demo_node_listens by fastforce
  have clk: "\<forall>es. wf_ts (demo_clk es)" by (simp add: demo_clk_def wf_ts_def)
  have "tk_sleeping demo_tokio (runtime (pl_host l)) 0 = Some (DomainNumber 0, AnnounceReceiptTimeout)" by (simp add: l(2))
  with daemon_timers_refine[OF demo_tokio_documented clk demo_node_runs[OF l(1)]] l(1) show ?thesis by blast
qed

text \<open>C36: Two announce receipt timeouts in the loop's channel bring the daemon's node down. Whenever a run reaches a state in which
  the port is listening, uncalibrated, slave or passive and the next two messages in the channel are announce
  receipt timeouts, serving the first one makes the port master, and leaves the second one in the channel,
  because dropping a timer aborts its task but takes nothing out of the channel; serving the second one
  panics. Whether and when a timer expires twice before the loop serves its channel is not part of the claim.\<close>

theorem daemon_stale_timeout_panics:
  assumes "documented_tokio tk" and "\<forall>es. wf_ts (clk es)" and "daemon_runs tk th clk bf l"
    and "fsm_state (port_fsm (portmap l)) = Some st" and "times_out st"
    and "tk_queue tk (runtime (pl_host l)) = (th_domain_number th, AnnounceReceiptTimeout) # (th_domain_number th, AnnounceReceiptTimeout) # q"
  shows "\<exists>l' m q'. TokioPortsLoop_step tk th clk bf l SystemReady = Some l' \<and> fsm_state (port_fsm (portmap l')) = Some (Master m) \<and>
    tk_queue tk (runtime (pl_host l')) = (th_domain_number th, AnnounceReceiptTimeout) # q @ q' \<and>
    TokioPortsLoop_step tk th clk bf l' SystemReady = None"
proof -
  have rt: "tokio_runtime tk" by (rule tokio_runtime.intro[OF assms(1)])
  obtain l' m q' where l': "TokioPortsLoop_step tk th clk bf l SystemReady = Some l'" "tokio_runtime.loop_inv tk th l'"
    "fsm_state (port_fsm (portmap l')) = Some (Master m)"
    "tk_queue tk (runtime (pl_host l')) = (th_domain_number th, AnnounceReceiptTimeout) # q @ q'"
    using tokio_runtime.timeout_step[OF rt tokio_runtime.runs_inv[OF rt assms(3,2)] assms(2,4,5,6), of bf]
    by (auto elim!: prefixE)
  with tokio_runtime.step_inv[OF rt l'(2) assms(2), of SystemReady bf] show ?thesis
    by (auto simp: tokio_runtime.loop_panics_def[OF rt] split: if_splits)
qed

theorem daemon_stale_timeout_panics_witness:
  "\<exists>l l1 l2 m. demo_node = Some l \<and>
     daemon_run demo_tokio demo_th demo_clk demo_bitflags
       [Wakes 0, Datagram General demo_frame (length demo_frame) (Instant_from_secs 1), Wakes 1] l = Some l1 \<and>
     TokioPortsLoop_step demo_tokio demo_th demo_clk demo_bitflags l1 SystemReady = Some l2 \<and>
     fsm_state (port_fsm (portmap l2)) = Some (Master m) \<and>
     TokioPortsLoop_step demo_tokio demo_th demo_clk demo_bitflags l2 SystemReady = None"
proof -
  obtain l l1 s where l: "demo_node = Some l" "daemon_run demo_tokio demo_th demo_clk demo_bitflags demo_arrivals l = Some l1"
    "fsm_state (port_fsm (portmap l1)) = Some (Listening s)"
    "tk_queue demo_tokio (runtime (pl_host l1)) = [(DomainNumber 0, AnnounceReceiptTimeout), (DomainNumber 0, AnnounceReceiptTimeout)]"
    using demo_node_timeouts by blast
  have clk: "\<forall>es. wf_ts (demo_clk es)" by (simp add: demo_clk_def wf_ts_def)
  note run = daemon_run_runs[OF demo_node_runs[OF l(1)] l(2)]
  from daemon_stale_timeout_panics[OF demo_tokio_documented clk run l(3), of "[]"] l(4)
  show ?thesis using l(1,2) unfolding demo_arrivals_def by (auto simp: demo_th_def)
qed

end
