(* ===== verification/Ptp_Sync.thy ===== *)
theory Ptp_Sync
  imports Ptp_Examples Ptp_Virtual
begin

section \<open>The slave and its clock in a loop\<close>

text \<open>
  Composes the delay mechanism, the servo and the port states of the library with the daemon's \<^verbatim>\<open>VirtualClock\<close>
  (\<^verbatim>\<open>crates/rptp-daemon/src/virtualclock.rs\<close>) and its receive time stamps (\<^verbatim>\<open>crates/rptp-daemon/src/timestamping.rs\<close>): the
  time stamps that the port works with are readings of the clock that the port steps. Time runs as the
  nanoseconds of the monotonic clock; the master is a second clock at the same rate.

  The lemmas follow the error of the slave's clock through rounds of sync and follow-up.
\<close>

subsection \<open>The port and its clock\<close>

text \<open>An event message is stamped with the clock's reading on arrival. \<open>virtual_call\<close> is what a call of the port's handler to its
  clock does at the instant \<open>i\<close>; the handle of the clock that the port holds only forwards.\<close>

definition ClockRxTimestamping_ingress_stamp :: "VirtualClock \<Rightarrow> nat \<Rightarrow> TimeStamp option" where
  "ClockRxTimestamping_ingress_stamp c i = VirtualClock_now c i"

fun virtual_call :: "nat \<Rightarrow> effect \<Rightarrow> VirtualClock \<Rightarrow> VirtualClock option" where
  "virtual_call i (ClockStepped to) c = Some (VirtualClock_step c to i)"
| "virtual_call i (ClockAdjusted rate) c = VirtualClock_adjust c rate i i"
| "virtual_call i _ c = Some c"

fun virtual_calls :: "nat \<Rightarrow> effect list \<Rightarrow> VirtualClock \<Rightarrow> VirtualClock option" where
  "virtual_calls i [] c = Some c"
| "virtual_calls i (e # es) c = (case virtual_call i e c of None \<Rightarrow> None | Some c \<Rightarrow> virtual_calls i es c)"

text \<open>A round: a two-step sync arrives at \<open>sync_at\<close> and is stamped, its follow-up brings the origin time, and the
  step, if the servo makes one, happens at \<open>stepped_at\<close>.\<close>

record sync_round =
  sync_at :: nat
  stepped_at :: nat
  sync_seq :: SequenceId
  origin :: TimeStamp

definition slave_round ::
    "PortIdentity \<Rightarrow> sync_round \<Rightarrow> PortFsm \<times> world \<times> VirtualClock \<Rightarrow> (PortFsm \<times> world \<times> VirtualClock) option" where
  "slave_round src r = (\<lambda>(f, w, c). do {
     t2 \<leftarrow> ClockRxTimestamping_ingress_stamp c (sync_at r);
     (f, w') \<leftarrow> PortFsm_process_event_message f src
       (TwoStepSync \<lparr>tss_sequence_id = sync_seq r, tss_log_message_interval = LogMessageInterval 0\<rparr>) t2 w;
     c \<leftarrow> virtual_calls (sync_at r) (drop (length (trace w)) (trace w')) c;
     (f, w'') \<leftarrow> PortFsm_process_general_message f src
       (FollowUpMsg \<lparr>fu_sequence_id = sync_seq r, fu_log_message_interval = LogMessageInterval 0,
          fu_precise_origin_timestamp = origin r\<rparr>) Instant_zero w';
     c \<leftarrow> virtual_calls (stepped_at r) (drop (length (trace w')) (trace w'')) c;
     Some (f, w'', c)
   })"

fun slave_rounds ::
    "PortIdentity \<Rightarrow> sync_round list \<Rightarrow> PortFsm \<times> world \<times> VirtualClock \<Rightarrow> (PortFsm \<times> world \<times> VirtualClock) option" where
  "slave_rounds src [] x = Some x"
| "slave_rounds src (r # rs) x = (case slave_round src r x of None \<Rightarrow> None | Some x \<Rightarrow> slave_rounds src rs x)"

text \<open>A port that follows \<open>src\<close> with the stepping servo.\<close>

fun follows_parent :: "PortIdentity \<Rightarrow> PortState \<Rightarrow> EndToEndDelayMechanism \<Rightarrow> bool" where
  "follows_parent src (Uncalibrated s) m \<longleftrightarrow> un_servo s = Stepping \<and> un_delay_mechanism s = m \<and>
     pt_parent_port_identity (un_bmca s) = ParentPortIdentity src"
| "follows_parent src (Slave s) m \<longleftrightarrow> sl_servo s = Stepping \<and> sl_delay_mechanism s = m \<and>
     pt_parent_port_identity (sl_bmca s) = ParentPortIdentity src"
| "follows_parent src _ m \<longleftrightarrow> False"

text \<open>A clock at the nominal rate that is \<open>e\<close> nanoseconds ahead of the master, who shows \<open>M + i\<close> at the instant \<open>i\<close>.\<close>

definition ahead_of :: "int \<Rightarrow> VirtualClock \<Rightarrow> int \<Rightarrow> bool" where
  "ahead_of M c e \<longleftrightarrow> vc_rate c = Fin 1 \<and> wf_ts (vc_ts c) \<and> ts_total (vc_ts c) = M + int (vc_start c) + e"

subsection \<open>Lemmas: one round\<close>

lemma ahead_of_reading:
  assumes "ahead_of M c e" "vc_start c \<le> i" "i < vc_start c + 2 ^ 53" "M + int i + e < ts_limit"
  shows "\<exists>u. VirtualClock_now c i = Some u \<and> wf_ts u \<and> ts_total u = M + int i + e"
proof -
  have r: "good_rate (vc_rate c)" "virtual_nanos (vc_rate c) (i - vc_start c) = int (i - vc_start c)"
    using assms(1-3) scaled_one[of "i - vc_start c"] by (auto simp: ahead_of_def good_rate_def simp del: of_nat_diff)
  from VirtualClock_now_value[OF r(1), of i] r(2) assms show ?thesis by (auto simp: ahead_of_def ac_simps)
qed

lemma follower_gets_sync:
  assumes "follows_parent src st m" "wf_state st" "wf_ts t2"
  shows "\<exists>st' w'. PortFsm_process_event_message \<lparr>fsm_state = Some st\<rparr> src (TwoStepSync sync) t2 w
      = Some (\<lparr>fsm_state = Some st'\<rparr>, w') \<and>
    follows_parent src st' (EndToEndDelayMechanism_record_two_step_sync m sync t2) \<and> wf_state st' \<and>
    virtual_calls i (drop (length (trace w)) (trace w')) c = Some c"
  using assms
  by (cases st) (auto simp: PortFsm_process_event_message_def PortFsm_process_def PortState_dispatch_event_def
        UncalibratedPort_process_two_step_sync_def SlavePort_process_two_step_sync_def ParentTrackingBmca_matches_parent_def
        ParentPortIdentity_matches_def world_defs Let_def wf_state_def)

text \<open>The follow-up completes a sample, and the servo steps the clock to the ingress time less the offset of the sample.\<close>

lemma follower_steps:
  assumes st: "follows_parent src st m" "wf_state st" "wf_ts (fu_precise_origin_timestamp fu)"
    and times: "sync_times (sync_exchange (EndToEndDelayMechanism_record_follow_up m fu)) = Some (t1, t2)"
      "delay_times (delay_exchange m) = Some (t3, t4)" "sync_ingress_timestamp m = Some t2"
    and target: "wf_ts t" "ts_total t = ts_total t2 - trunc_div ((ts_total t2 - ts_total t1) - (ts_total t4 - ts_total t3)) 2"
  shows "\<exists>s' w'. PortFsm_process_general_message \<lparr>fsm_state = Some st\<rparr> src (FollowUpMsg fu) now w
      = Some (\<lparr>fsm_state = Some (Slave s')\<rparr>, w') \<and>
    follows_parent src (Slave s') (EndToEndDelayMechanism_record_follow_up m fu) \<and> wf_state (Slave s') \<and>
    ClockStepped t \<in> set (drop (length (trace w)) (trace w')) \<and>
    virtual_calls i (drop (length (trace w)) (trace w')) c = Some (VirtualClock_step c t i)"
proof -
  let ?m = "EndToEndDelayMechanism_record_follow_up m fu"
  have m: "wf_e2e m" using st(1,2) by (cases st) (auto simp: wf_state_def)
  then have wf: "wf_e2e ?m" using st(3) by simp
  have dm: "delay_times (delay_exchange ?m) = Some (t3, t4)" "sync_ingress_timestamp ?m = Some t2"
    using times(2,3) by (simp_all add: EndToEndDelayMechanism_record_follow_up_def)
  obtain d where s: "EndToEndDelayMechanism_sample ?m = Some (Some \<lparr>ingress = t2, offset = d\<rparr>)"
      "wf_sample \<lparr>ingress = t2, offset = d\<rparr>"
      "ti_total d = trunc_div ((ts_total t2 - ts_total t1) - (ts_total t4 - ts_total t3)) 2"
    using sample_of_times[OF wf times(1) dm] by blast
  have "ServoSample_master_estimate \<lparr>ingress = t2, offset = d\<rparr> = Some t"
    using target s(3) by (simp add: master_estimate_iff[OF s(2)])
  with s(1) st(1,2) wf show ?thesis
    by (cases st)
      (auto simp: PortFsm_process_general_message_def PortFsm_process_def PortState_dispatch_general_def
        UncalibratedPort_process_follow_up_def SlavePort_process_follow_up_def ParentTrackingBmca_matches_parent_def
        ParentPortIdentity_matches_def SteppingServo_feed_def ServoSample_log_def PortFsm_apply_decision_def PortState_apply_def
        transition_defs profile_defs world_defs Let_def wf_state_def)
qed

subsection \<open>Lemmas: rounds\<close>

text \<open>The error of the clock after rounds of sync and follow-up, when the delay exchange dates from a time at which
  the clock was \<open>e3\<close> ahead.\<close>

definition error_after_round :: "int \<Rightarrow> sync_round \<Rightarrow> int \<Rightarrow> int" where
  "error_after_round e3 r e = e - trunc_div (e + e3) 2 - int (stepped_at r - sync_at r)"

fun rounds_from :: "int \<Rightarrow> int \<Rightarrow> int \<Rightarrow> nat \<Rightarrow> int \<Rightarrow> sync_round list \<Rightarrow> bool" where
  "rounds_from M delay e3 start e [] \<longleftrightarrow> True"
| "rounds_from M delay e3 start e (r # rs) \<longleftrightarrow>
     start \<le> sync_at r \<and> sync_at r \<le> stepped_at r \<and> sync_at r < start + 2 ^ 53 \<and>
     wf_ts (origin r) \<and> ts_total (origin r) + delay = M + int (sync_at r) \<and> M + int (sync_at r) + e < ts_limit \<and>
     0 \<le> M + int (sync_at r) + e - trunc_div (e + e3) 2 \<and> M + int (sync_at r) + e - trunc_div (e + e3) 2 < ts_limit \<and>
     rounds_from M delay e3 (stepped_at r) (error_after_round e3 r e) rs"

lemma round_error:
  assumes st: "follows_parent src st m" "wf_state st" and c: "ahead_of M c e"
    and r: "rounds_from M delay e3 (vc_start c) e [r]"
    and d: "delay_times (delay_exchange m) = Some (t3, t4)" "ts_total t4 + e3 = ts_total t3 + delay"
  shows "\<exists>s' w' c' m'. slave_round src r (\<lparr>fsm_state = Some st\<rparr>, w, c) = Some (\<lparr>fsm_state = Some (Slave s')\<rparr>, w', c') \<and>
    follows_parent src (Slave s') m' \<and> wf_state (Slave s') \<and> delay_exchange m' = delay_exchange m \<and>
    ahead_of M c' (error_after_round e3 r e) \<and> vc_start c' = stepped_at r"
proof -
  let ?sync = "\<lparr>tss_sequence_id = sync_seq r, tss_log_message_interval = LogMessageInterval 0\<rparr>"
  let ?fu = "\<lparr>fu_sequence_id = sync_seq r, fu_log_message_interval = LogMessageInterval 0, fu_precise_origin_timestamp = origin r\<rparr>"
  obtain t2 where t2: "VirtualClock_now c (sync_at r) = Some t2" "wf_ts t2" "ts_total t2 = M + int (sync_at r) + e"
    using ahead_of_reading[OF c, of "sync_at r"] r by auto
  let ?m = "EndToEndDelayMechanism_record_two_step_sync m ?sync t2"
  obtain st1 w1 where s1: "PortFsm_process_event_message \<lparr>fsm_state = Some st\<rparr> src (TwoStepSync ?sync) t2 w = Some (\<lparr>fsm_state = Some st1\<rparr>, w1)"
    "follows_parent src st1 ?m" "wf_state st1" "virtual_calls (sync_at r) (drop (length (trace w)) (trace w1)) c = Some c"
    using follower_gets_sync[OF st t2(2)] by blast
  obtain t where t: "wf_ts t" "ts_total t = M + int (sync_at r) + e - trunc_div (e + e3) 2"
    using ts_of_total[of "M + int (sync_at r) + e - trunc_div (e + e3) 2"] r by auto
  have off: "(ts_total t2 - ts_total (origin r)) - (ts_total t4 - ts_total t3) = e + e3" using t2(3) d(2) r by simp
  have "ts_total t = ts_total t2 - trunc_div ((ts_total t2 - ts_total (origin r)) - (ts_total t4 - ts_total t3)) 2"
    unfolding off using t(2) t2(3) by simp
  moreover have "sync_times (sync_exchange (EndToEndDelayMechanism_record_follow_up ?m ?fu)) = Some (origin r, t2)"
    "delay_times (delay_exchange ?m) = Some (t3, t4)" "sync_ingress_timestamp ?m = Some t2" "delay_exchange ?m = delay_exchange m"
    using d(1) by (simp_all add: e2e_defs sync_times_def)
  moreover have "wf_ts (fu_precise_origin_timestamp ?fu)" using r by simp
  ultimately obtain s' w' where s': "PortFsm_process_general_message \<lparr>fsm_state = Some st1\<rparr> src (FollowUpMsg ?fu) Instant_zero w1
      = Some (\<lparr>fsm_state = Some (Slave s')\<rparr>, w')"
    "follows_parent src (Slave s') (EndToEndDelayMechanism_record_follow_up ?m ?fu)" "wf_state (Slave s')"
    "virtual_calls (stepped_at r) (drop (length (trace w1)) (trace w')) c = Some (VirtualClock_step c t (stepped_at r))"
    using follower_steps[OF s1(2,3) _ _ _ _ t(1), of ?fu "origin r" t2 t3 t4 Instant_zero w1 "stepped_at r" c] by blast
  have "ahead_of M (VirtualClock_step c t (stepped_at r)) (error_after_round e3 r e)"
    using c t r by (simp add: ahead_of_def VirtualClock_step_def error_after_round_def)
  moreover have "slave_round src r (\<lparr>fsm_state = Some st\<rparr>, w, c)
      = Some (\<lparr>fsm_state = Some (Slave s')\<rparr>, w', VirtualClock_step c t (stepped_at r))"
    using t2(1) s1(1,4) s'(1,4) by (simp add: slave_round_def ClockRxTimestamping_ingress_stamp_def)
  moreover have "delay_exchange (EndToEndDelayMechanism_record_follow_up ?m ?fu) = delay_exchange m"
    "vc_start (VirtualClock_step c t (stepped_at r)) = stepped_at r"
    by (simp_all add: e2e_defs VirtualClock_step_def)
  ultimately show ?thesis using s'(2,3) by blast
qed

lemma rounds_error:
  assumes "follows_parent src st m" "wf_state st" "ahead_of M c e" "rounds_from M delay e3 (vc_start c) e rs"
    "delay_times (delay_exchange m) = Some (t3, t4)" "ts_total t4 + e3 = ts_total t3 + delay"
  shows "\<exists>st' w' c'. slave_rounds src rs (\<lparr>fsm_state = Some st\<rparr>, w, c) = Some (\<lparr>fsm_state = Some st'\<rparr>, w', c') \<and>
    (rs = [] \<or> (\<exists>s'. st' = Slave s')) \<and> ahead_of M c' (fold (error_after_round e3) rs e) \<and>
    vc_start c' = last (vc_start c # map stepped_at rs)"
  using assms
proof (induction rs arbitrary: st m w c e)
  case (Cons r rs)
  have "rounds_from M delay e3 (vc_start c) e [r]" using Cons.prems(4) by simp
  from round_error[OF Cons.prems(1-3) this Cons.prems(5,6), of w] obtain s' w' c' m' where
    r: "slave_round src r (\<lparr>fsm_state = Some st\<rparr>, w, c) = Some (\<lparr>fsm_state = Some (Slave s')\<rparr>, w', c')"
    "follows_parent src (Slave s') m'" "wf_state (Slave s')" "delay_exchange m' = delay_exchange m"
    "ahead_of M c' (error_after_round e3 r e)" "vc_start c' = stepped_at r" by blast
  have "rounds_from M delay e3 (vc_start c') (error_after_round e3 r e) rs" using Cons.prems(4) r(6) by simp
  with Cons.IH[OF r(2,3,5) this, of w'] Cons.prems(5,6) r(1,4,6) show ?case by (cases rs) simp_all
qed simp

lemma halving_error:
  assumes "\<forall>r \<in> set rs. stepped_at r = sync_at r"
  shows "2 ^ length rs * (\<bar>fold (error_after_round e3) rs e + e3\<bar> - 1) \<le> \<bar>e + e3\<bar> - 1"
  using assms
proof (induction rs arbitrary: e)
  case (Cons r rs)
  let ?e = "error_after_round e3 r e"
  have half: "2 * \<bar>x - trunc_div x 2\<bar> \<le> \<bar>x\<bar> + 1" for x :: int
    by (cases "0 \<le> x") (auto simp: trunc_div_def sgn_if)
  have e: "?e + e3 = (e + e3) - trunc_div (e + e3) 2" using Cons.prems by (simp add: error_after_round_def)
  have "2 * \<bar>?e + e3\<bar> \<le> \<bar>e + e3\<bar> + 1" unfolding e by (rule half)
  moreover have "2 ^ length rs * (\<bar>fold (error_after_round e3) rs ?e + e3\<bar> - 1) \<le> \<bar>?e + e3\<bar> - 1"
    using Cons by simp
  ultimately show ?case by simp
qed simp

subsection \<open>Properties\<close>

text \<open>C8: A slave with the stepping servo on the daemon's clock, over any rounds of sync and follow-up after one delay
  exchange. The master shows \<open>M + i\<close> at the instant \<open>i\<close>, the path delay is the same both ways, and the clock is \<open>e\<close>
  ahead. The first round makes the port a slave and leaves its clock behind the master by the time between the arrival
  of the sync and the step. But the request's time stamp belongs to the clock before the step, so every
  further round without a new exchange takes half of the sum of its error and \<open>e\<close> off the clock: even with no time
  between sync and step, the clock that was \<open>e\<close> ahead approaches \<open>e\<close> behind, by half of the way in each round, to a nanosecond.
  The clock runs at its nominal rate, and all times lie within \<open>2\<^sup>5\<^sup>3\<close> nanoseconds (104 days) of the last setting of the clock and in the range of time stamps.\<close>

theorem sync_rounds_error:
  assumes "follows_parent src st m" and "wf_state st" and "ahead_of M c e"
    and "delay_times (delay_exchange m) = Some (t3, t4)" and "ts_total t4 + e = ts_total t3 + delay"
    and "rounds_from M delay e (vc_start c) e rs"
  shows "\<exists>st' w' c'. slave_rounds src rs (\<lparr>fsm_state = Some st\<rparr>, w, c) = Some (\<lparr>fsm_state = Some st'\<rparr>, w', c') \<and>
    (rs = [] \<or> (\<exists>s'. st' = Slave s')) \<and>
    (\<forall>i. last (vc_start c # map stepped_at rs) \<le> i \<and> i < last (vc_start c # map stepped_at rs) + 2 ^ 53 \<and>
       M + int i + fold (error_after_round e) rs e < ts_limit \<longrightarrow>
       (\<exists>u. VirtualClock_now c' i = Some u \<and> ts_total u = M + int i + fold (error_after_round e) rs e)) \<and>
    (\<forall>r. rs = [r] \<longrightarrow> fold (error_after_round e) rs e = - int (stepped_at r - sync_at r)) \<and>
    ((\<forall>r \<in> set rs. stepped_at r = sync_at r) \<longrightarrow>
       2 ^ length rs * (\<bar>fold (error_after_round e) rs e + e\<bar> - 1) \<le> \<bar>2 * e\<bar> - 1)"
proof -
  obtain st' w' c' where r: "slave_rounds src rs (\<lparr>fsm_state = Some st\<rparr>, w, c) = Some (\<lparr>fsm_state = Some st'\<rparr>, w', c')"
    "rs = [] \<or> (\<exists>s'. st' = Slave s')" "ahead_of M c' (fold (error_after_round e) rs e)"
    "vc_start c' = last (vc_start c # map stepped_at rs)"
    using rounds_error[OF assms(1-3,6,4,5), of w] by blast
  have "error_after_round e r e = - int (stepped_at r - sync_at r)" for r
    by (simp add: error_after_round_def trunc_div_2_double flip: mult_2)
  moreover have "2 ^ length rs * (\<bar>fold (error_after_round e) rs e + e\<bar> - 1) \<le> \<bar>2 * e\<bar> - 1"
    if "\<forall>r \<in> set rs. stepped_at r = sync_at r"
    using halving_error[OF that, of e e] by simp
  ultimately show ?thesis using r(1,2) ahead_of_reading[OF r(3), unfolded r(4)] by fastforce
qed

definition demo_round :: "u64 \<Rightarrow> sync_round" where
  "demo_round s = \<lparr>sync_at = unat s * 1000000000, stepped_at = unat s * 1000000000,
     sync_seq = SequenceId (ucast s), origin = TimeStamp (100 + s) 0\<rparr>"

definition demo_delay_exchange :: EndToEndDelayMechanism where
  "demo_delay_exchange =
     EndToEndDelayMechanism_record_delay_response
       (EndToEndDelayMechanism_record_delay_request demo_e2e \<lparr>dreq_sequence_id = SequenceId 4\<rparr> (TimeStamp 110 0))
       \<lparr>drsp_sequence_id = SequenceId 4, drsp_log_message_interval = LogMessageInterval 0,
        drsp_receive_timestamp = TimeStamp 100 0, drsp_requesting_port_identity = demo_self\<rparr>"

theorem sync_rounds_error_witness:
  "\<exists>st w c u. slave_rounds demo_master [demo_round 1, demo_round 2]
      (\<lparr>fsm_state = Some (Uncalibrated (demo_uncalibrated\<lparr>un_delay_mechanism := demo_delay_exchange\<rparr>))\<rparr>, demo_world,
       VirtualClock_new (TimeStamp 110 0) (Fin 1) Ptp 0) = Some (\<lparr>fsm_state = Some st\<rparr>, w, c) \<and>
    VirtualClock_now c 3000000000 = Some u \<and> ts_total u = 98000000000"
proof -
  let ?s = "demo_uncalibrated\<lparr>un_delay_mechanism := demo_delay_exchange\<rparr>"
  have "wf_e2e demo_delay_exchange" by (simp add: demo_delay_exchange_def wf_ts_def)
  then have wf: "wf_state (Uncalibrated ?s)"
    using demo_wf_states(2) by (simp add: wf_state_def ParentTrackingBmca_into_parts_def)
  have f: "follows_parent demo_master (Uncalibrated ?s) demo_delay_exchange"
    by (simp add: demo_uncalibrated_def demo_parent_def)
  have a: "ahead_of 100000000000 (VirtualClock_new (TimeStamp 110 0) (Fin 1) Ptp 0) 10000000000"
    by (simp add: ahead_of_def VirtualClock_new_def wf_ts_def ts_total_def)
  have d: "delay_times (delay_exchange demo_delay_exchange) = Some (TimeStamp 110 0, TimeStamp 100 0)"
    by (simp add: demo_delay_exchange_def e2e_defs delay_times_def)
  have t: "ts_total (TimeStamp s 0) = uint s * 1000000000" "wf_ts (TimeStamp s 0) \<longleftrightarrow> uint s < 2 ^ 48" for s
    by (simp_all add: ts_total_def wf_ts_def)
  have r: "rounds_from 100000000000 0 10000000000 0 10000000000 [demo_round 1, demo_round 2]"
    by (simp add: t demo_round_def error_after_round_def trunc_div_def ts_limit_def)
  have e: "fold (error_after_round 10000000000) [demo_round 1, demo_round 2] 10000000000 = - 5000000000"
    "last (0 # map stepped_at [demo_round 1, demo_round 2]) = 2000000000"
    by (simp_all add: demo_round_def error_after_round_def trunc_div_def)
  from sync_rounds_error[OF f wf a d, of 0 "[demo_round 1, demo_round 2]" demo_world] r
  obtain st w c where "slave_rounds demo_master [demo_round 1, demo_round 2] (\<lparr>fsm_state = Some (Uncalibrated ?s)\<rparr>, demo_world,
       VirtualClock_new (TimeStamp 110 0) (Fin 1) Ptp 0) = Some (\<lparr>fsm_state = Some st\<rparr>, w, c)"
    "\<exists>u. VirtualClock_now c 3000000000 = Some u \<and> ts_total u = 98000000000"
    by (auto simp: t e VirtualClock_new_def ts_limit_def simp del: slave_rounds.simps rounds_from.simps fold.simps list.map last.simps
        dest!: spec[of _ 3000000000])
  then show ?thesis by blast
qed

end
