(* ===== verification/Ptp_Network.thy ===== *)
theory Ptp_Network
  imports Ptp_Daemon Ptp_Sync "HOL-Library.Sublist"
begin

section \<open>Two nodes on a loopback network (rptp-daemon, grafana-prometheus-demo)\<close>

text \<open>
  Models \<^verbatim>\<open>LoopbackSocket\<close> of \<^verbatim>\<open>crates/rptp-daemon/src/net.rs\<close> and joins two daemon nodes with it, as \<^verbatim>\<open>main.rs\<close> of
  \<^verbatim>\<open>crates/grafana-prometheus-demo\<close> does: what the port of one node sends is what the loop of the
  other receives. The start of the daemon itself (its \<^verbatim>\<open>main.rs\<close>) is here too.

  The channels of the sockets are Tokio's: a parameter \<open>mp\<close> on a state \<open>'c\<close>. \<open>documented_mpsc\<close> is what Tokio
  documents of \<open>mpsc::unbounded_channel\<close>: a new channel is empty, \<open>send\<close> appends, \<open>recv\<close> takes the items of its
  channel in the order they were sent and waits (\<open>None\<close>) while there are none; a call touches its own channel only.
  Both ends of a channel live as long as the two nodes, so \<open>recv\<close> never finds its peer gone.
\<close>

record 'c mpsc =
  mp_channel :: "'c \<Rightarrow> nat \<times> 'c"
  mp_send :: "'c \<Rightarrow> nat \<Rightarrow> bytes \<Rightarrow> 'c"
  mp_recv :: "'c \<Rightarrow> nat \<Rightarrow> (bytes \<times> 'c) option"
  mp_items :: "'c \<Rightarrow> nat \<Rightarrow> bytes list"
  mp_open :: "'c \<Rightarrow> nat set"

definition documented_mpsc :: "'c mpsc \<Rightarrow> bool" where
  "documented_mpsc mp \<longleftrightarrow>
     (\<forall>c. case mp_channel mp c of (a, c') \<Rightarrow>
        a \<notin> mp_open mp c \<and> mp_open mp c' = insert a (mp_open mp c) \<and> mp_items mp c' = (mp_items mp c)(a := [])) \<and>
     (\<forall>c a b. mp_open mp (mp_send mp c a b) = mp_open mp c \<and>
        mp_items mp (mp_send mp c a b) = (mp_items mp c)(a := mp_items mp c a @ [b])) \<and>
     (\<forall>c a. case mp_items mp c a of
        [] \<Rightarrow> mp_recv mp c a = None
      | b # q \<Rightarrow> (\<exists>c'. mp_recv mp c a = Some (b, c') \<and> mp_open mp c' = mp_open mp c \<and>
          mp_items mp c' = (mp_items mp c)(a := q)))"

subsection \<open>The loopback socket\<close>

record LoopbackSocket =
  lb_rx :: nat
  lb_tx :: nat

definition LoopbackSocket_pair :: "'c mpsc \<Rightarrow> 'c \<Rightarrow> LoopbackSocket \<times> LoopbackSocket \<times> 'c" where
  "LoopbackSocket_pair mp c =
     (let (a, c) = mp_channel mp c;
          (b, c) = mp_channel mp c
      in (\<lparr>lb_rx = a, lb_tx = b\<rparr>, \<lparr>lb_rx = b, lb_tx = a\<rparr>, c))"

text \<open>\<open>None\<close>: nothing to receive yet. A datagram is cut to the buffer.\<close>

definition LoopbackSocket_recv :: "'c mpsc \<Rightarrow> LoopbackSocket \<Rightarrow> bytes \<Rightarrow> 'c \<Rightarrow> (nat \<times> bytes \<times> 'c) option" where
  "LoopbackSocket_recv mp s buf c =
     (case mp_recv mp c (lb_rx s) of
        None \<Rightarrow> None
      | Some (msg, c) \<Rightarrow>
          (let len = min (length msg) (length buf) in Some (len, take len msg @ drop len buf, c)))"

definition LoopbackSocket_try_send :: "'c mpsc \<Rightarrow> LoopbackSocket \<Rightarrow> bytes \<Rightarrow> 'c \<Rightarrow> nat \<times> 'c" where
  "LoopbackSocket_try_send mp s bytes c =
     (let len = length bytes; c = mp_send mp c (lb_tx s) bytes in (len, c))"

text \<open>\<open>try_send\<close> always succeeds, so the physical port on loopback sockets never reports an error.\<close>

definition loopback_physical_port :: TokioPhysicalPort where
  "loopback_physical_port = \<lparr>event_try_send = (\<lambda>_ _. True), general_try_send = (\<lambda>_ _. True)\<rparr>"

text \<open>The calls of \<open>try_send\<close> a handler made, in their order.\<close>

fun transmit :: "'c mpsc \<Rightarrow> (RxKind \<Rightarrow> LoopbackSocket) \<Rightarrow> effect list \<Rightarrow> 'c \<Rightarrow> 'c" where
  "transmit mp socket [] c = c"
| "transmit mp socket (EventSent b ok # es) c = transmit mp socket es (snd (LoopbackSocket_try_send mp (socket Event) b c))"
| "transmit mp socket (GeneralSent b ok # es) c = transmit mp socket es (snd (LoopbackSocket_try_send mp (socket General) b c))"
| "transmit mp socket (_ # es) c = transmit mp socket es c"

subsection \<open>A node and the network\<close>

record 'x loopback_node =
  ln_loop :: "'x TokioPortsLoop"
  ln_socket :: "RxKind \<Rightarrow> LoopbackSocket"
  ln_buf :: "RxKind \<Rightarrow> bytes"

text \<open>\<open>event_socket\<close> and \<open>general_socket\<close>, and the buffer of each, by the kind of message. What the loop of a node waits for: a datagram on one of its sockets, a system message, or a task that wakes.\<close>

datatype node_turn = Receive RxKind Instant | Serve | TaskWakes nat

text \<open>What the loop of the node gets in a turn: nothing when its socket has nothing to receive.\<close>

definition loopback_arrival ::
    "'c mpsc \<Rightarrow> node_turn \<Rightarrow> 'x loopback_node \<Rightarrow> 'c \<Rightarrow> (arrival \<times> 'x loopback_node \<times> 'c) option" where
  "loopback_arrival mp t n c =
     (case t of
        Receive kind now \<Rightarrow>
          (case LoopbackSocket_recv mp (ln_socket n kind) (ln_buf n kind) c of
             None \<Rightarrow> None
           | Some (sz, buf, c) \<Rightarrow> Some (Datagram kind buf sz now, n\<lparr>ln_buf := (ln_buf n)(kind := buf)\<rparr>, c))
      | Serve \<Rightarrow> Some (SystemReady, n, c)
      | TaskWakes h \<Rightarrow> Some (Wakes h, n, c))"

definition loopback_step ::
    "'c mpsc \<Rightarrow> 'x tokio \<Rightarrow> TokioTimerHost \<Rightarrow> (effect list \<Rightarrow> TimeStamp) \<Rightarrow> bitflags \<Rightarrow> node_turn \<Rightarrow>
     'x loopback_node \<Rightarrow> 'c \<Rightarrow> ('x loopback_node \<times> 'c) option" where
  "loopback_step mp tk th clk bf t n c =
     (case loopback_arrival mp t n c of
        None \<Rightarrow> Some (n, c)
      | Some (a, n, c) \<Rightarrow>
          map_option
            (\<lambda>l. (n\<lparr>ln_loop := l\<rparr>,
              transmit mp (ln_socket n) (drop (length (trace (pl_world (ln_loop n)))) (trace (pl_world l))) c))
            (TokioPortsLoop_step tk th clk bf (ln_loop n) a))"

lemmas loopback_step_defs = loopback_step_def loopback_arrival_def

text \<open>The two nodes and the channels between them.\<close>

record ('x, 'c) network =
  node_a :: "'x loopback_node"
  node_b :: "'x loopback_node"
  net_channels :: 'c

datatype side = A | B

definition network_step ::
    "'c mpsc \<Rightarrow> 'x tokio \<Rightarrow> TokioTimerHost \<Rightarrow> (effect list \<Rightarrow> TimeStamp) \<Rightarrow> bitflags \<Rightarrow> side \<Rightarrow> node_turn \<Rightarrow>
     ('x, 'c) network \<Rightarrow> ('x, 'c) network option" where
  "network_step mp tk th clk bf s t net =
     (case s of
        A \<Rightarrow> map_option (\<lambda>(n, c). net\<lparr>node_a := n, net_channels := c\<rparr>)
               (loopback_step mp tk th clk bf t (node_a net) (net_channels net))
      | B \<Rightarrow> map_option (\<lambda>(n, c). net\<lparr>node_b := n, net_channels := c\<rparr>)
               (loopback_step mp tk th clk bf t (node_b net) (net_channels net)))"


subsection \<open>Assembling the nodes\<close>

text \<open>
  An ordinary clock on two sockets and its loop, up to the \<open>Initialized\<close> message. \<open>Inl\<close> is the I/O error of
  \<open>run_until\<close>, \<open>None\<close> the panic of \<open>expect\<close>. Each node has its own executor state, with an
  empty channel and no tasks; the buffers of the loop are zero.
\<close>

definition assemble_node ::
    "'x tokio \<Rightarrow> TokioTimerHost \<Rightarrow> (effect list \<Rightarrow> TimeStamp) \<Rightarrow> ClockDS \<Rightarrow> PortProfile \<Rightarrow> (effect list \<Rightarrow> TimeScale) \<Rightarrow>
     LoopbackSocket \<Rightarrow> LoopbackSocket \<Rightarrow> 'x \<Rightarrow> (string + 'x loopback_node) option" where
  "assemble_node tk th clk default_ds profile time_scale ev gen x =
     (let ordinary_clock = OrdinaryTokioClock_new default_ds (th_domain_number th) profile in
      case OrdinaryTokioClock_port ordinary_clock loopback_physical_port time_scale \<lparr>trace = [], next_timer = 0\<rparr> of
        Some (Some port, c, w) \<Rightarrow>
          map_option (map_sum id (\<lambda>l. \<lparr>ln_loop = l,
              ln_socket = (\<lambda>kind. case kind of Event \<Rightarrow> ev | General \<Rightarrow> gen), ln_buf = (\<lambda>_. replicate 2048 0)\<rparr>))
            (TokioPortsLoop_start tk th clk
              \<lparr>portmap = SingleDomainPortMap_new (th_domain_number th) port, pl_clock = c, pl_world = w,
               pl_host = perform_all tk th clk [] (trace w) \<lparr>timeouts = Map.empty, runtime = x\<rparr>, pl_log = []\<rparr>)
      | _ \<Rightarrow> None)"

text \<open>The frames of a kind in a trace, in the order they were sent.\<close>

fun sent :: "RxKind \<Rightarrow> effect list \<Rightarrow> bytes list" where
  "sent kind [] = []"
| "sent kind (EventSent b ok # es) = (if kind = Event then b # sent kind es else sent kind es)"
| "sent kind (GeneralSent b ok # es) = (if kind = General then b # sent kind es else sent kind es)"
| "sent kind (_ # es) = sent kind es"

abbreviation ln_trace :: "'x loopback_node \<Rightarrow> effect list" where
  "ln_trace n \<equiv> trace (pl_world (ln_loop n))"

text \<open>
  Runs of two nodes that the two pairs of sockets join. The executor, the readings of a node's clock and the
  turns of the nodes are any: \<open>clk\<close> is free in every step.
\<close>

inductive network_started :: "'c mpsc \<Rightarrow> 'x tokio \<Rightarrow> TokioTimerHost \<Rightarrow> ('x, 'c) network \<Rightarrow> bool"
  for mp tk th where
  network_assembled: "wf_ds ds_a \<Longrightarrow> wf_ds ds_b \<Longrightarrow> wf_profile pr_a \<Longrightarrow> wf_profile pr_b \<Longrightarrow>
    tk_sleeping tk x_a = Map.empty \<Longrightarrow> tk_queue tk x_a = [] \<Longrightarrow> tk_sleeping tk x_b = Map.empty \<Longrightarrow> tk_queue tk x_b = [] \<Longrightarrow>
    \<forall>es. wf_ts (clk_a es) \<Longrightarrow> \<forall>es. wf_ts (clk_b es) \<Longrightarrow>
    LoopbackSocket_pair mp c0 = (ev_a, ev_b, c1) \<Longrightarrow> LoopbackSocket_pair mp c1 = (gen_a, gen_b, c2) \<Longrightarrow>
    assemble_node tk th clk_a ds_a pr_a time_scale_a ev_a gen_a x_a = Some (Inr a) \<Longrightarrow>
    assemble_node tk th clk_b ds_b pr_b time_scale_b ev_b gen_b x_b = Some (Inr b) \<Longrightarrow>
    network_started mp tk th \<lparr>node_a = a, node_b = b,
      net_channels = transmit mp (ln_socket b) (ln_trace b) (transmit mp (ln_socket a) (ln_trace a) c2)\<rparr>"

inductive network_runs ::
    "'c mpsc \<Rightarrow> 'x tokio \<Rightarrow> TokioTimerHost \<Rightarrow> bitflags \<Rightarrow> ('x, 'c) network \<Rightarrow> bool"
  for mp tk th bf where
  network_starts: "network_started mp tk th net \<Longrightarrow> network_runs mp tk th bf net"
| network_goes: "network_runs mp tk th bf net \<Longrightarrow> \<forall>es. wf_ts (clk es) \<Longrightarrow>
    network_step mp tk th clk bf s t net = Some net' \<Longrightarrow> network_runs mp tk th bf net'"

text \<open>
  The same runs with their history: \<open>hist s kind\<close> is the list of the datagrams of that kind that the loop of node \<open>s\<close> has been handed,
  as it gets them: the first \<open>size\<close> bytes of its buffer.
\<close>

definition net_node :: "('x, 'c) network \<Rightarrow> side \<Rightarrow> 'x loopback_node" where
  "net_node net s = (case s of A \<Rightarrow> node_a net | B \<Rightarrow> node_b net)"

definition handed :: "'c mpsc \<Rightarrow> node_turn \<Rightarrow> 'x loopback_node \<Rightarrow> 'c \<Rightarrow> RxKind \<Rightarrow> bytes list" where
  "handed mp t n c kind =
     (case loopback_arrival mp t n c of
        Some (Datagram k buf sz now, _) \<Rightarrow> (if k = kind then [take sz buf] else [])
      | _ \<Rightarrow> [])"

inductive network_history ::
    "'c mpsc \<Rightarrow> 'x tokio \<Rightarrow> TokioTimerHost \<Rightarrow> bitflags \<Rightarrow> ('x, 'c) network \<Rightarrow> (side \<Rightarrow> RxKind \<Rightarrow> bytes list) \<Rightarrow> bool"
  for mp tk th bf where
  history_starts: "network_started mp tk th net \<Longrightarrow> network_history mp tk th bf net (\<lambda>_ _. [])"
| history_goes: "network_history mp tk th bf net hist \<Longrightarrow> \<forall>es. wf_ts (clk es) \<Longrightarrow>
    network_step mp tk th clk bf s t net = Some net' \<Longrightarrow>
    network_history mp tk th bf net' (hist(s := \<lambda>kind. hist s kind @ handed mp t (net_node net s) (net_channels net) kind))"

subsection \<open>The daemon (main.rs of rptp-daemon)\<close>

text \<open>
  The daemon's own node, up to its loop: the clock, made at the instant \<open>i\<close>, the data set, the stepping servo and one port in domain 0 on two
  multicast sockets. Binding a socket may fail; a socket is what its \<open>try_send\<close> answers.
\<close>

definition main_default_ds :: ClockDS where
  "main_default_ds =
     \<lparr>identity = ClockIdentity 0x00 0x1B 0x19 0xFF 0xFE 0x00 0x00 0x01, priority1 = Priority1 127, priority2 = Priority2 127,
      quality = \<lparr>clock_class = ClassDefault, clock_accuracy = Within1ms, offset_scaled_log_variance = 0xFFFF\<rparr>,
      steps_removed = StepsRemoved 0\<rparr>"

definition main_clock :: "nat \<Rightarrow> VirtualClock" where
  "main_clock i = VirtualClock_new (TimeStamp 0 0) (Fin 1) Ptp i"

definition daemon_main ::
    "'x tokio \<Rightarrow> (effect list \<Rightarrow> TimeStamp) \<Rightarrow> string + (effect list \<Rightarrow> bytes \<Rightarrow> bool) \<Rightarrow> string + (effect list \<Rightarrow> bytes \<Rightarrow> bool) \<Rightarrow>
     nat \<Rightarrow> 'x \<Rightarrow> (string + 'x TokioPortsLoop) option" where
  "daemon_main tk clk event general i x =
     (let virtual_clock = main_clock i in
      case event of
        Inl e \<Rightarrow> Some (Inl e)
      | Inr event_socket \<Rightarrow>
          (case general of
             Inl e \<Rightarrow> Some (Inl e)
           | Inr general_socket \<Rightarrow>
               (let profile = PortProfile_with_servo_config PortProfile_default SteppingConfig;
                    ordinary_clock = OrdinaryTokioClock_new main_default_ds (DomainNumber 0) profile;
                    physical_port = \<lparr>event_try_send = event_socket, general_try_send = general_socket\<rparr>;
                    th = \<lparr>th_domain_number = oc_domain_number ordinary_clock\<rparr>
                in case OrdinaryTokioClock_port ordinary_clock physical_port (\<lambda>_. VirtualClock_time_scale virtual_clock)
                          \<lparr>trace = [], next_timer = 0\<rparr> of
                     Some (Some port, c, w) \<Rightarrow>
                       TokioPortsLoop_start tk th clk
                         \<lparr>portmap = SingleDomainPortMap_new (th_domain_number th) port, pl_clock = c, pl_world = w,
                          pl_host = perform_all tk th clk [] (trace w) \<lparr>timeouts = Map.empty, runtime = x\<rparr>, pl_log = []\<rparr>
                   | _ \<Rightarrow> None)))"

subsection \<open>The demo (grafana-prometheus-demo)\<close>

record PrometheusNodeConfig =
  clock_start :: TimeStamp
  clock_rate :: f64
  cfg_default_ds :: ClockDS
  cfg_profile :: PortProfile
  cfg_servo :: PiServoConfig
  clock_steps :: "(nat \<times> TimeInterval) list"

text \<open>The clock that \<open>run\<close> makes at the instant \<open>i\<close>, and the node on it.\<close>

definition PrometheusNode_clock :: "PrometheusNodeConfig \<Rightarrow> nat \<Rightarrow> VirtualClock" where
  "PrometheusNode_clock config i = VirtualClock_new (clock_start config) (clock_rate config) Ptp i"

definition PrometheusNode_run ::
    "'x tokio \<Rightarrow> (effect list \<Rightarrow> TimeStamp) \<Rightarrow> nat \<Rightarrow> DomainNumber \<Rightarrow> LoopbackSocket \<Rightarrow> LoopbackSocket \<Rightarrow> PrometheusNodeConfig \<Rightarrow>
     'x \<Rightarrow> (string + 'x loopback_node) option" where
  "PrometheusNode_run tk clk i domain event_socket general_socket config x =
     (let virtual_clock = PrometheusNode_clock config i;
          profile = PortProfile_with_servo_config (cfg_profile config) (PiConfig (cfg_servo config))
      in assemble_node tk \<lparr>th_domain_number = domain\<rparr> clk (cfg_default_ds config) profile
           (\<lambda>_. VirtualClock_time_scale virtual_clock) event_socket general_socket x)"

text \<open>
  The task that steps the clock of a node: it sleeps, reads the clock at one instant and steps it at a second.
  The instants of the wake-ups are given; a task that is still asleep when they end has done no more.
\<close>

fun clock_steps_task :: "(nat \<times> TimeInterval) list \<Rightarrow> (nat \<times> nat) list \<Rightarrow> VirtualClock \<Rightarrow> VirtualClock option" where
  "clock_steps_task [] is c = Some c"
| "clock_steps_task (_ # sched) [] c = Some c"
| "clock_steps_task ((delay, step_by) # sched) ((i, j) # is) c =
     (case VirtualClock_now c i of
        None \<Rightarrow> None
      | Some now \<Rightarrow>
          clock_steps_task sched is
            (case TimeStamp_checked_add now step_by of
               Some step_to \<Rightarrow> VirtualClock_step c step_to j
             | None \<Rightarrow> c))"

definition master_config :: PrometheusNodeConfig where
  "master_config =
     \<lparr>clock_start = TimeStamp 2 0, clock_rate = Fin 1,
      cfg_default_ds =
        \<lparr>identity = ClockIdentity 0x00 0x1B 0x19 0xFF 0xFE 0x00 0x00 0x42, priority1 = Priority1 60, priority2 = Priority2 127,
         quality = \<lparr>clock_class = ClassDefault, clock_accuracy = AccuracyUnknown, offset_scaled_log_variance = 0xFFFF\<rparr>,
         steps_removed = StepsRemoved 0\<rparr>,
      cfg_profile = PortProfile_default,
      cfg_servo =
        \<lparr>first_step_threshold = Disabled, step_threshold = Disabled, drift_min = Drift_from_ppb (-100000),
         drift_max = Drift_from_ppb 100000, drift_update_interval = TimeInterval 4 0,
         cfg_kp = f64_round (1 / 1000), cfg_ki = f64_round (1 / 1000000)\<rparr>,
      clock_steps = [(90 * 1000000000, TimeInterval 0 750000000), (10 * 1000000000, TimeInterval 0 250000000)]\<rparr>"

definition slave_config :: PrometheusNodeConfig where
  "slave_config =
     \<lparr>clock_start = TimeStamp 0 0, clock_rate = Fin 1,
      cfg_default_ds =
        \<lparr>identity = ClockIdentity 0x00 0x1B 0x19 0xFF 0xFE 0x00 0x00 0x02, priority1 = Priority1 180, priority2 = Priority2 200,
         quality = \<lparr>clock_class = ClassDefault, clock_accuracy = AccuracyUnknown, offset_scaled_log_variance = 0xFFFF\<rparr>,
         steps_removed = StepsRemoved 0\<rparr>,
      cfg_profile = PortProfile_default,
      cfg_servo =
        \<lparr>first_step_threshold = Enabled (TimeInterval 1 0), step_threshold = Enabled (TimeInterval 0 500000000),
         drift_min = Drift_from_ppb (-100000), drift_max = Drift_from_ppb 100000, drift_update_interval = TimeInterval 4 0,
         cfg_kp = f64_round (5 / 1000), cfg_ki = f64_round (3 / 1000000)\<rparr>,
      clock_steps = []\<rparr>"

definition grafana_main ::
    "'c mpsc \<Rightarrow> 'x tokio \<Rightarrow> (effect list \<Rightarrow> TimeStamp) \<Rightarrow> (effect list \<Rightarrow> TimeStamp) \<Rightarrow> nat \<Rightarrow> 'c \<Rightarrow> 'x \<Rightarrow> 'x \<Rightarrow>
     (string + ('x, 'c) network) option" where
  "grafana_main mp tk clk_a clk_b i c x_a x_b =
     (let domain = DomainNumber 0;
          (master_event_sock, slave_event_sock, c) = LoopbackSocket_pair mp c;
          (master_gen_sock, slave_gen_sock, c) = LoopbackSocket_pair mp c
      in case PrometheusNode_run tk clk_a i domain master_event_sock master_gen_sock master_config x_a of
           None \<Rightarrow> None
         | Some (Inl e) \<Rightarrow> Some (Inl e)
         | Some (Inr a) \<Rightarrow>
             (case PrometheusNode_run tk clk_b i domain slave_event_sock slave_gen_sock slave_config x_b of
                None \<Rightarrow> None
              | Some (Inl e) \<Rightarrow> Some (Inl e)
              | Some (Inr b) \<Rightarrow> Some (Inr \<lparr>node_a = a, node_b = b,
                  net_channels = transmit mp (ln_socket b) (ln_trace b) (transmit mp (ln_socket a) (ln_trace a) c)\<rparr>)))"


subsection \<open>Lemmas: frames\<close>

lemma map_sum_Inr: "map_sum id f z = Inr y \<longleftrightarrow> (\<exists>x. z = Inr x \<and> y = f x)"
  by (cases z) auto

lemma sent_kind_append [simp]: "sent kind (xs @ ys) = sent kind xs @ sent kind ys"
  by (induction kind xs rule: sent.induct) simp_all

lemma length_PayloadBuffer_finalize:
  "unat (of_nat PTP_PAYLOAD_OFFSET + n :: u16) \<le> 2048 \<Longrightarrow> length (PayloadBuffer_finalize p n) \<le> 2048"
  by (auto simp: PayloadBuffer_finalize_def Let_def min_le_iff_disj)

lemma frame_length:
  "length (EventMessage_to_wire m (fresh_buffer d src)) \<le> 2048"
  "length (GeneralMessage_to_wire g (fresh_buffer d src)) \<le> 2048"
  by (cases m; simp add: to_wire_defs Let_def length_PayloadBuffer_finalize PTP_PAYLOAD_OFFSET_def)
    (cases g; simp add: to_wire_defs Let_def length_PayloadBuffer_finalize PTP_PAYLOAD_OFFSET_def)

text \<open>A frame of kind \<open>kind\<close> that a port of the domain \<open>d\<close> sends.\<close>

definition frame_of :: "DomainNumber \<Rightarrow> RxKind \<Rightarrow> bytes \<Rightarrow> bool" where
  "frame_of d kind b \<longleftrightarrow>
     (case kind of
        Event \<Rightarrow> (\<exists>src m. wf_event m \<and> b = EventMessage_to_wire m (fresh_buffer d src))
      | General \<Rightarrow> (\<exists>src m. wf_general m \<and> b = GeneralMessage_to_wire m (fresh_buffer d src)))"

lemma frame_of_length: "frame_of d kind b \<Longrightarrow> length b \<le> 2048"
  by (cases kind) (auto simp: frame_of_def frame_length)

lemma sent_frames:
  "list_all (frame_ok p) es \<Longrightarrow> b \<in> set (sent kind es) \<Longrightarrow> frame_of (domain_number p) kind b"
  by (induction kind es rule: sent.induct) (auto simp: frame_of_def split: if_splits)


lemma handled_log: "TokioPortsLoop_handled tk th clk l ports w = Some l' \<Longrightarrow> pl_log l' = pl_log l"
  by (auto simp: TokioPortsLoop_handled_def Let_def split: option.splits)

lemma datagram_log:
  assumes "documented_bitflags bf" "map_domain_number (portmap l) = d" "frame_of d kind (take sz buf)"
    and "TokioPortsLoop_process_datagram tk th clk bf l kind buf sz now = Some l'"
  shows "pl_log l' = pl_log l"
proof -
  let ?lookup = "SingleDomainPortMap_port_by_domain (portmap l)"
  have p: "?lookup d = Inr (port_fsm (portmap l))"
    using assms(2) by (simp add: SingleDomainPortMap_port_by_domain_def)
  show ?thesis
    using assms(3,4) parse_event_to_wire[where lookup = ?lookup, OF assms(1) _ p]
      parse_general_to_wire[where lookup = ?lookup, OF assms(1) _ p]
    by (cases kind)
      (auto simp: frame_of_def TokioPortsLoop_process_datagram_def MessageIngress_receive_event_def
        MessageIngress_receive_general_def handled_log split: if_splits option.splits)
qed

lemma local_log:
  "TokioPortsLoop_step tk th clk bf l SystemReady = Some l' \<Longrightarrow> pl_log l' = pl_log l"
  "TokioPortsLoop_step tk th clk bf l (Wakes z) = Some l' \<Longrightarrow> pl_log l' = pl_log l"
  by (auto simp: TokioPortsLoop_step_def TokioPortsLoop_process_system_def dest!: handled_log split: option.splits sum.splits if_splits)

lemma sent_in:
  "b \<in> set (sent kind es) \<Longrightarrow> \<exists>ok. (case kind of Event \<Rightarrow> EventSent b ok | General \<Rightarrow> GeneralSent b ok) \<in> set es"
proof (induction es)
  case (Cons e es)
  then show ?case by (cases kind; cases e) auto
qed simp

subsection \<open>Nodes on documented channels\<close>

locale loopback_net = tokio_runtime tk for tk :: "'x tokio" +
  fixes mp :: "'c mpsc"
  assumes channels: "documented_mpsc mp"
begin

lemma channel_new:
  assumes "mp_channel mp c = (a, c')"
  shows "a \<notin> mp_open mp c" "mp_open mp c' = insert a (mp_open mp c)" "mp_items mp c' = (mp_items mp c)(a := [])"
  using channels[unfolded documented_mpsc_def, THEN conjunct1, rule_format, of c] by (simp_all add: assms)

lemma send_channel [simp]:
  "mp_items mp (mp_send mp c a b) = (mp_items mp c)(a := mp_items mp c a @ [b])"
  using channels unfolding documented_mpsc_def by blast

lemma recv_channel:
  obtains (empty) "mp_items mp c a = []" "mp_recv mp c a = None"
  | (item) b c' q where "mp_recv mp c a = Some (b, c')" "mp_items mp c a = b # q" "mp_items mp c' = (mp_items mp c)(a := q)"
proof -
  have "case mp_items mp c a of [] \<Rightarrow> mp_recv mp c a = None
    | b # q \<Rightarrow> (\<exists>c'. mp_recv mp c a = Some (b, c') \<and> mp_open mp c' = mp_open mp c \<and> mp_items mp c' = (mp_items mp c)(a := q))"
    using channels unfolding documented_mpsc_def by blast
  with empty item show ?thesis by (cases "mp_items mp c a") auto
qed

lemma pair_new:
  assumes "LoopbackSocket_pair mp c = (s, s', c')"
  shows "lb_tx s = lb_rx s'" "lb_rx s = lb_tx s'" "lb_rx s \<noteq> lb_tx s" "lb_rx s \<notin> mp_open mp c" "lb_tx s \<notin> mp_open mp c"
    "mp_open mp c' = {lb_rx s, lb_tx s} \<union> mp_open mp c" "mp_items mp c' = (mp_items mp c)(lb_rx s := [], lb_tx s := [])"
  using assms channel_new unfolding LoopbackSocket_pair_def Let_def
  by (auto split: prod.splits) blast+

lemma transmit_items:
  "lb_tx (socket Event) \<noteq> lb_tx (socket General) \<Longrightarrow> mp_items mp (transmit mp socket es c) =
    (mp_items mp c)(lb_tx (socket Event) := mp_items mp c (lb_tx (socket Event)) @ sent Event es,
      lb_tx (socket General) := mp_items mp c (lb_tx (socket General)) @ sent General es)"
proof (induction es arbitrary: c)
  case (Cons e es)
  then show ?case by (cases e) (auto simp: LoopbackSocket_try_send_def Let_def)
qed simp

definition node_ok :: "TokioTimerHost \<Rightarrow> 'x loopback_node \<Rightarrow> bool" where
  "node_ok th n \<longleftrightarrow> loop_inv th (ln_loop n) \<and> (\<forall>kind. length (ln_buf n kind) = 2048) \<and> pl_log (ln_loop n) = [] \<and>
     physical_send_event (loop_port (ln_loop n)) = (\<lambda>_ _. True) \<and> physical_send_general (loop_port (ln_loop n)) = (\<lambda>_ _. True)"

text \<open>What a turn of a node does: it takes at most one datagram off its sockets and appends what its port has sent.\<close>

definition turned :: "TokioTimerHost \<Rightarrow> 'x loopback_node \<Rightarrow> 'c \<Rightarrow> 'x loopback_node \<Rightarrow> 'c \<Rightarrow> bool" where
  "turned th n c n' c' \<longleftrightarrow> node_ok th n' \<and> ln_socket n' = ln_socket n \<and>
     (\<exists>es c1. ln_trace n' = ln_trace n @ es \<and> c' = transmit mp (ln_socket n) es c1 \<and>
        (\<forall>a. suffix (mp_items mp c1 a) (mp_items mp c a)) \<and>
        (\<forall>a. (\<forall>kind. a \<noteq> lb_rx (ln_socket n kind)) \<longrightarrow> mp_items mp c1 a = mp_items mp c a))"

lemma go_turned:
  assumes "node_ok th m" "continues th (ln_loop m) l'" "pl_log l' = []" "ln_loop m = ln_loop n" "ln_socket m = ln_socket n"
    and "\<forall>a. suffix (mp_items mp c1 a) (mp_items mp c a)"
      "\<forall>a. (\<forall>kind. a \<noteq> lb_rx (ln_socket n kind)) \<longrightarrow> mp_items mp c1 a = mp_items mp c a"
  shows "turned th n c (m\<lparr>ln_loop := l'\<rparr>)
    (transmit mp (ln_socket n) (drop (length (ln_trace n)) (trace (pl_world l'))) c1)"
  using assms unfolding turned_def node_ok_def continues_def by auto

lemma loopback_step_turned:
  assumes n: "node_ok th n" and bf: "documented_bitflags bf" and clk: "\<forall>es. wf_ts (clk es)"
    and rx: "\<forall>kind. \<forall>b \<in> set (mp_items mp c (lb_rx (ln_socket n kind))). frame_of (th_domain_number th) kind b"
  shows "if t = Serve \<and> loop_panics th (ln_loop n) SystemReady then loopback_step mp tk th clk bf t n c = None
    else \<exists>n' c'. loopback_step mp tk th clk bf t n c = Some (n', c') \<and> turned th n c n' c'"
proof -
  have l: "loop_inv th (ln_loop n)" and len: "\<And>kind. length (ln_buf n kind) = 2048"
    and lg: "pl_log (ln_loop n) = []" and d: "map_domain_number (portmap (ln_loop n)) = th_domain_number th"
    using n by (auto simp: node_ok_def loop_inv_def)
  have step: "if loop_panics th (ln_loop n) a then TokioPortsLoop_step tk th clk bf (ln_loop n) a = None
    else \<exists>l'. TokioPortsLoop_step tk th clk bf (ln_loop n) a = Some l' \<and> continues th (ln_loop n) l'" for a
    by (rule step_inv[OF l clk])
  have own: "if loop_panics th (ln_loop n) a then TokioPortsLoop_step tk th clk bf (ln_loop n) a = None
      else \<exists>l'. TokioPortsLoop_step tk th clk bf (ln_loop n) a = Some l' \<and> turned th n c (n\<lparr>ln_loop := l'\<rparr>)
        (transmit mp (ln_socket n) (drop (length (ln_trace n)) (trace (pl_world l'))) c)"
    if "a = SystemReady \<or> (\<exists>z. a = Wakes z)" for a
  proof -
    have "pl_log l' = []" if "TokioPortsLoop_step tk th clk bf (ln_loop n) a = Some l'" for l'
      using that local_log lg \<open>a = SystemReady \<or> _\<close> by metis
    with step[of a] go_turned[OF n _ _ refl refl] show ?thesis by auto
  qed
  show ?thesis
  proof (cases t)
    case (Receive kind now)
    show ?thesis
    proof (cases rule: recv_channel[of c "lb_rx (ln_socket n kind)", case_names empty item])
      case empty
      have "turned th n c n c" using n by (auto simp: turned_def intro: exI[of _ "[]"] exI[of _ c])
      with empty show ?thesis by (simp add: Receive loopback_step_defs LoopbackSocket_recv_def)
    next
      case (item b c1 q)
      have f: "frame_of (th_domain_number th) kind b" using rx item(2) by auto
      let ?new = "b @ drop (length b) (ln_buf n kind)"
      obtain l' where l': "TokioPortsLoop_step tk th clk bf (ln_loop n) (Datagram kind ?new (length b) now) = Some l'"
        "continues th (ln_loop n) l'"
        using step[of "Datagram kind ?new (length b) now"] by (auto simp: loop_panics_def)
      have "pl_log l' = []" using datagram_log[OF bf d, of kind "length b" ?new tk th clk now l'] l'(1) f lg
        by (simp add: TokioPortsLoop_step_def)
      moreover have "node_ok th (n\<lparr>ln_buf := (ln_buf n)(kind := ?new)\<rparr>)"
        using n frame_of_length[OF f] len by (auto simp: node_ok_def)
      moreover have "\<forall>a. suffix (mp_items mp c1 a) (mp_items mp c a)"
        "\<forall>a. (\<forall>kind. a \<noteq> lb_rx (ln_socket n kind)) \<longrightarrow> mp_items mp c1 a = mp_items mp c a"
        using item(2,3) by (auto simp: suffix_ConsI)
      ultimately have "turned th n c (n\<lparr>ln_buf := (ln_buf n)(kind := ?new), ln_loop := l'\<rparr>)
          (transmit mp (ln_socket n) (drop (length (ln_trace n)) (trace (pl_world l'))) c1)"
        using l'(2) by (intro go_turned) simp_all
      then show ?thesis
        using l'(1) item(1) frame_of_length[OF f] len
        by (simp add: Receive loopback_step_defs LoopbackSocket_recv_def Let_def min_absorb1)
    qed
  next
    case Serve
    then show ?thesis using own[of SystemReady] by (auto simp: loopback_step_defs split: if_splits)
  next
    case (TaskWakes z)
    then show ?thesis using own[of "Wakes z"] by (auto simp: loopback_step_defs loop_panics_def)
  qed
qed

text \<open>
  Two nodes that their sockets join: what is in a channel is the end of what the peer has sent, as far as it has not been received.
\<close>

definition wired :: "(RxKind \<Rightarrow> LoopbackSocket) \<Rightarrow> (RxKind \<Rightarrow> LoopbackSocket) \<Rightarrow> bool" where
  "wired s s' \<longleftrightarrow> (\<forall>kind. lb_rx (s kind) = lb_tx (s' kind) \<and> lb_tx (s kind) = lb_rx (s' kind)) \<and>
     distinct [lb_rx (s Event), lb_tx (s Event), lb_rx (s General), lb_tx (s General)]"

definition joined :: "TokioTimerHost \<Rightarrow> 'x loopback_node \<Rightarrow> 'x loopback_node \<Rightarrow> 'c \<Rightarrow> bool" where
  "joined th a b c \<longleftrightarrow> node_ok th a \<and> node_ok th b \<and> wired (ln_socket a) (ln_socket b) \<and>
     (\<forall>kind. suffix (mp_items mp c (lb_rx (ln_socket a kind))) (sent kind (ln_trace b))) \<and>
     (\<forall>kind. suffix (mp_items mp c (lb_rx (ln_socket b kind))) (sent kind (ln_trace a)))"

lemma joined_sym: "joined th a b c \<Longrightarrow> joined th b a c"
  by (auto simp: joined_def wired_def)

lemma joined_frames:
  assumes "joined th a b c" "f \<in> set (mp_items mp c (lb_rx (ln_socket a kind)))"
  shows "frame_of (th_domain_number th) kind f"
proof -
  have "suffix (mp_items mp c (lb_rx (ln_socket a kind))) (sent kind (ln_trace b))" using assms(1) by (simp add: joined_def)
  then have "f \<in> set (sent kind (ln_trace b))" using assms(2) set_mono_suffix by blast
  moreover obtain st where "domain_number (state_port st) = th_domain_number th" "list_all (frame_ok (state_port st)) (ln_trace b)"
    using assms(1) by (auto simp: joined_def node_ok_def loop_inv_def)
  ultimately show ?thesis using sent_frames by metis
qed

lemma joined_delivers:
  assumes j: "joined th a b c" and bf: "documented_bitflags bf"
  shows "pl_log (ln_loop a) = [] \<and>
    (\<forall>f \<in> set (sent Event (ln_trace b)). \<exists>m. wf_event m \<and>
       parse_event bf Inr f = Inr (th_domain_number th, port_identity (loop_port (ln_loop b)), m)) \<and>
    (\<forall>f \<in> set (sent General (ln_trace b)). \<exists>m. wf_general m \<and>
       parse_general bf Inr f = Inr (th_domain_number th, port_identity (loop_port (ln_loop b)), m))"
proof -
  have p: "domain_number (loop_port (ln_loop b)) = th_domain_number th" "list_all (frame_ok (loop_port (ln_loop b))) (ln_trace b)"
    using j by (auto simp: joined_def node_ok_def loop_inv_def loop_port_def)
  have fr: "\<exists>ok. frame_ok (loop_port (ln_loop b)) (case kind of Event \<Rightarrow> EventSent f ok | General \<Rightarrow> GeneralSent f ok)"
    if "f \<in> set (sent kind (ln_trace b))" for f kind
    using sent_in[OF that] p(2) by (fastforce simp: list_all_iff)
  show ?thesis
    using j fr[of _ Event] fr[of _ General] frame_ok_parses[OF bf, of "loop_port (ln_loop b)"] p(1)
    by (simp add: joined_def node_ok_def)
qed

lemma wired_channels:
  assumes "wired s s'"
  shows "lb_rx (s kind) \<noteq> lb_tx (s kind')" "lb_tx (s Event) \<noteq> lb_tx (s General)" "lb_tx (s kind) = lb_rx (s' kind)"
  using assms by (cases kind; cases kind'; auto simp: wired_def)+

lemma turned_joined:
  assumes j: "joined th a b c" and t: "turned th a c a' c'"
  shows "joined th a' b c'"
    and "\<exists>es. ln_trace a' = ln_trace a @ es \<and>
      (\<forall>kind. mp_items mp c' (lb_rx (ln_socket b kind)) = mp_items mp c (lb_rx (ln_socket b kind)) @ sent kind es)"
proof -
  obtain es c1 where es: "ln_trace a' = ln_trace a @ es" "c' = transmit mp (ln_socket a) es c1"
      "\<forall>x. suffix (mp_items mp c1 x) (mp_items mp c x)"
      "\<forall>x. (\<forall>kind. x \<noteq> lb_rx (ln_socket a kind)) \<longrightarrow> mp_items mp c1 x = mp_items mp c x"
    and a': "node_ok th a'" "ln_socket a' = ln_socket a"
    using t unfolding turned_def by blast
  have w: "wired (ln_socket a) (ln_socket b)" using j by (simp add: joined_def)
  note items = transmit_items[OF wired_channels(2)[OF w], of es c1, folded es(2)]
  have rx: "mp_items mp c' (lb_rx (ln_socket a kind)) = mp_items mp c1 (lb_rx (ln_socket a kind))" for kind
    unfolding items using wired_channels(1)[OF w] by simp
  have tx: "mp_items mp c' (lb_rx (ln_socket b kind)) = mp_items mp c (lb_rx (ln_socket b kind)) @ sent kind es" for kind
    unfolding items wired_channels(3)[OF w, symmetric]
    using es(4) wired_channels(1)[OF w, THEN not_sym] wired_channels(2)[OF w] by (cases kind) simp_all
  have "suffix (mp_items mp c' (lb_rx (ln_socket a kind))) (sent kind (ln_trace b))" for kind
    using j es(3) unfolding rx joined_def by (blast intro: suffix_order.trans)
  moreover have "suffix (mp_items mp c' (lb_rx (ln_socket b kind))) (sent kind (ln_trace a'))" for kind
    using j tx[of kind] by (simp add: joined_def es(1))
  ultimately show "joined th a' b c'" using j a' by (simp add: joined_def)
  show "\<exists>es. ln_trace a' = ln_trace a @ es \<and>
      (\<forall>kind. mp_items mp c' (lb_rx (ln_socket b kind)) = mp_items mp c (lb_rx (ln_socket b kind)) @ sent kind es)"
    using es(1) tx by blast
qed

text \<open>A frame goes from the channel to the loop as it is; nothing else leaves the channel.\<close>

lemma handed_frame:
  assumes "node_ok th n" "mp_items mp c (lb_rx (ln_socket n kind)) = f # q" "length f \<le> 2048"
  shows "handed mp (Receive kind now) n c k = (if k = kind then [f] else [])"
proof (cases rule: recv_channel[of c "lb_rx (ln_socket n kind)", case_names empty item])
  case empty
  with assms(2) show ?thesis by simp
next
  case (item b c' q')
  have "length (ln_buf n kind) = 2048" using assms(1) by (simp add: node_ok_def)
  with assms(2,3) item show ?thesis
    by (simp add: handed_def loopback_arrival_def LoopbackSocket_recv_def Let_def min_absorb1)
qed

lemma handed_received:
  assumes j: "joined th a b c" and step: "loopback_step mp tk th clk bf t a c = Some (a', c')"
  shows "mp_items mp c (lb_rx (ln_socket a kind)) = handed mp t a c kind @ mp_items mp c' (lb_rx (ln_socket a kind))"
proof -
  have w: "wired (ln_socket a) (ln_socket b)" and ok: "node_ok th a" using j by (simp_all add: joined_def)
  have rx: "mp_items mp (transmit mp (ln_socket a) es c1) (lb_rx (ln_socket a k)) = mp_items mp c1 (lb_rx (ln_socket a k))" for es c1 k
    unfolding transmit_items[OF wired_channels(2)[OF w]] using wired_channels(1)[OF w] by simp
  show ?thesis
  proof (cases t)
    case (Receive k now)
    show ?thesis
    proof (cases rule: recv_channel[of c "lb_rx (ln_socket a k)", case_names empty item])
      case empty
      with step show ?thesis by (auto simp: Receive handed_def loopback_step_defs LoopbackSocket_recv_def)
    next
      case (item f c1 q)
      have "frame_of (th_domain_number th) k f" using joined_frames[OF j, of f k] item(2) by simp
      note h = handed_frame[OF ok item(2) frame_of_length[OF this], of now kind]
      have "mp_items mp c' (lb_rx (ln_socket a kind)) = mp_items mp c1 (lb_rx (ln_socket a kind))"
        using step item(1) rx by (auto simp: Receive loopback_step_defs LoopbackSocket_recv_def Let_def)
      moreover have "lb_rx (ln_socket a kind) = lb_rx (ln_socket a k) \<Longrightarrow> kind = k"
        using w by (cases kind; cases k) (auto simp: wired_def)
      ultimately show ?thesis using h item(2,3) by (auto simp: Receive)
    qed
  qed (use step rx in \<open>auto simp: handed_def loopback_step_defs\<close>)
qed

lemma assembled_ok:
  assumes "wf_ds ds" "wf_profile pr" "tk_sleeping tk x = Map.empty" "tk_queue tk x = []" "\<forall>es. wf_ts (clk es)"
    and "assemble_node tk th clk ds pr time_scale ev gen x = Some (Inr n)"
  shows "node_ok th n" "ln_socket n = (\<lambda>kind. case kind of Event \<Rightarrow> ev | General \<Rightarrow> gen)"
proof -
  from assms(6) obtain st c w l where p: "OrdinaryTokioClock_port (OrdinaryTokioClock_new ds (th_domain_number th) pr)
      loopback_physical_port time_scale \<lparr>trace = [], next_timer = 0\<rparr> = Some (Some st, c, w)"
    "TokioPortsLoop_start tk th clk \<lparr>portmap = SingleDomainPortMap_new (th_domain_number th) st, pl_clock = c, pl_world = w,
       pl_host = perform_all tk th clk [] (trace w) \<lparr>timeouts = Map.empty, runtime = x\<rparr>, pl_log = []\<rparr> = Some (Inr l)"
    and n: "n = \<lparr>ln_loop = l, ln_socket = (\<lambda>kind. case kind of Event \<Rightarrow> ev | General \<Rightarrow> gen), ln_buf = (\<lambda>_. replicate 2048 0)\<rparr>"
    by (auto simp: assemble_node_def Let_def map_sum_Inr split: option.splits)
  have "pl_log l = []"
    using p(2) by (auto simp: TokioPortsLoop_start_def TokioPortsLoop_process_system_def dest!: handled_log split: sum.splits option.splits)
  moreover have "physical_send_event (state_port st) = (\<lambda>_ _. True) \<and> physical_send_general (state_port st) = (\<lambda>_ _. True)"
    using p(1)
    by (auto simp: OrdinaryTokioClock_port_def OrdinaryTokioClock_new_def OrdinaryClock_port_def OrdinaryClock_new_def PortEnumeration_single_def
        PortEnumeration_sequential_def PortEnumeration_next_def Let_def profile_defs world_defs DomainPort_new_def fun_eq_iff
        TokioPhysicalPort_send_event_def TokioPhysicalPort_send_general_def loopback_physical_port_def
        SinglePortNotification_add_port_def SinglePortNotification_new_def)
  moreover have "continues th \<lparr>portmap = SingleDomainPortMap_new (th_domain_number th) st, pl_clock = c, pl_world = w,
       pl_host = perform_all tk th clk [] (trace w) \<lparr>timeouts = Map.empty, runtime = x\<rparr>, pl_log = []\<rparr> l"
    by (rule start_inv[OF built_inv[OF assms(1,2,5) p(1) assms(3,4)] p(2) assms(5)])
  ultimately show "node_ok th n" "ln_socket n = (\<lambda>kind. case kind of Event \<Rightarrow> ev | General \<Rightarrow> gen)"
    by (simp_all add: n node_ok_def continues_def loop_port_def SingleDomainPortMap_new_def PortFsm_new_def)
qed

lemma started_joined:
  assumes "network_started mp tk th net"
  shows "joined th (node_a net) (node_b net) (net_channels net) \<and>
    (\<forall>kind. mp_items mp (net_channels net) (lb_rx (ln_socket (node_a net) kind)) = sent kind (ln_trace (node_b net)) \<and>
       mp_items mp (net_channels net) (lb_rx (ln_socket (node_b net) kind)) = sent kind (ln_trace (node_a net)))"
  using assms
proof (induction rule: network_started.induct)
  case (network_assembled ds_a ds_b pr_a pr_b x_a x_b clk_a clk_b c0 ev_a ev_b c1 gen_a gen_b c2 time_scale_a a time_scale_b b)
  note a = assembled_ok[OF network_assembled(1,3,5,6,9,13)] and b = assembled_ok[OF network_assembled(2,4,7,8,10,14)]
  have w: "wired (ln_socket a) (ln_socket b)"
    using pair_new[OF network_assembled(11)] pair_new[OF network_assembled(12)]
    by (auto simp: wired_def a(2) b(2) split: RxKind.splits)
  have w': "lb_tx (ln_socket a Event) \<noteq> lb_tx (ln_socket a General)" "lb_tx (ln_socket b Event) \<noteq> lb_tx (ln_socket b General)"
    using w by (auto simp: wired_def)
  have c2: "mp_items mp c2 (lb_rx (ln_socket a kind)) = []" "mp_items mp c2 (lb_rx (ln_socket b kind)) = []" for kind
    using pair_new[OF network_assembled(11)] pair_new[OF network_assembled(12)] by (auto simp: a(2) b(2) split: RxKind.splits)
  have "mp_items mp (transmit mp (ln_socket b) (ln_trace b) (transmit mp (ln_socket a) (ln_trace a) c2)) (lb_rx (ln_socket a kind))
      = sent kind (ln_trace b)"
    "mp_items mp (transmit mp (ln_socket b) (ln_trace b) (transmit mp (ln_socket a) (ln_trace a) c2)) (lb_rx (ln_socket b kind))
      = sent kind (ln_trace a)" for kind
    using w c2[of kind] by (cases kind; auto simp: transmit_items[OF w'(1)] transmit_items[OF w'(2)] wired_def)+
  with a(1) b(1) w show ?case by (simp add: joined_def)
qed

text \<open>A turn of a joined network: the node whose turn it is takes what it is handed off its sockets and adds what it sends to its peer's.\<close>

lemma step_joined:
  assumes j: "joined th (node_a net) (node_b net) (net_channels net)" and bf: "documented_bitflags bf" and clk: "\<forall>es. wf_ts (clk es)"
    and step: "network_step mp tk th clk bf s t net = Some net'" and s': "s' = (case s of A \<Rightarrow> B | B \<Rightarrow> A)"
  shows "joined th (node_a net') (node_b net') (net_channels net')" "net_node net' s' = net_node net s'"
    "ln_socket (net_node net' s) = ln_socket (net_node net s)"
    "mp_items mp (net_channels net) (lb_rx (ln_socket (net_node net s) kind)) =
      handed mp t (net_node net s) (net_channels net) kind @ mp_items mp (net_channels net') (lb_rx (ln_socket (net_node net s) kind))"
    "\<exists>es. ln_trace (net_node net' s) = ln_trace (net_node net s) @ es \<and>
      (\<forall>kind. mp_items mp (net_channels net') (lb_rx (ln_socket (net_node net s') kind)) =
        mp_items mp (net_channels net) (lb_rx (ln_socket (net_node net s') kind)) @ sent kind es)"
proof -
  let ?n = "net_node net s" and ?c = "net_channels net"
  obtain n c where n: "loopback_step mp tk th clk bf t ?n ?c = Some (n, c)" "net_node net' s = n" "net_channels net' = c"
    and same: "net_node net' s' = net_node net s'"
    using step s' by (cases s) (auto simp: network_step_def net_node_def)
  have j': "joined th ?n (net_node net s') ?c" using j joined_sym s' by (cases s) (auto simp: net_node_def)
  then have ok: "node_ok th ?n" by (simp add: joined_def)
  have t: "turned th ?n ?c n c"
    using loopback_step_turned[OF ok bf clk, of ?c t] joined_frames[OF j'] n(1) by (auto split: if_splits)
  note J = turned_joined[OF j' t]
  show "joined th (node_a net') (node_b net') (net_channels net')"
    using J(1) joined_sym n(2,3) same s' by (cases s) (auto simp: net_node_def)
  show "net_node net' s' = net_node net s'" by (rule same)
  show "ln_socket (net_node net' s) = ln_socket ?n" using t n(2) by (simp add: turned_def)
  show "mp_items mp ?c (lb_rx (ln_socket ?n kind)) = handed mp t ?n ?c kind @ mp_items mp (net_channels net') (lb_rx (ln_socket ?n kind))"
    using handed_received[OF j' n(1)] n(3) by simp
  show "\<exists>es. ln_trace (net_node net' s) = ln_trace ?n @ es \<and>
      (\<forall>kind. mp_items mp (net_channels net') (lb_rx (ln_socket (net_node net s') kind)) =
        mp_items mp ?c (lb_rx (ln_socket (net_node net s') kind)) @ sent kind es)"
    using J(2) n(2,3) by simp
qed

lemma runs_joined:
  assumes "network_runs mp tk th bf net" "documented_bitflags bf"
  shows "joined th (node_a net) (node_b net) (net_channels net)"
  using assms(1)
proof (induction rule: network_runs.induct)
  case (network_starts net)
  then show ?case by (rule started_joined[THEN conjunct1])
next
  case (network_goes net clk s t net')
  show ?case by (rule step_joined(1)[OF network_goes.IH assms(2) network_goes(2,3) refl])
qed

text \<open>What a node was handed and what it has still to receive is what its peer has sent.\<close>

lemma history_sent:
  assumes "network_history mp tk th bf net hist" "documented_bitflags bf"
  shows "joined th (node_a net) (node_b net) (net_channels net) \<and>
    (\<forall>(s, s') \<in> {(A, B), (B, A)}. \<forall>kind.
       hist s kind @ mp_items mp (net_channels net) (lb_rx (ln_socket (net_node net s) kind)) = sent kind (ln_trace (net_node net s')))"
  using assms(1)
proof (induction rule: network_history.induct)
  case (history_starts net)
  with started_joined[OF this] show ?case by (simp add: net_node_def)
next
  case (history_goes net hist clk s t net')
  let ?s' = "case s of A \<Rightarrow> B | B \<Rightarrow> A"
  have j: "joined th (node_a net) (node_b net) (net_channels net)" using history_goes.IH by simp
  note S = step_joined[OF j assms(2) history_goes(2,3) refl]
  have h: "hist s kind @ mp_items mp (net_channels net) (lb_rx (ln_socket (net_node net s) kind)) = sent kind (ln_trace (net_node net ?s'))"
    "hist ?s' kind @ mp_items mp (net_channels net) (lb_rx (ln_socket (net_node net ?s') kind)) = sent kind (ln_trace (net_node net s))" for kind
    using history_goes.IH by (cases s; simp)+
  let ?h = "hist(s := \<lambda>kind. hist s kind @ handed mp t (net_node net s) (net_channels net) kind)"
  have own: "?h s kind @ mp_items mp (net_channels net') (lb_rx (ln_socket (net_node net' s) kind)) = sent kind (ln_trace (net_node net' ?s'))" for kind
    using h(1)[of kind] S(4)[of kind] by (simp add: S(2,3))
  obtain es where es: "ln_trace (net_node net' s) = ln_trace (net_node net s) @ es"
    "\<forall>kind. mp_items mp (net_channels net') (lb_rx (ln_socket (net_node net ?s') kind)) =
       mp_items mp (net_channels net) (lb_rx (ln_socket (net_node net ?s') kind)) @ sent kind es" using S(5) by blast
  have ne: "?h ?s' = hist ?s'" by (cases s) simp_all
  have "?h ?s' kind @ mp_items mp (net_channels net') (lb_rx (ln_socket (net_node net' ?s') kind)) = sent kind (ln_trace (net_node net' s))" for kind
    unfolding S(2) ne using h(2)[of kind] by (simp add: es flip: append_assoc)
  with own S(1) show ?case by (cases s) auto
qed

lemma network_step_panics:
  assumes j: "joined th (node_a net) (node_b net) (net_channels net)" and bf: "documented_bitflags bf"
    and clk: "\<forall>es. wf_ts (clk es)"
  shows "network_step mp tk th clk bf s t net = None \<longleftrightarrow> t = Serve \<and>
    loop_panics th (ln_loop (case s of A \<Rightarrow> node_a net | B \<Rightarrow> node_b net)) SystemReady"
proof -
  have ok: "node_ok th (node_a net)" "node_ok th (node_b net)" using j by (simp_all add: joined_def)
  show ?thesis
    using loopback_step_turned[OF ok(1) bf clk, of "net_channels net" t] joined_frames[OF j]
      loopback_step_turned[OF ok(2) bf clk, of "net_channels net" t] joined_frames[OF joined_sym[OF j]]
    by (cases s) (auto simp: network_step_def split: if_splits)
qed

end


subsection \<open>Lemmas: the clock steps of a node\<close>

text \<open>\<open>sleep\<close> returns no earlier than its delay.\<close>

fun wakes_after :: "nat \<Rightarrow> (nat \<times> TimeInterval) list \<Rightarrow> (nat \<times> nat) list \<Rightarrow> bool" where
  "wakes_after start [] is \<longleftrightarrow> is = []"
| "wakes_after start (_ # sched) [] \<longleftrightarrow> False"
| "wakes_after start ((delay, step_by) # sched) ((i, j) # is) \<longleftrightarrow>
     start + delay \<le> i \<and> i \<le> j \<and> i < start + 2 ^ 53 \<and> wakes_after j sched is"

text \<open>The sum of the steps, less the time between the readings and the steps.\<close>

definition stepped_by :: "(nat \<times> TimeInterval) list \<Rightarrow> (nat \<times> nat) list \<Rightarrow> int" where
  "stepped_by sched is = sum_list (map (\<lambda>(d, t). ti_total t) sched) - sum_list (map (\<lambda>(i, j). int (j - i)) is)"

lemma clock_steps_ahead:
  assumes "ahead_of M c e" "wakes_after (vc_start c) sched is" "\<forall>(d, t) \<in> set sched. wf_ti t \<and> 0 \<le> ti_total t"
    and "\<forall>(i, j) \<in> set is. M + e + int i + sum_list (map (\<lambda>(d, t). ti_total t) sched) < ts_limit"
  shows "\<exists>c'. clock_steps_task sched is c = Some c' \<and> ahead_of M c' (e + stepped_by sched is) \<and>
    vc_start c' = last (vc_start c # map snd is)"
  using assms
proof (induction sched "is" c arbitrary: e rule: clock_steps_task.induct)
  case (3 delay step_by sched i j "is" c)
  let ?s = "ti_total step_by" and ?r = "sum_list (map (\<lambda>(d, t). ti_total t) sched)"
  have i: "vc_start c \<le> i" "i \<le> j" "i < vc_start c + 2 ^ 53" and rest: "wakes_after j sched is" using "3.prems"(2) by simp_all
  have r: "0 \<le> ?r" using "3.prems"(3) by (fastforce intro!: sum_list_nonneg)
  have s: "wf_ti step_by" "0 \<le> ?s" using "3.prems"(3) by simp_all
  have lim: "M + e + int i + ?s + ?r < ts_limit" using "3.prems"(4) by (simp add: ac_simps)
  obtain u where u: "VirtualClock_now c i = Some u" "wf_ts u" "ts_total u = M + int i + e"
    using ahead_of_reading[OF "3.prems"(1) i(1,3)] lim r s(2) by auto
  have "0 \<le> ts_total u" using u(2) by (simp add: wf_ts_D)
  then obtain v where v: "wf_ts v" "ts_total v = ts_total u + ?s"
    using ts_of_total[of "ts_total u + ?s"] u(3) s(2) lim r by auto
  then have add: "TimeStamp_checked_add u step_by = Some v" using TimeStamp_checked_add_iff[OF u(2) s(1)] by simp
  let ?e = "e + ?s - int (j - i)"
  have a: "ahead_of M (VirtualClock_step c v j) ?e"
    using "3.prems"(1) u(3) v i by (simp add: ahead_of_def VirtualClock_step_def of_nat_diff)
  have st: "vc_start (VirtualClock_step c v j) = j" by (simp add: VirtualClock_step_def)
  have "\<forall>(i, j) \<in> set is. M + ?e + int i + ?r < ts_limit"
    using "3.prems"(4) by (auto simp: ac_simps)
  with "3.IH"[OF u(1), of ?e] a rest "3.prems"(3) add u(1) st show ?case
    by (auto simp: stepped_by_def algebra_simps)
qed (auto simp: stepped_by_def)


subsection \<open>Channels and a start of the demo\<close>

text \<open>The items of every channel and the number of channels: an instance of what Tokio documents.\<close>

definition demo_mpsc :: "((nat \<Rightarrow> bytes list) \<times> nat) mpsc" where
  "demo_mpsc =
     \<lparr>mp_channel = (\<lambda>(q, n). (n, (q(n := []), Suc n))), mp_send = (\<lambda>(q, n) a b. (q(a := q a @ [b]), n)),
      mp_recv = (\<lambda>(q, n) a. case q a of [] \<Rightarrow> None | b # r \<Rightarrow> Some (b, (q(a := r), n))),
      mp_items = fst, mp_open = (\<lambda>(q, n). {..<n})\<rparr>"

lemma demo_mpsc_documented: "documented_mpsc demo_mpsc"
  by (auto simp: documented_mpsc_def demo_mpsc_def lessThan_Suc split: list.splits)

interpretation demo_net: loopback_net demo_tokio demo_mpsc
  by unfold_locales (rule demo_mpsc_documented)

lemma demo_configs_wf:
  "wf_ds (cfg_default_ds master_config)" "wf_ds (cfg_default_ds slave_config)"
  "wf_profile (PortProfile_with_servo_config (cfg_profile master_config) (PiConfig (cfg_servo master_config)))"
  "wf_profile (PortProfile_with_servo_config (cfg_profile slave_config) (PiConfig (cfg_servo slave_config)))"
proof -
  obtain y where y: "f64_round (1 / 1000000000) = Fin y" "0 \<le> y"
    using f64_round_bounded[of "1 / 1000000000" 0] by auto
  have "f64_le (f64_neg z) z" if "f64_le (Fin 0) z" for z using that by (cases z) auto
  from this[OF f64_round_nonneg[of "100000 * y"]] y(2)
  have le: "f64_le (drift (Drift_from_ppb (-100000))) (drift (Drift_from_ppb 100000))"
    by (simp add: Drift_from_ppb_def y(1) f64_of_int_exact f64_round_minus)
  show "wf_ds (cfg_default_ds master_config)" "wf_ds (cfg_default_ds slave_config)"
    by (simp_all add: master_config_def slave_config_def wf_ds_def canonical_quality_def ClockClass_new_def ClockAccuracy_new_def)
  show "wf_profile (PortProfile_with_servo_config (cfg_profile master_config) (PiConfig (cfg_servo master_config)))"
    "wf_profile (PortProfile_with_servo_config (cfg_profile slave_config) (PiConfig (cfg_servo slave_config)))"
    using wf_profile_default le by (simp_all add: wf_profile_def PortProfile_with_servo_config_def master_config_def slave_config_def)
qed

lemma grafana_main_runs:
  assumes "grafana_main mp tk clk_a clk_b i c x_a x_b = Some (Inr net)" "\<forall>es. wf_ts (clk_a es)" "\<forall>es. wf_ts (clk_b es)"
    "tk_sleeping tk x_a = Map.empty" "tk_queue tk x_a = []" "tk_sleeping tk x_b = Map.empty" "tk_queue tk x_b = []"
  shows "network_runs mp tk \<lparr>th_domain_number = DomainNumber 0\<rparr> bf net"
  using assms(1)
  by (auto simp: grafana_main_def PrometheusNode_run_def Let_def split: prod.splits option.splits sum.splits
      intro!: network_starts network_assembled[OF demo_configs_wf assms(4-7,2,3)])

definition demo_network :: "(executor, (nat \<Rightarrow> bytes list) \<times> nat) network option" where
  "demo_network =
     (case grafana_main demo_mpsc demo_tokio demo_clk demo_clk 0 ((\<lambda>_. []), 0) (Map.empty, [], 0) (Map.empty, [], 0) of
        Some (Inr net) \<Rightarrow> Some net
      | _ \<Rightarrow> None)"

lemma demo_mpsc_simps [simp]:
  "mp_channel demo_mpsc (q, n) = (n, (q(n := []), Suc n))" "mp_send demo_mpsc (q, n) a b = (q(a := q a @ [b]), n)"
  "mp_recv demo_mpsc (q, n) a = (case q a of [] \<Rightarrow> None | b # r \<Rightarrow> Some (b, (q(a := r), n)))"
  "mp_items demo_mpsc (q, n) = q"
  by (simp_all add: demo_mpsc_def)

lemma demo_network_starts: "\<exists>net. demo_network = Some net"
  unfolding demo_network_def grafana_main_def PrometheusNode_run_def assemble_node_def
  by (simp add: LoopbackSocket_pair_def demo_node_defs demo_deliver_defs world_defs Let_def PortProfile_with_servo_config_def
      master_config_def slave_config_def)

lemma demo_network_runs: "demo_network = Some net \<Longrightarrow> network_runs demo_mpsc demo_tokio demo_th bf net"
  unfolding demo_network_def demo_th_def
  by (rule grafana_main_runs[where clk_a = demo_clk and clk_b = demo_clk])
    (auto simp: demo_clk_def wf_ts_def demo_tokio_def split: option.splits sum.splits)

text \<open>Once its sockets are bound, the daemon comes up: its port listens, and the one task that sleeps is its announce receipt timer.\<close>

lemma daemon_main_listens:
  assumes "documented_tokio tk" "tk_sleeping tk x = Map.empty" "tk_queue tk x = []"
  shows "\<exists>l s h. daemon_main tk clk (Inr ev) (Inr gen) i x = Some (Inr l) \<and> daemon_runs tk \<lparr>th_domain_number = DomainNumber 0\<rparr> clk bf l \<and>
    fsm_state (port_fsm (portmap l)) = Some (Listening s) \<and> tk_queue tk (runtime (pl_host l)) = [] \<and>
    tk_sleeping tk (runtime (pl_host l)) = [h \<mapsto> (DomainNumber 0, AnnounceReceiptTimeout)]"
proof -
  have ds: "wf_ds main_default_ds" by (simp add: main_default_ds_def wf_ds_def canonical_quality_def ClockClass_new_def ClockAccuracy_new_def)
  have pr: "wf_profile (PortProfile_with_servo_config PortProfile_default SteppingConfig)"
    using wf_profile_default by (simp add: wf_profile_def PortProfile_with_servo_config_def)
  have spawn: "tk_sleeping tk (snd (tk_spawn tk x d j)) = [fst (tk_spawn tk x d j) \<mapsto> j]" "tk_queue tk (snd (tk_spawn tk x d j)) = []" for d j
    using tokio_runtime.spawn_new(3,4)[OF tokio_runtime.intro[OF assms(1)] surjective_pairing[of "tk_spawn tk x d j"]] assms(2,3) by simp_all
  have "\<exists>l s h. daemon_main tk clk (Inr ev) (Inr gen) i x = Some (Inr l) \<and> fsm_state (port_fsm (portmap l)) = Some (Listening s) \<and>
    tk_queue tk (runtime (pl_host l)) = [] \<and> tk_sleeping tk (runtime (pl_host l)) = [h \<mapsto> (DomainNumber 0, AnnounceReceiptTimeout)]"
    unfolding daemon_main_def
    by (simp add: demo_node_defs demo_deliver_defs world_defs Let_def split_def spawn) blast
  then obtain l s h where l: "daemon_main tk clk (Inr ev) (Inr gen) i x = Some (Inr l)" "fsm_state (port_fsm (portmap l)) = Some (Listening s)"
    "tk_queue tk (runtime (pl_host l)) = []" "tk_sleeping tk (runtime (pl_host l)) = [h \<mapsto> (DomainNumber 0, AnnounceReceiptTimeout)]"
    by blast
  have "daemon_runs tk \<lparr>th_domain_number = DomainNumber 0\<rparr> clk bf l"
    using l(1) unfolding daemon_main_def
    by (auto simp: Let_def OrdinaryTokioClock_new_def OrdinaryClock_new_def split: option.splits prod.splits sum.splits
        intro!: daemon_starts[OF ds pr _ assms(2,3)])
  with l show ?thesis by blast
qed

text \<open>Turns in a sequence, with one clock for both nodes.\<close>

fun network_turns ::
    "'c mpsc \<Rightarrow> 'x tokio \<Rightarrow> TokioTimerHost \<Rightarrow> (effect list \<Rightarrow> TimeStamp) \<Rightarrow> bitflags \<Rightarrow> (side \<times> node_turn) list \<Rightarrow>
     ('x, 'c) network \<Rightarrow> ('x, 'c) network option" where
  "network_turns mp tk th clk bf [] net = Some net"
| "network_turns mp tk th clk bf ((s, t) # ts) net =
     (case network_step mp tk th clk bf s t net of None \<Rightarrow> None | Some net \<Rightarrow> network_turns mp tk th clk bf ts net)"

lemma network_runs_history: "network_runs mp tk th bf net \<Longrightarrow> \<exists>hist. network_history mp tk th bf net hist"
  by (induction rule: network_runs.induct) (blast intro: history_starts history_goes)+

lemma network_turns_runs:
  "network_runs mp tk th bf net \<Longrightarrow> \<forall>es. wf_ts (clk es) \<Longrightarrow> network_turns mp tk th clk bf ts net = Some net' \<Longrightarrow>
    network_runs mp tk th bf net'"
proof (induction ts arbitrary: net)
  case (Cons u ts)
  obtain s t where "u = (s, t)" by (cases u)
  with Cons show ?case using network_goes[OF Cons.prems(1,2)] by (auto split: option.splits)
qed simp

definition demo_turns :: "(side \<times> node_turn) list" where
  "demo_turns = [(A, TaskWakes 0), (A, Serve), (A, Serve), (A, TaskWakes 1), (A, Serve)]"

lemma alone_is_master:
  "\<exists>p. bmca_outcome n d0 Empty Empty = DecideMaster \<lparr>decision_point = p, decision_grandmaster_ds = d0\<rparr>"
  by (simp add: bmca_outcome_def AuthoritativeDecision_decision_def NonAuthoritativeDecision_decision_def
      LocalDS_is_better_or_better_by_topology_def LocalDS_new_def)

lemma demo_announces:
  "\<exists>net net' f. demo_network = Some net \<and>
     network_turns demo_mpsc demo_tokio demo_th demo_clk demo_bitflags demo_turns net = Some net' \<and>
     mp_items demo_mpsc (net_channels net') (lb_rx (ln_socket (node_b net') General)) = [f] \<and> sent General (ln_trace (node_a net')) = [f]"
proof -
  obtain p where p: "bmca_outcome (PortNumber 1) (cfg_default_ds master_config) Empty Empty
      = DecideMaster \<lparr>decision_point = p, decision_grandmaster_ds = cfg_default_ds master_config\<rparr>"
    using alone_is_master by blast
  have c: "cfg_profile master_config = PortProfile_default" "cfg_profile slave_config = PortProfile_default"
    by (simp_all add: master_config_def slave_config_def)
  show ?thesis
    unfolding demo_network_def grafana_main_def PrometheusNode_run_def assemble_node_def demo_turns_def c
    by (simp add: LoopbackSocket_pair_def demo_node_defs demo_deliver_defs world_defs Let_def PortProfile_with_servo_config_def
        network_step_def loopback_step_defs TokioPortsLoop_step_def p decision_event_defs Duration_as_u64_nanos_def
        Duration_from_secs_def MasterPort_send_announce_def DomainPort_send_general_def AnnounceCycle_next_def fault_on_error_def
        TokioPhysicalPort_send_general_def loopback_physical_port_def LoopbackSocket_try_send_def)
qed

subsection \<open>Properties\<close>

text \<open>C11: Two nodes joined by loopback sockets, in any run: a turn of one of them panics exactly when it serves an announce receipt
  timeout and its port is master. No datagram that a peer can send brings a node down, and
  no datagram is longer than what the socket has copied into the buffer.\<close>

theorem network_panics_iff:
  assumes "documented_tokio tk" and "documented_mpsc mp" and "documented_bitflags bf" and "network_runs mp tk th bf net"
    and "\<forall>es. wf_ts (clk es)"
  shows "network_step mp tk th clk bf s t net = None \<longleftrightarrow>
    t = Serve \<and> (let l = ln_loop (case s of A \<Rightarrow> node_a net | B \<Rightarrow> node_b net) in
      \<exists>m q. fsm_state (port_fsm (portmap l)) = Some (Master m) \<and>
        tk_queue tk (runtime (pl_host l)) = (th_domain_number th, AnnounceReceiptTimeout) # q)"
proof -
  have net: "loopback_net tk mp" using assms(1,2) by (simp add: loopback_net_def tokio_runtime_def loopback_net_axioms_def)
  then have rt: "tokio_runtime tk" by (simp add: loopback_net_def)
  from loopback_net.network_step_panics[OF net loopback_net.runs_joined[OF net assms(4,3)] assms(3,5), of s t]
  show ?thesis by (simp add: tokio_runtime.loop_panics_def[OF rt] Let_def)
qed

theorem network_panics_iff_witness:
  "\<exists>net net'. demo_network = Some net \<and>
     network_turns demo_mpsc demo_tokio demo_th demo_clk demo_bitflags demo_turns net = Some net' \<and>
     network_step demo_mpsc demo_tokio demo_th demo_clk demo_bitflags B (Receive General (Instant_from_secs 1)) net' \<noteq> None"
proof -
  obtain net net' where n: "demo_network = Some net"
      "network_turns demo_mpsc demo_tokio demo_th demo_clk demo_bitflags demo_turns net = Some net'"
    using demo_announces by blast
  have clk: "\<forall>es. wf_ts (demo_clk es)" by (simp add: demo_clk_def wf_ts_def)
  from network_panics_iff[OF demo_tokio_documented demo_mpsc_documented demo_bitflags_documented
      network_turns_runs[OF demo_network_runs[OF n(1)] clk n(2)] clk, of B "Receive General (Instant_from_secs 1)"] n
  show ?thesis by auto
qed

text \<open>C10: Nothing is lost, reordered, changed or made up between two nodes joined by loopback sockets, and nothing is refused: at any
  time of a run, the datagrams of a kind that the loop of a node has been handed, followed by those that wait in
  its socket's channel, are exactly the frames of that kind that its peer has sent, in the order they were
  sent. The parser accepts every frame that was sent, with the domain of the nodes and the identity of
  the peer's port, and neither loop has logged a datagram that it dropped.\<close>

theorem network_delivers:
  assumes "documented_tokio tk" and "documented_mpsc mp" and "documented_bitflags bf" and "network_history mp tk th bf net hist"
  shows "\<forall>(s, n, peer) \<in> {(A, node_a net, node_b net), (B, node_b net, node_a net)}.
    pl_log (ln_loop n) = [] \<and>
    (\<forall>kind. hist s kind @ mp_items mp (net_channels net) (lb_rx (ln_socket n kind)) = sent kind (ln_trace peer)) \<and>
    (\<forall>f \<in> set (sent Event (ln_trace peer)). \<exists>m. wf_event m \<and>
       parse_event bf Inr f = Inr (th_domain_number th, port_identity (loop_port (ln_loop peer)), m)) \<and>
    (\<forall>f \<in> set (sent General (ln_trace peer)). \<exists>m. wf_general m \<and>
       parse_general bf Inr f = Inr (th_domain_number th, port_identity (loop_port (ln_loop peer)), m))"
proof -
  have net: "loopback_net tk mp" using assms(1,2) by (simp add: loopback_net_def tokio_runtime_def loopback_net_axioms_def)
  note H = loopback_net.history_sent[OF net assms(4,3)]
  then have j: "loopback_net.joined tk mp th (node_a net) (node_b net) (net_channels net)" by simp
  from H loopback_net.joined_delivers[OF net j assms(3)] loopback_net.joined_delivers[OF net loopback_net.joined_sym[OF net j] assms(3)]
  show ?thesis by (simp add: net_node_def)
qed

theorem network_delivers_witness:
  "\<exists>net net' net'' hist f m. demo_network = Some net \<and>
     network_turns demo_mpsc demo_tokio demo_th demo_clk demo_bitflags demo_turns net = Some net' \<and>
     network_step demo_mpsc demo_tokio demo_th demo_clk demo_bitflags B (Receive General (Instant_from_secs 1)) net' = Some net'' \<and>
     network_history demo_mpsc demo_tokio demo_th demo_bitflags net'' hist \<and> sent General (ln_trace (node_a net'')) = [f] \<and>
     hist B General = [f] \<and> mp_items demo_mpsc (net_channels net'') (lb_rx (ln_socket (node_b net'') General)) = [] \<and> wf_general m \<and>
     parse_general demo_bitflags Inr f = Inr (DomainNumber 0, port_identity (loop_port (ln_loop (node_a net''))), m)"
proof -
  let ?step = "network_step demo_mpsc demo_tokio demo_th demo_clk demo_bitflags B (Receive General (Instant_from_secs 1))"
  obtain net net' f where n: "demo_network = Some net"
      "network_turns demo_mpsc demo_tokio demo_th demo_clk demo_bitflags demo_turns net = Some net'"
      "mp_items demo_mpsc (net_channels net') (lb_rx (ln_socket (node_b net') General)) = [f]" "sent General (ln_trace (node_a net')) = [f]"
    using demo_announces by blast
  have clk: "\<forall>es. wf_ts (demo_clk es)" by (simp add: demo_clk_def wf_ts_def)
  obtain hist where h: "network_history demo_mpsc demo_tokio demo_th demo_bitflags net' hist"
    using network_runs_history[OF network_turns_runs[OF demo_network_runs[OF n(1)] clk n(2)]] by blast
  note H = demo_net.history_sent[OF h demo_bitflags_documented]
  then have j: "demo_net.joined demo_th (node_a net') (node_b net') (net_channels net')"
    and "hist B General @ mp_items demo_mpsc (net_channels net') (lb_rx (ln_socket (node_b net') General)) = sent General (ln_trace (node_a net'))"
    by (simp_all add: net_node_def)
  then have e: "hist B General = []" unfolding n(3,4) by simp
  obtain net'' where s: "?step net' = Some net''"
    using demo_net.network_step_panics[OF j demo_bitflags_documented clk, of B "Receive General (Instant_from_secs 1)"] by auto
  have a: "node_a net'' = node_a net'" using demo_net.step_joined(2)[OF j demo_bitflags_documented clk s refl] by (simp add: net_node_def)
  have "handed demo_mpsc (Receive General (Instant_from_secs 1)) (node_b net') (net_channels net') General = [f]"
    using demo_net.handed_frame[of demo_th "node_b net'" "net_channels net'" General f "[]" "Instant_from_secs 1" General]
      demo_net.joined_frames[OF demo_net.joined_sym[OF j], of f General] n(3) j by (auto simp: demo_net.joined_def dest: frame_of_length)
  then obtain hist2 where h2: "network_history demo_mpsc demo_tokio demo_th demo_bitflags net'' hist2" "hist2 B General = [f]"
    using that[OF history_goes[OF h clk s]] e by (simp add: net_node_def)
  from network_delivers[OF demo_tokio_documented demo_mpsc_documented demo_bitflags_documented h2(1),
      THEN bspec[where x = "(B, node_b net'', node_a net'')"]]
  have d: "hist2 B General @ mp_items demo_mpsc (net_channels net'') (lb_rx (ln_socket (node_b net'') General)) = sent General (ln_trace (node_a net''))"
    "\<forall>f \<in> set (sent General (ln_trace (node_a net''))). \<exists>m. wf_general m \<and>
       parse_general demo_bitflags Inr f = Inr (th_domain_number demo_th, port_identity (loop_port (ln_loop (node_a net''))), m)"
    by simp_all
  then obtain m where "wf_general m" "parse_general demo_bitflags Inr f = Inr (DomainNumber 0, port_identity (loop_port (ln_loop (node_a net''))), m)"
    using n(4) a by (auto simp: demo_th_def)
  moreover have "mp_items demo_mpsc (net_channels net'') (lb_rx (ln_socket (node_b net'') General)) = []" "sent General (ln_trace (node_a net'')) = [f]"
    using d(1) n(4) h2(2) a by simp_all
  ultimately show ?thesis using n(1,2) s h2 by blast
qed

text \<open>C22: The clock of the demo's master: from 2 s at its start, after the two steps of its schedule it shows the time since the start and
  a second more than the 2 s, less the time that passed between the reading and the
  setting of the clock in each step. The steps come no earlier than 90 s and 100 s after the start.\<close>

theorem demo_master_steps:
  assumes "wakes_after i0 (clock_steps master_config) [(i1, j1), (i2, j2)]" and "j2 \<le> i" and "i < j2 + 2 ^ 53" and "i < 2 ^ 60"
  shows "\<exists>c u. clock_steps_task (clock_steps master_config) [(i1, j1), (i2, j2)] (PrometheusNode_clock master_config i0) = Some c \<and>
    VirtualClock_now c i = Some u \<and> ts_total u = 3000000000 + int (i - i0) - int (j1 - i1) - int (j2 - i2) \<and>
    i0 + 90000000000 \<le> i1 \<and> i0 + 100000000000 \<le> i2"
proof -
  let ?c = "PrometheusNode_clock master_config i0" and ?M = "2000000000 - int i0"
  have c: "ahead_of ?M ?c 0" "vc_start ?c = i0"
    by (simp_all add: PrometheusNode_clock_def VirtualClock_new_def master_config_def ahead_of_def wf_ts_def ts_total_def)
  have t: "map (\<lambda>(d, t). ti_total t) (clock_steps master_config) = [750000000, 250000000]"
    "\<forall>(d, t) \<in> set (clock_steps master_config). wf_ti t \<and> 0 \<le> ti_total t"
    by (simp_all add: master_config_def TimeInterval_total_nanos_def wf_ti_def in_i64_def i64_MIN_def i64_MAX_def)
  have i: "i0 + 90000000000 \<le> i1" "i1 \<le> j1" "j1 + 10000000000 \<le> i2" "i2 \<le> j2" using assms(1) by (simp_all add: master_config_def)
  have lim: "int k + 4000000000 < ts_limit" if "k \<le> i" for k using that assms(4) by (simp add: ts_limit_def)
  obtain c' where c': "clock_steps_task (clock_steps master_config) [(i1, j1), (i2, j2)] ?c = Some c'"
    "ahead_of ?M c' (stepped_by (clock_steps master_config) [(i1, j1), (i2, j2)])" "vc_start c' = j2"
    using clock_steps_ahead[OF c(1), of "clock_steps master_config" "[(i1, j1), (i2, j2)]"] assms(1,2) c(2) t i lim[of i1] lim[of i2] by auto
  have "stepped_by (clock_steps master_config) [(i1, j1), (i2, j2)] = 1000000000 - int (j1 - i1) - int (j2 - i2)"
    by (simp add: stepped_by_def t(1))
  with ahead_of_reading[OF c'(2), of i] c'(3) assms(2,3) lim[of i] i
  have "\<exists>u. VirtualClock_now c' i = Some u \<and> ts_total u = 3000000000 + int (i - i0) - int (j1 - i1) - int (j2 - i2)"
    by (simp add: of_nat_diff algebra_simps) (metis)
  with c'(1) i show ?thesis by auto
qed

theorem demo_master_steps_witness:
  "\<exists>c u. clock_steps_task (clock_steps master_config) [(90000000000, 90000000000), (100000000000, 100000000000)]
      (PrometheusNode_clock master_config 0) = Some c \<and> VirtualClock_now c 120000000000 = Some u \<and> ts_total u = 123000000000"
  using demo_master_steps[of 0 90000000000 90000000000 100000000000 100000000000 120000000000]
  by (auto simp: master_config_def)

end
