(* ===== verification/Ptp_Exchange.thy ===== *)
theory Ptp_Exchange
  imports Ptp_Network
begin

section \<open>A synchronisation over the network\<close>

text \<open>
  Two daemon nodes on loopback sockets, each with its own \<^verbatim>\<open>VirtualClock\<close>: the clock that stamps what the node receives and sends is the one
  that its servo sets. The lemmas follow one delay request and one two-step sync from the timers of the
  nodes through both state machines, the frames, the channels and the parsers to the step of the slave's clock.
\<close>

subsection \<open>Nodes with clocks\<close>


record ('x, 'c) clocked_network =
  cn_net :: "('x, 'c) network"
  cn_clock :: "side \<Rightarrow> VirtualClock"

text \<open>
  A turn of a node at the instant \<open>i\<close>: every reading of its clock in the turn is that at \<open>i\<close>, and the calls of its port to the clock
  happen at \<open>i\<close>. \<open>None\<close> is a panic.
\<close>

definition clocked_step ::
    "'c mpsc \<Rightarrow> 'x tokio \<Rightarrow> TokioTimerHost \<Rightarrow> bitflags \<Rightarrow> side \<Rightarrow> node_turn \<Rightarrow> nat \<Rightarrow> ('x, 'c) clocked_network \<Rightarrow>
     ('x, 'c) clocked_network option" where
  "clocked_step mp tk th bf s t i cn = do {
     now \<leftarrow> VirtualClock_now (cn_clock cn s) i;
     net \<leftarrow> network_step mp tk th (\<lambda>_. now) bf s t (cn_net cn);
     c \<leftarrow> virtual_calls i (drop (length (ln_trace (net_node (cn_net cn) s))) (ln_trace (net_node net s))) (cn_clock cn s);
     Some \<lparr>cn_net = net, cn_clock = (cn_clock cn)(s := c)\<rparr>
   }"

fun clocked_turns ::
    "'c mpsc \<Rightarrow> 'x tokio \<Rightarrow> TokioTimerHost \<Rightarrow> bitflags \<Rightarrow> (side \<times> node_turn \<times> nat) list \<Rightarrow> ('x, 'c) clocked_network \<Rightarrow>
     ('x, 'c) clocked_network option" where
  "clocked_turns mp tk th bf [] cn = Some cn"
| "clocked_turns mp tk th bf ((s, t, i) # ts) cn =
     (case clocked_step mp tk th bf s t i cn of None \<Rightarrow> None | Some cn \<Rightarrow> clocked_turns mp tk th bf ts cn)"

subsection \<open>Lemmas: what a handler does\<close>

text \<open>Effects that neither set the clock nor put a message into the loop's channel, time stamps apart.\<close>

fun quiet_effect :: "effect \<Rightarrow> bool" where
  "quiet_effect (StateDecisionTriggered n s) \<longleftrightarrow> False"
| "quiet_effect (TimerRestartedWith k m d) \<longleftrightarrow> False"
| "quiet_effect (ClockStepped t) \<longleftrightarrow> False"
| "quiet_effect (ClockAdjusted r) \<longleftrightarrow> False"
| "quiet_effect _ \<longleftrightarrow> True"

abbreviation quiet_trace :: "effect list \<Rightarrow> bool" where
  "quiet_trace es \<equiv> list_all quiet_effect es"

fun to_stamp :: "effect list \<Rightarrow> EventMessage list" where
  "to_stamp [] = []"
| "to_stamp (StampEgress m # es) = m # to_stamp es"
| "to_stamp (_ # es) = to_stamp es"

definition acts ::
    "PortFsm \<Rightarrow> input \<Rightarrow> bytes list \<Rightarrow> bytes list \<Rightarrow> EventMessage list \<Rightarrow> PortFsm \<Rightarrow> bool" where
  "acts f i evs gens ms f' \<longleftrightarrow> (\<forall>w. \<exists>w' es. PortFsm_input f i w = Some (f', w') \<and> trace w' = trace w @ es \<and> quiet_trace es \<and>
     sent Event es = evs \<and> sent General es = gens \<and> to_stamp es = ms)"

abbreviation event_frame :: "DomainPort \<Rightarrow> EventMessage \<Rightarrow> bytes" where
  "event_frame p m \<equiv> EventMessage_to_wire m (fresh_buffer (domain_number p) (port_identity p))"

abbreviation general_frame :: "DomainPort \<Rightarrow> GeneralMessage \<Rightarrow> bytes" where
  "general_frame p m \<equiv> GeneralMessage_to_wire m (fresh_buffer (domain_number p) (port_identity p))"

lemmas acts_defs = acts_def PortFsm_process_event_message_def PortFsm_process_general_message_def PortFsm_process_system_message_def
  PortFsm_process_def PortState_dispatch_event_def PortState_dispatch_general_def PortState_dispatch_system_def
  DomainPort_send_event_def DomainPort_send_general_def fault_on_error_def world_defs Let_def

lemma follower_requests:
  assumes "follows_parent src st m" "physical_send_event (state_port st) = (\<lambda>_ _. True)"
  shows "\<exists>st'. acts \<lparr>fsm_state = Some st\<rparr> (SystemIn DelayRequestTimeout)
      [event_frame (state_port st) (DelayReq (DelayCycle_delay_request (delay_cycle m)))] []
      [DelayReq (DelayCycle_delay_request (delay_cycle m))] \<lparr>fsm_state = Some st'\<rparr> \<and>
    state_port st' = state_port st \<and>
    follows_parent src st' (m\<lparr>delay_cycle := (delay_cycle m)\<lparr>dc_sequence_id := SequenceId_next (dc_sequence_id (delay_cycle m))\<rparr>\<rparr>)"
  using assms
  by (cases st)
    (force simp: acts_defs SlavePort_send_delay_request_def UncalibratedPort_send_delay_request_def
      EndToEndDelayMechanism_delay_request_def DelayCycle_next_def)+

lemma follower_stamps_request:
  assumes "follows_parent src st m"
  shows "\<exists>st'. acts \<lparr>fsm_state = Some st\<rparr> (SystemIn (Timestamp \<lparr>event_msg = DelayReq req, egress_timestamp = t3\<rparr>)) [] [] []
      \<lparr>fsm_state = Some st'\<rparr> \<and> state_port st' = state_port st \<and>
    follows_parent src st' (EndToEndDelayMechanism_record_delay_request m req t3)"
  using assms
  by (cases st) (force simp: acts_defs SlavePort_process_delay_request_def UncalibratedPort_process_delay_request_def)+

lemma follower_gets_response:
  assumes "follows_parent src st m"
  shows "\<exists>st'. acts \<lparr>fsm_state = Some st\<rparr> (GeneralIn src (DelayResp resp) now) [] [] [] \<lparr>fsm_state = Some st'\<rparr> \<and>
    state_port st' = state_port st \<and> follows_parent src st' (EndToEndDelayMechanism_record_delay_response m resp)"
  using assms
  by (cases st) (force simp: acts_defs SlavePort_process_delay_response_def UncalibratedPort_process_delay_response_def
      ParentTrackingBmca_matches_parent_def ParentPortIdentity_matches_def)+

lemma follower_notes_sync:
  assumes "follows_parent src st m"
  shows "\<exists>st'. acts \<lparr>fsm_state = Some st\<rparr> (EventIn src (TwoStepSync sync) t2) [] [] [] \<lparr>fsm_state = Some st'\<rparr> \<and>
    state_port st' = state_port st \<and> follows_parent src st' (EndToEndDelayMechanism_record_two_step_sync m sync t2)"
  using assms
  by (cases st) (force simp: acts_defs SlavePort_process_two_step_sync_def UncalibratedPort_process_two_step_sync_def
      ParentTrackingBmca_matches_parent_def ParentPortIdentity_matches_def)+

lemma master_responds:
  assumes "physical_send_general (ma_port s) = (\<lambda>_ _. True)"
  shows "acts \<lparr>fsm_state = Some (Master s)\<rparr> (EventIn src (DelayReq req) t4) []
    [general_frame (ma_port s) (DelayResp (DelayRequestMessage_response req
       (LogInterval_log_message_interval (ma_log_min_delay_request_interval s)) t4 src))] []
    \<lparr>fsm_state = Some (Master s)\<rparr>"
  using assms by (auto simp: acts_defs MasterPort_process_delay_request_def)

lemma master_syncs:
  assumes "physical_send_event (ma_port s) = (\<lambda>_ _. True)"
  shows "\<exists>s'. acts \<lparr>fsm_state = Some (Master s)\<rparr> (SystemIn SyncTimeout)
    [event_frame (ma_port s) (TwoStepSync (SyncCycle_two_step_sync (ma_sync_cycle s)))] []
    [TwoStepSync (SyncCycle_two_step_sync (ma_sync_cycle s))] \<lparr>fsm_state = Some (Master s')\<rparr> \<and> ma_port s' = ma_port s"
  using assms by (force simp: acts_defs MasterPort_send_sync_def SyncCycle_next_def)

lemma master_follows_up:
  assumes "physical_send_general (ma_port s) = (\<lambda>_ _. True)"
  shows "acts \<lparr>fsm_state = Some (Master s)\<rparr> (SystemIn (Timestamp \<lparr>event_msg = TwoStepSync sync, egress_timestamp = t1\<rparr>)) []
    [general_frame (ma_port s) (FollowUpMsg (TwoStepSyncMessage_follow_up sync t1))] [] \<lparr>fsm_state = Some (Master s)\<rparr>"
  using assms by (auto simp: acts_defs MasterPort_send_follow_up_def)


subsection \<open>Lemmas: what a turn of a loop does\<close>

definition restarts :: "effect list \<Rightarrow> bool" where
  "restarts es \<longleftrightarrow> list_all (\<lambda>e. case e of TimerRestartedWith k m d \<Rightarrow> True | _ \<Rightarrow> False) es"

lemma run_triggers_restarts:
  "OrdinaryClock_run_triggers es c w = Some (c', w') \<Longrightarrow> \<exists>es'. trace w' = trace w @ es' \<and> restarts es'"
proof (induction es c w rule: OrdinaryClock_run_triggers.induct)
  case (2 n s es c w)
  then obtain c1 w1 where t: "OrdinaryClock_trigger c n s w = Some (c1, w1)" "OrdinaryClock_run_triggers es c1 w1 = Some (c', w')"
    by (auto split: option.splits)
  then obtain es1 where "trace w1 = trace w @ es1" "restarts es1"
    by (auto simp: OrdinaryClock_trigger_def SinglePortNotification_notify_all_def Let_def restarts_def world_defs split: option.splits)
  with "2.IH"[OF t(1) refl t(2)] show ?case by (auto simp: restarts_def)
qed (auto simp: restarts_def)

lemma run_no_triggers: "quiet_trace es \<Longrightarrow> OrdinaryClock_run_triggers es c w = Some (c, w)"
  by (induction es c w rule: OrdinaryClock_run_triggers.induct) auto

lemma virtual_calls_quiet: "quiet_trace es \<Longrightarrow> virtual_calls i es c = Some c"
  by (induction i es c rule: virtual_calls.induct) (auto split: option.splits elim!: quiet_effect.elims)

lemma virtual_calls_restarts: "restarts es' \<Longrightarrow> virtual_calls i (es @ es') c = virtual_calls i es c"
proof (induction es arbitrary: c)
  case Nil
  then show ?case by (induction es') (auto simp: restarts_def split: effect.splits)
qed (auto split: option.splits)

context tokio_runtime
begin

lemma perform_queue:
  "quiet_trace es \<Longrightarrow> tk_queue tk (runtime (perform_all tk th (\<lambda>_. now) pre es h)) =
    tk_queue tk (runtime h) @ map (\<lambda>m. (th_domain_number th, Timestamp \<lparr>event_msg = m, egress_timestamp = now\<rparr>)) (to_stamp es)"
proof (induction es arbitrary: pre h)
  case (Cons e es)
  then show ?case
    using reset_queue
    by (cases e)
      (auto simp: with_timeout_def TokioTimeout_restart_def TokioTimeout_drop_def TokioTimeout_cancel_def
        ClockTxTimestamping_stamp_egress_def Let_def split_def split: option.splits)
qed simp

lemma handled_result:
  assumes h: "TokioPortsLoop_handled tk th (\<lambda>_. now) l ports w' = Some l'" and es: "trace w' = trace (pl_world l) @ es"
  shows "portmap l' = ports" "\<exists>es'. trace (pl_world l') = trace (pl_world l) @ es @ es' \<and> restarts es'"
    "quiet_trace es \<Longrightarrow> trace (pl_world l') = trace (pl_world l) @ es \<and>
       tk_queue tk (runtime (pl_host l')) = tk_queue tk (runtime (pl_host l)) @
         map (\<lambda>m. (th_domain_number th, Timestamp \<lparr>event_msg = m, egress_timestamp = now\<rparr>)) (to_stamp es)"
proof -
  from h obtain c w2 where t: "OrdinaryClock_run_triggers es (pl_clock l) w' = Some (c, w2)"
    and l': "l' = \<lparr>portmap = ports, pl_clock = c, pl_world = w2,
      pl_host = perform_all tk th (\<lambda>_. now) (trace (pl_world l)) (drop (length (trace (pl_world l))) (trace w2)) (pl_host l), pl_log = pl_log l\<rparr>"
    by (auto simp: TokioPortsLoop_handled_def Let_def es split: option.splits)
  show "portmap l' = ports" by (simp add: l')
  show "\<exists>es'. trace (pl_world l') = trace (pl_world l) @ es @ es' \<and> restarts es'"
    using run_triggers_restarts[OF t] by (auto simp: l' es)
  show "quiet_trace es \<Longrightarrow> trace (pl_world l') = trace (pl_world l) @ es \<and>
       tk_queue tk (runtime (pl_host l')) = tk_queue tk (runtime (pl_host l)) @
         map (\<lambda>m. (th_domain_number th, Timestamp \<lparr>event_msg = m, egress_timestamp = now\<rparr>)) (to_stamp es)"
    using t run_no_triggers[of es "pl_clock l" w'] perform_queue es by (auto simp: l')
qed

end

text \<open>What a turn takes: the next system message, or the next datagram of a socket, as an input of the port.\<close>

fun takes ::
    "DomainNumber \<Rightarrow> TimeStamp \<Rightarrow> node_turn \<Rightarrow> item list \<Rightarrow> (RxKind \<Rightarrow> bytes list) \<Rightarrow> input \<Rightarrow> item list \<Rightarrow> (RxKind \<Rightarrow> bytes list) \<Rightarrow>
     bool" where
  "takes d ts Serve q ib i q' ib' \<longleftrightarrow> (\<exists>m. q = (d, m) # q' \<and> i = SystemIn m \<and> ib' = ib)"
| "takes d ts (Receive Event now) q ib i q' ib' \<longleftrightarrow> q' = q \<and>
     (\<exists>src m rest. wf_event m \<and> ib Event = EventMessage_to_wire m (fresh_buffer d src) # rest \<and>
        ib' = ib(Event := rest) \<and> i = EventIn src m ts)"
| "takes d ts (Receive General now) q ib i q' ib' \<longleftrightarrow> q' = q \<and>
     (\<exists>src m rest. wf_general m \<and> ib General = GeneralMessage_to_wire m (fresh_buffer d src) # rest \<and>
        ib' = ib(General := rest) \<and> i = GeneralIn src m now)"
| "takes d ts (TaskWakes h) q ib i q' ib' \<longleftrightarrow> False"

context loopback_net
begin

abbreviation node_queue :: "'x loopback_node \<Rightarrow> item list" where
  "node_queue n \<equiv> tk_queue tk (runtime (pl_host (ln_loop n)))"

abbreviation node_fsm :: "'x loopback_node \<Rightarrow> PortFsm" where
  "node_fsm n \<equiv> port_fsm (portmap (ln_loop n))"

abbreviation inbox :: "'x loopback_node \<Rightarrow> 'c \<Rightarrow> RxKind \<Rightarrow> bytes list" where
  "inbox n c \<equiv> \<lambda>kind. mp_items mp c (lb_rx (ln_socket n kind))"

lemma step_input:
  assumes d: "map_domain_number (portmap l) = th_domain_number th" and bf: "documented_bitflags bf"
    and takes: "takes (th_domain_number th) now t (tk_queue tk (runtime (pl_host l))) ib i q' ib'"
    and i: "PortFsm_input (port_fsm (portmap l)) i (pl_world l) = Some (f', w')" "trace w' = trace (pl_world l) @ es"
    and a: "case t of Serve \<Rightarrow> a = SystemReady | TaskWakes h \<Rightarrow> False
      | Receive kind now \<Rightarrow> \<exists>buf. a = Datagram kind (hd (ib kind) @ buf) (length (hd (ib kind))) now"
    and step: "TokioPortsLoop_step tk th (\<lambda>_. now) bf l a = Some l'"
  shows "port_fsm (portmap l') = f'" "\<exists>es'. trace (pl_world l') = trace (pl_world l) @ es @ es' \<and> restarts es'"
    "quiet_trace es \<Longrightarrow> trace (pl_world l') = trace (pl_world l) @ es \<and>
       tk_queue tk (runtime (pl_host l')) = q' @
         map (\<lambda>m. (th_domain_number th, Timestamp \<lparr>event_msg = m, egress_timestamp = now\<rparr>)) (to_stamp es)"
proof -
  let ?lookup = "SingleDomainPortMap_port_by_domain (portmap l)"
  have p: "?lookup (th_domain_number th) = Inr (port_fsm (portmap l))"
    using d by (simp add: SingleDomainPortMap_port_by_domain_def)
  note parse = parse_event_to_wire[where lookup = ?lookup, OF bf _ p] parse_general_to_wire[where lookup = ?lookup, OF bf _ p]
  obtain l1 where l1: "TokioPortsLoop_handled tk th (\<lambda>_. now) l1 ((portmap l)\<lparr>port_fsm := f'\<rparr>) w' = Some l'"
    "pl_world l1 = pl_world l" "tk_queue tk (runtime (pl_host l1)) = q'"
  proof (cases t)
    case Serve
    then obtain m where m: "tk_queue tk (runtime (pl_host l)) = (th_domain_number th, m) # q'" "i = SystemIn m" using takes by auto
    obtain x where x: "tk_recv tk (runtime (pl_host l)) = Some ((th_domain_number th, m), x)" "tk_queue tk x = q'"
      using recv_cases[of "runtime (pl_host l)"] m(1) by (metis list.distinct(1) list.inject)
    show thesis
      using that[of "l\<lparr>pl_host := (pl_host l)\<lparr>runtime := x\<rparr>\<rparr>"] step a i(1) m(2) x p
      by (simp add: Serve TokioPortsLoop_step_def TokioPortsLoop_process_system_def)
  next
    case (Receive kind now')
    show thesis
      using that[of l] step a i(1) takes parse
      by (cases kind) (auto simp: Receive TokioPortsLoop_step_def TokioPortsLoop_process_datagram_def MessageIngress_receive_event_def
          MessageIngress_receive_general_def)
  qed (use takes in simp)
  note r = handled_result[OF l1(1), of es] 
  show "port_fsm (portmap l') = f'" "\<exists>es'. trace (pl_world l') = trace (pl_world l) @ es @ es' \<and> restarts es'"
    "quiet_trace es \<Longrightarrow> trace (pl_world l') = trace (pl_world l) @ es \<and>
       tk_queue tk (runtime (pl_host l')) = q' @
         map (\<lambda>m. (th_domain_number th, Timestamp \<lparr>event_msg = m, egress_timestamp = now\<rparr>)) (to_stamp es)"
    using r i(2) l1(2,3) by simp_all
qed

lemma turn_input:
  assumes n: "node_ok th n" and bf: "documented_bitflags bf" and rx: "inj (\<lambda>kind. lb_rx (ln_socket n kind))"
    and takes: "takes (th_domain_number th) now t (node_queue n) (inbox n c) i q' ib'"
    and i: "PortFsm_input (node_fsm n) i (pl_world (ln_loop n)) = Some (f', w')" "trace w' = ln_trace n @ es"
    and step: "loopback_step mp tk th (\<lambda>_. now) bf t n c = Some (n', c')"
  shows "node_fsm n' = f'" "ln_socket n' = ln_socket n"
    "\<exists>es' c1. ln_trace n' = ln_trace n @ es @ es' \<and> restarts es' \<and> (quiet_trace es \<longrightarrow> es' = []) \<and>
       c' = transmit mp (ln_socket n) (es @ es') c1 \<and> inbox n c1 = ib' \<and>
       (\<forall>a. (\<forall>kind. a \<noteq> lb_rx (ln_socket n kind)) \<longrightarrow> mp_items mp c1 a = mp_items mp c a)"
    "quiet_trace es \<Longrightarrow>
       node_queue n' = q' @ map (\<lambda>m. (th_domain_number th, Timestamp \<lparr>event_msg = m, egress_timestamp = now\<rparr>)) (to_stamp es)"
proof -
  have d: "map_domain_number (portmap (ln_loop n)) = th_domain_number th" and len: "\<And>kind. length (ln_buf n kind) = 2048"
    using n by (auto simp: node_ok_def loop_inv_def)
  obtain a l' m c1 where g: "TokioPortsLoop_step tk th (\<lambda>_. now) bf (ln_loop n) a = Some l'"
      "n' = m\<lparr>ln_loop := l'\<rparr>" "ln_socket m = ln_socket n" "c' = transmit mp (ln_socket n) (drop (length (ln_trace n)) (trace (pl_world l'))) c1"
    and a: "case t of Serve \<Rightarrow> a = SystemReady | TaskWakes h \<Rightarrow> False
      | Receive kind now \<Rightarrow> \<exists>buf. a = Datagram kind (hd (inbox n c kind) @ buf) (length (hd (inbox n c kind))) now"
    and c1: "inbox n c1 = ib'" "\<forall>a. (\<forall>kind. a \<noteq> lb_rx (ln_socket n kind)) \<longrightarrow> mp_items mp c1 a = mp_items mp c a"
  proof (cases t)
    case Serve
    show thesis using step takes that[of SystemReady _ n c] by (auto simp: Serve loopback_step_defs)
  next
    case (Receive kind now')
    show thesis
    proof (cases rule: recv_channel[of c "lb_rx (ln_socket n kind)", case_names empty item])
      case empty
      with takes show thesis by (cases kind) (auto simp: Receive)
    next
      case (item b c1 q)
      have b: "length b \<le> 2048" using takes item(2) frame_length by (cases kind) (auto simp: Receive)
      let ?buf = "b @ drop (length b) (ln_buf n kind)"
      have ib': "inbox n c1 = ib'"
        using takes item(2,3) rx by (cases kind) (auto simp: Receive fun_eq_iff inj_def)
      from step item(1) b len obtain l' where "TokioPortsLoop_step tk th (\<lambda>_. now) bf (ln_loop n) (Datagram kind ?buf (length b) now') = Some l'"
        "n' = n\<lparr>ln_buf := (ln_buf n)(kind := ?buf), ln_loop := l'\<rparr>"
        "c' = transmit mp (ln_socket n) (drop (length (ln_trace n)) (trace (pl_world l'))) c1"
        by (auto simp: Receive loopback_step_defs LoopbackSocket_recv_def Let_def min_absorb1)
      with that[OF this(1,2) _ this(3)] item(2,3) ib' show thesis by (auto simp: Receive)
    qed
  qed (use takes in simp)
  note r = step_input[OF d bf takes i a g(1)]
  show "node_fsm n' = f'" "ln_socket n' = ln_socket n" using r(1) g(2,3) by simp_all
  obtain es' where es': "trace (pl_world l') = ln_trace n @ es @ es'" "restarts es'" using r(2) by blast
  with r(3) g(2,4) c1 show "\<exists>es' c1. ln_trace n' = ln_trace n @ es @ es' \<and> restarts es' \<and> (quiet_trace es \<longrightarrow> es' = []) \<and>
       c' = transmit mp (ln_socket n) (es @ es') c1 \<and> inbox n c1 = ib' \<and>
       (\<forall>a. (\<forall>kind. a \<noteq> lb_rx (ln_socket n kind)) \<longrightarrow> mp_items mp c1 a = mp_items mp c a)"
    by (intro exI[of _ es'] exI[of _ c1]) auto
  show "quiet_trace es \<Longrightarrow>
       node_queue n' = q' @ map (\<lambda>m. (th_domain_number th, Timestamp \<lparr>event_msg = m, egress_timestamp = now\<rparr>)) (to_stamp es)"
    using r(3) g(2) by simp
qed

text \<open>The state of a network as one of its nodes has it: the port, the messages of the loop and the datagrams to receive.\<close>

definition at_node ::
    "TokioTimerHost \<Rightarrow> ('x, 'c) clocked_network \<Rightarrow> side \<Rightarrow> PortFsm \<Rightarrow> item list \<Rightarrow> bytes list \<Rightarrow> bytes list \<Rightarrow> bool" where
  "at_node th cn s f q evs gens \<longleftrightarrow> (let net = cn_net cn; n = net_node net s in
     joined th (node_a net) (node_b net) (net_channels net) \<and> node_fsm n = f \<and> node_queue n = q \<and>
     inbox n (net_channels net) = case_RxKind evs gens)"

lemma joined_side:
  "joined th (node_a net) (node_b net) (net_channels net) \<longleftrightarrow>
    joined th (net_node net s) (net_node net (case s of A \<Rightarrow> B | B \<Rightarrow> A)) (net_channels net)"
  using joined_sym by (cases s) (auto simp: net_node_def)

lemma wired_inj: "wired s s' \<Longrightarrow> inj (\<lambda>kind. lb_rx (s kind))"
  unfolding inj_def by (intro allI) (case_tac x; case_tac y; auto simp: wired_def)

lemma inbox_transmit:
  assumes "wired s s'"
  shows "(\<lambda>kind. mp_items mp (transmit mp s es c) (lb_rx (s kind))) = (\<lambda>kind. mp_items mp c (lb_rx (s kind)))"
    "(\<lambda>kind. mp_items mp (transmit mp s es c) (lb_rx (s' kind))) = (\<lambda>kind. mp_items mp c (lb_rx (s' kind)) @ sent kind es)"
proof -
  note w = wired_channels[OF assms]
  show "(\<lambda>kind. mp_items mp (transmit mp s es c) (lb_rx (s kind))) = (\<lambda>kind. mp_items mp c (lb_rx (s kind)))"
    using w(1) by (auto simp: transmit_items[OF w(2)])
  show "(\<lambda>kind. mp_items mp (transmit mp s es c) (lb_rx (s' kind))) = (\<lambda>kind. mp_items mp c (lb_rx (s' kind)) @ sent kind es)"
  proof
    fix kind
    show "mp_items mp (transmit mp s es c) (lb_rx (s' kind)) = mp_items mp c (lb_rx (s' kind)) @ sent kind es"
      using w(2) by (cases kind) (simp_all add: transmit_items[OF w(2)] flip: w(3))
  qed
qed

text \<open>A turn with a given input of the port, at the level of the network.\<close>

lemma network_input:
  assumes j: "joined th (net_node net s) (net_node net s') (net_channels net)" and s': "s' = (case s of A \<Rightarrow> B | B \<Rightarrow> A)"
    and bf: "documented_bitflags bf" and now: "wf_ts now"
    and takes: "takes (th_domain_number th) now t (node_queue (net_node net s)) (inbox (net_node net s) (net_channels net)) i q' ib'"
    and i: "PortFsm_input (node_fsm (net_node net s)) i (pl_world (ln_loop (net_node net s))) = Some (f', w')"
      "trace w' = ln_trace (net_node net s) @ es"
  shows "\<exists>net' es'. network_step mp tk th (\<lambda>_. now) bf s t net = Some net' \<and>
    joined th (net_node net' s) (net_node net' s') (net_channels net') \<and> node_fsm (net_node net' s) = f' \<and>
    ln_trace (net_node net' s) = ln_trace (net_node net s) @ es @ es' \<and> restarts es' \<and>
    inbox (net_node net' s) (net_channels net') = ib' \<and> net_node net' s' = net_node net s' \<and>
    (quiet_trace es \<longrightarrow> es' = [] \<and>
       node_queue (net_node net' s) = q' @ map (\<lambda>m. (th_domain_number th, Timestamp \<lparr>event_msg = m, egress_timestamp = now\<rparr>)) (to_stamp es) \<and>
       inbox (net_node net s') (net_channels net') = (\<lambda>kind. inbox (net_node net s') (net_channels net) kind @ sent kind es))"
proof -
  let ?n = "net_node net s" and ?c = "net_channels net"
  have n: "node_ok th ?n" and w: "wired (ln_socket ?n) (ln_socket (net_node net s'))" using j by (simp_all add: joined_def)
  have "\<not> (t = Serve \<and> loop_panics th (ln_loop ?n) SystemReady)"
  proof
    assume p: "t = Serve \<and> loop_panics th (ln_loop ?n) SystemReady"
    then obtain m where m: "node_fsm ?n = \<lparr>fsm_state = Some (Master m)\<rparr>" "i = SystemIn AnnounceReceiptTimeout"
      using takes n by (auto simp: loop_panics_def node_ok_def loop_inv_def)
    then have "wf_state (Master m)" using n by (auto simp: node_ok_def loop_inv_def ordinary_host.agrees_def)
    with m i(1) input_panics_iff[of "\<lparr>fsm_state = Some (Master m)\<rparr>" "Master m" i] show False
      by (simp add: stale_announce_timeout_def)
  qed
  then obtain n' c' where step: "loopback_step mp tk th (\<lambda>_. now) bf t ?n ?c = Some (n', c')" "turned th ?n ?c n' c'"
    using loopback_step_turned[OF n bf, of "\<lambda>_. now" ?c t] joined_frames[OF j] now by auto
  note r = turn_input[OF n bf wired_inj[OF w] takes i step(1)]
  obtain es' c1 where e: "ln_trace n' = ln_trace ?n @ es @ es'" "restarts es'" "quiet_trace es \<longrightarrow> es' = []"
      "c' = transmit mp (ln_socket ?n) (es @ es') c1" "inbox ?n c1 = ib'"
      "\<forall>a. (\<forall>kind. a \<noteq> lb_rx (ln_socket ?n kind)) \<longrightarrow> mp_items mp c1 a = mp_items mp ?c a"
    using r(3) by blast
  have "inbox n' c' = ib'" unfolding r(2) e(4) using inbox_transmit(1)[OF w] e(5) by simp
  moreover have "inbox (net_node net s') c1 = inbox (net_node net s') ?c"
    using e(6) wired_channels(1)[OF w, THEN not_sym] by (simp flip: wired_channels(3)[OF w])
  then have "inbox (net_node net s') c' = (\<lambda>kind. inbox (net_node net s') ?c kind @ sent kind (es @ es'))"
    unfolding e(4) inbox_transmit(2)[OF w] by (simp add: fun_eq_iff)
  moreover have "joined th n' (net_node net s') c'" by (rule turned_joined[OF j step(2)])
  ultimately show ?thesis
    using step(1) r(1,4) e(1-3) s'
    by (cases s) (auto simp: network_step_def net_node_def intro!: exI[of _ es'])
qed

lemma clocked_acts:
  assumes v: "at_node th cn s f q e1 g1" "at_node th cn s' f2 q2 e2 g2" and s': "s' = (case s of A \<Rightarrow> B | B \<Rightarrow> A)"
    and bf: "documented_bitflags bf" and now: "VirtualClock_now (cn_clock cn s) i = Some now" "wf_ts now"
    and takes: "takes (th_domain_number th) now t q (case_RxKind e1 g1) inp q' (case_RxKind e1' g1')"
    and acts: "acts f inp evs gens ms f'"
  shows "\<exists>cn'. clocked_step mp tk th bf s t i cn = Some cn' \<and> cn_clock cn' = cn_clock cn \<and>
    at_node th cn' s f' (q' @ map (\<lambda>m. (th_domain_number th, Timestamp \<lparr>event_msg = m, egress_timestamp = now\<rparr>)) ms) e1' g1' \<and>
    at_node th cn' s' f2 q2 (e2 @ evs) (g2 @ gens)"
proof -
  let ?net = "cn_net cn"
  note V = v[unfolded at_node_def Let_def]
  have j: "joined th (net_node ?net s) (net_node ?net s') (net_channels ?net)"
    using V(1) joined_side[of th ?net s] s' by simp
  obtain w' es where es: "PortFsm_input f inp (pl_world (ln_loop (net_node ?net s))) = Some (f', w')"
    "trace w' = ln_trace (net_node ?net s) @ es" "quiet_trace es" "sent Event es = evs" "sent General es = gens" "to_stamp es = ms"
    using acts unfolding acts_def by blast
  have k: "inbox (net_node ?net s') (net_channels ?net) kind @ sent kind es = case_RxKind (e2 @ evs) (g2 @ gens) kind" for kind
    using V(2) es(4,5) by (simp add: fun_eq_iff split: RxKind.splits)
  from network_input[OF j s' bf now(2), of t inp q' "case_RxKind e1' g1'" f' w' es] V takes es obtain net' es' where
    n: "network_step mp tk th (\<lambda>_. now) bf s t ?net = Some net'"
      "joined th (net_node net' s) (net_node net' s') (net_channels net')" "node_fsm (net_node net' s) = f'"
      "ln_trace (net_node net' s) = ln_trace (net_node ?net s) @ es" "inbox (net_node net' s) (net_channels net') = case_RxKind e1' g1'"
      "net_node net' s' = net_node ?net s'"
      "node_queue (net_node net' s) = q' @ map (\<lambda>m. (th_domain_number th, Timestamp \<lparr>event_msg = m, egress_timestamp = now\<rparr>)) ms"
      "inbox (net_node ?net s') (net_channels net') = (\<lambda>kind. inbox (net_node ?net s') (net_channels ?net) kind @ sent kind es)"
    by auto
  have "clocked_step mp tk th bf s t i cn = Some \<lparr>cn_net = net', cn_clock = cn_clock cn\<rparr>"
    using now(1) n(1,4) virtual_calls_quiet[OF es(3)] by (simp add: clocked_step_def)
  moreover have "joined th (node_a net') (node_b net') (net_channels net')" using n(2) joined_side[of th net' s] s' by simp
  ultimately show ?thesis
    using n V(2) by (auto simp: at_node_def Let_def k)
qed

lemma clocked_turns_append:
  "clocked_turns mp tk th bf (xs @ ys) cn = Option.bind (clocked_turns mp tk th bf xs cn) (clocked_turns mp tk th bf ys)"
proof (induction xs arbitrary: cn)
  case (Cons x xs)
  then show ?case by (cases x) (auto split: option.splits)
qed simp

lemma at_node_port:
  assumes "at_node th cn s \<lparr>fsm_state = Some st\<rparr> q evs gens"
  shows "physical_send_event (state_port st) = (\<lambda>_ _. True)" "physical_send_general (state_port st) = (\<lambda>_ _. True)"
    "domain_number (state_port st) = th_domain_number th" "wf_state st"
proof -
  have "node_ok th (net_node (cn_net cn) s)"
    using assms by (cases s) (simp_all add: at_node_def Let_def joined_def net_node_def)
  with assms show "physical_send_event (state_port st) = (\<lambda>_ _. True)" "physical_send_general (state_port st) = (\<lambda>_ _. True)"
    "domain_number (state_port st) = th_domain_number th" "wf_state st"
    by (auto simp: at_node_def Let_def node_ok_def loop_inv_def loop_port_def ordinary_host.agrees_def)
qed

lemma case_RxKind_upd [simp]:
  "(case_RxKind e g)(Event := x) = case_RxKind x g" "(case_RxKind e g)(General := x) = case_RxKind e x"
  "case_RxKind e g = case_RxKind e' g' \<longleftrightarrow> e = e' \<and> g = g'"
  by (auto simp: fun_eq_iff split: RxKind.splits)

text \<open>A delay request of the node \<open>B\<close> and its answer.\<close>

lemma delay_turns:
  assumes bf: "documented_bitflags bf" and f: "follows_parent (port_identity (ma_port s)) st m"
    and a: "at_node th cn A \<lparr>fsm_state = Some (Master s)\<rparr> q [] []"
    and b: "at_node th cn B \<lparr>fsm_state = Some st\<rparr> [(th_domain_number th, DelayRequestTimeout)] [] []"
    and t: "VirtualClock_now (cn_clock cn B) i1 = Some t3" "VirtualClock_now (cn_clock cn B) i2 = Some u2"
      "VirtualClock_now (cn_clock cn A) i3 = Some t4" "VirtualClock_now (cn_clock cn B) i4 = Some u4"
      "wf_ts t3" "wf_ts u2" "wf_ts t4" "wf_ts u4"
  shows "\<exists>cn' st' m'. clocked_turns mp tk th bf [(B, Serve, i1), (B, Serve, i2), (A, Receive Event n3, i3), (B, Receive General n4, i4)] cn
      = Some cn' \<and> cn_clock cn' = cn_clock cn \<and> at_node th cn' A \<lparr>fsm_state = Some (Master s)\<rparr> q [] [] \<and>
    at_node th cn' B \<lparr>fsm_state = Some st'\<rparr> [] [] [] \<and> follows_parent (port_identity (ma_port s)) st' m' \<and>
    delay_times (delay_exchange m') = Some (t3, t4)"
proof -
  let ?req = "DelayCycle_delay_request (delay_cycle m)" and ?M = "\<lparr>fsm_state = Some (Master s)\<rparr>" and ?d = "th_domain_number th"
  let ?frame = "event_frame (state_port st) (DelayReq ?req)"
  let ?resp = "DelayRequestMessage_response ?req (LogInterval_log_message_interval (ma_log_min_delay_request_interval s)) t4
      (port_identity (state_port st))"
  obtain st1 m1 where 1: "acts \<lparr>fsm_state = Some st\<rparr> (SystemIn DelayRequestTimeout) [?frame] [] [DelayReq ?req] \<lparr>fsm_state = Some st1\<rparr>"
    "follows_parent (port_identity (ma_port s)) st1 m1"
    using follower_requests[OF f at_node_port(1)[OF b]] by blast
  obtain cn1 where c1: "clocked_step mp tk th bf B Serve i1 cn = Some cn1" "cn_clock cn1 = cn_clock cn"
      "at_node th cn1 B \<lparr>fsm_state = Some st1\<rparr> [(?d, Timestamp \<lparr>event_msg = DelayReq ?req, egress_timestamp = t3\<rparr>)] [] []"
      "at_node th cn1 A ?M q [?frame] []"
    using clocked_acts[OF b a _ bf t(1,5) _ 1(1), of Serve "[]" "[]" "[]"] by auto
  obtain st2 where 2: "acts \<lparr>fsm_state = Some st1\<rparr> (SystemIn (Timestamp \<lparr>event_msg = DelayReq ?req, egress_timestamp = t3\<rparr>)) [] [] []
      \<lparr>fsm_state = Some st2\<rparr>" "follows_parent (port_identity (ma_port s)) st2 (EndToEndDelayMechanism_record_delay_request m1 ?req t3)"
    using follower_stamps_request[OF 1(2)] by blast
  obtain cn2 where c2: "clocked_step mp tk th bf B Serve i2 cn1 = Some cn2" "cn_clock cn2 = cn_clock cn"
      "at_node th cn2 B \<lparr>fsm_state = Some st2\<rparr> [] [] []" "at_node th cn2 A ?M q [?frame] []"
    using clocked_acts[OF c1(3,4) _ bf _ t(6) _ 2(1), of i2 Serve "[]" "[]" "[]"] c1(2) t(2) by auto
  have p: "physical_send_general (ma_port s) = (\<lambda>_ _. True)" "domain_number (ma_port s) = ?d" "domain_number (state_port st) = ?d"
    using at_node_port[OF a] at_node_port(3)[OF b] by simp_all
  obtain cn3 where c3: "clocked_step mp tk th bf A (Receive Event n3) i3 cn2 = Some cn3" "cn_clock cn3 = cn_clock cn"
      "at_node th cn3 A ?M q [] []" "at_node th cn3 B \<lparr>fsm_state = Some st2\<rparr> [] [] [general_frame (ma_port s) (DelayResp ?resp)]"
    using clocked_acts[OF c2(4,3) _ bf _ t(7) _ master_responds[OF p(1), of "port_identity (state_port st)" ?req t4],
        of i3 "Receive Event n3" q "[]" "[]"] c2(2) t(3) p(3) by fastforce
  obtain st4 where 4: "acts \<lparr>fsm_state = Some st2\<rparr> (GeneralIn (port_identity (ma_port s)) (DelayResp ?resp) n4) [] [] [] \<lparr>fsm_state = Some st4\<rparr>"
      "follows_parent (port_identity (ma_port s)) st4
        (EndToEndDelayMechanism_record_delay_response (EndToEndDelayMechanism_record_delay_request m1 ?req t3) ?resp)"
    using follower_gets_response[OF 2(2)] by blast
  have "wf_ts (drsp_receive_timestamp ?resp)" using t(7) by (simp add: DelayRequestMessage_response_def)
  then obtain cn4 where c4: "clocked_step mp tk th bf B (Receive General n4) i4 cn3 = Some cn4" "cn_clock cn4 = cn_clock cn"
      "at_node th cn4 B \<lparr>fsm_state = Some st4\<rparr> [] [] []" "at_node th cn4 A ?M q [] []"
    using clocked_acts[OF c3(4,3) _ bf _ t(8) _ 4(1), of i4 "Receive General n4" "[]" "[]" "[]"] c3(2) t(4) p(2) by fastforce
  have "delay_times (delay_exchange (EndToEndDelayMechanism_record_delay_response
      (EndToEndDelayMechanism_record_delay_request m1 ?req t3) ?resp)) = Some (t3, t4)"
    by (simp add: e2e_defs delay_times_def DelayRequestMessage_response_def)
  with c1(1) c2(1) c3(1) c4 4(2) show ?thesis by auto
qed

text \<open>The follow-up arrives and the servo steps the clock.\<close>

lemma follow_up_turn:
  assumes bf: "documented_bitflags bf" and f: "follows_parent (port_identity p) st m" and p: "domain_number p = th_domain_number th"
    and b: "at_node th cn B \<lparr>fsm_state = Some st\<rparr> q [] [general_frame p (FollowUpMsg fu)]"
    and u: "VirtualClock_now (cn_clock cn B) i = Some u" "wf_ts u" and wf: "wf_ts (fu_precise_origin_timestamp fu)"
    and times: "sync_times (sync_exchange (EndToEndDelayMechanism_record_follow_up m fu)) = Some (t1, t2)"
      "delay_times (delay_exchange m) = Some (t3, t4)" "sync_ingress_timestamp m = Some t2"
    and target: "wf_ts t" "ts_total t = ts_total t2 - trunc_div ((ts_total t2 - ts_total t1) - (ts_total t4 - ts_total t3)) 2"
  shows "\<exists>cn' sl. clocked_step mp tk th bf B (Receive General n) i cn = Some cn' \<and>
    node_fsm (net_node (cn_net cn') B) = \<lparr>fsm_state = Some (Slave sl)\<rparr> \<and>
    cn_clock cn' = (cn_clock cn)(B := VirtualClock_step (cn_clock cn B) t i)"
proof -
  let ?net = "cn_net cn" and ?inp = "GeneralIn (port_identity p) (FollowUpMsg fu) n"
  let ?n = "net_node ?net B"
  note V = b[unfolded at_node_def Let_def]
  have j: "joined th (net_node ?net B) (net_node ?net A) (net_channels ?net)" using V joined_side[of th ?net B] by simp
  have st: "wf_state st" by (rule at_node_port(4)[OF b])
  obtain sl w' where s: "PortFsm_process_general_message \<lparr>fsm_state = Some st\<rparr> (port_identity p) (FollowUpMsg fu) n (pl_world (ln_loop ?n))
      = Some (\<lparr>fsm_state = Some (Slave sl)\<rparr>, w')"
    "virtual_calls i (drop (length (ln_trace ?n)) (trace w')) (cn_clock cn B) = Some (VirtualClock_step (cn_clock cn B) t i)"
    using follower_steps[OF f st wf times target, of n "pl_world (ln_loop ?n)" i "cn_clock cn B"] by blast
  obtain es where es: "trace w' = ln_trace ?n @ es"
    using input_emits[of "\<lparr>fsm_state = Some st\<rparr>" st ?inp "pl_world (ln_loop ?n)"] st s(1) wf by (auto simp: emits_ok_def)
  have "takes (th_domain_number th) u (Receive General n) (node_queue ?n) (inbox ?n (net_channels ?net)) ?inp (node_queue ?n) (case_RxKind [] [])"
    using V p wf by fastforce
  from network_input[OF j _ bf u(2) this, of "\<lparr>fsm_state = Some (Slave sl)\<rparr>" w' es] V s(1) es obtain net' es' where
    n: "network_step mp tk th (\<lambda>_. u) bf B (Receive General n) ?net = Some net'"
      "node_fsm (net_node net' B) = \<lparr>fsm_state = Some (Slave sl)\<rparr>" "ln_trace (net_node net' B) = ln_trace ?n @ es @ es'" "restarts es'"
    by auto
  have "clocked_step mp tk th bf B (Receive General n) i cn
      = Some \<lparr>cn_net = net', cn_clock = (cn_clock cn)(B := VirtualClock_step (cn_clock cn B) t i)\<rparr>"
    using u(1) n(1,3) s(2) es virtual_calls_restarts[OF n(4)] by (simp add: clocked_step_def)
  with n(2) show ?thesis by simp
qed

text \<open>A two-step sync of the node \<open>A\<close> and its follow-up.\<close>

lemma sync_turns:
  assumes bf: "documented_bitflags bf" and f: "follows_parent (port_identity (ma_port s)) st m"
    and a: "at_node th cn A \<lparr>fsm_state = Some (Master s)\<rparr> [(th_domain_number th, SyncTimeout)] [] []"
    and b: "at_node th cn B \<lparr>fsm_state = Some st\<rparr> [] [] []"
    and delay: "delay_times (delay_exchange m) = Some (t3, t4)"
    and t: "VirtualClock_now (cn_clock cn A) i5 = Some t1" "VirtualClock_now (cn_clock cn B) i6 = Some t2"
      "VirtualClock_now (cn_clock cn A) i7 = Some u7" "VirtualClock_now (cn_clock cn B) i8 = Some u8"
      "wf_ts t1" "wf_ts t2" "wf_ts u7" "wf_ts u8"
    and target: "wf_ts t" "ts_total t = ts_total t2 - trunc_div ((ts_total t2 - ts_total t1) - (ts_total t4 - ts_total t3)) 2"
  shows "\<exists>cn' sl. clocked_turns mp tk th bf [(A, Serve, i5), (B, Receive Event n6, i6), (A, Serve, i7), (B, Receive General n8, i8)] cn
      = Some cn' \<and> node_fsm (net_node (cn_net cn') B) = \<lparr>fsm_state = Some (Slave sl)\<rparr> \<and>
    cn_clock cn' = (cn_clock cn)(B := VirtualClock_step (cn_clock cn B) t i8)"
proof -
  let ?sync = "SyncCycle_two_step_sync (ma_sync_cycle s)" and ?d = "th_domain_number th"
  let ?frame = "event_frame (ma_port s) (TwoStepSync ?sync)" and ?fu = "TwoStepSyncMessage_follow_up ?sync t1"
  let ?m = "EndToEndDelayMechanism_record_two_step_sync m ?sync t2"
  have p: "physical_send_event (ma_port s) = (\<lambda>_ _. True)" "physical_send_general (ma_port s) = (\<lambda>_ _. True)" "domain_number (ma_port s) = ?d"
    using at_node_port[OF a] by simp_all
  obtain s1 where 5: "acts \<lparr>fsm_state = Some (Master s)\<rparr> (SystemIn SyncTimeout) [?frame] [] [TwoStepSync ?sync] \<lparr>fsm_state = Some (Master s1)\<rparr>"
    "ma_port s1 = ma_port s"
    using master_syncs[OF p(1)] by blast
  obtain cn5 where c5: "clocked_step mp tk th bf A Serve i5 cn = Some cn5" "cn_clock cn5 = cn_clock cn"
      "at_node th cn5 A \<lparr>fsm_state = Some (Master s1)\<rparr> [(?d, Timestamp \<lparr>event_msg = TwoStepSync ?sync, egress_timestamp = t1\<rparr>)] [] []"
      "at_node th cn5 B \<lparr>fsm_state = Some st\<rparr> [] [?frame] []"
    using clocked_acts[OF a b _ bf t(1,5) _ 5(1), of Serve "[]" "[]" "[]"] by auto
  obtain st6 where 6: "acts \<lparr>fsm_state = Some st\<rparr> (EventIn (port_identity (ma_port s)) (TwoStepSync ?sync) t2) [] [] [] \<lparr>fsm_state = Some st6\<rparr>"
    "follows_parent (port_identity (ma_port s)) st6 ?m"
    using follower_notes_sync[OF f] by blast
  obtain cn6 where c6: "clocked_step mp tk th bf B (Receive Event n6) i6 cn5 = Some cn6" "cn_clock cn6 = cn_clock cn"
      "at_node th cn6 B \<lparr>fsm_state = Some st6\<rparr> [] [] []"
      "at_node th cn6 A \<lparr>fsm_state = Some (Master s1)\<rparr> [(?d, Timestamp \<lparr>event_msg = TwoStepSync ?sync, egress_timestamp = t1\<rparr>)] [] []"
    using clocked_acts[OF c5(4,3) _ bf _ t(6) _ 6(1), of i6 "Receive Event n6" "[]" "[]" "[]"] c5(2) t(2) p(3) by fastforce
  have q: "physical_send_general (ma_port s1) = (\<lambda>_ _. True)" using p(2) 5(2) by simp
  obtain cn7 where c7: "clocked_step mp tk th bf A Serve i7 cn6 = Some cn7" "cn_clock cn7 = cn_clock cn"
      "at_node th cn7 B \<lparr>fsm_state = Some st6\<rparr> [] [] [general_frame (ma_port s) (FollowUpMsg ?fu)]"
    using clocked_acts[OF c6(4,3) _ bf _ t(7) _ master_follows_up[OF q, of ?sync t1], of i7 Serve "[]" "[]" "[]"] c6(2) t(3) 5(2) by fastforce
  have fu: "wf_ts (fu_precise_origin_timestamp ?fu)" using t(5) by (simp add: TwoStepSyncMessage_follow_up_def)
  have "sync_times (sync_exchange (EndToEndDelayMechanism_record_follow_up ?m ?fu)) = Some (t1, t2)"
    "delay_times (delay_exchange ?m) = Some (t3, t4)" "sync_ingress_timestamp ?m = Some t2"
    using delay by (simp_all add: e2e_defs sync_times_def TwoStepSyncMessage_follow_up_def)
  from follow_up_turn[OF bf 6(2) p(3) c7(3) _ t(8) fu this target, of i8 n8] c7(2) t(4) c5(1) c6(1) c7(1)
  show ?thesis by auto
qed

text \<open>Both, one after the other: \<open>u\<close> and \<open>v\<close> are the readings of the clocks of the nodes \<open>A\<close> and \<open>B\<close>.\<close>

lemma exchange_turns:
  assumes bf: "documented_bitflags bf" and f: "follows_parent (port_identity (ma_port s)) st m"
    and at: "at_node th cn A \<lparr>fsm_state = Some (Master s)\<rparr> [(th_domain_number th, SyncTimeout)] [] []"
      "at_node th cn B \<lparr>fsm_state = Some st\<rparr> [(th_domain_number th, DelayRequestTimeout)] [] []"
    and a: "\<And>i. i \<in> {i3, i5, i7} \<Longrightarrow> VirtualClock_now (cn_clock cn A) i = Some (u i) \<and> wf_ts (u i)"
    and b: "\<And>i. i \<in> {i1, i2, i4, i6, i8} \<Longrightarrow> VirtualClock_now (cn_clock cn B) i = Some (v i) \<and> wf_ts (v i)"
    and t: "wf_ts t"
      "ts_total t = ts_total (v i6) - trunc_div ((ts_total (v i6) - ts_total (u i5)) - (ts_total (u i3) - ts_total (v i1))) 2"
  shows "\<exists>cn' sl. clocked_turns mp tk th bf
      [(B, Serve, i1), (B, Serve, i2), (A, Receive Event n3, i3), (B, Receive General n4, i4),
       (A, Serve, i5), (B, Receive Event n6, i6), (A, Serve, i7), (B, Receive General n8, i8)] cn = Some cn' \<and>
    node_fsm (net_node (cn_net cn') B) = \<lparr>fsm_state = Some (Slave sl)\<rparr> \<and>
    cn_clock cn' = (cn_clock cn)(B := VirtualClock_step (cn_clock cn B) t i8)"
proof -
  let ?delay = "[(B, Serve, i1), (B, Serve, i2), (A, Receive Event n3, i3), (B, Receive General n4, i4)]"
    and ?sync = "[(A, Serve, i5), (B, Receive Event n6, i6), (A, Serve, i7), (B, Receive General n8, i8)]"
  obtain cn1 st1 m1 where d: "clocked_turns mp tk th bf ?delay cn = Some cn1" "cn_clock cn1 = cn_clock cn"
      "at_node th cn1 A \<lparr>fsm_state = Some (Master s)\<rparr> [(th_domain_number th, SyncTimeout)] [] []"
      "at_node th cn1 B \<lparr>fsm_state = Some st1\<rparr> [] [] []" "follows_parent (port_identity (ma_port s)) st1 m1"
      "delay_times (delay_exchange m1) = Some (v i1, u i3)"
    using delay_turns[OF bf f at, of i1 "v i1" i2 "v i2" i3 "u i3" i4 "v i4" n3 n4] a[of i3] b[of i1] b[of i2] b[of i4] by auto
  obtain cn' sl where "clocked_turns mp tk th bf ?sync cn1 = Some cn'" "node_fsm (net_node (cn_net cn') B) = \<lparr>fsm_state = Some (Slave sl)\<rparr>"
      "cn_clock cn' = (cn_clock cn)(B := VirtualClock_step (cn_clock cn B) t i8)"
    using sync_turns[OF bf d(5,3,4,6), of i5 "u i5" i6 "v i6" i7 "u i7" i8 "v i8" t n6 n8] a[of i5] a[of i7] b[of i6] b[of i8] t d(2) by auto
  with d(1) clocked_turns_append[of th bf ?delay ?sync cn] show ?thesis by auto
qed

end

text \<open>Half the difference of the two delays goes into the offset, up to the rounding of the division.\<close>

lemma half_asymmetry:
  fixes e p r :: int
  assumes "0 \<le> p" "0 \<le> r"
  shows "2 * \<bar>e - trunc_div (2 * e + (p - r)) 2\<bar> \<le> \<bar>p - r\<bar> + 1" "- p \<le> e - trunc_div (2 * e + (p - r)) 2"
    "e - trunc_div (2 * e + (p - r)) 2 \<le> r"
proof -
  let ?k = "trunc_div (2 * e + (p - r)) 2"
  have "\<bar>2 * trunc_div x 2 - x\<bar> \<le> 1" for x :: int by (auto simp: trunc_div_def sgn_if)
  from this[of "2 * e + (p - r)"] have "- 1 \<le> 2 * (?k - e) - (p - r)" "2 * (?k - e) - (p - r) \<le> 1" by auto
  with assms show "2 * \<bar>e - ?k\<bar> \<le> \<bar>p - r\<bar> + 1" "- p \<le> e - ?k" "e - ?k \<le> r" by presburger+
qed

text \<open>The time that the servo steps to, and the readings after the step.\<close>

lemma step_target:
  assumes a: "ahead_of M a 0" and c: "ahead_of M c e" and le: "vc_start a \<le> i1" "i1 \<le> i3" "i3 \<le> i5" "i5 \<le> i6" "i6 \<le> i8"
    and lim: "M + int i8 + int (i3 - i1) < ts_limit"
  shows "\<exists>t. wf_ts t \<and> ts_total t = M + int i6 + e - trunc_div (2 * e + (int (i6 - i5) - int (i3 - i1))) 2 \<and>
    (\<forall>i. i8 \<le> i \<and> i < i8 + 2 ^ 53 \<and> M + int i + int (i3 - i1) < ts_limit \<longrightarrow>
       (\<exists>u. VirtualClock_now (VirtualClock_step c t i8) i = Some u \<and>
          2 * \<bar>ts_total u - (M + int i - int (i8 - i6))\<bar> \<le> \<bar>int (i6 - i5) - int (i3 - i1)\<bar> + 1))"
proof -
  let ?x = "int (i6 - i5) - int (i3 - i1)"
  let ?k = "trunc_div (2 * e + ?x) 2"
  have half: "2 * \<bar>e - ?k\<bar> \<le> \<bar>?x\<bar> + 1" "- int (i6 - i5) \<le> e - ?k" "e - ?k \<le> int (i3 - i1)" by (rule half_asymmetry; simp)+
  have "0 \<le> M + int (vc_start a)" using a wf_ts_D[of "vc_ts a"] by (simp add: ahead_of_def)
  then have "0 \<le> M + int i6 + (e - ?k)" "M + int i6 + (e - ?k) < ts_limit" using half(2,3) le lim by auto
  then obtain t where t: "wf_ts t" "ts_total t = M + int i6 + e - ?k" using ts_of_total[of "M + int i6 + (e - ?k)"] by auto
  have st: "ahead_of M (VirtualClock_step c t i8) (e - ?k - int (i8 - i6))"
    using c t le by (simp add: ahead_of_def VirtualClock_step_def of_nat_diff)
  have "\<exists>u. VirtualClock_now (VirtualClock_step c t i8) i = Some u \<and> 2 * \<bar>ts_total u - (M + int i - int (i8 - i6))\<bar> \<le> \<bar>?x\<bar> + 1"
    if i: "i8 \<le> i \<and> i < i8 + 2 ^ 53 \<and> M + int i + int (i3 - i1) < ts_limit" for i
  proof -
    obtain u where "VirtualClock_now (VirtualClock_step c t i8) i = Some u" "ts_total u = M + int i + (e - ?k - int (i8 - i6))"
      using ahead_of_reading[OF st, of i] i half(3) le by (auto simp: VirtualClock_step_def)
    then show ?thesis using half(1) by simp
  qed
  with t show ?thesis by blast
qed

subsection \<open>Two nodes that are ready for an exchange\<close>

text \<open>
  Two nodes with the stepping servo. The first hears nothing, becomes master and announces itself twice; the second qualifies
  it, becomes uncalibrated, and the timers for a sync and for a delay request run out.
\<close>

definition demo_pair :: "(executor, (nat \<Rightarrow> bytes list) \<times> nat) network option" where
  "demo_pair =
     (let (ev_a, ev_b, c) = LoopbackSocket_pair demo_mpsc ((\<lambda>_. []), 0);
          (gen_a, gen_b, c) = LoopbackSocket_pair demo_mpsc c
      in case (assemble_node demo_tokio demo_th demo_clk demo_master_ds PortProfile_default (\<lambda>_. Ptp) ev_a gen_a (Map.empty, [], 0),
               assemble_node demo_tokio demo_th demo_clk demo_local_ds PortProfile_default (\<lambda>_. Ptp) ev_b gen_b (Map.empty, [], 0)) of
           (Some (Inr a), Some (Inr b)) \<Rightarrow> Some \<lparr>node_a = a, node_b = b,
             net_channels = transmit demo_mpsc (ln_socket b) (ln_trace b) (transmit demo_mpsc (ln_socket a) (ln_trace a) c)\<rparr>
         | _ \<Rightarrow> None)"

lemma demo_master_identity [simp]: "PortIdentity (identity demo_master_ds) (PortNumber 1) = demo_master"
  by (simp add: demo_master_def demo_master_ds_def)

lemma announce_frame:
  "wf_ds (an_foreign_clock_ds r) \<Longrightarrow> lookup d = Inr p \<Longrightarrow>
     parse_general demo_bitflags lookup (AnnounceMessage_to_wire r (fresh_buffer d src)) = Inr (p, src, AnnounceMsg r)"
  "length (AnnounceMessage_to_wire r (fresh_buffer d src)) = 64"
  using parse_general_to_wire[OF demo_bitflags_documented, of "AnnounceMsg r" lookup d p src]
  by (simp_all add: AnnounceMessage_to_wire_def PayloadBuffer_finalize_def PTP_PAYLOAD_OFFSET_def Let_def)

lemmas demo_turn_defs = LoopbackSocket_pair_def demo_node_defs demo_deliver_defs world_defs Let_def
  network_step_def loopback_step_defs TokioPortsLoop_step_def decision_event_defs Duration_as_u64_nanos_def
  Duration_from_secs_def MasterPort_send_announce_def DomainPort_send_general_def AnnounceCycle_next_def fault_on_error_def
  TokioPhysicalPort_send_general_def loopback_physical_port_def LoopbackSocket_try_send_def LoopbackSocket_recv_def announce_frame
  TokioPortsLoop_process_datagram_def MessageIngress_receive_general_def AnnounceCycle_announce_def
  GrandMasterTrackingBmca_grandmaster_def GrandMaster_announce_def LogInterval_new_def MIN_LOG_VALUE_def MAX_LOG_VALUE_def
  LogInterval_log_message_interval_def demo_slave_outcome

definition demo_pair_turns :: "(side \<times> node_turn) list" where
  "demo_pair_turns = [(A, TaskWakes 0), (A, Serve), (A, Serve), (A, TaskWakes 1), (A, Serve), (B, Receive General (Instant_from_secs 1)),
     (A, TaskWakes 3), (A, Serve), (B, Receive General (Instant_from_secs 2)), (B, Serve), (B, TaskWakes 4), (A, TaskWakes 2)]"

lemma uncalibrated_follows:
  "Ex (follows_parent src (Uncalibrated u)) \<longleftrightarrow> un_servo u = Stepping \<and> pt_parent_port_identity (un_bmca u) = ParentPortIdentity src"
  by auto

lemma demo_pair_ready:
  "\<exists>net net' s st m. demo_pair = Some net \<and>
     network_turns demo_mpsc demo_tokio demo_th demo_clk demo_bitflags demo_pair_turns net = Some net' \<and>
     fsm_state (port_fsm (portmap (ln_loop (node_a net')))) = Some (Master s) \<and>
     fsm_state (port_fsm (portmap (ln_loop (node_b net')))) = Some st \<and> follows_parent (port_identity (ma_port s)) st m \<and>
     tk_queue demo_tokio (runtime (pl_host (ln_loop (node_a net')))) = [(DomainNumber 0, SyncTimeout)] \<and>
     tk_queue demo_tokio (runtime (pl_host (ln_loop (node_b net')))) = [(DomainNumber 0, DelayRequestTimeout)] \<and>
     (\<forall>n \<in> {node_a net', node_b net'}. \<forall>kind. mp_items demo_mpsc (net_channels net') (lb_rx (ln_socket n kind)) = [])"
proof -
  obtain p where p: "bmca_outcome (PortNumber 1) demo_master_ds Empty Empty
      = DecideMaster \<lparr>decision_point = p, decision_grandmaster_ds = demo_master_ds\<rparr>"
    using alone_is_master by blast
  have q: "pi_port_number demo_self = PortNumber 1" by (simp add: demo_self_def)
  show ?thesis
    unfolding demo_pair_def assemble_node_def demo_pair_turns_def
    by (simp add: demo_turn_defs p q uncalibrated_follows del: follows_parent.simps split: RxKind.splits)
qed

lemma demo_pair_runs:
  assumes "demo_pair = Some net"
  shows "network_runs demo_mpsc demo_tokio demo_th bf net"
proof -
  have clk: "\<forall>es. wf_ts (demo_clk es)" by (simp add: demo_clk_def wf_ts_def)
  have x: "tk_sleeping demo_tokio (Map.empty, [], 0) = Map.empty" "tk_queue demo_tokio (Map.empty, [], 0) = []"
    by (simp_all add: demo_tokio_def)
  note starts = network_assembled[OF demo_wf_ds(2,1) wf_profile_default wf_profile_default x x clk clk]
  show ?thesis
    using assms unfolding demo_pair_def Let_def
    by (auto split: prod.splits option.splits sum.splits intro!: network_starts starts)
qed

definition demo_clocks :: "side \<Rightarrow> VirtualClock" where
  "demo_clocks s = (case s of A \<Rightarrow> VirtualClock_new (TimeStamp 100 0) (Fin 1) Ptp 0 | B \<Rightarrow> VirtualClock_new (TimeStamp 110 0) (Fin 1) Ptp 0)"

subsection \<open>Property\<close>

text \<open>C9: One delay request and one two-step sync synchronise two nodes on loopback sockets, from the timers to the clock. In any run, let one node
  be master with its sync timeout to serve, and let the other follow it with the stepping servo, with its delay request timeout to serve;
  nothing is on the way. The nodes then take eight turns: the request is sent at \<open>i1\<close> and arrives at \<open>i3\<close>, the
  sync is sent at \<open>i5\<close> and arrives at \<open>i6\<close>, and the follow-up arrives at \<open>i8\<close>. No turn panics and no frame is refused, the follower becomes a slave, and whatever its clock's error \<open>e\<close> was,
  from \<open>i8\<close> on it shows the master's time less the time \<open>i8 - i6\<close> between the arrival of the sync and the step, to half
  of the difference of the two path delays: exactly, when they are equal. Both clocks run at their nominal rate, and all
  times lie within \<open>2\<^sup>5\<^sup>3\<close> nanoseconds (104 days) of their last settings and in the range of time stamps.\<close>

theorem network_synchronises:
  assumes "documented_tokio tk" and "documented_mpsc mp" and "documented_bitflags bf" and "network_runs mp tk th bf (cn_net cn)"
    and "a = net_node (cn_net cn) A" and "b = net_node (cn_net cn) B"
    and "fsm_state (port_fsm (portmap (ln_loop a))) = Some (Master s)" and "fsm_state (port_fsm (portmap (ln_loop b))) = Some st"
    and "follows_parent (port_identity (ma_port s)) st m"
    and "tk_queue tk (runtime (pl_host (ln_loop a))) = [(th_domain_number th, SyncTimeout)]"
    and "tk_queue tk (runtime (pl_host (ln_loop b))) = [(th_domain_number th, DelayRequestTimeout)]"
    and "\<forall>n \<in> {a, b}. \<forall>kind. mp_items mp (net_channels (cn_net cn)) (lb_rx (ln_socket n kind)) = []"
    and "ahead_of M (cn_clock cn A) 0" and "ahead_of M (cn_clock cn B) e"
    and "sorted [max (vc_start (cn_clock cn A)) (vc_start (cn_clock cn B)), i1, i2, i3, i4, i5, i6, i7, i8]"
    and "i8 < min (vc_start (cn_clock cn A)) (vc_start (cn_clock cn B)) + 2 ^ 53"
    and "M + int i8 + max e (int (i3 - i1)) < ts_limit"
  shows "\<exists>cn' sl. clocked_turns mp tk th bf
      [(B, Serve, i1), (B, Serve, i2), (A, Receive Event n3, i3), (B, Receive General n4, i4),
       (A, Serve, i5), (B, Receive Event n6, i6), (A, Serve, i7), (B, Receive General n8, i8)] cn = Some cn' \<and>
    fsm_state (port_fsm (portmap (ln_loop (net_node (cn_net cn') B)))) = Some (Slave sl) \<and> cn_clock cn' A = cn_clock cn A \<and>
    (\<forall>i. i8 \<le> i \<and> i < i8 + 2 ^ 53 \<and> M + int i + int (i3 - i1) < ts_limit \<longrightarrow>
       (\<exists>u. VirtualClock_now (cn_clock cn' B) i = Some u \<and>
          2 * \<bar>ts_total u - (M + int i - int (i8 - i6))\<bar> \<le> \<bar>int (i6 - i5) - int (i3 - i1)\<bar> + 1))"
proof -
  have net: "loopback_net tk mp" using assms(1,2) by (simp add: loopback_net_def tokio_runtime_def loopback_net_axioms_def)
  note bf = assms(3) and f = assms(9) and ca = assms(13) and cb = assms(14)
  have le: "i1 \<le> i2" "i2 \<le> i3" "i3 \<le> i4" "i4 \<le> i5" "i5 \<le> i6" "i6 \<le> i7" "i7 \<le> i8"
    "vc_start (cn_clock cn A) \<le> i1" "vc_start (cn_clock cn B) \<le> i1" using assms(15) by auto
  have lim: "M + int i8 + int (i3 - i1) < ts_limit" "M + int i8 + e < ts_limit" using assms(17) by simp_all
  have F: "PortFsm.fsm_state f = x \<longleftrightarrow> f = \<lparr>fsm_state = x\<rparr>" for f x by (cases f) simp
  have inb: "(\<lambda>kind. mp_items mp (net_channels (cn_net cn)) (lb_rx (ln_socket n kind))) = case_RxKind [] []" if "n \<in> {a, b}" for n
    using assms(12) that by (auto simp: fun_eq_iff split: RxKind.splits)
  have at: "loopback_net.at_node tk mp th cn A \<lparr>fsm_state = Some (Master s)\<rparr> [(th_domain_number th, SyncTimeout)] [] []"
    "loopback_net.at_node tk mp th cn B \<lparr>fsm_state = Some st\<rparr> [(th_domain_number th, DelayRequestTimeout)] [] []"
    using loopback_net.runs_joined[OF net assms(4,3)] inb[of a] inb[of b] assms(5-8,10,11)
    by (simp_all add: loopback_net.at_node_def[OF net] Let_def F)
  have ra: "\<exists>u. VirtualClock_now (cn_clock cn A) i = Some u \<and> wf_ts u \<and> ts_total u = M + int i" if "i \<in> {i3, i5, i7}" for i
    using ahead_of_reading[OF ca, of i] le that assms(16) lim by auto
  have rb: "\<exists>u. VirtualClock_now (cn_clock cn B) i = Some u \<and> wf_ts u \<and> ts_total u = M + int i + e" if "i \<in> {i1, i2, i4, i6, i8}" for i
    using ahead_of_reading[OF cb, of i] le that assms(16) lim by auto
  let ?u = "\<lambda>i. the (VirtualClock_now (cn_clock cn A) i)" and ?v = "\<lambda>i. the (VirtualClock_now (cn_clock cn B) i)"
  have ua: "VirtualClock_now (cn_clock cn A) i = Some (?u i) \<and> wf_ts (?u i)" if "i \<in> {i3, i5, i7}" for i using ra[OF that] by auto
  have vb: "VirtualClock_now (cn_clock cn B) i = Some (?v i) \<and> wf_ts (?v i)" if "i \<in> {i1, i2, i4, i6, i8}" for i using rb[OF that] by auto
  have total: "ts_total (?u i3) = M + int i3" "ts_total (?u i5) = M + int i5" "ts_total (?v i1) = M + int i1 + e" "ts_total (?v i6) = M + int i6 + e"
    using ra[of i3] ra[of i5] rb[of i1] rb[of i6] by auto
  let ?x = "int (i6 - i5) - int (i3 - i1)"
  let ?k = "trunc_div (2 * e + ?x) 2"
  have off: "(ts_total (?v i6) - ts_total (?u i5)) - (ts_total (?u i3) - ts_total (?v i1)) = 2 * e + ?x"
    using le by (simp add: total of_nat_diff)
  obtain t where t: "wf_ts t" "ts_total t = M + int i6 + e - ?k"
    "\<forall>i. i8 \<le> i \<and> i < i8 + 2 ^ 53 \<and> M + int i + int (i3 - i1) < ts_limit \<longrightarrow>
       (\<exists>u. VirtualClock_now (VirtualClock_step (cn_clock cn B) t i8) i = Some u \<and>
          2 * \<bar>ts_total u - (M + int i - int (i8 - i6))\<bar> \<le> \<bar>?x\<bar> + 1)"
    using step_target[OF ca cb, of i1 i3 i5 i6 i8] le lim by auto
  have target: "ts_total t = ts_total (?v i6) - trunc_div ((ts_total (?v i6) - ts_total (?u i5)) - (ts_total (?u i3) - ts_total (?v i1))) 2"
    unfolding off using t(2) by (simp add: total)
  obtain cn' sl where s: "clocked_turns mp tk th bf
      [(B, Serve, i1), (B, Serve, i2), (A, Receive Event n3, i3), (B, Receive General n4, i4),
       (A, Serve, i5), (B, Receive Event n6, i6), (A, Serve, i7), (B, Receive General n8, i8)] cn = Some cn'"
      "port_fsm (portmap (ln_loop (net_node (cn_net cn') B))) = \<lparr>fsm_state = Some (Slave sl)\<rparr>"
      "cn_clock cn' = (cn_clock cn)(B := VirtualClock_step (cn_clock cn B) t i8)"
    using loopback_net.exchange_turns[OF net bf f at, of i3 i5 i7 ?u i1 i2 i4 i6 i8 ?v t n3 n4 n6 n8, OF ua vb t(1) target] by auto
  with t(3) show ?thesis by auto
qed

theorem network_synchronises_witness:
  "\<exists>net net' cn' sl u. demo_pair = Some net \<and>
     network_turns demo_mpsc demo_tokio demo_th demo_clk demo_bitflags demo_pair_turns net = Some net' \<and>
     clocked_turns demo_mpsc demo_tokio demo_th demo_bitflags
       [(B, Serve, 1000000000), (B, Serve, 1000000000), (A, Receive Event Instant_zero, 2000000000),
        (B, Receive General Instant_zero, 3000000000), (A, Serve, 4000000000), (B, Receive Event Instant_zero, 5000000000),
        (A, Serve, 5000000000), (B, Receive General Instant_zero, 6000000000)]
       \<lparr>cn_net = net', cn_clock = demo_clocks\<rparr> = Some cn' \<and>
     fsm_state (port_fsm (portmap (ln_loop (net_node (cn_net cn') B)))) = Some (Slave sl) \<and>
     VirtualClock_now (cn_clock cn' B) 10000000000 = Some u \<and> ts_total u = 109000000000"
proof -
  obtain net net' s st m where n: "demo_pair = Some net"
      "network_turns demo_mpsc demo_tokio demo_th demo_clk demo_bitflags demo_pair_turns net = Some net'"
    and r: "fsm_state (port_fsm (portmap (ln_loop (node_a net')))) = Some (Master s)"
      "fsm_state (port_fsm (portmap (ln_loop (node_b net')))) = Some st" "follows_parent (port_identity (ma_port s)) st m"
      "tk_queue demo_tokio (runtime (pl_host (ln_loop (node_a net')))) = [(DomainNumber 0, SyncTimeout)]"
      "tk_queue demo_tokio (runtime (pl_host (ln_loop (node_b net')))) = [(DomainNumber 0, DelayRequestTimeout)]"
      "\<forall>n \<in> {node_a net', node_b net'}. \<forall>kind. mp_items demo_mpsc (net_channels net') (lb_rx (ln_socket n kind)) = []"
    using demo_pair_ready by blast
  have clk: "\<forall>es. wf_ts (demo_clk es)" by (simp add: demo_clk_def wf_ts_def)
  let ?cn = "\<lparr>cn_net = net', cn_clock = demo_clocks\<rparr>"
  have runs: "network_runs demo_mpsc demo_tokio demo_th demo_bitflags (cn_net ?cn)"
    using network_turns_runs[OF demo_pair_runs[OF n(1)] clk n(2)] by simp
  have c: "ahead_of 100000000000 (demo_clocks A) 0" "ahead_of 100000000000 (demo_clocks B) 10000000000" "vc_start (demo_clocks x) = 0" for x
    by (cases x; simp add: demo_clocks_def ahead_of_def VirtualClock_new_def wf_ts_def ts_total_def)+
  have "sorted [max (vc_start (cn_clock ?cn A)) (vc_start (cn_clock ?cn B)), 1000000000, 1000000000, 2000000000, 3000000000, 4000000000,
      5000000000, 5000000000, 6000000000]" "6000000000 < min (vc_start (cn_clock ?cn A)) (vc_start (cn_clock ?cn B)) + 2 ^ 53"
    "100000000000 + int 6000000000 + max 10000000000 (int (2000000000 - 1000000000)) < ts_limit"
    by (simp_all add: c(3) ts_limit_def)
  from network_synchronises[OF demo_tokio_documented demo_mpsc_documented demo_bitflags_documented runs refl refl _ _ r(3) _ _ _ _ _ this,
      where ?n3.0 = Instant_zero and ?n4.0 = Instant_zero and ?n6.0 = Instant_zero and ?n8.0 = Instant_zero] r c
  obtain cn' sl where x: "clocked_turns demo_mpsc demo_tokio demo_th demo_bitflags
       [(B, Serve, 1000000000), (B, Serve, 1000000000), (A, Receive Event Instant_zero, 2000000000),
        (B, Receive General Instant_zero, 3000000000), (A, Serve, 4000000000), (B, Receive Event Instant_zero, 5000000000),
        (A, Serve, 5000000000), (B, Receive General Instant_zero, 6000000000)] ?cn = Some cn'"
      "fsm_state (port_fsm (portmap (ln_loop (net_node (cn_net cn') B)))) = Some (Slave sl)"
    and u: "\<exists>u. VirtualClock_now (cn_clock cn' B) 10000000000 = Some u \<and> 2 * \<bar>ts_total u - 109000000000\<bar> \<le> 1"
    by (auto simp: demo_th_def net_node_def ts_limit_def simp del: clocked_turns.simps dest!: spec[of _ 10000000000])
  from u obtain v where "VirtualClock_now (cn_clock cn' B) 10000000000 = Some v" "2 * \<bar>ts_total v - 109000000000\<bar> \<le> 1" by blast
  moreover from this have "ts_total v = 109000000000" by presburger
  ultimately show ?thesis using n x by blast
qed

end
