(* ===== verification/Spec2Isabelle.thy ===== *)
theory Spec2Isabelle
  imports Ptp_Embedded Ptp_Exchange
begin

text \<open>
  \<^bold>\<open>rptp, a Precision Time Protocol (IEEE 1588) implementation in Rust.\<close>

  The library crate \<^verbatim>\<open>src/crates/rptp\<close> parses and sends PTP messages, keeps records of the foreign
  masters each port hears, runs the best master clock algorithm, drives a state machine per port
  and disciplines the local clock with a servo. The daemon crate \<^verbatim>\<open>src/crates/rptp-daemon\<close> runs one
  port of an ordinary clock on sockets and timers of the Tokio runtime; \<^verbatim>\<open>src/crates/rptp-embedded-demo\<close>
  runs one on a microcontroller with no operating system, and \<^verbatim>\<open>src/crates/grafana-prometheus-demo\<close> runs two
  daemon nodes in one process, master and slave, joined by in-memory sockets.

  \<^bold>\<open>How the parts interact.\<close> A datagram goes through \<open>MessageIngress\<close> (\<^verbatim>\<open>message.rs\<close>, \<^verbatim>\<open>wire.rs\<close>) to the
  port of its domain, a \<open>PortFsm\<close> around a \<open>PortState\<close> (\<^verbatim>\<open>port.rs\<close>, \<^verbatim>\<open>portstate.rs\<close>). A handler of the
  current state (\<^verbatim>\<open>initializing.rs\<close> to \<^verbatim>\<open>faulty.rs\<close>) may send messages, restart timers, feed the delay
  mechanism (\<^verbatim>\<open>e2e.rs\<close>) and the servo (\<^verbatim>\<open>servo.rs\<close>), and return a decision, which \<open>PortState::apply\<close> turns into
  the next state with the constructors of \<^verbatim>\<open>profile.rs\<close>. Announces feed the port's records (\<^verbatim>\<open>foreign.rs\<close>,
  \<^verbatim>\<open>infra.rs\<close>, \<^verbatim>\<open>heapless.rs\<close>); when their best record changes, the port calls \<open>trigger\<close> of its clock
  (\<^verbatim>\<open>ordinary.rs\<close>, \<^verbatim>\<open>boundary.rs\<close>), which collects the best record of every port and sends all of them
  one state decision event; each port then evaluates the state decision algorithm (\<^verbatim>\<open>bmca.rs\<close>) on it.

  \<^bold>\<open>Theories and sources.\<close>

  \<^item> \<^verbatim>\<open>Ptp_Prelude\<close>: machine integers with checked, saturating and wrapping operations, big-endian byte
    buffers, Rust's \<open>Ordering\<close>; the shared lemmas and lemma collections.
  \<^item> \<^verbatim>\<open>Ptp_Time\<close> (\<^verbatim>\<open>time.rs\<close>), \<^verbatim>\<open>Ptp_Dataset\<close> (\<^verbatim>\<open>clock.rs\<close>, \<^verbatim>\<open>dataset.rs\<close>, port identities of \<^verbatim>\<open>port.rs\<close>): values and
    their orders; the data set comparison of the standard.
  \<^item> \<^verbatim>\<open>Ptp_Wire\<close> (\<^verbatim>\<open>result.rs\<close>, \<^verbatim>\<open>wire.rs\<close>), \<^verbatim>\<open>Ptp_Message\<close> (\<^verbatim>\<open>message.rs\<close>): errors, the frame layout, parsing and
    encoding of every message.
  \<^item> \<^verbatim>\<open>Ptp_Foreign\<close> (\<^verbatim>\<open>foreign.rs\<close>, \<^verbatim>\<open>infra.rs\<close>), \<^verbatim>\<open>Ptp_Heapless\<close> (\<^verbatim>\<open>heapless.rs\<close>): qualification of foreign masters,
    the two record stores, the candidate stores.
  \<^item> \<^verbatim>\<open>Ptp_Bmca\<close> (\<^verbatim>\<open>bmca.rs\<close>): the state decision algorithm and the four roles a port has in it.
  \<^item> \<^verbatim>\<open>Ptp_Float\<close>: binary64 arithmetic; \<^verbatim>\<open>Ptp_Servo\<close> (\<^verbatim>\<open>servo.rs\<close>), \<^verbatim>\<open>Ptp_E2E\<close> (\<^verbatim>\<open>e2e.rs\<close>).
  \<^item> \<^verbatim>\<open>Ptp_Port\<close> (\<^verbatim>\<open>port.rs\<close>, \<^verbatim>\<open>log.rs\<close>): the port's boundary to its infrastructure, timers, port numbers.
  \<^item> \<^verbatim>\<open>Ptp_State\<close> (the eight state modules and \<^verbatim>\<open>profile.rs\<close>), \<^verbatim>\<open>Ptp_Fsm\<close> (\<^verbatim>\<open>portstate.rs\<close>, \<open>PortFsm\<close>, \<open>MessageIngress\<close>):
    every handler, every transition, the dispatch functions and the machine.
  \<^item> \<^verbatim>\<open>Ptp_Invariant\<close>, \<^verbatim>\<open>Ptp_Egress\<close>: the invariants of the machine, and what it sends.
  \<^item> \<^verbatim>\<open>Ptp_Clock\<close> (\<^verbatim>\<open>ordinary.rs\<close>, \<^verbatim>\<open>boundary.rs\<close>, notifications of \<^verbatim>\<open>infra.rs\<close>), \<^verbatim>\<open>Ptp_Host\<close>: clocks of one and of many
    ports, and their runs.
  \<^item> \<^verbatim>\<open>Ptp_Node\<close>: what the port of an ordinary clock hands to the program that hosts it.
  \<^item> \<^verbatim>\<open>Ptp_Virtual\<close> (\<^verbatim>\<open>virtualclock.rs\<close> of the daemon): the interface of a steady clock and the daemon's clock.
  \<^item> \<^verbatim>\<open>Ptp_Sync\<close>: the slave port, its delay mechanism and stepping servo in a loop with the daemon's clock.
  \<^item> \<^verbatim>\<open>Ptp_Board\<close>, \<^verbatim>\<open>Ptp_Lm3s\<close>, \<^verbatim>\<open>Ptp_Embedded\<close> (\<^verbatim>\<open>main.rs\<close> and \<^verbatim>\<open>net.rs\<close> of the embedded demo): counters and
    clocks; the Ethernet driver and the sockets; timer slots, the start and the main loop.
  \<^item> \<^verbatim>\<open>Ptp_Daemon\<close> (\<^verbatim>\<open>node.rs\<close>, \<^verbatim>\<open>timestamping.rs\<close>, \<^verbatim>\<open>ordinary.rs\<close>, \<^verbatim>\<open>boundary.rs\<close> of the daemon): Tokio
    timeouts, the channel, the loop.
  \<^item> \<^verbatim>\<open>Ptp_Network\<close> (\<^verbatim>\<open>net.rs\<close> and \<^verbatim>\<open>main.rs\<close> of the daemon, \<^verbatim>\<open>node.rs\<close> and \<^verbatim>\<open>main.rs\<close> of the metrics demo): loopback
    sockets, the daemon's start, two nodes with their sockets joined, the demo's configurations and its clock task.
  \<^item> \<^verbatim>\<open>Ptp_Exchange\<close>: two such nodes with their own clocks, through a delay request and a two-step sync.
  \<^item> \<^verbatim>\<open>Ptp_Examples\<close>: the concrete ports and clocks with which the hypotheses of the properties are discharged.

  \<^bold>\<open>How code becomes definitions.\<close> A struct is a record, an enum a datatype, a method \<open>T::f\<close> the definition
  \<open>T_f\<close>; \<open>&mut self\<close> is passed and returned. A panic (failed assertion, overflow, unreachable transition) is
  \<open>None\<close>, an \<open>Err\<close> is \<open>Inl\<close>. The traits a port calls (\<open>PhysicalPort\<close>, \<open>TimerHost\<close>, \<open>TxTimestamping\<close>, \<open>PortLog\<close>,
  the clock) have no code in the library: every call is appended to the \<open>trace\<close> of the \<open>world\<close>, timers are
  numbered as they are created, and the answers of the infrastructure (does a send succeed, which time
  scale) are functions of the trace, that is, arbitrary. \<open>timers\<close> reads off a trace which timers are alive
  and what message each carries; dropping a Rust value that owns a timeout is an effect too. A call
  of \<open>trigger\<close> is recorded in the trace and executed by the clock when the handler returns, because no
  handler reads what it writes. Doubles are rationals with the rounding of binary64 (to nearest, ties to
  even, overflow to infinity, subnormals); the two zeros are identified, which no operation of the servo
  or of the virtual clock distinguishes. Record stores are generic in the source: the ports are modelled with
  \<open>ForeignClockRecordsVec\<close>, and \<^verbatim>\<open>Ptp_Heapless\<close> relates the fixed-capacity store to it.
  Third-party code is a parameter with its documented behaviour as a hypothesis: \<open>documented_bitflags\<close>
  (the \<open>bitflags\<close> crate), \<open>documented_heapless\<close> (the vector of \<open>heapless\<close>), \<open>documented_tokio\<close> (executor and
  channel), \<open>documented_mpsc\<close> (the channels of the loopback sockets), \<open>documented_smoltcp\<close> (the UDP sockets of the embedded demo); each has an instance here.
  What \<open>smoltcp\<close> delivers to its sockets in a poll, and the counters of the board, are arbitrary functions. There is no fuel: every function but \<open>deliver_timestamps\<close> is total, that one is a partial function
  shown to return in every run (the drain of a socket ends because its output is bounded), and the loops that the source leaves open (a clock's life, the
  daemon's and the demo's loop) are inductive relations.

  \<^bold>\<open>What is shown.\<close>

  \<^item> Safety of the machine: the one input that can panic a port (C1), the ingress for arbitrary bytes (C2),
    the daemon as a whole (C3), only well-formed frames leave a port (C4), no timer leaks (C5).
  \<^item> Messages: every message that is sent is received as it was (C6); rejected frames change nothing.
  \<^item> Time: a delay exchange measures the offset, the stepping port locks, servo output and bounds; the error
    of the slave's clock over rounds of sync messages.
  \<^item> Master selection: the data set order, qualification of foreign masters,
    and for a whole boundary clock that its ports settle on at most one slave and that it follows the best clock any of them hears.
  \<^item> Clocks and runtime: candidates and notifications agree with the ports in every run of an ordinary and
    of a boundary clock; Tokio's tasks implement the ports' timers, and on the board timer \<open>k\<close> is slot \<open>k\<close>;
    every iteration of the board's loop ends, and it is known which of the calls in it panic.
  \<^item> Clocks of the hosts: the virtual clock tracks its rate and never goes back, the cycle clock lags by less
    than a nanosecond per reading, the instants of the board are exact across wrap-arounds.
  \<^item> Frames of the board: what is taken out of and written to the Ethernet controller, which datagrams a
    poll hands over.
  \<^item> The network: what a node on loopback sockets is handed and has still to receive is what its peer has sent, in order, and nothing is refused; no turn of a node panics but for the stale
    timeout, and from the timers through both machines, the frames and the channels one exchange sets
    the slave's clock to the master's, whatever its error was; the schedule of the demo's master clock. The turns of the nodes
    come in any order; instants are nanoseconds, and a reading is exact within \<open>2 ^ 53\<close> of them after a step (binary64).
  \<^item> Stores: the candidate stores and the two record stores against their interfaces
    (locales \<open>clock_records\<close>, \<open>gm_candidates\<close>; the others are \<open>bmca_role\<close>, \<open>decision_host\<close>, \<open>heapless_store\<close>, \<open>tokio_runtime\<close>, \<open>loopback_net\<close>,
    \<open>steady_clock\<close>, \<open>smoltcp_sockets\<close>, \<open>hosted_ports\<close>).
  \<^item> Defects: the stale announce receipt timeout, the failover to a silent parent, the response to another
    slave's request, the direction of the calibration, the delay exchange that survives a
    step; in the demo a dropped timer that still fires.

  \<^bold>\<open>Not modelled.\<close> Formatting (\<open>Display\<close>), the no-op and test implementations of traits, \<open>ServoMetrics\<close>
  and tracing output, which no decision depends on; the UDP sockets of the daemon (\<open>MulticastSocket\<close> only calls the system; what it
  returns is arbitrary) and its shutdown; the HTTP server and the gauge of the metrics demo; the setup of the
  board's registers and of the \<open>smoltcp\<close> sockets, and printing; the end-to-end tests, which start containers.
\<close>

section \<open>Properties of the port state machine\<close>

text \<open>C1: From a well-formed port, whatever sequence of well-formed event, general and system
  messages has been processed, the next message makes the machine panic exactly when the
  port is in the master state and the message is an announce receipt timeout. In particular no
  network message, no timestamp feedback and no state decision ever panics.\<close>

theorem reachable_panic_iff:
  assumes "fsm_inv base (f0, w0)" and "fsm_reaches (f0, w0) (f, w)" and "wf_input i"
  shows "PortFsm_input f i w = None \<longleftrightarrow>
    (\<exists>s. fsm_state f = Some (Master s)) \<and> i = SystemIn AnnounceReceiptTimeout"
proof -
  obtain st where "fsm_state f = Some st" "wf_state st"
    using reaches_inv[OF assms(2,1)] by (auto simp: fsm_inv_def)
  then show ?thesis
    using input_panics_iff[of f st i w] assms(3) by (simp add: stale_announce_timeout_def)
qed

theorem reachable_panic_iff_witness:
  "PortFsm_input demo_fsm (SystemIn Initialized) demo_world \<noteq> None"
  using reachable_panic_iff[OF demo_fsm_inv fsm_here, of "SystemIn Initialized"]
  by (simp add: demo_fsm_def PortFsm_new_def)

text \<open>C5: After any sequence of messages the timers that are alive are those of the rest of the
  clock together with exactly the timers the current state owns, each armed with the message that
  state expects: no transition leaks a timer or loses one.\<close>

theorem reachable_live_timers:
  assumes "fsm_inv base (f0, w0)" and "fsm_reaches (f0, w0) (f, w)"
  shows "\<exists>st. fsm_state f = Some st \<and> timers (trace w) = base ++ map_of (owned st) \<and>
    distinct (map fst (owned st)) \<and> fst ` set (owned st) \<inter> dom base = {}"
  using reaches_inv[OF assms(2,1)] by (auto simp: fsm_inv_def timers_inv_def)

theorem reachable_live_timers_witness:
  "\<exists>st. fsm_state demo_fsm = Some st \<and> timers (trace demo_world) = Map.empty ++ map_of (owned st)"
  using reachable_live_timers[OF demo_fsm_inv fsm_here] by blast

text \<open>The message of a timer that the port owns and that is still alive never makes
  the machine panic, in any reachable state.\<close>

theorem live_timer_never_panics:
  assumes "fsm_inv base (f0, w0)" and "fsm_reaches (f0, w0) (f, w)"
    and "timers (trace w) k = Some m" and "k \<notin> dom base"
  shows "PortFsm_process_system_message f m w \<noteq> None"
proof -
  obtain st where st: "fsm_state f = Some st" "wf_state st" "timers (trace w) = base ++ map_of (owned st)"
    using reaches_inv[OF assms(2,1)] by (auto simp: fsm_inv_def timers_inv_def)
  then have "map_of (owned st) k = Some m" using assms(3,4) by (auto simp: map_add_Some_iff)
  then have "wf_system m" "\<not> stale_announce_timeout st (SystemIn m)"
    by (cases st; auto simp: stale_announce_timeout_def split: if_splits)+
  then show ?thesis using input_panics_iff[of f st "SystemIn m" w] st by simp
qed

theorem live_timer_never_panics_witness:
  "PortFsm_process_system_message
     (fst (the (PortFsm_input demo_fsm (SystemIn Initialized) demo_world))) AnnounceReceiptTimeout
     (snd (the (PortFsm_input demo_fsm (SystemIn Initialized) demo_world))) \<noteq> None"
proof -
  let ?c = "the (PortFsm_input demo_fsm (SystemIn Initialized) demo_world)"
  have s: "PortFsm_input demo_fsm (SystemIn Initialized) demo_world = Some (fst ?c, snd ?c)"
    "timers (trace (snd ?c)) 0 = Some AnnounceReceiptTimeout"
    by (simp_all add: demo_fsm_def demo_init_def demo_world_def demo_port_def PortFsm_new_def
        PortFsm_process_system_message_def PortFsm_process_def PortFsm_apply_decision_def
        PortState_dispatch_system_def PortState_apply_def transition_defs profile_defs world_defs
        Let_def ListeningBmca_new_def timers_def)
  show ?thesis
    by (rule live_timer_never_panics[OF demo_fsm_inv fsm_step[OF fsm_here _ s(1)] s(2)]) simp_all
qed

section \<open>Properties of the network ingress\<close>

text \<open>C2: Any datagram whatsoever that arrives at a well-formed port, on the event or on the
  general channel, is processed without a panic and keeps the port well formed; when it is
  rejected, the returned error is the only effect: neither the port nor the outside world
  changes.\<close>

theorem ingress_total:
  assumes "fsm_inv base (port_fsm ports, w)" and "wf_ts ts"
  shows "(\<exists>r ports' w'. MessageIngress_receive_event bf ports b ts w = Some (r, ports', w') \<and>
      fsm_inv base (port_fsm ports', w') \<and> (isl r \<longrightarrow> ports' = ports \<and> w' = w)) \<and>
    (\<exists>r ports' w'. MessageIngress_receive_general bf ports b now w = Some (r, ports', w') \<and>
      fsm_inv base (port_fsm ports', w') \<and> (isl r \<longrightarrow> ports' = ports \<and> w' = w))"
  using receive_event_total[OF assms] receive_general_total[OF assms(1)] by (rule conjI)

theorem ingress_total_witness:
  "\<exists>r ports' w'. MessageIngress_receive_general demo_bitflags
     \<lparr>map_domain_number = DomainNumber 0, port_fsm = demo_fsm\<rparr> [1, 2, 3] (Instant_from_secs 1) demo_world
     = Some (r, ports', w')"
  using ingress_total[of Map.empty "\<lparr>map_domain_number = DomainNumber 0, port_fsm = demo_fsm\<rparr>"
      demo_world "TimeStamp 0 0" demo_bitflags "[1, 2, 3]" "Instant_from_secs 1"]
  by (auto simp: wf_ts_def)

text \<open>C35: A datagram is accepted only when it has at least a full header, protocol version 2, a
  declared length equal to its size, the domain of the port and a message type of its channel
  (Sync or DelayReq for events; Announce, FollowUp or DelayResp for general messages).\<close>

theorem ingress_accepts_only_valid:
  "(MessageIngress_receive_event bf ports b ts w = Some (Inr (), c) \<longrightarrow>
      34 \<le> length b \<and> b ! 1 AND 0x0F = 2 \<and> unat (u16_from_be_bytes (slice 2 4 b)) = length b \<and>
      MessageHeader_domain_number b = map_domain_number ports \<and>
      MessageHeader_message_type b \<in> {Inr Sync, Inr DelayRequest}) \<and>
   (MessageIngress_receive_general bf ports b now w = Some (Inr (), c) \<longrightarrow>
      34 \<le> length b \<and> b ! 1 AND 0x0F = 2 \<and> unat (u16_from_be_bytes (slice 2 4 b)) = length b \<and>
      MessageHeader_domain_number b = map_domain_number ports \<and>
      MessageHeader_message_type b \<in> {Inr Announce, Inr FollowUp, Inr DelayResponse})"
  using receive_event_accepted[of bf ports b ts w c] receive_general_accepted[of bf ports b now w c]
  unfolding length_checked_v2_Inr by blast

theorem ingress_accepts_only_valid_witness:
  "\<exists>b. MessageHeader_domain_number b = DomainNumber 0 \<and> MessageHeader_message_type b \<in> {Inr Sync, Inr DelayRequest}"
proof -
  let ?m = "DelayReq \<lparr>dreq_sequence_id = SequenceId 7\<rparr>"
  let ?b = "EventMessage_to_wire ?m (fresh_buffer (DomainNumber 0) demo_self)"
  let ?ports = "\<lparr>map_domain_number = DomainNumber 0, port_fsm = demo_fsm\<rparr>"
  have "parse_event demo_bitflags (SingleDomainPortMap_port_by_domain ?ports) ?b = Inr (demo_fsm, demo_self, ?m)"
    by (rule parse_event_to_wire) (simp_all add: SingleDomainPortMap_port_by_domain_def)
  then have "MessageIngress_receive_event demo_bitflags ?ports ?b (demo_ts 1) demo_world
      = Some (Inr (), ?ports, demo_world)"
    by (simp add: MessageIngress_receive_event_def PortFsm_process_event_message_def PortFsm_process_def
        demo_fsm_def PortFsm_new_def PortState_dispatch_event_def)
  with ingress_accepts_only_valid[of demo_bitflags ?ports ?b "demo_ts 1" demo_world] show ?thesis by auto
qed

text \<open>C6: What one port sends, the other port receives: the datagram that \<open>send_event\<close> or
  \<open>send_general\<close> hands to the physical port, when it arrives at the ingress of a port of
  the same domain, is decoded to the very message that was sent, attributed to the sending port
  identity, and processed by the receiving state machine.\<close>

theorem sent_is_received:
  assumes "documented_bitflags bf" and "map_domain_number ports = domain_number p"
    and "wf_event m" and "wf_general g"
  shows "(\<exists>b ok es. trace (snd (DomainPort_send_event p m w)) = trace w @ EventSent b ok # es \<and>
      MessageIngress_receive_event bf ports b ts w' =
        map_option (\<lambda>(f, w). (Inr (), ports\<lparr>port_fsm := f\<rparr>, w))
          (PortFsm_process_event_message (port_fsm ports) (port_identity p) m ts w')) \<and>
    (\<exists>b ok. trace (snd (DomainPort_send_general p g w)) = trace w @ [GeneralSent b ok] \<and>
      MessageIngress_receive_general bf ports b now w' =
        map_option (\<lambda>(f, w). (Inr (), ports\<lparr>port_fsm := f\<rparr>, w))
          (PortFsm_process_general_message (port_fsm ports) (port_identity p) g now w'))"
  using event_round_trip[OF assms(1-3)] general_round_trip[OF assms(1,2,4)] by (rule conjI)

theorem sent_is_received_witness:
  "\<exists>b ok es. trace (snd (DomainPort_send_event demo_port (DelayReq \<lparr>dreq_sequence_id = SequenceId 7\<rparr>) demo_world))
      = trace demo_world @ EventSent b ok # es \<and>
    MessageIngress_receive_event demo_bitflags \<lparr>map_domain_number = DomainNumber 0, port_fsm = demo_fsm\<rparr> b
        (demo_ts 1) demo_world
      = map_option (\<lambda>(f, w). (Inr (), \<lparr>map_domain_number = DomainNumber 0, port_fsm = f\<rparr>, w))
          (PortFsm_process_event_message demo_fsm demo_self (DelayReq \<lparr>dreq_sequence_id = SequenceId 7\<rparr>)
            (demo_ts 1) demo_world)"
  using sent_is_received[OF demo_bitflags_documented, of "\<lparr>map_domain_number = DomainNumber 0, port_fsm = demo_fsm\<rparr>"
      demo_port "DelayReq \<lparr>dreq_sequence_id = SequenceId 7\<rparr>"
      "FollowUpMsg \<lparr>fu_sequence_id = SequenceId 7, fu_log_message_interval = LogMessageInterval 0,
         fu_precise_origin_timestamp = demo_ts 1\<rparr>" demo_world "demo_ts 1" demo_world]
  by (simp add: demo_port_def demo_ts_def wf_ts_def)

section \<open>Properties of state decision events\<close>

text \<open>C23: Processing one state decision event twice is the same as processing it once: after the
  first one the decision is in force, so the second changes neither the port nor the world. A
  port does not oscillate on a repeated event.\<close>

theorem state_decision_idempotent:
  assumes "PortFsm_process_system_message f (StateDecisionEvent snapshot) w = Some (f1, w1)"
  shows "PortFsm_process_system_message f1 (StateDecisionEvent snapshot) w1 = Some (f1, w1)"
proof (cases "fsm_state f")
  case None
  with assms show ?thesis by (simp add: PortFsm_process_system_message_def PortFsm_process_def)
next
  case (Some st)
  then have "f = \<lparr>fsm_state = Some st\<rparr>" by simp
  with assms show ?thesis by (simp add: decision_event_twice)
qed

theorem state_decision_idempotent_witness:
  "\<exists>f w f1 w1. demo_run [SystemIn Initialized, SystemIn AnnounceReceiptTimeout] = Some (f, w) \<and>
    PortFsm_process_system_message f (StateDecisionEvent \<lparr>d_0 = demo_local_ds, e_best = Empty\<rparr>) w = Some (f1, w1) \<and>
    PortFsm_process_system_message f1 (StateDecisionEvent \<lparr>d_0 = demo_local_ds, e_best = Empty\<rparr>) w1 = Some (f1, w1)"
proof -
  let ?e = "StateDecisionEvent \<lparr>d_0 = demo_local_ds, e_best = Empty\<rparr>"
  obtain f w where fw: "demo_run [SystemIn Initialized, SystemIn AnnounceReceiptTimeout] = Some (f, w)"
    using demo_becomes_master by blast
  from demo_run_inv[OF this] have inv: "fsm_inv Map.empty (f, w)" by simp
  obtain f1 w1 where "PortFsm_process_system_message f ?e w = Some (f1, w1)"
    using input_total[OF inv, of "SystemIn ?e"] by (auto simp: stale_announce_timeout_def)
  with state_decision_idempotent[OF this] fw show ?thesis by blast
qed

text \<open>C27: The port state machine follows the protocol's state graph: whatever message is processed, the
  state stays in its phase or moves along an edge of the graph. In particular a port becomes
  slave only from uncalibrated, listening only from initializing, initializing only from
  faulty, and it leaves faulty in no other way.\<close>

theorem follows_state_graph:
  assumes "fsm_state f = Some st" and "PortFsm_input f i w = Some (f', w')"
  shows "\<exists>st'. fsm_state f' = Some st' \<and> phase_of st' \<in> insert (phase_of st) (successors (phase_of st))"
  by (rule input_phase[OF assms]) blast

theorem follows_state_graph_witness:
  "\<exists>f w st. demo_run [SystemIn Initialized] = Some (f, w) \<and> fsm_state f = Some st \<and> phase_of st \<in> {InitializingP, ListeningP}"
proof -
  have "demo_run [SystemIn Initialized] = PortFsm_input demo_fsm (SystemIn Initialized) demo_world"
    by (simp add: demo_run_def)
  moreover obtain f w where r: "PortFsm_input demo_fsm (SystemIn Initialized) demo_world = Some (f, w)"
    using input_total[OF demo_fsm_inv, of "SystemIn Initialized"] by (auto simp: stale_announce_timeout_def)
  moreover have "fsm_state demo_fsm = Some (Initializing demo_init)" by (simp add: demo_fsm_def PortFsm_new_def)
  ultimately show ?thesis using follows_state_graph[OF _ r, of "Initializing demo_init"] by auto
qed

text \<open>An announce receipt timeout that is queued when a listening, passive, uncalibrated or slave port
  becomes master is fatal: the first timeout makes the port master of its own data set, the
  second one, processed by the master, panics.\<close>

theorem queued_announce_timeout_panics:
  assumes "fsm_state f = Some st" and "phase_of st \<in> {ListeningP, PassiveP, UncalibratedP, SlaveP}"
  shows "\<exists>s w'. PortFsm_process_system_message f AnnounceReceiptTimeout w = Some (\<lparr>fsm_state = Some (Master s)\<rparr>, w') \<and>
    gt_grandmaster_ds (ma_bmca s) = bmca_d_0 (fst (state_parts st)) \<and>
    PortFsm_process_system_message \<lparr>fsm_state = Some (Master s)\<rparr> AnnounceReceiptTimeout w' = None"
  using assms
  by (cases st; cases f)
    (auto simp: PortFsm_process_system_message_def PortFsm_process_def PortFsm_apply_decision_def
      PortState_dispatch_system_def PortState_apply_def transition_defs profile_defs parts_defs Let_def)

theorem queued_announce_timeout_panics_witness:
  "\<exists>f w. PortFsm_process_system_message \<lparr>fsm_state = Some (Listening demo_listening)\<rparr> AnnounceReceiptTimeout demo_world
      = Some (f, w) \<and> PortFsm_process_system_message f AnnounceReceiptTimeout w = None"
  using queued_announce_timeout_panics[of "\<lparr>fsm_state = Some (Listening demo_listening)\<rparr>" "Listening demo_listening" demo_world]
  by fastforce

text \<open>C38: A slave that loses its parent does not recover when the parent was its best clock: the announce
  receipt timeout makes it master and reports its best foreign record again, which is still the
  record of the silent parent, and the state decision event that carries it back makes the
  port follow the silent parent again.\<close>

theorem failover_returns_to_silent_parent:
  assumes "fsm_state f = Some (Slave s)"
    and "BestForeignRecord_snapshot (pt_best_foreign (sl_bmca s)) = Qualified ds src rcv"
    and "pi_port_number rcv = bmca_port_number (pt_bmca (sl_bmca s))"
    and "\<not> ClockDS_is_authoritative d0" and "\<not> local_better d0 ds src rcv"
  shows "\<exists>m w1 w2 u. PortFsm_process_system_message f AnnounceReceiptTimeout w = Some (\<lparr>fsm_state = Some (Master m)\<rparr>, w1) \<and>
    StateDecisionTriggered (received_on_port (pt_state_decision_trigger (sl_bmca s))) (Qualified ds src rcv)
      \<in> set (drop (length (trace w)) (trace w1)) \<and>
    PortFsm_process_system_message \<lparr>fsm_state = Some (Master m)\<rparr>
      (StateDecisionEvent \<lparr>d_0 = d0, e_best = Qualified ds src rcv\<rparr>) w1
      = Some (\<lparr>fsm_state = Some (Uncalibrated u)\<rparr>, w2) \<and>
    pt_parent_port_identity (un_bmca u) = ParentPortIdentity src"
proof -
  have o: "bmca_outcome (bmca_port_number (pt_bmca (sl_bmca s))) d0 (Qualified ds src rcv) (Qualified ds src rcv)
      = DecideSlave (ParentPortIdentity src)"
    using decision_Slave_iff[of "pt_bmca (sl_bmca s)" d0 "Qualified ds src rcv" "Qualified ds src rcv"] assms(3-5)
    by (simp add: decision_outcome)
  show ?thesis
    using assms(1,2) o
    by (cases f) (simp add: decision_event_defs transition_defs profile_defs parts_defs world_defs Let_def)
qed

theorem failover_returns_to_silent_parent_witness:
  "\<exists>m w1 w2 u. PortFsm_process_system_message \<lparr>fsm_state = Some (Slave demo_slave)\<rparr> AnnounceReceiptTimeout demo_world
      = Some (\<lparr>fsm_state = Some (Master m)\<rparr>, w1) \<and>
    PortFsm_process_system_message \<lparr>fsm_state = Some (Master m)\<rparr> (StateDecisionEvent
      \<lparr>d_0 = demo_local_ds, e_best = Qualified demo_master_ds demo_master demo_self\<rparr>) w1
      = Some (\<lparr>fsm_state = Some (Uncalibrated u)\<rparr>, w2) \<and>
    pt_parent_port_identity (un_bmca u) = ParentPortIdentity demo_master"
proof -
  have "fsm_state \<lparr>fsm_state = Some (Slave demo_slave)\<rparr> = Some (Slave demo_slave)"
    "BestForeignRecord_snapshot (pt_best_foreign (sl_bmca demo_slave)) = Qualified demo_master_ds demo_master demo_self"
    "pi_port_number demo_self = bmca_port_number (pt_bmca (sl_bmca demo_slave))"
    by (simp_all add: demo_slave_def demo_parent_def demo_bmca_def demo_self_def)
  from failover_returns_to_silent_parent[OF this demo_local_worse(2,1), of demo_world] show ?thesis by blast
qed

section \<open>Properties of the protocol exchanges\<close>

text \<open>A master answers every delay request whose response it can send: exactly one general message
  leaves, and decoding it gives a delay response with the sequence id of the request, the receive
  time stamp of the request and the requesting port identity; the master state is unchanged.\<close>

theorem delay_request_answered:
  assumes "fsm_state f = Some (Master s)" and "wf_ts ts" and "documented_bitflags bf"
    and "\<And>tr b. physical_send_general (ma_port s) tr b"
  shows "\<exists>w' b resp. PortFsm_process_event_message f src (DelayReq req) ts w = Some (f, w') \<and>
    sent_general (trace w') = sent_general (trace w) @ [(b, True)] \<and>
    parse_general bf (\<lambda>d. Inr d) b = Inr (domain_number (ma_port s), port_identity (ma_port s), DelayResp resp) \<and>
    drsp_sequence_id resp = dreq_sequence_id req \<and> drsp_receive_timestamp resp = ts \<and>
    drsp_requesting_port_identity resp = src"
proof -
  let ?resp = "DelayRequestMessage_response req
      (LogInterval_log_message_interval (ma_log_min_delay_request_interval s)) ts src"
  let ?b = "GeneralMessage_to_wire (DelayResp ?resp) (fresh_buffer (domain_number (ma_port s)) (port_identity (ma_port s)))"
  have wf: "wf_general (DelayResp ?resp)" using assms(2) by (simp add: DelayRequestMessage_response_def)
  have "parse_general bf (\<lambda>d. Inr d) ?b = Inr (domain_number (ma_port s), port_identity (ma_port s), DelayResp ?resp)"
    by (rule parse_general_to_wire[OF assms(3) wf]) simp
  moreover have "\<exists>w'. PortFsm_process_event_message f src (DelayReq req) ts w = Some (f, w') \<and>
      sent_general (trace w') = sent_general (trace w) @ [(?b, True)]"
    using assms(1,4)
    by (cases f) (simp add: PortFsm_process_event_message_def PortFsm_process_def PortState_dispatch_event_def
        MasterPort_process_delay_request_def DomainPort_send_general_def fault_on_error_def Let_def world_defs)
  ultimately show ?thesis by (fastforce simp: DelayRequestMessage_response_def)
qed

theorem delay_request_answered_witness:
  "\<exists>w' b resp. PortFsm_process_event_message \<lparr>fsm_state = Some (Master demo_masterport)\<rparr> demo_master
      (DelayReq \<lparr>dreq_sequence_id = SequenceId 42\<rparr>) (demo_ts 9) demo_world
      = Some (\<lparr>fsm_state = Some (Master demo_masterport)\<rparr>, w') \<and>
    parse_general demo_bitflags (\<lambda>d. Inr d) b = Inr (DomainNumber 0, demo_self, DelayResp resp) \<and>
    drsp_sequence_id resp = SequenceId 42"
  using delay_request_answered[of "\<lparr>fsm_state = Some (Master demo_masterport)\<rparr>" demo_masterport "demo_ts 9" demo_bitflags
      demo_master "\<lparr>dreq_sequence_id = SequenceId 42\<rparr>" demo_world]
  by (fastforce simp: demo_masterport_def demo_port_def demo_ts_def wf_ts_def)

definition announce_wire :: "MasterPort \<Rightarrow> SequenceId \<Rightarrow> TimeScale \<Rightarrow> bytes" where
  "announce_wire s n ts =
     GeneralMessage_to_wire (AnnounceMsg
       \<lparr>an_sequence_id = n, an_log_message_interval = LogInterval_log_message_interval (ac_log_interval (ma_announce_cycle s)),
        an_foreign_clock_ds = gt_grandmaster_ds (ma_bmca s), an_ptp_timescale = ts\<rparr>)
       (fresh_buffer (domain_number (ma_port s)) (port_identity (ma_port s)))"

fun announce_times :: "nat \<Rightarrow> PortFsm \<Rightarrow> world \<Rightarrow> (PortFsm \<times> world) option" where
  "announce_times 0 f w = Some (f, w)"
| "announce_times (Suc n) f w =
     (case PortFsm_process_system_message f AnnounceSendTimeout w of
        None \<Rightarrow> None | Some (f', w') \<Rightarrow> announce_times n f' w')"

lemma announce_once:
  assumes "\<And>tr b. physical_send_general (ma_port s) tr b" "\<And>tr. clock_time_scale (ma_port s) tr = ts"
  shows "\<exists>w'. PortFsm_process_system_message \<lparr>fsm_state = Some (Master s)\<rparr> AnnounceSendTimeout w
      = Some (\<lparr>fsm_state = Some (Master (s\<lparr>ma_announce_cycle := (ma_announce_cycle s)\<lparr>ac_sequence_id :=
          SequenceId_next (ac_sequence_id (ma_announce_cycle s))\<rparr>\<rparr>))\<rparr>, w') \<and>
    sent_general (trace w')
      = sent_general (trace w)
        @ [(announce_wire s (ac_sequence_id (ma_announce_cycle s)) ts, True)]"
  using assms
  by (simp add: PortFsm_process_system_message_def PortFsm_process_def PortState_dispatch_system_def
      MasterPort_send_announce_def DomainPort_send_general_def fault_on_error_def Let_def world_defs
      AnnounceCycle_next_def AnnounceCycle_announce_def GrandMaster_announce_def
      GrandMasterTrackingBmca_grandmaster_def announce_wire_def)

text \<open>A master whose general messages can be sent emits one announce per announce timeout: after any
  number of timeouts, the announces that left carry consecutive sequence ids, starting from the
  one of its cycle and wrapping at \<open>2 ^ 16\<close>, all of them the grandmaster data set it tracks.\<close>

theorem announces_are_consecutive:
  assumes "\<And>tr b. physical_send_general (ma_port s) tr b" and "\<And>tr. clock_time_scale (ma_port s) tr = ts"
    and "ac_sequence_id (ma_announce_cycle s) = SequenceId k"
  shows "\<exists>s' w'. announce_times n \<lparr>fsm_state = Some (Master s)\<rparr> w = Some (\<lparr>fsm_state = Some (Master s')\<rparr>, w') \<and>
    ac_sequence_id (ma_announce_cycle s') = SequenceId (k + of_nat n) \<and>
    sent_general (trace w')
      = sent_general (trace w)
        @ map (\<lambda>i. (announce_wire s (SequenceId (k + of_nat i)) ts, True)) [0..<n]"
  using assms
proof (induction n arbitrary: s w k)
  case (Suc n)
  let ?s = "s\<lparr>ma_announce_cycle := (ma_announce_cycle s)\<lparr>ac_sequence_id := SequenceId (k + 1)\<rparr>\<rparr>"
  have wire: "announce_wire ?s = announce_wire s" by (simp add: announce_wire_def fun_eq_iff)
  obtain w1 where w1: "PortFsm_process_system_message \<lparr>fsm_state = Some (Master s)\<rparr> AnnounceSendTimeout w
      = Some (\<lparr>fsm_state = Some (Master ?s)\<rparr>, w1)"
    "sent_general (trace w1)
      = sent_general (trace w) @ [(announce_wire s (SequenceId k) ts, True)]"
    using announce_once[OF Suc.prems(1,2), of w] Suc.prems(3) by (auto simp: SequenceId_next_def)
  obtain s' w' where IH: "announce_times n \<lparr>fsm_state = Some (Master ?s)\<rparr> w1 = Some (\<lparr>fsm_state = Some (Master s')\<rparr>, w')"
    "ac_sequence_id (ma_announce_cycle s') = SequenceId (k + 1 + of_nat n)"
    "sent_general (trace w')
      = sent_general (trace w1)
        @ map (\<lambda>i. (announce_wire s (SequenceId (k + 1 + of_nat i)) ts, True)) [0..<n]"
    using Suc.IH[of ?s "k + 1" w1, unfolded wire] Suc.prems by auto
  have "map (\<lambda>i. (announce_wire s (SequenceId (k + of_nat i)) ts, True)) [0..<Suc n]
      = (announce_wire s (SequenceId k) ts, True)
        # map (\<lambda>i. (announce_wire s (SequenceId (k + 1 + of_nat i)) ts, True)) [0..<n]"
    by (simp add: upt_conv_Cons map_Suc_upt[symmetric] add.assoc del: upt_Suc)
  with w1 IH show ?case by (simp add: add.assoc del: upt_Suc)
qed auto

theorem announces_are_consecutive_witness:
  "\<exists>s' w'. announce_times 3 \<lparr>fsm_state = Some (Master demo_masterport)\<rparr> demo_world
      = Some (\<lparr>fsm_state = Some (Master s')\<rparr>, w') \<and>
    ac_sequence_id (ma_announce_cycle s') = SequenceId 3 \<and> length (sent_general (trace w')) = 3"
proof -
  have m: "\<And>tr b. physical_send_general (ma_port demo_masterport) tr b"
    "\<And>tr. clock_time_scale (ma_port demo_masterport) tr = Ptp"
    "ac_sequence_id (ma_announce_cycle demo_masterport) = SequenceId 0"
    by (simp_all add: demo_masterport_def demo_port_def)
  from announces_are_consecutive[OF m, of 3 demo_world] show ?thesis by (auto simp: demo_world_def)
qed

text \<open>A two-step master follows every sync it has sent: the egress time stamp of a two-step sync makes it
  send exactly one follow-up, which decodes to the sequence id of that sync and the egress time
  stamp as precise origin time.\<close>

theorem sync_followed_up:
  assumes "fsm_state f = Some (Master s)" and "wf_ts ts" and "documented_bitflags bf"
    and "\<And>tr b. physical_send_general (ma_port s) tr b"
  shows "\<exists>w' b fu. PortFsm_process_system_message f
        (Timestamp \<lparr>event_msg = TwoStepSync sync, egress_timestamp = ts\<rparr>) w = Some (f, w') \<and>
    sent_general (trace w') = sent_general (trace w) @ [(b, True)] \<and>
    parse_general bf (\<lambda>d. Inr d) b = Inr (domain_number (ma_port s), port_identity (ma_port s), FollowUpMsg fu) \<and>
    fu_sequence_id fu = tss_sequence_id sync \<and> fu_precise_origin_timestamp fu = ts"
proof -
  let ?fu = "TwoStepSyncMessage_follow_up sync ts"
  let ?b = "GeneralMessage_to_wire (FollowUpMsg ?fu) (fresh_buffer (domain_number (ma_port s)) (port_identity (ma_port s)))"
  have wf: "wf_general (FollowUpMsg ?fu)" using assms(2) by (simp add: TwoStepSyncMessage_follow_up_def)
  have "parse_general bf (\<lambda>d. Inr d) ?b = Inr (domain_number (ma_port s), port_identity (ma_port s), FollowUpMsg ?fu)"
    by (rule parse_general_to_wire[OF assms(3) wf]) simp
  moreover have "\<exists>w'. PortFsm_process_system_message f
        (Timestamp \<lparr>event_msg = TwoStepSync sync, egress_timestamp = ts\<rparr>) w = Some (f, w') \<and>
      sent_general (trace w') = sent_general (trace w) @ [(?b, True)]"
    using assms(1,4)
    by (cases f) (simp add: PortFsm_process_system_message_def PortFsm_process_def PortState_dispatch_system_def
        MasterPort_send_follow_up_def DomainPort_send_general_def fault_on_error_def Let_def world_defs)
  ultimately show ?thesis by (fastforce simp: TwoStepSyncMessage_follow_up_def)
qed

theorem sync_followed_up_witness:
  "\<exists>w' b fu. PortFsm_process_system_message \<lparr>fsm_state = Some (Master demo_masterport)\<rparr>
      (Timestamp \<lparr>event_msg = TwoStepSync \<lparr>tss_sequence_id = SequenceId 5, tss_log_message_interval = LogMessageInterval 0\<rparr>,
        egress_timestamp = demo_ts 9\<rparr>) demo_world = Some (\<lparr>fsm_state = Some (Master demo_masterport)\<rparr>, w') \<and>
    parse_general demo_bitflags (\<lambda>d. Inr d) b = Inr (DomainNumber 0, demo_self, FollowUpMsg fu) \<and>
    fu_sequence_id fu = SequenceId 5"
  using sync_followed_up[of "\<lparr>fsm_state = Some (Master demo_masterport)\<rparr>" demo_masterport "demo_ts 9" demo_bitflags
      "\<lparr>tss_sequence_id = SequenceId 5, tss_log_message_interval = LogMessageInterval 0\<rparr>" demo_world]
  by (fastforce simp: demo_masterport_def demo_port_def demo_ts_def wf_ts_def)

text \<open>C28: A failed send is never ignored: when the physical port refuses an announce, a sync, a follow-up, a
  delay response or a delay request, the port becomes faulty, keeps its foreign records and its
  best master clock state, and drops every timer it owned.\<close>

theorem send_failure_faults:
  assumes "fsm_inv base (f, w)" and "fsm_state f = Some st"
    and "\<And>tr b. \<not> physical_send_general (state_port st) tr b" and "\<And>tr b. \<not> physical_send_event (state_port st) tr b"
    and "phase_of st = MasterP \<and> i \<in> {SystemIn AnnounceSendTimeout, SystemIn SyncTimeout,
           SystemIn (Timestamp \<lparr>event_msg = TwoStepSync sync, egress_timestamp = ts\<rparr>), EventIn src (DelayReq req) ts} \<or>
         phase_of st \<in> {SlaveP, UncalibratedP} \<and> i = SystemIn DelayRequestTimeout"
    and "wf_ts ts"
  shows "\<exists>s w'. PortFsm_input f i w = Some (\<lparr>fsm_state = Some (Faulty s)\<rparr>, w') \<and>
    timers (trace w') = base \<and> state_parts (Faulty s) = state_parts st"
proof -
  have f: "f = \<lparr>fsm_state = Some st\<rparr>" using assms(2) by simp
  have "\<exists>s w'. PortFsm_input f i w = Some (\<lparr>fsm_state = Some (Faulty s)\<rparr>, w') \<and> state_parts (Faulty s) = state_parts st"
    using assms(3-5) unfolding f
    by (cases st)
      (auto simp: PortFsm_process_event_message_def PortFsm_process_system_message_def PortFsm_process_def
        PortState_dispatch_event_def PortState_dispatch_system_def PortFsm_apply_decision_def PortState_apply_def
        MasterPort_send_announce_def MasterPort_send_sync_def MasterPort_send_follow_up_def
        MasterPort_process_delay_request_def SlavePort_send_delay_request_def UncalibratedPort_send_delay_request_def
        DomainPort_send_general_def DomainPort_send_event_def fault_on_error_def transition_defs profile_defs
        parts_defs Let_def EndToEndDelayMechanism_delay_request_def split: prod.splits)
  then obtain s w' where s: "PortFsm_input f i w = Some (\<lparr>fsm_state = Some (Faulty s)\<rparr>, w')"
    "state_parts (Faulty s) = state_parts st" by blast
  have "wf_input i" using assms(5,6) by auto
  from input_keeps_inv[OF assms(1) this s(1)] have "timers (trace w') = base"
    by (auto simp: fsm_inv_def timers_inv_def)
  with s show ?thesis by blast
qed

definition mute_masterport :: MasterPort where
  "mute_masterport = demo_masterport\<lparr>ma_port := demo_port\<lparr>physical_send_general := \<lambda>_ _. False,
     physical_send_event := \<lambda>_ _. False\<rparr>\<rparr>"

lemma mute_masterport_inv:
  "fsm_inv Map.empty (\<lparr>fsm_state = Some (Master mute_masterport)\<rparr>,
     \<lparr>trace = [TimerCreated 0 AnnounceSendTimeout, TimerCreated 1 SyncTimeout], next_timer = 2\<rparr>)"
proof -
  have "wf_state (Master mute_masterport)"
    using demo_wf_states(4) by (simp add: mute_masterport_def wf_state_def GrandMasterTrackingBmca_into_parts_def)
  then show ?thesis
    by (auto simp: fsm_inv_def timers_inv_def in_step_def mute_masterport_def demo_masterport_def demo_trigger_def
        GrandMasterTrackingBmca_into_parts_def timers_def wf_world_def fun_eq_iff split: if_splits)
qed

theorem send_failure_faults_witness:
  "\<exists>s w'. PortFsm_input \<lparr>fsm_state = Some (Master mute_masterport)\<rparr> (SystemIn AnnounceSendTimeout)
      \<lparr>trace = [TimerCreated 0 AnnounceSendTimeout, TimerCreated 1 SyncTimeout], next_timer = 2\<rparr>
      = Some (\<lparr>fsm_state = Some (Faulty s)\<rparr>, w') \<and> timers (trace w') = Map.empty"
proof -
  have "\<And>tr b. \<not> physical_send_general (state_port (Master mute_masterport)) tr b"
    "\<And>tr b. \<not> physical_send_event (state_port (Master mute_masterport)) tr b"
    by (simp_all add: mute_masterport_def)
  from send_failure_faults[OF mute_masterport_inv _ this, of "SystemIn AnnounceSendTimeout" undefined "demo_ts 1"]
  show ?thesis by (auto simp: demo_ts_def wf_ts_def)
qed

text \<open>C29: An uncalibrated or slave port takes time only from its parent: sync, follow-up and delay response
  messages of any other source leave its state unchanged and do nothing but write a log entry.\<close>

theorem other_sources_ignored:
  assumes "fsm_state f = Some st"
    and "(\<exists>s. st = Uncalibrated s \<and> pt_parent_port_identity (un_bmca s) \<noteq> ParentPortIdentity src) \<or>
         (\<exists>s. st = Slave s \<and> pt_parent_port_identity (sl_bmca s) \<noteq> ParentPortIdentity src)"
    and "i \<in> {EventIn src (OneStepSync m1) ts, EventIn src (TwoStepSync m2) ts,
              GeneralIn src (FollowUpMsg m3) now, GeneralIn src (DelayResp m4) now}"
  shows "\<exists>e. PortFsm_input f i w = Some (f, emit (LogPortEvent (port_identity (state_port st)) (MessageReceived e)) w)"
proof -
  have f: "f = \<lparr>fsm_state = Some st\<rparr>" using assms(1) by simp
  have parent: "ParentTrackingBmca_matches_parent b src \<longleftrightarrow> pt_parent_port_identity b = ParentPortIdentity src" for b
    by (cases "pt_parent_port_identity b") (auto simp: ParentTrackingBmca_matches_parent_def ParentPortIdentity_matches_def)
  show ?thesis
    using assms(2,3) unfolding f
    by (auto simp: PortFsm_process_event_message_def PortFsm_process_general_message_def PortFsm_process_def
        PortState_dispatch_event_def PortState_dispatch_general_def UncalibratedPort_process_one_step_sync_def
        UncalibratedPort_process_two_step_sync_def UncalibratedPort_process_follow_up_def
        UncalibratedPort_process_delay_response_def SlavePort_process_one_step_sync_def
        SlavePort_process_two_step_sync_def SlavePort_process_follow_up_def SlavePort_process_delay_response_def
        DomainPort_log_def parent Let_def)
qed

theorem other_sources_ignored_witness:
  "\<exists>e. PortFsm_input \<lparr>fsm_state = Some (Slave demo_slave)\<rparr>
      (EventIn demo_self (TwoStepSync \<lparr>tss_sequence_id = SequenceId 0, tss_log_message_interval = LogMessageInterval 0\<rparr>) (demo_ts 3))
      demo_world
    = Some (\<lparr>fsm_state = Some (Slave demo_slave)\<rparr>,
        emit (LogPortEvent demo_self (MessageReceived e)) demo_world)"
  using other_sources_ignored[of "\<lparr>fsm_state = Some (Slave demo_slave)\<rparr>" "Slave demo_slave" demo_self
      "EventIn demo_self (TwoStepSync \<lparr>tss_sequence_id = SequenceId 0, tss_log_message_interval = LogMessageInterval 0\<rparr>) (demo_ts 3)"
      undefined "demo_ts 3" "\<lparr>tss_sequence_id = SequenceId 0, tss_log_message_interval = LogMessageInterval 0\<rparr>"
      undefined undefined undefined demo_world]
  by (simp add: demo_slave_def demo_parent_def demo_port_def demo_self_def demo_master_def demo_id_def)

text \<open>C39: A slave does not check whom a delay response of its parent answers: a response to the request of
  any other port, with any requesting port identity, is recorded as its own, and its receive
  time becomes \<open>t4\<close> of the slave's exchange when the sequence ids agree.\<close>

theorem foreign_delay_response_used:
  assumes "fsm_state f = Some (Slave s)" and "pt_parent_port_identity (sl_bmca s) = ParentPortIdentity src"
    and "current (delay_request_window (delay_exchange (sl_delay_mechanism s))) = Some (req, t3)"
    and "drsp_sequence_id resp = dreq_sequence_id req"
  shows "\<exists>s' w'. PortFsm_process_general_message f src (DelayResp resp) now w = Some (\<lparr>fsm_state = Some (Slave s')\<rparr>, w') \<and>
    delay_times (delay_exchange (sl_delay_mechanism s')) = Some (t3, drsp_receive_timestamp resp)"
proof -
  have f: "f = \<lparr>fsm_state = Some (Slave s)\<rparr>" using assms(1) by simp
  show ?thesis
    using assms(2-4) unfolding f
    by (simp add: PortFsm_process_general_message_def PortFsm_process_def PortState_dispatch_general_def
        SlavePort_process_delay_response_def ParentTrackingBmca_matches_parent_def ParentPortIdentity_matches_def
        Let_def delay_times_def e2e_defs)
qed

theorem foreign_delay_response_used_witness:
  "\<exists>s' w'. PortFsm_process_general_message
     \<lparr>fsm_state = Some (Slave (demo_slave\<lparr>sl_delay_mechanism := EndToEndDelayMechanism_record_delay_request demo_e2e
        \<lparr>dreq_sequence_id = SequenceId 0\<rparr> (demo_ts 3)\<rparr>))\<rparr> demo_master
     (DelayResp \<lparr>drsp_sequence_id = SequenceId 0, drsp_log_message_interval = LogMessageInterval 0,
        drsp_receive_timestamp = demo_ts 4, drsp_requesting_port_identity = PortIdentity (demo_id 77) (PortNumber 1)\<rparr>)
     (Instant_from_secs 1) demo_world = Some (\<lparr>fsm_state = Some (Slave s')\<rparr>, w') \<and>
    delay_times (delay_exchange (sl_delay_mechanism s')) = Some (demo_ts 3, demo_ts 4)"
  using foreign_delay_response_used[of "\<lparr>fsm_state = Some (Slave (demo_slave\<lparr>sl_delay_mechanism :=
        EndToEndDelayMechanism_record_delay_request demo_e2e \<lparr>dreq_sequence_id = SequenceId 0\<rparr> (demo_ts 3)\<rparr>))\<rparr>"
      "demo_slave\<lparr>sl_delay_mechanism := EndToEndDelayMechanism_record_delay_request demo_e2e
        \<lparr>dreq_sequence_id = SequenceId 0\<rparr> (demo_ts 3)\<rparr>" demo_master "\<lparr>dreq_sequence_id = SequenceId 0\<rparr>" "demo_ts 3"
      "\<lparr>drsp_sequence_id = SequenceId 0, drsp_log_message_interval = LogMessageInterval 0,
        drsp_receive_timestamp = demo_ts 4, drsp_requesting_port_identity = PortIdentity (demo_id 77) (PortNumber 1)\<rparr>"
      "Instant_from_secs 1" demo_world]
  by (simp add: demo_slave_def demo_parent_def e2e_defs)

text \<open>C7: An uncalibrated port with the stepping servo locks on the first complete exchange: when the follow-up
  of its parent completes the exchange, the path is symmetric and the master's time is
  representable, the port becomes slave and its clock is stepped to exactly the master's time at
  the reception of the sync (the origin time plus the path delay), whatever the clock showed.\<close>

theorem stepping_port_locks:
  assumes "fsm_state f = Some (Uncalibrated s)" and "wf_state (Uncalibrated s)" and "un_servo s = Stepping"
    and "pt_parent_port_identity (un_bmca s) = ParentPortIdentity src"
    and "wf_ts (fu_precise_origin_timestamp fu)"
    and "sync_times (sync_exchange (EndToEndDelayMechanism_record_follow_up (un_delay_mechanism s) fu)) = Some (t1, t2)"
    and "delay_times (delay_exchange (un_delay_mechanism s)) = Some (t3, t4)"
    and "sync_ingress_timestamp (un_delay_mechanism s) = Some t2"
    and "ts_total t2 = ts_total t1 + delay + ahead" and "ts_total t4 + ahead = ts_total t3 + delay"
    and "0 \<le> ts_total t1 + delay" and "ts_total t1 + delay < ts_limit"
  shows "\<exists>s' w' t. PortFsm_process_general_message f src (FollowUpMsg fu) now w = Some (\<lparr>fsm_state = Some (Slave s')\<rparr>, w') \<and>
    ClockStepped t \<in> set (drop (length (trace w)) (trace w')) \<and> ts_total t = ts_total t1 + delay"
proof -
  have f: "f = \<lparr>fsm_state = Some (Uncalibrated s)\<rparr>" using assms(1) by simp
  obtain t where t: "wf_ts t" "ts_total t = ts_total t1 + delay" using ts_of_total assms(11,12) by blast
  have "(ts_total t2 - ts_total t1) - (ts_total t4 - ts_total t3) = 2 * ahead" using assms(9,10) by linarith
  then have "ts_total t = ts_total t2 - trunc_div ((ts_total t2 - ts_total t1) - (ts_total t4 - ts_total t3)) 2"
    using t(2) assms(9) by (simp only: trunc_div_2_double)
  from follower_steps[OF _ assms(2,5-8) t(1) this, of src now w] assms(3,4) t(2) show ?thesis unfolding f by fastforce
qed

definition demo_exchange :: EndToEndDelayMechanism where
  "demo_exchange =
     EndToEndDelayMechanism_record_two_step_sync
       (EndToEndDelayMechanism_record_delay_response
         (EndToEndDelayMechanism_record_delay_request demo_e2e \<lparr>dreq_sequence_id = SequenceId 4\<rparr> (demo_ts 13))
         \<lparr>drsp_sequence_id = SequenceId 4, drsp_log_message_interval = LogMessageInterval 0,
          drsp_receive_timestamp = demo_ts 12, drsp_requesting_port_identity = demo_self\<rparr>)
       \<lparr>tss_sequence_id = SequenceId 9, tss_log_message_interval = LogMessageInterval 0\<rparr> (demo_ts 15)"

theorem stepping_port_locks_witness:
  "\<exists>s' w' t. PortFsm_process_general_message
      \<lparr>fsm_state = Some (Uncalibrated (demo_uncalibrated\<lparr>un_delay_mechanism := demo_exchange\<rparr>))\<rparr> demo_master
      (FollowUpMsg \<lparr>fu_sequence_id = SequenceId 9, fu_log_message_interval = LogMessageInterval 0,
        fu_precise_origin_timestamp = demo_ts 10\<rparr>) (Instant_from_secs 1) demo_world
      = Some (\<lparr>fsm_state = Some (Slave s')\<rparr>, w') \<and>
    ClockStepped t \<in> set (trace w') \<and> ts_total t = 12000000000"
proof -
  let ?s = "demo_uncalibrated\<lparr>un_delay_mechanism := demo_exchange\<rparr>"
  let ?fu = "\<lparr>fu_sequence_id = SequenceId 9, fu_log_message_interval = LogMessageInterval 0, fu_precise_origin_timestamp = demo_ts 10\<rparr>"
  have wts: "wf_ts (demo_ts 10)" "wf_ts (demo_ts 12)" "wf_ts (demo_ts 13)" "wf_ts (demo_ts 15)"
    by (simp_all add: demo_ts_def wf_ts_def)
  have "wf_e2e demo_exchange" using wts by (simp add: demo_exchange_def)
  then have wf: "wf_state (Uncalibrated ?s)"
    using demo_wf_states(2) by (simp add: wf_state_def ParentTrackingBmca_into_parts_def)
  have times: "sync_times (sync_exchange (EndToEndDelayMechanism_record_follow_up (un_delay_mechanism ?s) ?fu))
      = Some (demo_ts 10, demo_ts 15)"
    "delay_times (delay_exchange (un_delay_mechanism ?s)) = Some (demo_ts 13, demo_ts 12)"
    "sync_ingress_timestamp (un_delay_mechanism ?s) = Some (demo_ts 15)"
    by (simp_all add: demo_exchange_def e2e_defs sync_times_def delay_times_def)
  from stepping_port_locks[OF _ wf _ _ _ times, of "\<lparr>fsm_state = Some (Uncalibrated ?s)\<rparr>" demo_master
      2000000000 3000000000 "Instant_from_secs 1" demo_world] wts(1)
  show ?thesis
    by (simp add: demo_uncalibrated_def demo_parent_def demo_ts_def ts_total_def ts_limit_def demo_world_def)
qed

section \<open>Properties of clocks\<close>

text \<open>An ordinary clock, over its whole run: whatever inputs its port has processed, the clock's
  candidate is the port's best foreign record, the timer that will deliver the next state
  decision event carries the clock's own data set with that record, and the next input makes
  the clock panic exactly when its port is master and the input is an announce receipt
  timeout. In particular the assertions of the one-port candidate store never fail.\<close>

theorem ordinary_clock_agrees:
  assumes "ordinary_runs c f w" and "wf_input i"
  shows "\<exists>st k. f = \<lparr>fsm_state = Some st\<rparr> \<and> spn_timeout (oc_port_notification c) = Some (Timeout k) \<and>
    oc_foreign_candidates c = BestForeignRecord_snapshot (state_records st) \<and>
    timers (trace w) k = Some (StateDecisionEvent
      \<lparr>d_0 = oc_default_ds c, e_best = BestForeignRecord_snapshot (state_records st)\<rparr>) \<and>
    (OrdinaryClock_deliver c f i w = None \<longleftrightarrow> phase_of st = MasterP \<and> i = SystemIn AnnounceReceiptTimeout)"
proof -
  obtain st where st: "f = \<lparr>fsm_state = Some st\<rparr>" "ordinary_host.agrees c [st] w"
    using ordinary_runs_agrees[OF assms(1)] by blast
  then have "oc_foreign_candidates c = BestForeignRecord_snapshot (state_records st)"
    by (simp add: ordinary_host.agrees_def OrdinaryClock_reported_def port_no_def)
  moreover obtain k where "spn_timeout (oc_port_notification c) = Some (Timeout k)"
    "timers (trace w) k = Some (StateDecisionEvent \<lparr>d_0 = oc_default_ds c, e_best = oc_foreign_candidates c\<rparr>)"
    using st(2) by (cases "spn_timeout (oc_port_notification c)") (auto simp: ordinary_host.agrees_def OrdinaryClock_notified_def
        intro: Timeout.exhaust_sel)
  moreover have "OrdinaryClock_deliver c f i w = None \<longleftrightarrow> phase_of st = MasterP \<and> i = SystemIn AnnounceReceiptTimeout"
    using ordinary_deliver_agrees(1)[OF st(2) assms(2)] by (cases st) (simp_all add: st(1) stale_announce_timeout_def)
  ultimately show ?thesis using st(1) by metis
qed

theorem ordinary_clock_agrees_witness:
  "\<exists>c f w k. demo_ordinary = Some (c, f, w) \<and> spn_timeout (oc_port_notification c) = Some (Timeout k) \<and>
     OrdinaryClock_deliver c f (SystemIn Initialized) w \<noteq> None"
proof -
  obtain c f w where r: "demo_ordinary = Some (c, f, w)" "ordinary_runs c f w" using demo_ordinary_runs by blast
  from ordinary_clock_agrees[OF r(2), of "SystemIn Initialized"]
  have "\<exists>k. spn_timeout (oc_port_notification c) = Some (Timeout k) \<and> OrdinaryClock_deliver c f (SystemIn Initialized) w \<noteq> None"
    by auto
  with r(1) show ?thesis by blast
qed

text \<open>C16: A boundary clock, over its whole run: whatever inputs its ports have processed and in whatever
  order, the clock has one notification timer per port, all of them carry the same snapshot,
  with the clock's own data set and the best of its candidates, that best is empty only when
  no port has a qualified record and otherwise the best record of one of the ports, and an
  input to a port makes the clock panic exactly when that port is master and the input is an
  announce receipt timeout.\<close>

theorem boundary_clock_agrees:
  assumes "boundary_runs c fs w"
  shows "\<exists>sts. fs = map PortFsm_new sts \<and> length (mpn_timeouts (bc_port_notification c)) = length sts \<and>
    (\<forall>t \<in> set (mpn_timeouts (bc_port_notification c)).
       timers (trace w) (timer_id t) = Some (StateDecisionEvent (BoundaryClock_pending c))) \<and>
    (\<forall>j < length sts. reported_by (bc_foreign_candidates c) (port_no j)
       = BestForeignRecord_snapshot (state_records (sts ! j))) \<and>
    (if e_best (BoundaryClock_pending c) = Empty
     then \<forall>j < length sts. BestForeignRecord_snapshot (state_records (sts ! j)) = Empty
     else \<exists>j < length sts. BestForeignRecord_snapshot (state_records (sts ! j)) = e_best (BoundaryClock_pending c)) \<and>
    (\<forall>j < length sts. \<forall>i. wf_input i \<longrightarrow> (BoundaryClock_deliver c fs j i w = None \<longleftrightarrow>
       phase_of (sts ! j) = MasterP \<and> i = SystemIn AnnounceReceiptTimeout))"
proof -
  obtain sts where sts: "fs = map PortFsm_new sts" "boundary_host.agrees c sts w"
    using boundary_runs_agrees[OF assms] by blast
  show ?thesis
  proof (intro exI[of _ sts] conjI allI impI)
    show "if e_best (BoundaryClock_pending c) = Empty
      then \<forall>j < length sts. BestForeignRecord_snapshot (state_records (sts ! j)) = Empty
      else \<exists>j < length sts. BestForeignRecord_snapshot (state_records (sts ! j)) = e_best (BoundaryClock_pending c)"
      using boundary_best_reported[OF sts(2)] boundary_best_Empty[OF sts(2)]
      by (cases "e_best (BoundaryClock_pending c)") (auto simp: BoundaryClock_pending_def)
  next
    fix j i assume "j < length sts" "wf_input i"
    then show "BoundaryClock_deliver c fs j i w = None \<longleftrightarrow> phase_of (sts ! j) = MasterP \<and> i = SystemIn AnnounceReceiptTimeout"
      using boundary_deliver_agrees(1)[OF sts(2)] sts(1)
      by (cases "sts ! j") (simp_all add: stale_announce_timeout_def)
  qed (use sts in \<open>auto simp: boundary_host.agrees_def BoundaryClock_pending_def\<close>)
qed

theorem boundary_clock_agrees_witness:
  "\<exists>c fs w. demo_boundary = Some (c, fs, w) \<and> length (mpn_timeouts (bc_port_notification c)) = 2 \<and>
     (\<forall>t \<in> set (mpn_timeouts (bc_port_notification c)). timers (trace w) (timer_id t)
        = Some (StateDecisionEvent \<lparr>d_0 = demo_local_ds, e_best = Qualified demo_master_ds demo_master demo_self\<rparr>))"
proof -
  obtain c s0 s1 w where d: "demo_boundary = Some (c, map PortFsm_new [Listening s0, Master s1], w)"
    "bc_default_ds c = demo_local_ds"
    "MultiPortForeignCandidates_best (bc_foreign_candidates c) = Qualified demo_master_ds demo_master demo_self"
    using demo_boundary_state by blast
  obtain sts where sts: "map PortFsm_new [Listening s0, Master s1] = map PortFsm_new sts"
    "length (mpn_timeouts (bc_port_notification c)) = length sts"
    "\<forall>t \<in> set (mpn_timeouts (bc_port_notification c)).
       timers (trace w) (timer_id t) = Some (StateDecisionEvent (BoundaryClock_pending c))"
    using boundary_clock_agrees[OF demo_boundary_runs[OF d(1)]] by blast
  from arg_cong[OF sts(1), of length] have "length sts = 2" by simp
  with sts(2,3) d show ?thesis
    by (intro exI[of _ c] exI[of _ "map PortFsm_new [Listening s0, Master s1]"] exI[of _ w])
      (simp add: BoundaryClock_pending_def)
qed

text \<open>C15: Once every port of a boundary clock has processed the state decision event that its
  notification timer carries, in any order and however often, each port that takes part in
  the decision is in the state the state decision algorithm prescribes for it, with the
  prescribed parent or grandmaster, and at most one port of the clock is uncalibrated or slave.
  Processing the events neither panics nor changes what the clock knows.\<close>

theorem boundary_clock_settles:
  assumes "boundary_runs c fs w" and "set js = {..<length fs}"
  shows "\<exists>sts w'. deliver_decisions (BoundaryClock_pending c) js c fs w = Some (c, map PortFsm_new sts, w') \<and>
    length sts = length fs \<and>
    (\<forall>j < length sts. takes_part (the (fsm_state (fs ! j))) \<longrightarrow>
       follows (bmca_outcome (port_no j) (bc_default_ds c) (e_best (BoundaryClock_pending c))
         (reported_by (bc_foreign_candidates c) (port_no j))) (sts ! j)) \<and>
    (\<forall>i < length sts. \<forall>j < length sts. phase_of (sts ! i) \<in> {UncalibratedP, SlaveP} \<longrightarrow>
       phase_of (sts ! j) \<in> {UncalibratedP, SlaveP} \<longrightarrow> i = j)"
proof -
  obtain sts where sts: "fs = map PortFsm_new sts" "boundary_host.agrees c sts w"
    using boundary_runs_agrees[OF assms(1)] by blast
  obtain sts' w' where r: "deliver_decisions (BoundaryClock_pending c) js c fs w = Some (c, map PortFsm_new sts', w')"
    "boundary_host.agrees c sts' w'" "length sts' = length fs"
    "\<forall>j < length sts'. settled (BoundaryClock_pending c) (sts' ! j) \<and> takes_part (sts' ! j) = takes_part (sts ! j)"
    using deliver_decisions_ok[OF sts(2), of js] assms(2) sts(1) by auto
  have "bmca_port_number (fst (state_parts (sts' ! j))) = port_no j"
    "reported_by (bc_foreign_candidates c) (port_no j) = BestForeignRecord_snapshot (state_records (sts' ! j))"
    if "j < length sts'" for j
    using r(2) that by (simp_all add: boundary_host.agrees_def)
  moreover have "fsm_state (fs ! j) = Some (sts ! j)" if "j < length fs" for j
    using that sts(1) by (simp add: PortFsm_new_def)
  ultimately have "\<forall>j < length sts'. takes_part (the (fsm_state (fs ! j))) \<longrightarrow>
       follows (bmca_outcome (port_no j) (bc_default_ds c) (e_best (BoundaryClock_pending c))
         (reported_by (bc_foreign_candidates c) (port_no j))) (sts' ! j)"
    using r(3,4) by (simp add: settled_def BoundaryClock_pending_def)
  then show ?thesis
    using r(1,3,4) settled_one_slave[OF r(2), of "BoundaryClock_pending c"] by blast
qed

theorem boundary_clock_settles_witness:
  "\<exists>c fs w st0 st1 w'. demo_boundary = Some (c, fs, w) \<and>
     deliver_decisions (BoundaryClock_pending c) [0, 1] c fs w = Some (c, map PortFsm_new [st0, st1], w') \<and>
     phase_of st0 \<in> {UncalibratedP, SlaveP} \<and> phase_of st1 \<notin> {UncalibratedP, SlaveP}"
proof -
  obtain c s0 s1 w where d: "demo_boundary = Some (c, map PortFsm_new [Listening s0, Master s1], w)"
    "lb_best_foreign (li_bmca s0) = demo_best" "bc_default_ds c = demo_local_ds"
    "MultiPortForeignCandidates_best (bc_foreign_candidates c) = Qualified demo_master_ds demo_master demo_self"
    using demo_boundary_state by blast
  let ?fs = "map PortFsm_new [Listening s0, Master s1]"
  have "set [0, 1] = {..<length ?fs}" by auto
  then obtain sts w' where r: "deliver_decisions (BoundaryClock_pending c) [0, 1] c ?fs w = Some (c, map PortFsm_new sts, w')"
    "length sts = length ?fs"
    "\<forall>j < length sts. takes_part (the (fsm_state (?fs ! j))) \<longrightarrow>
       follows (bmca_outcome (port_no j) (bc_default_ds c) (e_best (BoundaryClock_pending c))
         (reported_by (bc_foreign_candidates c) (port_no j))) (sts ! j)"
    "\<forall>i < length sts. \<forall>j < length sts. phase_of (sts ! i) \<in> {UncalibratedP, SlaveP} \<longrightarrow>
       phase_of (sts ! j) \<in> {UncalibratedP, SlaveP} \<longrightarrow> i = j"
    using boundary_clock_settles[OF demo_boundary_runs[OF d(1)]] by blast
  obtain st0 st1 where sts: "sts = [st0, st1]" using r(2) by (auto simp: length_Suc_conv)
  have "takes_part (Listening s0)" using d(2) by (simp add: takes_part_def parts_defs)
  then have "follows (bmca_outcome (PortNumber 1) demo_local_ds (Qualified demo_master_ds demo_master demo_self)
      (reported_by (bc_foreign_candidates c) (PortNumber 1))) st0"
    using r(3) sts d by (auto simp: PortFsm_new_def BoundaryClock_pending_def port_no_def)
  then have "phase_of st0 \<in> {UncalibratedP, SlaveP}" by (cases st0) (simp_all add: demo_slave_outcome)
  moreover from this have "phase_of st1 \<notin> {UncalibratedP, SlaveP}" using r(4) sts by fastforce
  ultimately show ?thesis using d(1) r(1) sts by blast
qed

text \<open>C13: A boundary clock follows the best clock that any of its ports hears. Let its ports be up, its own data set not be authoritative, the reports of
  its ports be comparable (data sets of one grandmaster agree, none comes from the receiving port itself), and let one
  of the reported clocks rank before its own data set. Once every port has processed the pending state decision event, in any order,
  the port that reported a clock of least rank among all reports is uncalibrated or slave with that clock as its parent;
  every other port that takes part is a master or pre-master on behalf of that clock, one step further removed, or
  it is passive, and then it hears the same grandmaster.\<close>

theorem boundary_clock_follows_best:
  assumes "boundary_runs c fs w" and "set js = {..<length fs}"
    and "\<forall>f \<in> set fs. phase_of (the (fsm_state f)) \<notin> {InitializingP, FaultyP}"
    and "\<not> ClockDS_is_authoritative (bc_default_ds c)"
    and "comparable_reports (bc_default_ds c) (bc_foreign_candidates c)"
    and "reported_by (bc_foreign_candidates c) n = Qualified ds' src' rcv'" and "rank ds' src' rcv' < own_rank (bc_default_ds c)"
  shows "\<exists>sts w' j ds src rcv. deliver_decisions (BoundaryClock_pending c) js c fs w = Some (c, map PortFsm_new sts, w') \<and>
    length sts = length fs \<and> j < length fs \<and> reported_by (bc_foreign_candidates c) (port_no j) = Qualified ds src rcv \<and>
    (\<forall>m ds' src' rcv'. reported_by (bc_foreign_candidates c) m = Qualified ds' src' rcv' \<longrightarrow> rank ds src rcv \<le> rank ds' src' rcv') \<and>
    follows (DecideSlave (ParentPortIdentity src)) (sts ! j) \<and>
    (\<forall>i < length fs. i \<noteq> j \<longrightarrow> takes_part (the (fsm_state (fs ! i))) \<longrightarrow>
      (case sts ! i of
         PreMaster s \<Rightarrow> gt_grandmaster_ds (pm_bmca s) = ClockDS_with_added_step ds
       | Master s \<Rightarrow> gt_grandmaster_ds (ma_bmca s) = ClockDS_with_added_step ds
       | Passive s \<Rightarrow> \<exists>ds' src' rcv'. reported_by (bc_foreign_candidates c) (port_no i) = Qualified ds' src' rcv' \<and> identity ds' = identity ds
       | _ \<Rightarrow> False))"
proof -
  obtain sts where sts: "fs = map PortFsm_new sts" "boundary_host.agrees c sts w"
    using boundary_runs_agrees[OF assms(1)] by blast
  obtain sts' w' where r: "deliver_decisions (BoundaryClock_pending c) js c fs w = Some (c, map PortFsm_new sts', w')"
    "boundary_host.agrees c sts' w'" "length sts' = length fs"
    "\<forall>j < length sts'. settled (BoundaryClock_pending c) (sts' ! j) \<and> takes_part (sts' ! j) = takes_part (sts ! j)"
    using deliver_decisions_ok[OF sts(2), of js] assms(2) sts(1) by auto
  obtain j ds src rcv where b: "j < length sts'" "reported_by (bc_foreign_candidates c) (port_no j) = Qualified ds src rcv"
    "MultiPortForeignCandidates_best (bc_foreign_candidates c) = Qualified ds src rcv" "pi_port_number rcv = port_no j"
    "\<not> local_better (bc_default_ds c) ds src rcv"
    "\<forall>m ds' src' rcv'. reported_by (bc_foreign_candidates c) m = Qualified ds' src' rcv' \<longrightarrow> rank ds src rcv \<le> rank ds' src' rcv'"
    by (rule boundary_best_beats[OF r(2) assms(5-7)])
  have out: "follows (bmca_outcome (port_no i) (bc_default_ds c) (Qualified ds src rcv) (reported_by (bc_foreign_candidates c) (port_no i))) (sts' ! i)"
    if "i < length fs" "takes_part (sts ! i)" for i
    using r(2-4) that b(3) by (simp add: boundary_host.agrees_def settled_def BoundaryClock_pending_def)
  have st: "the (fsm_state (fs ! i)) = sts ! i" if "i < length fs" for i using that sts(1) by (simp add: PortFsm_new_def)
  have "fs ! j \<in> set fs" using b(1) r(3) by simp
  then have "phase_of (sts ! j) \<notin> {InitializingP, FaultyP}" using assms(3)[THEN bspec, of "fs ! j"] st[of j] b(1) r(3) by simp
  then have "takes_part (sts ! j)" using b(1,2) r(3) sts by (auto simp: takes_part_def boundary_host.agrees_def)
  from out[OF _ this] b r(3) have slave: "follows (DecideSlave (ParentPortIdentity src)) (sts' ! j)"
    by (simp add: beaten_outcome[OF assms(4)])
  have "case sts' ! i of
         PreMaster s \<Rightarrow> gt_grandmaster_ds (pm_bmca s) = ClockDS_with_added_step ds
       | Master s \<Rightarrow> gt_grandmaster_ds (ma_bmca s) = ClockDS_with_added_step ds
       | Passive s \<Rightarrow> \<exists>ds' src' rcv'. reported_by (bc_foreign_candidates c) (port_no i) = Qualified ds' src' rcv' \<and> identity ds' = identity ds
       | _ \<Rightarrow> False" if "i < length fs" "i \<noteq> j" "takes_part (sts ! i)" for i
  proof -
    have "length fs < 2 ^ 16" using r(2,3) by (simp add: boundary_host.agrees_def)
    then have "pi_port_number rcv \<noteq> port_no i" using port_no_inj[of i j] that(1,2) b(1,4) r(3) by simp
    with out[OF that(1,3)] show ?thesis
      by (cases "sts' ! i") (auto simp: beaten_outcome[OF assms(4) b(5)] dest: better_by_topology_same split: if_splits)
  qed
  with r(1,3) b slave st show ?thesis by (intro exI[of _ sts'] exI[of _ w'] exI[of _ j] exI[of _ ds] exI[of _ src] exI[of _ rcv]) simp
qed

theorem boundary_clock_follows_best_witness:
  "\<exists>c fs w sts w'. demo_boundary = Some (c, fs, w) \<and>
     deliver_decisions (BoundaryClock_pending c) [1, 0] c fs w = Some (c, map PortFsm_new sts, w') \<and>
     follows (DecideSlave (ParentPortIdentity demo_master)) (sts ! 0)"
proof -
  obtain c s0 s1 w where d: "demo_boundary = Some (c, map PortFsm_new [Listening s0, Master s1], w)" "bc_default_ds c = demo_local_ds"
    "by_port (bc_foreign_candidates c) = [(PortNumber 1, Qualified demo_master_ds demo_master demo_self)]"
    using demo_boundary_state by blast
  let ?fs = "map PortFsm_new [Listening s0, Master s1]"
  have rep: "reported_by (bc_foreign_candidates c) n = (if n = PortNumber 1 then Qualified demo_master_ds demo_master demo_self else Empty)" for n
    using d(3) by (simp add: reported_by_def)
  have cmp: "comparable_reports (bc_default_ds c) (bc_foreign_candidates c)" and "\<not> ClockDS_is_authoritative (bc_default_ds c)"
    and rank: "rank demo_master_ds demo_master demo_self < own_rank (bc_default_ds c)"
    using rep d(2)
    by (auto simp: comparable_reports_def consistent_ds_def rank_def ds_key_def demo_master_ds_def demo_local_ds_def demo_id_def demo_master_def
        demo_self_def less_prod_def ClockDS_is_authoritative_def ClockQuality_is_authoritative_def ClockClass_is_authoritative_def split: if_splits)
  have fs: "set [1, 0] = {..<length ?fs}" "\<forall>f \<in> set ?fs. phase_of (the (fsm_state f)) \<notin> {InitializingP, FaultyP}"
    by (auto simp: PortFsm_new_def)
  obtain sts w' j ds src rcv where r: "deliver_decisions (BoundaryClock_pending c) [1, 0] c ?fs w = Some (c, map PortFsm_new sts, w')"
    "j < length ?fs" "reported_by (bc_foreign_candidates c) (port_no j) = Qualified ds src rcv"
    "follows (DecideSlave (ParentPortIdentity src)) (sts ! j)"
    using boundary_clock_follows_best[OF demo_boundary_runs[OF d(1)] fs \<open>\<not> ClockDS_is_authoritative (bc_default_ds c)\<close> cmp _ rank, of "PortNumber 1"] rep
    by auto
  then have "src = demo_master" "j = 0" using rep[of "port_no j"] by (auto simp: port_no_def less_Suc_eq split: if_splits)
  with d(1) r(1,4) show ?thesis by blast
qed

section \<open>Properties of what a port sends\<close>

text \<open>C4: Every frame that a port sends, in any run from a well-formed port, is a well-formed message of
  the kind its socket carries: the parser of this implementation accepts it, with the port's
  own domain and identity as its source, timestamps with less than a second of nanoseconds
  and data sets in their canonical form.\<close>

theorem sent_frames_well_formed:
  assumes "documented_bitflags bf" and "fsm_inv base (f0, w0)" and "fsm_state f0 = Some st0"
    and "fsm_reaches (f0, w0) (f, w)"
  shows "\<exists>es. trace w = trace w0 @ es \<and>
    (\<forall>b ok. EventSent b ok \<in> set es \<longrightarrow> (\<exists>m. wf_event m \<and>
       parse_event bf Inr b = Inr (domain_number (state_port st0), port_identity (state_port st0), m))) \<and>
    (\<forall>b ok. GeneralSent b ok \<in> set es \<longrightarrow> (\<exists>m. wf_general m \<and>
       parse_general bf Inr b = Inr (domain_number (state_port st0), port_identity (state_port st0), m)))"
proof -
  from reaches_emits[OF assms(4,2)] assms(3) obtain es
    where "trace w = trace w0 @ es" "list_all (frame_ok (state_port st0)) es" by (auto simp: emits_ok_def)
  then show ?thesis using frame_ok_parses[OF assms(1)] by (metis list_all_iff)
qed

theorem sent_frames_well_formed_witness:
  "\<exists>f w b ok m. demo_run [SystemIn Initialized, SystemIn AnnounceReceiptTimeout, SystemIn AnnounceSendTimeout] = Some (f, w) \<and>
     GeneralSent b ok \<in> set (trace w) \<and> wf_general m \<and>
     parse_general demo_bitflags Inr b = Inr (DomainNumber 0, demo_self, m)"
proof -
  let ?is = "[SystemIn Initialized, SystemIn AnnounceReceiptTimeout, SystemIn AnnounceSendTimeout]"
  have "\<exists>f w b ok. demo_run ?is = Some (f, w) \<and> GeneralSent b ok \<in> set (trace w)"
    by (simp add: demo_defs decision_event_defs transition_defs profile_defs parts_defs world_defs Let_def fault_on_error_def
        MasterPort_send_announce_def DomainPort_send_general_def AnnounceCycle_next_def) blast
  then obtain f w b ok where r: "demo_run ?is = Some (f, w)" "GeneralSent b ok \<in> set (trace w)" by blast
  have reach: "fsm_reaches (demo_fsm, demo_world) (f, w)" by (rule demo_run_reaches[OF r(1)]) simp
  have "fsm_state demo_fsm = Some (Initializing demo_init)" by (simp add: demo_fsm_def PortFsm_new_def)
  from sent_frames_well_formed[OF demo_bitflags_documented demo_fsm_inv this reach] r show ?thesis
    by (simp add: demo_world_def demo_init_def demo_port_def) blast
qed

end
